(* ===== verification/Prelude.thy ===== *)
theory Prelude
  imports Main "HOL-Library.Word"
begin

text \<open>
  The prelude of the development: the outcome type of a Go call, the fixed-width integers and
  their big-endian wire form, slices, and the writers that model code filling a byte buffer.
  Every component theory builds on it.  The lemma collections:
  \<^item> \<open>go_simps\<close> inverts outcomes (when is a composed call \<open>Ok\<close>, when does it panic);
  \<^item> \<open>reads\<close> evaluates a read at an offset of a concatenation of encoded fields;
  \<^item> \<open>emits_intros\<close> computes what a writer puts into the buffer.
\<close>

unbundle bit_operations_syntax

declare add_2_eq_Suc [simp del] add_2_eq_Suc' [simp del]

named_theorems go_simps and emits_intros and reads

type_synonym byte = "8 word"
type_synonym u16 = "16 word"
type_synonym u32 = "32 word"
type_synonym u64 = "64 word"

section \<open>Outcomes of Go calls\<close>

text \<open>
  A Go function returns a value, returns an error, or panics (an index or a slice bound out of
  range, a nil dereference).  The three outcomes are kept apart: \<open>Ok\<close>, \<open>Fail\<close> with
  the error as a value of a datatype of the component, and \<open>Panic\<close>.
\<close>

datatype ('e, 'a) go = Ok 'a | Fail 'e | Panic

fun and_then :: "('e, 'a) go \<Rightarrow> ('a \<Rightarrow> ('e, 'b) go) \<Rightarrow> ('e, 'b) go" where
  "and_then (Ok x) f = f x"
| "and_then (Fail e) f = Fail e"
| "and_then Panic f = Panic"

lemma and_then_eq_Ok [go_simps]:
  "and_then m f = Ok y \<longleftrightarrow> (\<exists>x. m = Ok x \<and> f x = Ok y)"
  by (cases m) auto

lemma and_then_eq_Panic [go_simps]:
  "and_then m f = Panic \<longleftrightarrow> m = Panic \<or> (\<exists>x. m = Ok x \<and> f x = Panic)"
  by (cases m) auto

lemma and_then_assoc: "and_then (and_then m f) g = and_then m (\<lambda>x. and_then (f x) g)"
  by (cases m) auto

lemma and_then_cong [fundef_cong]:
  "m = m' \<Longrightarrow> (\<And>x. m' = Ok x \<Longrightarrow> f x = f' x) \<Longrightarrow> and_then m f = and_then m' f'"
  by (cases m') auto

text \<open>
  Indexing \<open>xs[i]\<close> and slicing \<open>xs[i:j]\<close>.  A slice is modelled by the list of its
  elements, so its capacity is its length: the code modelled here never reslices past the length.
\<close>

definition index :: "'a list \<Rightarrow> nat \<Rightarrow> ('e, 'a) go" where
  "index xs i = (if i < length xs then Ok (xs ! i) else Panic)"

definition slice :: "'a list \<Rightarrow> nat \<Rightarrow> nat \<Rightarrow> ('e, 'a list) go" where
  "slice xs i j = (if i \<le> j \<and> j \<le> length xs then Ok (take (j - i) (drop i xs)) else Panic)"

section \<open>Fixed-width integers in network byte order\<close>

text \<open>
  \<^verbatim>\<open>binary.BigEndian.Uint16/32/64\<close> and \<^verbatim>\<open>PutUint16/32/64\<close>: the value of a run of bytes and the
  bytes of a value.
\<close>

definition u16_of :: "byte \<Rightarrow> byte \<Rightarrow> u16" where
  "u16_of b0 b1 = ucast b1 OR push_bit 8 (ucast b0)"

definition u32_of :: "byte \<Rightarrow> byte \<Rightarrow> byte \<Rightarrow> byte \<Rightarrow> u32" where
  "u32_of b0 b1 b2 b3 =
     ucast b3 OR push_bit 8 (ucast b2) OR push_bit 16 (ucast b1) OR push_bit 24 (ucast b0)"

definition u64_of :: "byte \<Rightarrow> byte \<Rightarrow> byte \<Rightarrow> byte \<Rightarrow> byte \<Rightarrow> byte \<Rightarrow> byte \<Rightarrow> byte \<Rightarrow> u64" where
  "u64_of b0 b1 b2 b3 b4 b5 b6 b7 =
     ucast b7 OR push_bit 8 (ucast b6) OR push_bit 16 (ucast b5) OR push_bit 24 (ucast b4) OR
     push_bit 32 (ucast b3) OR push_bit 40 (ucast b2) OR push_bit 48 (ucast b1) OR
     push_bit 56 (ucast b0)"

definition u16_bytes :: "u16 \<Rightarrow> byte list" where
  "u16_bytes v = [ucast (drop_bit 8 v), ucast v]"

definition u32_bytes :: "u32 \<Rightarrow> byte list" where
  "u32_bytes v = [ucast (drop_bit 24 v), ucast (drop_bit 16 v), ucast (drop_bit 8 v), ucast v]"

definition u64_bytes :: "u64 \<Rightarrow> byte list" where
  "u64_bytes v = [ucast (drop_bit 56 v), ucast (drop_bit 48 v), ucast (drop_bit 40 v),
     ucast (drop_bit 32 v), ucast (drop_bit 24 v), ucast (drop_bit 16 v), ucast (drop_bit 8 v), ucast v]"


lemma u16_of_bytes [simp]: "u16_of (ucast (drop_bit 8 v)) (ucast v) = v"
  unfolding u16_of_def
  by (rule bit_word_eqI) (auto simp: bit_simps)

lemma u32_of_bytes [simp]:
  "u32_of (ucast (drop_bit 24 v)) (ucast (drop_bit 16 v)) (ucast (drop_bit 8 v)) (ucast v) = v"
proof (rule bit_word_eqI)
  fix n assume n: "n < LENGTH(32)"
  consider "n < 8" | "8 \<le> n" "n < 16" | "16 \<le> n" "n < 24" | "24 \<le> n" by linarith
  then show "bit (u32_of (ucast (drop_bit 24 v)) (ucast (drop_bit 16 v)) (ucast (drop_bit 8 v)) (ucast v)) n = bit v n"
    using n unfolding u32_of_def by cases (auto simp: bit_simps)
qed

lemma u64_of_bytes [simp]:
  "u64_of (ucast (drop_bit 56 v)) (ucast (drop_bit 48 v)) (ucast (drop_bit 40 v))
     (ucast (drop_bit 32 v)) (ucast (drop_bit 24 v)) (ucast (drop_bit 16 v))
     (ucast (drop_bit 8 v)) (ucast v) = v" (is "?l = v")
proof (rule bit_word_eqI)
  fix n assume n: "n < LENGTH(64)"
  consider "n < 8" | "8 \<le> n" "n < 16" | "16 \<le> n" "n < 24" | "24 \<le> n" "n < 32"
    | "32 \<le> n" "n < 40" | "40 \<le> n" "n < 48" | "48 \<le> n" "n < 56" | "56 \<le> n" by linarith
  then show "bit ?l n = bit v n"
    using n unfolding u64_of_def by cases (simp_all add: bit_simps less_diff_conv2)
qed


text \<open>Reading at an offset: \<^verbatim>\<open>Uint16(bs[off:])\<close> panics when fewer bytes are left.\<close>

definition u16_at :: "byte list \<Rightarrow> nat \<Rightarrow> u16" where
  "u16_at bs off = u16_of (bs ! off) (bs ! (off + 1))"

definition u32_at :: "byte list \<Rightarrow> nat \<Rightarrow> u32" where
  "u32_at bs off = u32_of (bs ! off) (bs ! (off + 1)) (bs ! (off + 2)) (bs ! (off + 3))"

definition u64_at :: "byte list \<Rightarrow> nat \<Rightarrow> u64" where
  "u64_at bs off = u64_of (bs ! off) (bs ! (off + 1)) (bs ! (off + 2)) (bs ! (off + 3))
       (bs ! (off + 4)) (bs ! (off + 5)) (bs ! (off + 6)) (bs ! (off + 7))"

definition get_u16 :: "byte list \<Rightarrow> nat \<Rightarrow> ('e, u16) go" where
  "get_u16 bs off = (if off + 2 \<le> length bs then Ok (u16_at bs off) else Panic)"

definition get_u32 :: "byte list \<Rightarrow> nat \<Rightarrow> ('e, u32) go" where
  "get_u32 bs off = (if off + 4 \<le> length bs then Ok (u32_at bs off) else Panic)"

definition get_u64 :: "byte list \<Rightarrow> nat \<Rightarrow> ('e, u64) go" where
  "get_u64 bs off = (if off + 8 \<le> length bs then Ok (u64_at bs off) else Panic)"

lemma get_u16_Ok [go_simps]: "get_u16 bs off = Ok v \<longleftrightarrow> off + 2 \<le> length bs \<and> v = u16_at bs off"
  by (auto simp: get_u16_def)

lemma get_u32_Ok [go_simps]: "get_u32 bs off = Ok v \<longleftrightarrow> off + 4 \<le> length bs \<and> v = u32_at bs off"
  by (auto simp: get_u32_def)

lemma get_u64_Ok [go_simps]: "get_u64 bs off = Ok v \<longleftrightarrow> off + 8 \<le> length bs \<and> v = u64_at bs off"
  by (auto simp: get_u64_def)

lemma get_Panic [go_simps]:
  "get_u16 bs off = Panic \<longleftrightarrow> length bs < off + 2"
  "get_u32 bs off = Panic \<longleftrightarrow> length bs < off + 4"
  "get_u64 bs off = Panic \<longleftrightarrow> length bs < off + 8"
  by (simp_all add: get_u16_def get_u32_def get_u64_def)

lemma get_not_Fail [simp]: "get_u16 bs off \<noteq> Fail e" "get_u32 bs off \<noteq> Fail e" "get_u64 bs off \<noteq> Fail e"
  by (simp_all add: get_u16_def get_u32_def get_u64_def)

lemma index_Ok [go_simps]: "index xs i = Ok x \<longleftrightarrow> i < length xs \<and> x = xs ! i"
  by (auto simp: index_def)

lemma index_Panic [go_simps]: "index xs i = Panic \<longleftrightarrow> length xs \<le> i"
  by (simp add: index_def)

lemma slice_Ok [go_simps]:
  "slice xs i j = Ok ys \<longleftrightarrow> i \<le> j \<and> j \<le> length xs \<and> ys = take (j - i) (drop i xs)"
  by (auto simp: slice_def)

lemma slice_Panic [go_simps]: "slice xs i j = Panic \<longleftrightarrow> j < i \<or> length xs < j"
  by (auto simp: slice_def)

lemma index_slice_not_Fail [simp]: "index xs i \<noteq> Fail e" "slice xs i j \<noteq> Fail e"
  by (simp_all add: index_def slice_def)

lemma length_u16_bytes [simp]: "length (u16_bytes v) = 2"
  by (simp add: u16_bytes_def)

lemma length_u32_bytes [simp]: "length (u32_bytes v) = 4"
  by (simp add: u32_bytes_def)

lemma length_u64_bytes [simp]: "length (u64_bytes v) = 8"
  by (simp add: u64_bytes_def)

lemma length_concat_u32 [simp]: "length (concat (map u32_bytes cs)) = length cs * 4"
  by (induction cs) auto

text \<open>Reading back what was written: the reads skip a written prefix and hit the value.\<close>

lemma get_u16_Cons [reads]: "0 < off \<Longrightarrow> get_u16 (x # xs) off = get_u16 xs (off - 1)"
  by (auto simp: get_u16_def u16_at_def nth_Cons' gr0_conv_Suc)

lemma get_u16_skip [reads]: "length pre \<le> off \<Longrightarrow> get_u16 (pre @ xs) off = get_u16 xs (off - length pre)"
  by (auto simp: get_u16_def u16_at_def nth_append Suc_diff_le)

lemma get_u16_here [reads]: "get_u16 (u16_bytes v @ xs) 0 = Ok v"
  by (simp add: get_u16_def u16_at_def u16_bytes_def)

lemma get_u32_Cons [reads]: "0 < off \<Longrightarrow> get_u32 (x # xs) off = get_u32 xs (off - 1)"
  by (auto simp: get_u32_def u32_at_def nth_Cons' gr0_conv_Suc numeral_eq_Suc)

lemma get_u32_skip [reads]: "length pre \<le> off \<Longrightarrow> get_u32 (pre @ xs) off = get_u32 xs (off - length pre)"
  by (auto simp: get_u32_def u32_at_def nth_append Suc_diff_le)

lemma get_u32_here [reads]: "get_u32 (u32_bytes v @ xs) 0 = Ok v"
  by (simp add: get_u32_def u32_at_def u32_bytes_def)

lemma get_u64_Cons [reads]: "0 < off \<Longrightarrow> get_u64 (x # xs) off = get_u64 xs (off - 1)"
  by (auto simp: get_u64_def u64_at_def nth_Cons' gr0_conv_Suc numeral_eq_Suc)

lemma get_u64_skip [reads]: "length pre \<le> off \<Longrightarrow> get_u64 (pre @ xs) off = get_u64 xs (off - length pre)"
  by (auto simp: get_u64_def u64_at_def nth_append Suc_diff_le)

lemma get_u64_here [reads]: "get_u64 (u64_bytes v @ xs) 0 = Ok v"
  by (simp add: get_u64_def u64_at_def u64_bytes_def)

lemma index_Cons_0 [reads]: "index (x # xs) 0 = Ok x"
  by (simp add: index_def)

lemma index_Cons [reads]: "0 < i \<Longrightarrow> index (x # xs) i = index xs (i - 1)"
  by (auto simp: index_def gr0_conv_Suc)

lemma index_skip [reads]: "length pre \<le> i \<Longrightarrow> index (pre @ xs) i = index xs (i - length pre)"
  by (auto simp: index_def nth_append)

lemma index_last [reads]: "i = length pre \<Longrightarrow> index (pre @ [x]) i = Ok x"
  by (simp add: index_def)

lemma slice_Cons [reads]:
  "0 < i \<Longrightarrow> i \<le> j \<Longrightarrow> slice (x # xs) i j = slice xs (i - 1) (j - 1)"
  by (cases i; cases j) (auto simp: slice_def)

lemma slice_skip [reads]:
  "length pre \<le> i \<Longrightarrow> i \<le> j \<Longrightarrow> slice (pre @ xs) i j = slice xs (i - length pre) (j - length pre)"
  by (auto simp: slice_def)

lemma slice_here: "j = length mid \<Longrightarrow> slice (mid @ xs) 0 j = Ok mid"
  by (simp add: slice_def)

lemma slice_all [reads]: "j = length mid \<Longrightarrow> slice mid 0 j = Ok mid"
  by (simp add: slice_def)

lemma list_update_at_suffix: "i = length xs + j \<Longrightarrow> (xs @ ys)[i := x] = xs @ ys[j := x]"
  by (simp add: list_update_append)

lemma length_add_split:
  "length xs = m + n \<Longrightarrow> \<exists>ys zs. xs = ys @ zs \<and> length ys = m \<and> length zs = n"
  by (rule exI [of _ "take m xs"], rule exI [of _ "drop m xs"]) simp

text \<open>\<^verbatim>\<open>((n + 3) / 4) * 4\<close>, also written \<^verbatim>\<open>(n + 3) &^ 3\<close>: rounding up to 32-bit words.\<close>

definition align4 :: "nat \<Rightarrow> nat" where
  "align4 n = (n + 3) div 4 * 4"

lemma align4_ge: "n \<le> align4 n"
  unfolding align4_def by presburger

lemma align4_lt: "align4 n < n + 4"
  unfolding align4_def by presburger

lemma align4_dvd: "4 dvd align4 n"
  unfolding align4_def by simp

lemma align4_id: "4 dvd n \<Longrightarrow> align4 n = n"
  unfolding align4_def by (elim dvdE) simp

lemma align4_mod: "align4 n mod 4 = 0"
  unfolding align4_def by simp

lemma align4_add: "4 dvd m \<Longrightarrow> align4 (m + n) = m + align4 n"
  unfolding align4_def by (elim dvdE) presburger

section \<open>Writers\<close>

text \<open>
  Code that serialises into a caller's buffer keeps the buffer and a position.  A writer is a
  step on that pair:
  \<^item> \<open>put xs\<close> stores at the position and advances (\<^verbatim>\<open>buf[pos] = x; pos++\<close>,
    \<^verbatim>\<open>PutUint32(buf[pos:pos+4], v)\<close>); it panics when the buffer is too short;
  \<^item> \<open>copy xs\<close> is \<^verbatim>\<open>pos += copy(buf[pos:], xs)\<close>, which stores what fits and panics only when
    the position is past the end;
  \<^item> \<open>append_in_place xs\<close> is \<^verbatim>\<open>pos += len(strconv.AppendInt(buf[pos:pos], n, 10))\<close>: what does
    not fit goes to a fresh array that the code drops, yet the position advances.
\<close>

type_synonym ('e, 'a) writer = "'a list \<times> nat \<Rightarrow> ('e, 'a list \<times> nat) go"

definition write_at :: "nat \<Rightarrow> 'a list \<Rightarrow> 'a list \<Rightarrow> 'a list" where
  "write_at i xs buf = take i buf @ xs @ drop (i + length xs) buf"

fun put :: "'a list \<Rightarrow> ('e, 'a) writer" where
  "put xs (buf, n) =
     (if n + length xs \<le> length buf then Ok (write_at n xs buf, n + length xs) else Panic)"

fun copy :: "'a list \<Rightarrow> ('e, 'a) writer" where
  "copy xs (buf, n) =
     (if n \<le> length buf
      then (let m = min (length xs) (length buf - n) in Ok (write_at n (take m xs) buf, n + m))
      else Panic)"

fun append_in_place :: "'a list \<Rightarrow> ('e, 'a) writer" where
  "append_in_place xs (buf, n) =
     (if n + length xs \<le> length buf then Ok (write_at n xs buf, n + length xs)
      else if n \<le> length buf then Ok (buf, n + length xs)
      else Panic)"

fun do_all :: "('e, 'a) writer list \<Rightarrow> ('e, 'a) writer" where
  "do_all [] s = Ok s"
| "do_all (w # ws) s = and_then (w s) (do_all ws)"

lemmas writer_simps = put.simps copy.simps append_in_place.simps do_all.simps

declare writer_simps [simp del]

definition do_when :: "bool \<Rightarrow> ('e, 'a) writer \<Rightarrow> ('e, 'a) writer" where
  "do_when b w s = (if b then w s else Ok s)"

text \<open>
  \<open>emits w out\<close>: wherever there is room for \<open>out\<close>, the writer \<open>w\<close> stores exactly
  \<open>out\<close> at the position, advances past it, and leaves the rest of the buffer alone.  It is
  the refinement relation between buffer-filling code and the wire format it implements.
\<close>

definition emits :: "('e, 'a) writer \<Rightarrow> 'a list \<Rightarrow> bool" where
  "emits w out \<longleftrightarrow> (\<forall>pre old rest. length old = length out \<longrightarrow>
     w (pre @ old @ rest, length pre) = Ok (pre @ out @ rest, length pre + length out))"

lemma emitsI:
  "(\<And>pre old rest. length old = length out \<Longrightarrow>
     w (pre @ old @ rest, length pre) = Ok (pre @ out @ rest, length pre + length out)) \<Longrightarrow> emits w out"
  by (simp add: emits_def)

lemma emitsD:
  "emits w out \<Longrightarrow> length old = length out \<Longrightarrow> n = length pre \<Longrightarrow>
     w (pre @ old @ rest, n) = Ok (pre @ out @ rest, length pre + length out)"
  by (simp add: emits_def)

lemma write_at_append:
  "n = length pre \<Longrightarrow> length old = length xs \<Longrightarrow> write_at n xs (pre @ old @ rest) = pre @ xs @ rest"
  by (simp add: write_at_def)

lemma length_write_at: "i + length xs \<le> length buf \<Longrightarrow> length (write_at i xs buf) = length buf"
  by (simp add: write_at_def)

lemma write_at_single: "i < length buf \<Longrightarrow> write_at i [x] buf = buf[i := x]"
  by (simp add: write_at_def upd_conv_take_nth_drop)

lemma put_last:
  "buf \<noteq> [] \<Longrightarrow> put [x] (buf, length buf - 1) = Ok (buf[length buf - 1 := x], length buf)"
  by (simp add: put.simps write_at_single)

lemma emits_put [emits_intros]: "emits (put xs) xs"
  by (rule emitsI) (simp add: writer_simps write_at_append)

lemma emits_copy [emits_intros]: "emits (copy xs) xs"
  by (rule emitsI) (simp add: writer_simps write_at_append)

lemma emits_append_in_place [emits_intros]: "emits (append_in_place xs) xs"
  by (rule emitsI) (simp add: writer_simps write_at_append)

lemma emits_seq:
  assumes "emits v xs" and "emits w ys"
  shows "emits (\<lambda>s. and_then (v s) w) (xs @ ys)"
proof (rule emitsI)
  fix pre old rest :: "'a list" assume l: "length old = length (xs @ ys)"
  define a where "a = take (length xs) old"
  define b where "b = drop (length xs) old"
  have old: "old = a @ b" and la: "length a = length xs" and lb: "length b = length ys"
    using l by (simp_all add: a_def b_def)
  have "v (pre @ a @ (b @ rest), length pre) = Ok (pre @ xs @ b @ rest, length pre + length xs)"
    using assms(1) la by (simp add: emits_def)
  moreover have "w ((pre @ xs) @ b @ rest, length (pre @ xs)) =
      Ok ((pre @ xs) @ ys @ rest, length (pre @ xs) + length ys)"
    using assms(2) lb unfolding emits_def by blast
  ultimately show "and_then (v (pre @ old @ rest, length pre)) w =
      Ok (pre @ (xs @ ys) @ rest, length pre + length (xs @ ys))"
    by (simp add: old add.assoc)
qed

lemma emits_Nil [emits_intros]: "emits (do_all []) []"
  by (rule emitsI) (simp add: writer_simps)

lemma emits_Cons [emits_intros]:
  assumes "emits w xs" and "emits (do_all ws) ys"
  shows "emits (do_all (w # ws)) (xs @ ys)"
proof -
  have "do_all (w # ws) = (\<lambda>s. and_then (w s) (do_all ws))"
    by (rule ext) (simp add: writer_simps)
  then show ?thesis using emits_seq [OF assms] by simp
qed

lemma emits_when [emits_intros]:
  "(b \<Longrightarrow> emits w xs) \<Longrightarrow> emits (do_when b w) (if b then xs else [])"
  by (auto simp: emits_def do_when_def)

lemma emits_each [emits_intros]:
  "(\<And>x. x \<in> set xs \<Longrightarrow> emits (f x) (g x)) \<Longrightarrow> emits (do_all (map f xs)) (concat (map g xs))"
  by (induction xs) (auto intro: emits_intros)

lemma emits_cong: "emits w out \<Longrightarrow> (\<And>s. v s = w s) \<Longrightarrow> emits v out"
  by (simp add: emits_def)

lemma emits_eq: "emits w out' \<Longrightarrow> out' = out \<Longrightarrow> emits w out"
  by simp

lemma emits_replicate [emits_intros]: "emits (do_all (replicate k (put [x]))) (replicate k x)"
proof (induction k)
  case (Suc k)
  from emits_Cons [OF emits_put [of "[x]"] this] show ?case by simp
qed (simp add: emits_Nil)

lemma emits_run:
  assumes "emits w out" and "length out \<le> length buf"
  shows "w (buf, 0) = Ok (out @ drop (length out) buf, length out)"
  using emitsD [OF assms(1), of "take (length out) buf" 0 "[]" "drop (length out) buf"] assms(2)
  by simp

section \<open>Every normal result\<close>

text \<open>Statements about every normal result of a computation, so that case distinctions stay in the conclusion.\<close>

definition ok_all :: "('a \<Rightarrow> bool) \<Rightarrow> ('e, 'a) go \<Rightarrow> bool" where
  "ok_all P r \<longleftrightarrow> (\<forall>x. r = Ok x \<longrightarrow> P x)"

lemma ok_all_simps [simp]: "ok_all P (Ok x) = P x" "ok_all P (Fail e)" "ok_all P Panic"
  by (simp_all add: ok_all_def)

lemma ok_all_and_then: "(\<And>x. m = Ok x \<Longrightarrow> ok_all P (f x)) \<Longrightarrow> ok_all P (and_then m f)"
  by (auto simp: ok_all_def and_then_eq_Ok)

lemma ok_all_bind: "ok_all Q m \<Longrightarrow> (\<And>x. Q x \<Longrightarrow> ok_all P (f x)) \<Longrightarrow> ok_all P (and_then m f)"
  by (auto simp: ok_all_def and_then_eq_Ok)

lemma ok_allD: "ok_all P r \<Longrightarrow> r = Ok x \<Longrightarrow> P x"
  by (simp add: ok_all_def)

lemma ok_all_mono: "ok_all P r \<Longrightarrow> (\<And>x. P x \<Longrightarrow> Q x) \<Longrightarrow> ok_all Q r"
  by (simp add: ok_all_def)

end
