(* ===== verification/Wire_Codec.thy ===== *)
theory Wire_Codec
  imports Prelude
begin

text \<open>
  The contract shared by the protocol encoders and parsers (RTP, RTCP, SDP, SIP): a well-formed value
  is encoded, and parsing the bytes gives the value back up to the normalisation the parser performs.
  The components interpret the locale on their own serialiser and parser.
\<close>

locale wire_codec =
  fixes ok :: "'p \<Rightarrow> bool"
    and encode :: "'p \<Rightarrow> ('e, 'b list) go"
    and decode :: "'b list \<Rightarrow> ('f, 'p) go"
    and canon :: "'p \<Rightarrow> 'p"
  assumes encode_decode: "ok p \<Longrightarrow> \<exists>bs. encode p = Ok bs \<and> decode bs = Ok (canon p)"
    and canon_ok: "ok p \<Longrightarrow> ok (canon p)"
    and encode_canon: "ok p \<Longrightarrow> encode (canon p) = encode p"
begin

lemma roundtrip: "ok p \<Longrightarrow> encode p = Ok bs \<Longrightarrow> decode bs = Ok (canon p)"
  using encode_decode [of p] by auto

lemma canon_idem: "ok p \<Longrightarrow> canon (canon p) = canon p"
  using encode_decode [of p] encode_decode [of "canon p"] by (auto simp: canon_ok encode_canon)

lemma encode_inj: "ok p \<Longrightarrow> ok q \<Longrightarrow> encode p = encode q \<Longrightarrow> canon p = canon q"
  using encode_decode [of p] encode_decode [of q] by auto

lemma reencode: "ok p \<Longrightarrow> encode p = Ok bs \<Longrightarrow> decode bs = Ok q \<Longrightarrow> encode q = Ok bs"
  using roundtrip [of p bs] encode_canon [of p] by simp

end

end
