(* ===== verification/RTP.thy ===== *)
theory RTP
  imports Wire_Codec
begin

text \<open>
  RTP data packets, \<^verbatim>\<open>proto/rtp.go\<close>: the packet and header structures, the parser
  \<^verbatim>\<open>UnmarshalRTPTo\<close> with its extension loops, and the serialiser \<^verbatim>\<open>MarshalTo\<close>, which fills a buffer and
  back-patches the extension length.  The lemmas relate both to a declarative wire format.
\<close>

section \<open>Packets\<close>

text \<open>
  \<^verbatim>\<open>RTPExtension\<close>, \<^verbatim>\<open>RTPHeader\<close> and \<^verbatim>\<open>RTPPacket\<close>, field by field.  A field of a header is named
  \<open>rtp_\<close> and its Go name.
\<close>

record RTPExtension =
  ext_Payload :: "byte list"
  ext_ID :: byte

record RTPHeader =
  rtp_CSRC :: "u32 list"
  rtp_Extensions :: "RTPExtension list"
  rtp_Timestamp :: u32
  rtp_SSRC :: u32
  rtp_SequenceNumber :: u16
  rtp_ExtensionProfile :: u16
  rtp_Version :: byte
  rtp_Padding :: bool
  rtp_Marker :: bool
  rtp_PayloadType :: byte
  rtp_Extension :: bool
  rtp_PaddingSize :: byte

record RTPPacket =
  rtp_Payload :: "byte list"
  rtp_Header :: RTPHeader

text \<open>One constructor per error the code returns, with the arguments of its message.\<close>

datatype rtp_error =
    RtpTooShort nat
  | RtpUnsupportedVersion byte
  | RtpNoExtensionHeader
  | RtpNoExtensionData
  | RtpPaddingNoRoom
  | RtpPaddingZero
  | RtpPaddingTooLarge byte nat
  | RtpOneByteTruncated
  | RtpTwoByteTruncatedAtLength
  | RtpTwoByteTruncated
  | RtpBufferTooSmall
  | RtpTooManyCSRC nat
  | RtpOneByteID
  | RtpOneByteMaxPayload
  | RtpTwoByteID
  | RtpTwoByteMaxPayload
  | RtpProfileSingleBlock

definition rtpVersion :: byte where "rtpVersion = 2"

definition rtpFixedHeaderLen :: nat where "rtpFixedHeaderLen = 12"

definition ExtensionProfileOneByte :: u16 where "ExtensionProfileOneByte = 0xBEDE"

definition ExtensionProfileTwoByte :: u16 where "ExtensionProfileTwoByte = 0x1000"

definition zero_RTPHeader :: RTPHeader where
  "zero_RTPHeader = \<lparr>rtp_CSRC = [], rtp_Extensions = [], rtp_Timestamp = 0, rtp_SSRC = 0,
     rtp_SequenceNumber = 0, rtp_ExtensionProfile = 0, rtp_Version = 0, rtp_Padding = False,
     rtp_Marker = False, rtp_PayloadType = 0, rtp_Extension = False, rtp_PaddingSize = 0\<rparr>"

definition zero_RTPPacket :: RTPPacket where
  "zero_RTPPacket = \<lparr>rtp_Payload = [], rtp_Header = zero_RTPHeader\<rparr>"

definition RTPPacket_Reset :: "RTPPacket \<Rightarrow> RTPPacket" where
  "RTPPacket_Reset p = p\<lparr>rtp_Header := zero_RTPHeader, rtp_Payload := []\<rparr>"

section \<open>Parsing\<close>

text \<open>
  The two header-extension loops.  The loop index \<open>i\<close> is represented by the bytes that are
  left, \<^verbatim>\<open>data[i:]\<close>.  On an error the extensions parsed so far are returned with it, as in the code.
\<close>

fun unmarshalOneByteExtensionsTo ::
  "byte list \<Rightarrow> RTPExtension list \<Rightarrow> RTPExtension list \<times> rtp_error option" where
  "unmarshalOneByteExtensionsTo [] exts = (exts, None)"
| "unmarshalOneByteExtensionsTo (b # rest) exts =
     (if b = 0 then unmarshalOneByteExtensionsTo rest exts
      else let id = drop_bit 4 b in
        if id = 0x0F then (exts, None)
        else let payloadLen = unat (b AND 0x0F) + 1 in
          if payloadLen > length rest then (exts, Some RtpOneByteTruncated)
          else unmarshalOneByteExtensionsTo (drop payloadLen rest)
                 (exts @ [\<lparr>ext_Payload = take payloadLen rest, ext_ID = id\<rparr>]))"

fun unmarshalTwoByteExtensionsTo ::
  "byte list \<Rightarrow> RTPExtension list \<Rightarrow> RTPExtension list \<times> rtp_error option" where
  "unmarshalTwoByteExtensionsTo [] exts = (exts, None)"
| "unmarshalTwoByteExtensionsTo (b # rest) exts =
     (if b = 0 then unmarshalTwoByteExtensionsTo rest exts
      else case rest of
        [] \<Rightarrow> (exts, Some RtpTwoByteTruncatedAtLength)
      | l # rest' \<Rightarrow>
          (let payloadLen = unat l in
             if payloadLen > length rest' then (exts, Some RtpTwoByteTruncated)
             else unmarshalTwoByteExtensionsTo (drop payloadLen rest')
                    (exts @ [\<lparr>ext_Payload = take payloadLen rest', ext_ID = b\<rparr>])))"

definition unmarshalExtensionsTo :: "u16 \<Rightarrow> byte list \<Rightarrow> RTPExtension list \<times> rtp_error option" where
  "unmarshalExtensionsTo profile data =
     (if profile = ExtensionProfileOneByte then unmarshalOneByteExtensionsTo data []
      else if profile = ExtensionProfileTwoByte then unmarshalTwoByteExtensionsTo data []
      else if data = [] then ([], None)
      else ([\<lparr>ext_Payload = data, ext_ID = 0\<rparr>], None))"

fun read_csrcs :: "byte list \<Rightarrow> nat \<Rightarrow> nat \<Rightarrow> ('e, u32 list) go" where
  "read_csrcs data off 0 = Ok []"
| "read_csrcs data off (Suc k) =
     and_then (get_u32 data off) (\<lambda>c.
     and_then (read_csrcs data (off + 4) k) (\<lambda>cs. Ok (c # cs)))"

text \<open>
  \<^verbatim>\<open>UnmarshalRTPTo\<close> fills a caller's packet, which on an error is left half filled: \<open>Fail\<close>
  carries the packet as the code leaves it.  The loop over the CSRC list, the extension part and the
  padding-and-payload part are separate definitions.
\<close>

definition unmarshal_rtp_extension ::
  "bool \<Rightarrow> byte list \<Rightarrow> nat \<Rightarrow> RTPPacket \<Rightarrow> (rtp_error \<times> RTPPacket, RTPPacket \<times> nat) go" where
  "unmarshal_rtp_extension hasExtension data n pkt =
     (if hasExtension then
        if length data < n + 4 then Fail (RtpNoExtensionHeader, pkt)
        else
          and_then (get_u16 data n) (\<lambda>profile.
          and_then (get_u16 data (n + 2)) (\<lambda>len.
          let h = (rtp_Header pkt)\<lparr>rtp_Extension := True, rtp_ExtensionProfile := profile\<rparr>;
              extLen = unat len * 4 in
          if length data < n + 4 + extLen then Fail (RtpNoExtensionData, pkt\<lparr>rtp_Header := h\<rparr>)
          else
            and_then (slice data (n + 4) (n + 4 + extLen)) (\<lambda>ext.
            case unmarshalExtensionsTo profile ext of
              (exts, Some e) \<Rightarrow> Fail (e, pkt\<lparr>rtp_Header := h\<lparr>rtp_Extensions := exts\<rparr>\<rparr>)
            | (exts, None) \<Rightarrow>
                Ok (pkt\<lparr>rtp_Header := h\<lparr>rtp_Extensions := exts\<rparr>\<rparr>, n + 4 + extLen))))
      else
        Ok (pkt\<lparr>rtp_Header := (rtp_Header pkt)\<lparr>rtp_Extension := False,
              rtp_ExtensionProfile := 0, rtp_Extensions := []\<rparr>\<rparr>, n))"

definition unmarshal_rtp_payload ::
  "byte list \<Rightarrow> nat \<Rightarrow> RTPPacket \<Rightarrow> (rtp_error \<times> RTPPacket, RTPPacket) go" where
  "unmarshal_rtp_payload data n pkt =
     (if rtp_Padding (rtp_Header pkt) then
        if length data \<le> n then Fail (RtpPaddingNoRoom, pkt)
        else
          and_then (index data (length data - 1)) (\<lambda>sz.
          let pkt' = pkt\<lparr>rtp_Header := (rtp_Header pkt)\<lparr>rtp_PaddingSize := sz\<rparr>\<rparr> in
          if sz = 0 then Fail (RtpPaddingZero, pkt')
          else if unat sz > length data - n
            then Fail (RtpPaddingTooLarge sz (length data - n), pkt')
          else and_then (slice data n (length data - unat sz)) (\<lambda>payload.
            Ok (pkt'\<lparr>rtp_Payload := payload\<rparr>)))
      else
        and_then (slice data n (length data)) (\<lambda>payload.
        Ok (pkt\<lparr>rtp_Header := (rtp_Header pkt)\<lparr>rtp_PaddingSize := 0\<rparr>, rtp_Payload := payload\<rparr>)))"

definition UnmarshalRTPTo ::
  "byte list \<Rightarrow> RTPPacket \<Rightarrow> (rtp_error \<times> RTPPacket, RTPPacket) go" where
  "UnmarshalRTPTo data pkt =
     (if length data < rtpFixedHeaderLen then Fail (RtpTooShort (length data), pkt)
      else
        and_then (index data 0) (\<lambda>b0.
        let h1 = (rtp_Header pkt)\<lparr>rtp_Version := drop_bit 6 b0 AND 0x03\<rparr> in
        if rtp_Version h1 \<noteq> rtpVersion
        then Fail (RtpUnsupportedVersion (rtp_Version h1), pkt\<lparr>rtp_Header := h1\<rparr>)
        else
          let hasExtension = (drop_bit 4 b0 AND 0x01 \<noteq> 0);
              cc = unat (b0 AND 0x0F) in
          and_then (index data 1) (\<lambda>b1.
          and_then (get_u16 data 2) (\<lambda>seq.
          and_then (get_u32 data 4) (\<lambda>ts.
          and_then (get_u32 data 8) (\<lambda>ssrc.
          and_then (read_csrcs data 12 cc) (\<lambda>csrc.
          let h2 = h1\<lparr>rtp_Padding := (drop_bit 5 b0 AND 0x01 \<noteq> 0),
                     rtp_Marker := (drop_bit 7 b1 AND 0x01 \<noteq> 0),
                     rtp_PayloadType := b1 AND 0x7F,
                     rtp_SequenceNumber := seq, rtp_Timestamp := ts, rtp_SSRC := ssrc,
                     rtp_CSRC := csrc\<rparr> in
          and_then (unmarshal_rtp_extension hasExtension data (rtpFixedHeaderLen + cc * 4)
                      (pkt\<lparr>rtp_Header := h2\<rparr>)) (\<lambda>(pkt', n).
          unmarshal_rtp_payload data n pkt'))))))))"

definition UnmarshalRTP :: "byte list \<Rightarrow> (rtp_error, RTPPacket) go" where
  "UnmarshalRTP data =
     (case UnmarshalRTPTo data zero_RTPPacket of
        Ok pkt \<Rightarrow> Ok pkt | Fail (e, _) \<Rightarrow> Fail e | Panic \<Rightarrow> Panic)"

section \<open>Serialising\<close>

definition rtp_ext_size :: "u16 \<Rightarrow> RTPExtension \<Rightarrow> nat" where
  "rtp_ext_size profile ext =
     (if profile = ExtensionProfileOneByte then 1 + length (ext_Payload ext)
      else if profile = ExtensionProfileTwoByte then 2 + length (ext_Payload ext)
      else length (ext_Payload ext))"

definition RTPPacket_MarshalSize :: "RTPPacket \<Rightarrow> nat" where
  "RTPPacket_MarshalSize p =
     (let h = rtp_Header p in
      rtpFixedHeaderLen + length (rtp_CSRC h) * 4
      + (if rtp_Extension h
         then align4 (4 + sum_list (map (rtp_ext_size (rtp_ExtensionProfile h)) (rtp_Extensions h)))
         else 0)
      + (length (rtp_Payload p) + unat (rtp_PaddingSize h)))"

definition marshalOneByteExtension :: "RTPExtension \<Rightarrow> (rtp_error, byte) writer" where
  "marshalOneByteExtension ext s =
     (if ext_ID ext = 0 \<or> ext_ID ext \<ge> 15 then Fail RtpOneByteID
      else if length (ext_Payload ext) > 16 then Fail RtpOneByteMaxPayload
      else do_all [put [push_bit 4 (ext_ID ext) OR (of_nat (length (ext_Payload ext)) - 1)],
                   copy (ext_Payload ext)] s)"

definition marshalTwoByteExtension :: "RTPExtension \<Rightarrow> (rtp_error, byte) writer" where
  "marshalTwoByteExtension ext s =
     (if ext_ID ext = 0 then Fail RtpTwoByteID
      else if length (ext_Payload ext) > 255 then Fail RtpTwoByteMaxPayload
      else do_all [put [ext_ID ext], put [of_nat (length (ext_Payload ext))],
                   copy (ext_Payload ext)] s)"

definition marshalExtensionData :: "RTPHeader \<Rightarrow> (rtp_error, byte) writer" where
  "marshalExtensionData h s =
     (if rtp_ExtensionProfile h = ExtensionProfileOneByte
      then do_all (map marshalOneByteExtension (rtp_Extensions h)) s
      else if rtp_ExtensionProfile h = ExtensionProfileTwoByte
      then do_all (map marshalTwoByteExtension (rtp_Extensions h)) s
      else if length (rtp_Extensions h) > 1 then Fail RtpProfileSingleBlock
      else do_when (length (rtp_Extensions h) > 0) (copy (ext_Payload (rtp_Extensions h ! 0))) s)"

definition padExtension :: "RTPHeader \<Rightarrow> nat \<Rightarrow> (rtp_error, byte) writer" where
  "padExtension h padCount =
     (if padCount > 0 then
        if rtp_ExtensionProfile h = ExtensionProfileOneByte
        then do_all [put [0xF0], do_all (replicate (padCount - 1) (put [0]))]
        else do_all (replicate padCount (put [0]))
      else do_all [])"

definition marshalExtension :: "RTPHeader \<Rightarrow> (rtp_error, byte) writer" where
  "marshalExtension h s =
     (let extHeaderStart = snd s in
      and_then (put (u16_bytes (rtp_ExtensionProfile h)) s) (\<lambda>(buf, _).
      let extDataStart = extHeaderStart + 4 in
      and_then (marshalExtensionData h (buf, extDataStart)) (\<lambda>(buf, n).
      let extSize = n - extDataStart;
          roundedExtSize = align4 extSize in
      and_then (put (u16_bytes (of_nat (roundedExtSize div 4))) (buf, extHeaderStart + 2)) (\<lambda>(buf, _).
      padExtension h (roundedExtSize - extSize) (buf, n)))))"

definition rtp_byte0 :: "RTPHeader \<Rightarrow> byte" where
  "rtp_byte0 h =
     (let b = push_bit 6 (rtp_Version h) OR of_nat (length (rtp_CSRC h));
          b = (if rtp_Padding h then b OR push_bit 5 1 else b)
      in if rtp_Extension h then b OR push_bit 4 1 else b)"

definition rtp_byte1 :: "RTPHeader \<Rightarrow> byte" where
  "rtp_byte1 h = (if rtp_Marker h then rtp_PayloadType h OR push_bit 7 1 else rtp_PayloadType h)"

definition RTPPacket_MarshalTo ::
  "RTPPacket \<Rightarrow> byte list \<Rightarrow> (rtp_error, byte list \<times> nat) go" where
  "RTPPacket_MarshalTo p buf =
     (let h = rtp_Header p; cc = length (rtp_CSRC h) in
      if length buf < RTPPacket_MarshalSize p then Fail RtpBufferTooSmall
      else if cc > 15 then Fail (RtpTooManyCSRC cc)
      else
        and_then (do_all
          [put [rtp_byte0 h], put [rtp_byte1 h],
           put (u16_bytes (rtp_SequenceNumber h)),
           put (u32_bytes (rtp_Timestamp h)),
           put (u32_bytes (rtp_SSRC h)),
           do_all (map (\<lambda>c. put (u32_bytes c)) (rtp_CSRC h)),
           do_when (rtp_Extension h) (marshalExtension h),
           copy (rtp_Payload p)] (buf, 0)) (\<lambda>(buf, n).
        if rtp_Padding h
        then and_then (put [rtp_PaddingSize h] (buf, length buf - 1)) (\<lambda>(buf, _). Ok (buf, length buf))
        else Ok (buf, n)))"

definition RTPPacket_Marshal :: "RTPPacket \<Rightarrow> (rtp_error, byte list) go" where
  "RTPPacket_Marshal p =
     and_then (RTPPacket_MarshalTo p (replicate (RTPPacket_MarshalSize p) 0)) (\<lambda>(buf, n).
     Ok (take n buf))"

section \<open>The wire format\<close>

text \<open>
  What the code should produce, as a concatenation of fields: no buffer, no positions, no
  back-patched length.  \<open>rtp_ok\<close> says which packets have a wire form: version 2, at most 15
  contributing sources, a 7-bit payload type, extension elements that fit their profile, and a padding
  count exactly when the padding flag is set.  A one-byte extension element has at least one byte:
  the code encodes an empty one with length nibble 15 and a clobbered identifier.
\<close>


definition ext_wire :: "u16 \<Rightarrow> RTPExtension \<Rightarrow> byte list" where
  "ext_wire profile ext =
     (if profile = ExtensionProfileOneByte
      then (push_bit 4 (ext_ID ext) OR (of_nat (length (ext_Payload ext)) - 1)) # ext_Payload ext
      else if profile = ExtensionProfileTwoByte
      then ext_ID ext # of_nat (length (ext_Payload ext)) # ext_Payload ext
      else ext_Payload ext)"

definition ext_ok :: "u16 \<Rightarrow> RTPExtension \<Rightarrow> bool" where
  "ext_ok profile ext \<longleftrightarrow>
     (if profile = ExtensionProfileOneByte
      then 0 < ext_ID ext \<and> ext_ID ext < 15 \<and> 0 < length (ext_Payload ext) \<and> length (ext_Payload ext) \<le> 16
      else if profile = ExtensionProfileTwoByte
      then ext_ID ext \<noteq> 0 \<and> length (ext_Payload ext) \<le> 255
      else ext_ID ext = 0 \<and> ext_Payload ext \<noteq> [] \<and> 4 dvd length (ext_Payload ext))"

definition ext_data_wire :: "RTPHeader \<Rightarrow> byte list" where
  "ext_data_wire h = concat (map (ext_wire (rtp_ExtensionProfile h)) (rtp_Extensions h))"

definition ext_pad_wire :: "RTPHeader \<Rightarrow> byte list" where
  "ext_pad_wire h =
     (let d = length (ext_data_wire h); k = align4 d - d in
      if k = 0 then []
      else if rtp_ExtensionProfile h = ExtensionProfileOneByte then 0xF0 # replicate (k - 1) 0
      else replicate k 0)"

definition ext_section_wire :: "RTPHeader \<Rightarrow> byte list" where
  "ext_section_wire h = u16_bytes (rtp_ExtensionProfile h)
     @ u16_bytes (of_nat (align4 (length (ext_data_wire h)) div 4))
     @ ext_data_wire h @ ext_pad_wire h"

definition exts_ok :: "RTPHeader \<Rightarrow> bool" where
  "exts_ok h \<longleftrightarrow>
     (if rtp_Extension h
      then list_all (ext_ok (rtp_ExtensionProfile h)) (rtp_Extensions h)
        \<and> (rtp_ExtensionProfile h \<noteq> ExtensionProfileOneByte \<and>
           rtp_ExtensionProfile h \<noteq> ExtensionProfileTwoByte \<longrightarrow> length (rtp_Extensions h) \<le> 1)
        \<and> length (ext_data_wire h) \<le> 65535 * 4
      else rtp_ExtensionProfile h = 0 \<and> rtp_Extensions h = [])"

definition rtp_ok :: "RTPPacket \<Rightarrow> bool" where
  "rtp_ok p \<longleftrightarrow>
     (let h = rtp_Header p in
      rtp_Version h = 2 \<and> length (rtp_CSRC h) \<le> 15 \<and> rtp_PayloadType h < 128 \<and> exts_ok h
      \<and> (rtp_Padding h \<longleftrightarrow> rtp_PaddingSize h \<noteq> 0))"

definition rtp_head_wire :: "RTPHeader \<Rightarrow> byte list" where
  "rtp_head_wire h = [rtp_byte0 h, rtp_byte1 h] @ u16_bytes (rtp_SequenceNumber h)
     @ u32_bytes (rtp_Timestamp h) @ u32_bytes (rtp_SSRC h) @ concat (map u32_bytes (rtp_CSRC h))
     @ (if rtp_Extension h then ext_section_wire h else [])"

definition pad_wire :: "byte \<Rightarrow> byte list" where
  "pad_wire k = (if k = 0 then [] else replicate (unat k - 1) 0 @ [k])"

definition rtp_wire :: "RTPPacket \<Rightarrow> byte list" where
  "rtp_wire p = rtp_head_wire (rtp_Header p) @ rtp_Payload p @ pad_wire (rtp_PaddingSize (rtp_Header p))"

text \<open>What holds of every packet the parser accepts.\<close>

definition rtp_accepted :: "RTPPacket \<Rightarrow> bool" where
  "rtp_accepted p \<longleftrightarrow>
     (let h = rtp_Header p in
      rtp_Version h = 2 \<and> length (rtp_CSRC h) \<le> 15 \<and> rtp_PayloadType h < 128
      \<and> (rtp_Padding h \<longleftrightarrow> rtp_PaddingSize h \<noteq> 0)
      \<and> (\<not> rtp_Extension h \<longrightarrow> rtp_ExtensionProfile h = 0 \<and> rtp_Extensions h = []))"

section \<open>The code writes the wire format\<close>

lemma length_ext_wire [simp]: "length (ext_wire profile e) = rtp_ext_size profile e"
  by (simp add: ext_wire_def rtp_ext_size_def)

lemma length_ext_data_wire:
  "length (ext_data_wire h) = sum_list (map (rtp_ext_size (rtp_ExtensionProfile h)) (rtp_Extensions h))"
  by (simp add: ext_data_wire_def length_concat comp_def)

lemma length_ext_pad_wire: "length (ext_pad_wire h) = align4 (length (ext_data_wire h)) - length (ext_data_wire h)"
  by (auto simp: ext_pad_wire_def Let_def)

lemma length_ext_data_pad:
  "length (ext_data_wire h) + length (ext_pad_wire h) = align4 (length (ext_data_wire h))"
  using align4_ge [of "length (ext_data_wire h)"] by (simp add: length_ext_pad_wire)

lemma length_ext_section_wire:
  "length (ext_section_wire h) = 4 + align4 (length (ext_data_wire h))"
  using length_ext_data_pad [of h] by (simp add: ext_section_wire_def)

lemma length_pad_wire [simp]: "length (pad_wire k) = unat k"
  by (auto simp: pad_wire_def unat_gt_0 Suc_leI)

lemma length_rtp_wire: "length (rtp_wire p) = RTPPacket_MarshalSize p"
  by (simp add: rtp_wire_def rtp_head_wire_def RTPPacket_MarshalSize_def Let_def
      rtpFixedHeaderLen_def length_ext_section_wire align4_add length_ext_data_wire)

lemma profiles_distinct [simp]:
  "ExtensionProfileOneByte \<noteq> ExtensionProfileTwoByte" "ExtensionProfileTwoByte \<noteq> ExtensionProfileOneByte"
  by (simp_all add: ExtensionProfileOneByte_def ExtensionProfileTwoByte_def)

lemma emits_one_byte:
  assumes "ext_ok ExtensionProfileOneByte e"
  shows "emits (marshalOneByteExtension e) (ext_wire ExtensionProfileOneByte e)"
proof (rule emits_cong)
  show "emits (do_all [put [push_bit 4 (ext_ID e) OR (of_nat (length (ext_Payload e)) - 1)],
      copy (ext_Payload e)]) (ext_wire ExtensionProfileOneByte e)"
    by (rule emits_eq, (rule emits_intros)+) (simp add: ext_wire_def)
  show "marshalOneByteExtension e s = do_all [put [push_bit 4 (ext_ID e) OR
      (of_nat (length (ext_Payload e)) - 1)], copy (ext_Payload e)] s" for s
    using assms by (auto simp: marshalOneByteExtension_def ext_ok_def)
qed

lemma emits_two_byte:
  assumes "ext_ok ExtensionProfileTwoByte e"
  shows "emits (marshalTwoByteExtension e) (ext_wire ExtensionProfileTwoByte e)"
proof (rule emits_cong)
  show "emits (do_all [put [ext_ID e], put [of_nat (length (ext_Payload e))],
      copy (ext_Payload e)]) (ext_wire ExtensionProfileTwoByte e)"
    by (rule emits_eq, (rule emits_intros)+) (simp add: ext_wire_def)
  show "marshalTwoByteExtension e s = do_all [put [ext_ID e], put [of_nat (length (ext_Payload e))],
      copy (ext_Payload e)] s" for s
    using assms by (simp add: marshalTwoByteExtension_def ext_ok_def)
qed

lemma emits_ext_data:
  assumes "rtp_Extension h" and "exts_ok h"
  shows "emits (marshalExtensionData h) (ext_data_wire h)"
proof -
  let ?p = "rtp_ExtensionProfile h" and ?es = "rtp_Extensions h"
  have ok: "\<And>e. e \<in> set ?es \<Longrightarrow> ext_ok ?p e"
    using assms by (simp add: exts_ok_def list_all_iff)
  consider "?p = ExtensionProfileOneByte" | "?p = ExtensionProfileTwoByte"
    | "?p \<noteq> ExtensionProfileOneByte" "?p \<noteq> ExtensionProfileTwoByte" by blast
  then show ?thesis
  proof cases
    case 1
    then have "emits (do_all (map marshalOneByteExtension ?es)) (ext_data_wire h)"
      unfolding ext_data_wire_def using ok by (intro emits_each) (simp add: emits_one_byte)
    then show ?thesis using 1 by (simp add: emits_cong marshalExtensionData_def)
  next
    case 2
    then have "emits (do_all (map marshalTwoByteExtension ?es)) (ext_data_wire h)"
      unfolding ext_data_wire_def using ok by (intro emits_each) (simp add: emits_two_byte)
    then show ?thesis using 2 by (simp add: marshalExtensionData_def emits_cong)
  next
    case 3
    then have l: "length ?es \<le> 1" using assms by (simp add: exts_ok_def)
    have "emits (do_when (length ?es > 0) (copy (ext_Payload (?es ! 0))))
        (if length ?es > 0 then ext_Payload (?es ! 0) else [])"
      by (intro emits_intros)
    moreover have "(if length ?es > 0 then ext_Payload (?es ! 0) else []) = ext_data_wire h"
      using 3 l by (cases ?es) (auto simp: ext_data_wire_def ext_wire_def)
    ultimately show ?thesis
      using 3 l by (intro emits_cong [of _ _ "marshalExtensionData h"]) (auto simp: marshalExtensionData_def)
  qed
qed

lemma emits_pad_extension:
  "emits (padExtension h (align4 (length (ext_data_wire h)) - length (ext_data_wire h))) (ext_pad_wire h)"
  unfolding padExtension_def
  by (cases "align4 (length (ext_data_wire h)) \<le> length (ext_data_wire h)";
      cases "rtp_ExtensionProfile h = ExtensionProfileOneByte")
    (simp_all, (rule emits_eq, (rule emits_intros)+, auto simp: ext_pad_wire_def Let_def)+)

lemma emits_ext_section:
  assumes "rtp_Extension h" and "exts_ok h"
  shows "emits (marshalExtension h) (ext_section_wire h)"
proof (rule emitsI)
  fix pre old rest :: "byte list"
  let ?d = "ext_data_wire h" and ?prof = "u16_bytes (rtp_ExtensionProfile h)"
  let ?len = "u16_bytes (of_nat (align4 (length ?d) div 4))"
  assume "length old = length (ext_section_wire h)"
  then have "length old = 2 + (2 + (length ?d + length (ext_pad_wire h)))"
    using length_ext_data_pad [of h] by (simp add: length_ext_section_wire)
  then obtain o1 o2 o3 o4 where old: "old = o1 @ o2 @ o3 @ o4"
    and l1: "length o1 = 2" and l2: "length o2 = 2" and l3: "length o3 = length ?d"
    and l4: "length o4 = length (ext_pad_wire h)"
    by (metis length_add_split)
  have profile: "put ?prof (pre @ old @ rest, length pre)
      = Ok (pre @ ?prof @ o2 @ o3 @ o4 @ rest, length pre + 2)"
    using emitsD [OF emits_put [of ?prof], of o1 "length pre" pre "o2 @ o3 @ o4 @ rest"] l1 old by simp
  have data: "marshalExtensionData h (pre @ ?prof @ o2 @ o3 @ o4 @ rest, length pre + 4)
      = Ok (pre @ ?prof @ o2 @ ?d @ o4 @ rest, length pre + 4 + length ?d)"
    using emitsD [OF emits_ext_data [OF assms] l3, of "length pre + 4" "pre @ ?prof @ o2"] l2
    by simp
  have len: "put ?len (pre @ ?prof @ o2 @ ?d @ o4 @ rest, length pre + 2)
      = Ok (pre @ ?prof @ ?len @ ?d @ o4 @ rest, length pre + 2 + 2)"
    using emitsD [OF emits_put [of ?len], of o2 "length pre + 2" "pre @ ?prof" "?d @ o4 @ rest"] l2
    by simp
  have pad: "padExtension h (align4 (length ?d) - length ?d)
        (pre @ ?prof @ ?len @ ?d @ o4 @ rest, length pre + 4 + length ?d)
      = Ok (pre @ ?prof @ ?len @ ?d @ ext_pad_wire h @ rest,
          length pre + 4 + length ?d + length (ext_pad_wire h))"
    using emitsD [OF emits_pad_extension [of h] l4, of "length pre + 4 + length ?d" "pre @ ?prof @ ?len @ ?d" rest]
    by simp
  show "marshalExtension h (pre @ old @ rest, length pre) =
        Ok (pre @ ext_section_wire h @ rest, length pre + length (ext_section_wire h))"
    unfolding marshalExtension_def Let_def
    by (simp add: profile data len pad ext_section_wire_def)
qed

section \<open>The parser inverts the wire format\<close>

text \<open>The bit fields of the first two bytes and of an extension byte, by evaluation.\<close>

lemma nibble_table:
  "list_all (\<lambda>i. list_all (\<lambda>x. let b = push_bit 4 (of_nat i) OR of_nat x :: byte in
     drop_bit 4 b = of_nat i \<and> b AND 15 = of_nat x) [0..<16]) [0..<16]"
  by code_simp

lemma byte0_table:
  "list_all (\<lambda>cc. list_all (\<lambda>p. list_all (\<lambda>e.
     let b = push_bit 6 2 OR of_nat cc :: byte;
          b = (if p then b OR push_bit 5 1 else b);
          b = (if e then b OR push_bit 4 1 else b)
     in drop_bit 6 b AND 3 = 2 \<and> (drop_bit 5 b AND 1 \<noteq> 0) = p \<and> (drop_bit 4 b AND 1 \<noteq> 0) = e
       \<and> unat (b AND 15) = cc) [True, False]) [True, False]) [0..<16]"
  by code_simp

lemma byte1_table:
  "list_all (\<lambda>n. let w = of_nat n :: byte in
      w AND 127 = w \<and> drop_bit 7 w AND 1 = 0 \<and>
      (w OR push_bit 7 1) AND 127 = w \<and> drop_bit 7 (w OR push_bit 7 1) AND 1 = 1) [0..<128]"
  by code_simp


lemma nibbles:
  assumes "i < 16" and "x < 16"
  shows "drop_bit 4 (push_bit 4 i OR x :: byte) = i" and "(push_bit 4 i OR x) AND 15 = x"
proof -
  have "unat i < 16" "unat x < 16" using assms by (simp_all add: word_less_nat_alt)
  then have "let b = push_bit 4 (of_nat (unat i)) OR of_nat (unat x) :: byte in
     drop_bit 4 b = of_nat (unat i) \<and> b AND 15 = of_nat (unat x)"
    using nibble_table by (simp only: list_all_iff set_upt) (meson atLeastLessThan_iff le0)
  then show "drop_bit 4 (push_bit 4 i OR x :: byte) = i" and "(push_bit 4 i OR x) AND 15 = x"
    by (simp_all add: Let_def)
qed

lemma rtp_byte0_decode:
  assumes "rtp_Version h = 2" and "length (rtp_CSRC h) \<le> 15"
  shows "drop_bit 6 (rtp_byte0 h) AND 3 = 2"
    and "(drop_bit 5 (rtp_byte0 h) AND 1 \<noteq> 0) = rtp_Padding h"
    and "(drop_bit 4 (rtp_byte0 h) AND 1 \<noteq> 0) = rtp_Extension h"
    and "unat (rtp_byte0 h AND 15) = length (rtp_CSRC h)"
proof -
  have "length (rtp_CSRC h) \<in> set [0..<16]" "rtp_Padding h \<in> set [True, False]"
    "rtp_Extension h \<in> set [True, False]" using assms(2) by auto
  then have "let b = push_bit 6 2 OR of_nat (length (rtp_CSRC h)) :: byte;
          b = (if rtp_Padding h then b OR push_bit 5 1 else b);
          b = (if rtp_Extension h then b OR push_bit 4 1 else b)
     in drop_bit 6 b AND 3 = 2 \<and> (drop_bit 5 b AND 1 \<noteq> 0) = rtp_Padding h \<and>
        (drop_bit 4 b AND 1 \<noteq> 0) = rtp_Extension h \<and> unat (b AND 15) = length (rtp_CSRC h)"
    using byte0_table unfolding list_all_iff by blast
  then show "drop_bit 6 (rtp_byte0 h) AND 3 = 2"
    and "(drop_bit 5 (rtp_byte0 h) AND 1 \<noteq> 0) = rtp_Padding h"
    and "(drop_bit 4 (rtp_byte0 h) AND 1 \<noteq> 0) = rtp_Extension h"
    and "unat (rtp_byte0 h AND 15) = length (rtp_CSRC h)"
    using assms(1) by (simp_all add: rtp_byte0_def Let_def)
qed

lemma rtp_byte1_decode:
  assumes "rtp_PayloadType h < 128"
  shows "rtp_byte1 h AND 127 = rtp_PayloadType h"
    and "(drop_bit 7 (rtp_byte1 h) AND 1 \<noteq> 0) = rtp_Marker h"
proof -
  have "unat (rtp_PayloadType h) \<in> set [0..<128]" using assms by (simp add: word_less_nat_alt)
  then have "let w = of_nat (unat (rtp_PayloadType h)) :: byte in
      w AND 127 = w \<and> drop_bit 7 w AND 1 = 0 \<and>
      (w OR push_bit 7 1) AND 127 = w \<and> drop_bit 7 (w OR push_bit 7 1) AND 1 = 1"
    using byte1_table unfolding list_all_iff by blast
  then show "rtp_byte1 h AND 127 = rtp_PayloadType h"
    and "(drop_bit 7 (rtp_byte1 h) AND 1 \<noteq> 0) = rtp_Marker h"
    by (simp_all add: rtp_byte1_def Let_def)
qed

lemma read_csrcs_wire:
  "off = length pre \<Longrightarrow> read_csrcs (pre @ concat (map u32_bytes cs) @ post) off (length cs) = Ok cs"
proof (induction cs arbitrary: pre off)
  case (Cons c cs)
  from Cons.IH [of "off + 4" "pre @ u32_bytes c"] Cons.prems show ?case
    by (simp add: reads)
qed simp

lemma unmarshalOneByte_zeros [simp]:
  "unmarshalOneByteExtensionsTo (replicate k 0) acc = (acc, None)"
  by (induction k) auto

lemma unmarshalTwoByte_zeros [simp]:
  "unmarshalTwoByteExtensionsTo (replicate k 0) acc = (acc, None)"
  by (induction k) auto

lemma unmarshalOneByte_wire:
  assumes "list_all (ext_ok ExtensionProfileOneByte) es"
    and pad: "\<And>acc. unmarshalOneByteExtensionsTo pad acc = (acc, None)"
  shows "unmarshalOneByteExtensionsTo (concat (map (ext_wire ExtensionProfileOneByte) es) @ pad) acc
     = (acc @ es, None)"
  using assms(1)
proof (induction es arbitrary: acc)
  case (Cons e es)
  let ?x = "of_nat (length (ext_Payload e)) - 1 :: byte"
  let ?b = "push_bit 4 (ext_ID e) OR ?x"
  from Cons.prems have ok: "0 < ext_ID e" "ext_ID e < 15" "0 < length (ext_Payload e)"
    "length (ext_Payload e) \<le> 16" by (simp_all add: ext_ok_def)
  have x: "unat ?x = length (ext_Payload e) - 1"
    using ok(3,4) by (cases "length (ext_Payload e)") (simp_all add: unat_of_nat)
  then have "?x < 16" using ok(3,4) by (simp add: word_less_nat_alt)
  moreover have "ext_ID e < 16" using ok(2) by (rule less_trans) simp
  ultimately have nib: "drop_bit 4 ?b = ext_ID e" "?b AND 15 = ?x"
    using nibbles by blast+
  have "?b \<noteq> 0" using nib(1) ok(1) by (metis drop_bit_of_0 less_irrefl)
  moreover have "ext_ID e \<noteq> 15" using ok(2) by auto
  ultimately show ?case using nib x ok(3) Cons by (simp add: ext_wire_def Let_def)
qed (simp add: pad)

lemma unmarshalTwoByte_wire:
  assumes "list_all (ext_ok ExtensionProfileTwoByte) es"
    and pad: "\<And>acc. unmarshalTwoByteExtensionsTo pad acc = (acc, None)"
  shows "unmarshalTwoByteExtensionsTo (concat (map (ext_wire ExtensionProfileTwoByte) es) @ pad) acc
     = (acc @ es, None)"
  using assms(1)
proof (induction es arbitrary: acc)
  case (Cons e es)
  from Cons.prems have "unat (of_nat (length (ext_Payload e)) :: byte) = length (ext_Payload e)"
    by (simp add: ext_ok_def unat_of_nat)
  with Cons show ?case by (simp add: ext_wire_def ext_ok_def Let_def)
qed (simp add: pad)

lemma unmarshalExtensionsTo_wire:
  assumes "rtp_Extension h" and "exts_ok h"
  shows "unmarshalExtensionsTo (rtp_ExtensionProfile h) (ext_data_wire h @ ext_pad_wire h)
     = (rtp_Extensions h, None)"
proof -
  let ?p = "rtp_ExtensionProfile h" and ?es = "rtp_Extensions h"
  have ok: "list_all (ext_ok ?p) ?es" using assms by (simp add: exts_ok_def)
  consider "?p = ExtensionProfileOneByte" | "?p = ExtensionProfileTwoByte"
    | "?p \<noteq> ExtensionProfileOneByte" "?p \<noteq> ExtensionProfileTwoByte" by blast
  then show ?thesis
  proof cases
    case 1
    have "unmarshalOneByteExtensionsTo (ext_pad_wire h) acc = (acc, None)" for acc
      using 1 by (simp add: ext_pad_wire_def Let_def)
    from unmarshalOneByte_wire [OF _ this, of ?es "[]"] ok 1 show ?thesis
      by (simp add: unmarshalExtensionsTo_def ext_data_wire_def)
  next
    case 2
    have "unmarshalTwoByteExtensionsTo (ext_pad_wire h) acc = (acc, None)" for acc
      using 2 by (simp add: ext_pad_wire_def Let_def)
    from unmarshalTwoByte_wire [OF _ this, of ?es "[]"] ok 2 show ?thesis
      by (simp add: unmarshalExtensionsTo_def ext_data_wire_def)
  next
    case 3
    then have l: "length ?es \<le> 1" using assms by (simp add: exts_ok_def)
    have "4 dvd length (ext_data_wire h)"
      using 3 l ok by (cases ?es) (auto simp: ext_data_wire_def ext_wire_def ext_ok_def)
    then have "ext_pad_wire h = []" by (simp add: ext_pad_wire_def align4_id)
    then show ?thesis
      using 3 l ok by (cases ?es) (auto simp: unmarshalExtensionsTo_def ext_data_wire_def ext_wire_def ext_ok_def)
  qed
qed


lemma rtp_head_split:
  "rtp_head_wire h = ([rtp_byte0 h, rtp_byte1 h] @ u16_bytes (rtp_SequenceNumber h)
     @ u32_bytes (rtp_Timestamp h) @ u32_bytes (rtp_SSRC h)) @ concat (map u32_bytes (rtp_CSRC h))
     @ (if rtp_Extension h then ext_section_wire h else [])"
  by (simp add: rtp_head_wire_def)

lemma emits_rtp:
  assumes "exts_ok h"
  shows "emits (do_all
          [put [rtp_byte0 h], put [rtp_byte1 h],
           put (u16_bytes (rtp_SequenceNumber h)),
           put (u32_bytes (rtp_Timestamp h)),
           put (u32_bytes (rtp_SSRC h)),
           do_all (map (\<lambda>c. put (u32_bytes c)) (rtp_CSRC h)),
           do_when (rtp_Extension h) (marshalExtension h),
           copy payload]) (rtp_head_wire h @ payload)"
  by (rule emits_eq, (rule emits_intros emits_ext_section assms | assumption)+)
    (simp add: rtp_head_wire_def)

lemma length_rtp_head:
  "length (rtp_head_wire h) = 12 + length (rtp_CSRC h) * 4 + (if rtp_Extension h then 4 + align4 (length (ext_data_wire h)) else 0)"
  by (simp add: rtp_head_wire_def length_ext_section_wire)

lemma rtp_ok_writable:
  "rtp_ok p \<Longrightarrow> exts_ok (rtp_Header p)" "rtp_ok p \<Longrightarrow> \<not> length (rtp_CSRC (rtp_Header p)) > 15"
  by (simp_all add: rtp_ok_def Let_def)

lemma RTPPacket_MarshalTo_writes:
  assumes ok: "exts_ok (rtp_Header p)" "\<not> length (rtp_CSRC (rtp_Header p)) > 15" and "RTPPacket_MarshalSize p \<le> length buf"
  shows "RTPPacket_MarshalTo p buf =
     (let h = rtp_Header p; out = rtp_head_wire h @ rtp_Payload p;
          buf' = out @ drop (length out) buf in
      if rtp_Padding h then Ok (buf'[length buf - 1 := rtp_PaddingSize h], length buf)
      else Ok (buf', length out))"
proof -
  let ?h = "rtp_Header p"
  let ?out = "rtp_head_wire ?h @ rtp_Payload p"
  have le: "length ?out + unat (rtp_PaddingSize ?h) \<le> length buf"
    using assms(3) by (simp add: length_rtp_wire [symmetric] rtp_wire_def)
  have ne: "buf \<noteq> []" using le by (auto simp: length_rtp_head)
  have run: "do_all
          [put [rtp_byte0 ?h], put [rtp_byte1 ?h],
           put (u16_bytes (rtp_SequenceNumber ?h)),
           put (u32_bytes (rtp_Timestamp ?h)),
           put (u32_bytes (rtp_SSRC ?h)),
           do_all (map (\<lambda>c. put (u32_bytes c)) (rtp_CSRC ?h)),
           do_when (rtp_Extension ?h) (marshalExtension ?h),
           copy (rtp_Payload p)] (buf, 0) = Ok (?out @ drop (length ?out) buf, length ?out)"
    using le by (intro emits_run emits_rtp ok) simp
  have len: "length (?out @ drop (length ?out) buf) = length buf" using le by simp
  have ne': "?out @ drop (length ?out) buf \<noteq> []" using len ne by (metis length_0_conv)
  have last: "(put [rtp_PaddingSize ?h] (?out @ drop (length ?out) buf, length buf - 1) :: (rtp_error, _) go)
    = Ok ((?out @ drop (length ?out) buf)[length buf - 1 := rtp_PaddingSize ?h], length buf)"
    using put_last [OF ne', of "rtp_PaddingSize ?h"] unfolding len .
  show ?thesis
    unfolding RTPPacket_MarshalTo_def Let_def using ok(2) assms(3) run last len
    by (simp del: append_assoc length_append)
qed

lemma RTPPacket_MarshalTo_body:
  assumes "rtp_ok p" and "RTPPacket_MarshalSize p \<le> length buf"
  shows "RTPPacket_MarshalTo p buf =
     (let h = rtp_Header p; out = rtp_head_wire h @ rtp_Payload p;
          buf' = out @ drop (length out) buf in
      if rtp_Padding h then Ok (buf'[length buf - 1 := rtp_PaddingSize h], length buf)
      else Ok (buf', length out))"
  using assms by (intro RTPPacket_MarshalTo_writes rtp_ok_writable)

lemma RTPPacket_Marshal_wire:
  assumes "rtp_ok p"
  shows "RTPPacket_Marshal p = Ok (rtp_wire p)"
proof -
  let ?h = "rtp_Header p" and ?N = "RTPPacket_MarshalSize p"
  let ?out = "rtp_head_wire ?h @ rtp_Payload p" and ?k = "rtp_PaddingSize (rtp_Header p)"
  have N: "?N = length ?out + unat ?k"
    by (simp add: length_rtp_wire [symmetric] rtp_wire_def)
  have pad: "rtp_Padding ?h \<longleftrightarrow> ?k \<noteq> 0" using assms by (simp add: rtp_ok_def Let_def)
  have zeros: "(replicate (unat ?k) 0)[unat ?k - 1 := ?k] = pad_wire ?k" if nz: "?k \<noteq> 0"
  proof -
    obtain m where "unat ?k = Suc m" using nz by (cases "unat ?k") (simp_all add: unat_eq_zero)
    then show ?thesis using nz
      by (simp add: pad_wire_def replicate_append_same [symmetric] list_update_append)
  qed
  have "(?out @ replicate (unat ?k) 0)[?N - 1 := ?k] = ?out @ pad_wire ?k" if "?k \<noteq> 0"
  proof -
    have "unat ?k > 0" using that by (simp add: unat_gt_0)
    then have "?N - 1 = length ?out + (unat ?k - 1)" using N by simp
    then show ?thesis using zeros [OF that] by (simp only: list_update_at_suffix)
  qed
  then show ?thesis
    using RTPPacket_MarshalTo_body [OF assms, of "replicate ?N 0"] pad N unat_gt_0 [of ?k]
    by (auto simp: RTPPacket_Marshal_def Let_def rtp_wire_def pad_wire_def)
qed

lemma unmarshal_rtp_extension_wire:
  assumes "exts_ok h" and n: "n = length pre"
  shows "unmarshal_rtp_extension (rtp_Extension h)
       (pre @ (if rtp_Extension h then ext_section_wire h else []) @ tail) n pkt =
     Ok (pkt\<lparr>rtp_Header := (rtp_Header pkt)\<lparr>rtp_Extension := rtp_Extension h,
        rtp_ExtensionProfile := rtp_ExtensionProfile h, rtp_Extensions := rtp_Extensions h\<rparr>\<rparr>,
        n + length (if rtp_Extension h then ext_section_wire h else []))"
proof (cases "rtp_Extension h")
  case True
  let ?x = "ext_data_wire h @ ext_pad_wire h"
  let ?data = "pre @ ext_section_wire h @ tail"
  have len: "length ?x = align4 (length (ext_data_wire h))" using length_ext_data_pad [of h] by simp
  have "length (ext_data_wire h) \<le> 65535 * 4" using assms(1) True by (simp add: exts_ok_def)
  then have "align4 (length (ext_data_wire h)) div 4 < 65536" unfolding align4_def by simp
  then have u: "unat (of_nat (align4 (length (ext_data_wire h)) div 4) :: u16) * 4 = length ?x"
    using align4_dvd [of "length (ext_data_wire h)"] unfolding len by (simp add: unat_of_nat)
  have r: "get_u16 ?data n = Ok (rtp_ExtensionProfile h)"
    "get_u16 ?data (n + 2) = Ok (of_nat (align4 (length (ext_data_wire h)) div 4))"
    "slice ?data (n + 4) (n + 4 + length ?x) = Ok ?x"
    using n slice_here [of "length ?x" ?x tail] by (simp_all add: ext_section_wire_def reads)
  have l: "\<not> length ?data < n + 4" "\<not> length ?data < n + 4 + length ?x"
    using n by (simp_all add: ext_section_wire_def)
  show ?thesis
    unfolding unmarshal_rtp_extension_def Let_def
    by (simp add: True r u l unmarshalExtensionsTo_wire [OF True assms(1)] del: length_append)
      (simp add: length_ext_section_wire len del: length_append)
next
  case False
  then show ?thesis using assms(1) by (simp add: unmarshal_rtp_extension_def exts_ok_def)
qed

lemma unmarshal_rtp_payload_wire:
  assumes "rtp_Padding (rtp_Header pkt) \<longleftrightarrow> k \<noteq> 0" and n: "n = length pre"
  shows "unmarshal_rtp_payload (pre @ payload @ pad_wire k) n pkt =
     Ok (pkt\<lparr>rtp_Header := (rtp_Header pkt)\<lparr>rtp_PaddingSize := k\<rparr>, rtp_Payload := payload\<rparr>)"
proof (cases "k = 0")
  case True
  then show ?thesis using assms by (simp add: unmarshal_rtp_payload_def pad_wire_def reads)
next
  case False
  then obtain m where m: "unat k = Suc m" by (cases "unat k") (simp_all add: unat_eq_zero)
  let ?data = "pre @ payload @ replicate m 0 @ [k]"
  have i: "index ?data (length ?data - 1) = Ok k" by (simp add: reads)
  have p: "slice ?data n (length ?data - Suc m) = Ok payload"
    using n slice_here [of "length payload" payload] by (simp add: reads)
  have l: "\<not> length ?data \<le> n" "\<not> length ?data - n < Suc m" using n by simp_all
  have w: "pre @ payload @ pad_wire k = ?data" using False m by (simp add: pad_wire_def)
  show ?thesis
    unfolding unmarshal_rtp_payload_def w Let_def using False assms(1)
    by (simp add: i [simplified One_nat_def] p l m del: length_append)
qed

lemma UnmarshalRTPTo_wire:
  assumes "rtp_ok p"
  shows "UnmarshalRTPTo (rtp_wire p) q = Ok p"
proof -
  let ?h = "rtp_Header p" and ?d = "rtp_wire p" and ?k = "rtp_PaddingSize (rtp_Header p)"
  define ext where "ext = (if rtp_Extension ?h then ext_section_wire ?h else [])"
  let ?fix = "[rtp_byte0 ?h, rtp_byte1 ?h] @ u16_bytes (rtp_SequenceNumber ?h)
     @ u32_bytes (rtp_Timestamp ?h) @ u32_bytes (rtp_SSRC ?h)"
  let ?cs = "concat (map u32_bytes (rtp_CSRC ?h))"
  let ?tail = "rtp_Payload p @ pad_wire ?k" and ?n = "12 + length (rtp_CSRC ?h) * 4"
  have ok: "rtp_Version ?h = 2" "length (rtp_CSRC ?h) \<le> 15" "rtp_PayloadType ?h < 128" "exts_ok ?h"
    and pad: "rtp_Padding ?h \<longleftrightarrow> ?k \<noteq> 0"
    using assms by (simp_all add: rtp_ok_def Let_def)
  have d: "?d = ?fix @ ?cs @ ext @ ?tail" by (simp add: rtp_wire_def rtp_head_wire_def ext_def)
  have csrc: "read_csrcs ?d 12 (length (rtp_CSRC ?h)) = Ok (rtp_CSRC ?h)"
    using read_csrcs_wire [of 12 ?fix "rtp_CSRC ?h" "ext @ ?tail"] by (simp add: d)
  have ext: "unmarshal_rtp_extension (rtp_Extension ?h) ?d ?n pkt =
      Ok (pkt\<lparr>rtp_Header := (rtp_Header pkt)\<lparr>rtp_Extension := rtp_Extension ?h,
        rtp_ExtensionProfile := rtp_ExtensionProfile ?h, rtp_Extensions := rtp_Extensions ?h\<rparr>\<rparr>,
        ?n + length ext)" for pkt
    using unmarshal_rtp_extension_wire [OF ok(4), of ?n "?fix @ ?cs" ?tail pkt]
    by (simp add: d ext_def [symmetric])
  have pay: "unmarshal_rtp_payload ?d (?n + length ext) pkt =
      Ok (pkt\<lparr>rtp_Header := (rtp_Header pkt)\<lparr>rtp_PaddingSize := ?k\<rparr>, rtp_Payload := rtp_Payload p\<rparr>)"
      if "rtp_Padding (rtp_Header pkt) = rtp_Padding ?h" for pkt
    using unmarshal_rtp_payload_wire [of pkt ?k "?n + length ext" "?fix @ ?cs @ ext" "rtp_Payload p"] that pad
    by (simp add: d)
  have reads: "index ?d 0 = Ok (rtp_byte0 ?h)" "index ?d 1 = Ok (rtp_byte1 ?h)"
    "get_u16 ?d 2 = Ok (rtp_SequenceNumber ?h)" "get_u32 ?d 4 = Ok (rtp_Timestamp ?h)"
    "get_u32 ?d 8 = Ok (rtp_SSRC ?h)" "\<not> length ?d < 12"
    by (simp_all add: d reads)
  show ?thesis
    unfolding UnmarshalRTPTo_def Let_def
    using ok reads(6)
    by (simp add: reads(1-5)[simplified] csrc ext pay rtpFixedHeaderLen_def rtpVersion_def
        rtp_byte0_decode rtp_byte1_decode)
qed



section \<open>Panics and accepted packets\<close>

lemma read_csrcs_Panic: "read_csrcs data off k = Panic \<longleftrightarrow> k \<noteq> 0 \<and> length data < off + 4 * k"
  by (induction k arbitrary: off) (auto simp: go_simps)

lemma read_csrcs_Ok: "read_csrcs data off k = Ok cs \<Longrightarrow> k = 0 \<or> off + 4 * k \<le> length data"
  using read_csrcs_Panic [of data off k] by (metis go.distinct(3) not_less)

lemma unmarshal_rtp_extension_cases:
  "unmarshal_rtp_extension e data n pkt \<noteq> Panic"
  by (auto simp: unmarshal_rtp_extension_def go_simps Let_def split: option.splits prod.splits)

lemma unmarshal_rtp_extension_Ok:
  "unmarshal_rtp_extension e data n pkt = Ok (pkt', n') \<Longrightarrow> n \<le> length data \<Longrightarrow> n \<le> n' \<and> n' \<le> length data"
  by (auto simp: unmarshal_rtp_extension_def go_simps Let_def
      split: if_splits option.splits prod.splits)

lemma unmarshal_rtp_payload_cases:
  "n \<le> length data \<Longrightarrow> unmarshal_rtp_payload data n pkt \<noteq> Panic"
  by (auto simp: unmarshal_rtp_payload_def go_simps Let_def)

lemma UnmarshalRTP_Panic_cases:
  "UnmarshalRTP data = Panic \<longleftrightarrow>
     12 \<le> length data \<and> drop_bit 6 (data ! 0) AND 3 = 2 \<and>
     length data < 12 + 4 * unat (data ! 0 AND 15)"
proof -
  have "UnmarshalRTP data = Panic \<longleftrightarrow> UnmarshalRTPTo data zero_RTPPacket = Panic"
    by (auto simp: UnmarshalRTP_def split: go.splits)
  also have "\<dots> \<longleftrightarrow> 12 \<le> length data \<and> drop_bit 6 (data ! 0) AND 3 = 2 \<and>
     length data < 12 + 4 * unat (data ! 0 AND 15)"
    by (auto simp: UnmarshalRTPTo_def rtpFixedHeaderLen_def rtpVersion_def go_simps Let_def
        read_csrcs_Panic unmarshal_rtp_extension_cases
        split: if_splits dest!: read_csrcs_Ok unmarshal_rtp_extension_Ok)
      (auto simp: unmarshal_rtp_payload_cases)
  finally show ?thesis .
qed

lemma and_127_less: "(b AND 127 :: byte) < 128"
proof -
  have "b AND 127 \<le> 127" by (rule word_and_le1)
  then show ?thesis by (simp add: word_le_nat_alt word_less_nat_alt)
qed

lemma and_15_le: "unat (b AND 15 :: byte) \<le> 15"
proof -
  have "b AND 15 \<le> 15" by (rule word_and_le1)
  then show ?thesis by (simp add: word_le_nat_alt)
qed

lemma read_csrcs_length: "read_csrcs data off k = Ok cs \<Longrightarrow> length cs = k"
  by (induction k arbitrary: off cs) (auto simp: go_simps)


lemma unmarshal_rtp_extension_OkE:
  assumes "unmarshal_rtp_extension e data n p = Ok (p', n')"
  obtains E P X where "p' = p\<lparr>rtp_Header := (rtp_Header p)\<lparr>rtp_Extension := E,
        rtp_ExtensionProfile := P, rtp_Extensions := X\<rparr>\<rparr>"
    and "\<And>q. unmarshal_rtp_extension e data n q = Ok (q\<lparr>rtp_Header := (rtp_Header q)\<lparr>rtp_Extension := E,
        rtp_ExtensionProfile := P, rtp_Extensions := X\<rparr>\<rparr>, n')"
    and "\<not> E \<longrightarrow> P = 0 \<and> X = []"
proof (cases e)
  case True
  let ?a = "u16_at data n" and ?len = "unat (u16_at data (n + 2)) * 4"
  from assms True obtain X where "unmarshalExtensionsTo ?a (take ?len (drop (n + 4) data)) = (X, None)"
    "n + 4 + ?len \<le> length data" "n' = n + 4 + ?len"
    "p' = p\<lparr>rtp_Header := (rtp_Header p)\<lparr>rtp_Extension := True,
        rtp_ExtensionProfile := ?a, rtp_Extensions := X\<rparr>\<rparr>"
    by (auto simp: unmarshal_rtp_extension_def go_simps Let_def
        split: if_splits option.split_asm prod.split_asm)
  then show ?thesis using True
    by (intro that [where E = True and P = ?a and X = X]) (simp_all add: unmarshal_rtp_extension_def get_u16_def slice_def)
next
  case False
  with assms show ?thesis by (intro that [where E = False and P = 0 and X = "[]"]) (auto simp: unmarshal_rtp_extension_def)
qed

lemma unmarshal_rtp_payload_OkE:
  assumes "unmarshal_rtp_payload data n p = Ok p'"
  obtains k where "p' = p\<lparr>rtp_Header := (rtp_Header p)\<lparr>rtp_PaddingSize := k\<rparr>,
      rtp_Payload := take (length data - unat k - n) (drop n data)\<rparr>"
    and "rtp_Padding (rtp_Header p) \<longleftrightarrow> k \<noteq> 0" and "n + unat k \<le> length data"
    and "\<And>q. rtp_Padding (rtp_Header q) = rtp_Padding (rtp_Header p) \<Longrightarrow> unmarshal_rtp_payload data n q =
      Ok (q\<lparr>rtp_Header := (rtp_Header q)\<lparr>rtp_PaddingSize := k\<rparr>,
        rtp_Payload := take (length data - unat k - n) (drop n data)\<rparr>)"
proof (cases "rtp_Padding (rtp_Header p)")
  case True
  with assms show ?thesis
    by (intro that [of "data ! (length data - 1)"])
      (auto simp: unmarshal_rtp_payload_def go_simps index_def slice_def Let_def split: if_splits)
next
  case False
  with assms show ?thesis
    by (intro that [of 0])
      (auto simp: unmarshal_rtp_payload_def go_simps slice_def split: if_splits)
qed

lemma UnmarshalRTPTo_OkE:
  assumes "UnmarshalRTPTo data p = Ok r"
  obtains n where "rtp_accepted r" and "12 + 4 * length (rtp_CSRC (rtp_Header r)) \<le> n"
    and "rtp_Payload r = take (length data - unat (rtp_PaddingSize (rtp_Header r)) - n) (drop n data)"
    and "n + unat (rtp_PaddingSize (rtp_Header r)) \<le> length data"
    and "\<And>q. UnmarshalRTPTo data q = Ok r"
proof -
  let ?b0 = "data ! 0" and ?b1 = "data ! 1"
  let ?hd = "\<lambda>h v pd m pt sq ts ss cs. h\<lparr>rtp_Version := v, rtp_Padding := pd, rtp_Marker := m,
     rtp_PayloadType := pt, rtp_SequenceNumber := sq, rtp_Timestamp := ts, rtp_SSRC := ss, rtp_CSRC := cs\<rparr>"
  let ?pd = "drop_bit 5 ?b0 AND 1 \<noteq> 0" and ?m = "drop_bit 7 ?b1 AND 1 \<noteq> 0" and ?pt = "?b1 AND 127"
  let ?sq = "u16_at data 2" and ?ts = "u32_at data 4" and ?ss = "u32_at data 8"
  from assms obtain cs p' n where len: "12 \<le> length data" and v: "drop_bit 6 ?b0 AND 3 = 2"
    and cs: "(read_csrcs data 12 (unat (?b0 AND 15)) :: (rtp_error \<times> RTPPacket, _) go) = Ok cs"
    and ext: "unmarshal_rtp_extension (drop_bit 4 ?b0 AND 1 \<noteq> 0) data (12 + unat (?b0 AND 15) * 4)
         (p\<lparr>rtp_Header := ?hd (rtp_Header p) 2 ?pd ?m ?pt ?sq ?ts ?ss cs\<rparr>) = Ok (p', n)"
    and pay: "unmarshal_rtp_payload data n p' = Ok r"
    by (auto simp: UnmarshalRTPTo_def rtpFixedHeaderLen_def rtpVersion_def Let_def go_simps
        split: if_splits)
  let ?e = "drop_bit 4 ?b0 AND 1 \<noteq> 0" and ?n0 = "12 + unat (?b0 AND 15) * 4"
  from ext obtain E P X where p': "p' = p\<lparr>rtp_Header := (?hd (rtp_Header p) 2 ?pd ?m ?pt ?sq ?ts ?ss cs)
      \<lparr>rtp_Extension := E, rtp_ExtensionProfile := P, rtp_Extensions := X\<rparr>\<rparr>"
    and extq: "\<And>q. unmarshal_rtp_extension ?e data ?n0 q = Ok (q\<lparr>rtp_Header := (rtp_Header q)\<lparr>rtp_Extension := E,
        rtp_ExtensionProfile := P, rtp_Extensions := X\<rparr>\<rparr>, n)"
    and EPX: "\<not> E \<longrightarrow> P = 0 \<and> X = []"
    by (rule unmarshal_rtp_extension_OkE) simp
  from pay obtain k where r: "r = p'\<lparr>rtp_Header := (rtp_Header p')\<lparr>rtp_PaddingSize := k\<rparr>,
      rtp_Payload := take (length data - unat k - n) (drop n data)\<rparr>"
    and k: "rtp_Padding (rtp_Header p') \<longleftrightarrow> k \<noteq> 0" "n + unat k \<le> length data"
    and payq: "\<And>q. rtp_Padding (rtp_Header q) = rtp_Padding (rtp_Header p') \<Longrightarrow> unmarshal_rtp_payload data n q =
      Ok (q\<lparr>rtp_Header := (rtp_Header q)\<lparr>rtp_PaddingSize := k\<rparr>,
        rtp_Payload := take (length data - unat k - n) (drop n data)\<rparr>)"
    by (rule unmarshal_rtp_payload_OkE) simp
  have ne: "data \<noteq> []" using len by auto
  have lcs: "length cs = unat (?b0 AND 15)" using cs by (rule read_csrcs_length)
  have "?n0 \<le> n" using ext cs len by (auto dest!: read_csrcs_Ok unmarshal_rtp_extension_Ok)
  moreover have "rtp_accepted r"
    using k(1) EPX lcs by (simp add: rtp_accepted_def r p' and_15_le and_127_less)
  moreover have "UnmarshalRTPTo data q = Ok r" for q
    using len v ne
    by (cases p, cases q, cases "rtp_Header p", cases "rtp_Header q")
      (simp add: UnmarshalRTPTo_def rtpFixedHeaderLen_def rtpVersion_def index_def get_u16_def get_u32_def cs extq payq r p')
  ultimately show ?thesis using k(2) lcs by (intro that [of n]) (simp_all add: r p')
qed

section \<open>The codec contract\<close>

interpretation rtp: wire_codec rtp_ok RTPPacket_Marshal UnmarshalRTP "\<lambda>p. p"
  by unfold_locales (simp_all add: RTPPacket_Marshal_wire UnmarshalRTP_def UnmarshalRTPTo_wire)

section \<open>Properties\<close>

text \<open>
  C18. Round trip: serialising a well-formed RTP packet and parsing the bytes gives the packet back,
  with its contributing sources, header extensions of any of the three profiles, padding and payload.
\<close>
theorem rtp_roundtrip:
  assumes "rtp_ok p"
  shows "and_then (RTPPacket_Marshal p) UnmarshalRTP = Ok p"
  using rtp.encode_decode [OF assms] by auto

definition sample_rtp :: RTPPacket where
  "sample_rtp = \<lparr>rtp_Payload = [1, 2, 3], rtp_Header = \<lparr>rtp_CSRC = [7],
     rtp_Extensions = [\<lparr>ext_Payload = [9, 8], ext_ID = 3\<rparr>], rtp_Timestamp = 160, rtp_SSRC = 0xCAFE,
     rtp_SequenceNumber = 5, rtp_ExtensionProfile = ExtensionProfileOneByte, rtp_Version = 2,
     rtp_Padding = True, rtp_Marker = True, rtp_PayloadType = 8, rtp_Extension = True,
     rtp_PaddingSize = 2\<rparr>\<rparr>"

lemma sample_rtp_ok: "rtp_ok sample_rtp"
  by (simp add: rtp_ok_def exts_ok_def ext_ok_def sample_rtp_def Let_def ext_data_wire_def ext_wire_def)

theorem rtp_roundtrip_witness: "and_then (RTPPacket_Marshal sample_rtp) UnmarshalRTP = Ok sample_rtp"
  by (rule rtp_roundtrip) (rule sample_rtp_ok)

text \<open>
  C25. The serialiser fills any buffer of at least \<open>MarshalSize\<close> bytes without leaving it: the
  header, extensions and payload are written at the front and the rest of the buffer is kept, except
  that with the padding flag the last byte of the buffer (not of the packet) becomes the padding count
  and the whole buffer is returned.
\<close>
theorem rtp_MarshalTo_refines:
  assumes "rtp_ok p" and "RTPPacket_MarshalSize p \<le> length buf"
  shows "RTPPacket_MarshalTo p buf =
     (let h = rtp_Header p; out = rtp_head_wire h @ rtp_Payload p;
          buf' = out @ drop (length out) buf in
      if rtp_Padding h then Ok (buf'[length buf - 1 := rtp_PaddingSize h], length buf)
      else Ok (buf', length out))"
  using assms by (rule RTPPacket_MarshalTo_body)

theorem rtp_MarshalTo_refines_witness:
  "(case RTPPacket_MarshalTo sample_rtp (replicate 40 0) of Ok (b, n) \<Rightarrow> n = 40 | _ \<Rightarrow> False)"
proof -
  have "RTPPacket_MarshalSize sample_rtp \<le> length (replicate 40 (0 :: byte))" by code_simp
  note run = rtp_MarshalTo_refines [OF sample_rtp_ok this]
  have "rtp_Padding (rtp_Header sample_rtp)" by (simp add: sample_rtp_def)
  then show ?thesis unfolding run Let_def by (simp only: if_True go.case prod.case length_replicate)
qed

text \<open>
  C26. Exactly when the parser panics: a version-2 packet of at least twelve bytes that announces more
  contributing sources than it has bytes for.  The loop over the CSRC list has no length check, so a
  datagram of twelve bytes, \<^verbatim>\<open>81 00 ..\<close>, takes the process down; on every other input the parser returns
  a packet or an error.
\<close>
theorem UnmarshalRTP_Panic_iff:
  "UnmarshalRTP data = Panic \<longleftrightarrow>
     12 \<le> length data \<and> drop_bit 6 (data ! 0) AND 3 = 2 \<and>
     length data < 12 + 4 * unat (data ! 0 AND 15)"
  by (rule UnmarshalRTP_Panic_cases)

text \<open>
  Reusing a packet is safe: a successful parse overwrites every field, so its result does not
  depend on what the packet (taken from a pool by \<^verbatim>\<open>RTPConn.ReadRTP\<close>) held before.
\<close>
theorem UnmarshalRTPTo_fresh:
  assumes "UnmarshalRTPTo data p = Ok r"
  shows "UnmarshalRTPTo data q = Ok r"
  using assms by (rule UnmarshalRTPTo_OkE)

theorem UnmarshalRTPTo_fresh_witness:
  "UnmarshalRTPTo (rtp_wire sample_rtp) zero_RTPPacket = Ok sample_rtp"
  by (rule UnmarshalRTPTo_fresh [OF UnmarshalRTPTo_wire [OF sample_rtp_ok, of sample_rtp]])

text \<open>
  What the parser accepts: version 2, at most 15 contributing sources, a 7-bit payload type, a
  padding count exactly with the padding flag, no extension without the extension flag; and the bytes
  are accounted for: a header part, then the payload, then the padding, to the last byte.
\<close>
theorem UnmarshalRTP_accepts:
  assumes "UnmarshalRTP data = Ok p"
  shows "rtp_accepted p \<and>
    (\<exists>n. 12 + 4 * length (rtp_CSRC (rtp_Header p)) \<le> n \<and>
       rtp_Payload p = take (length (rtp_Payload p)) (drop n data) \<and>
       length data = n + length (rtp_Payload p) + unat (rtp_PaddingSize (rtp_Header p)))"
proof -
  from assms have "UnmarshalRTPTo data zero_RTPPacket = Ok p"
    by (auto simp: UnmarshalRTP_def split: go.splits)
  then obtain n where "rtp_accepted p" and "12 + 4 * length (rtp_CSRC (rtp_Header p)) \<le> n"
    and "rtp_Payload p = take (length data - unat (rtp_PaddingSize (rtp_Header p)) - n) (drop n data)"
    and "n + unat (rtp_PaddingSize (rtp_Header p)) \<le> length data"
    by (rule UnmarshalRTPTo_OkE)
  then show ?thesis by (intro conjI exI [of _ n]) auto
qed

theorem UnmarshalRTP_accepts_witness: "rtp_accepted sample_rtp"
proof -
  have "UnmarshalRTP (rtp_wire sample_rtp) = Ok sample_rtp"
    by (simp add: UnmarshalRTP_def UnmarshalRTPTo_wire sample_rtp_ok)
  from UnmarshalRTP_accepts [OF this] show ?thesis by blast
qed

end
