(* ===== verification/RTCP.thy ===== *)
theory RTCP
  imports Wire_Codec
begin

text \<open>
  RTCP control packets, \<^verbatim>\<open>proto/rtcp.go\<close>: the packet types, their serialisers, the compound
  serialiser \<^verbatim>\<open>MarshalRTCP\<close> and the compound parser \<^verbatim>\<open>UnmarshalRTCP\<close>.  Text fields (SDES item texts,
  the BYE reason, the APP name) are Go strings over arbitrary bytes and are kept as byte lists.
\<close>

section \<open>Packets\<close>

type_synonym RTCPPacketType = byte

definition RTCPTypeSR :: RTCPPacketType where "RTCPTypeSR = 200"
definition RTCPTypeRR :: RTCPPacketType where "RTCPTypeRR = 201"
definition RTCPTypeSDES :: RTCPPacketType where "RTCPTypeSDES = 202"
definition RTCPTypeBYE :: RTCPPacketType where "RTCPTypeBYE = 203"
definition RTCPTypeAPP :: RTCPPacketType where "RTCPTypeAPP = 204"

lemmas rtcp_types = RTCPTypeSR_def RTCPTypeRR_def RTCPTypeSDES_def RTCPTypeBYE_def RTCPTypeAPP_def

definition rtcpVersion :: byte where "rtcpVersion = 2"

record RTCPHeader =
  hdr_Padding :: bool
  hdr_Count :: byte
  hdr_Type :: RTCPPacketType
  hdr_Length :: u16

record ReceptionReport =
  rr_SSRC :: u32
  rr_FractionLost :: byte
  rr_TotalLost :: u32
  rr_LastSequenceNumber :: u32
  rr_Jitter :: u32
  rr_LastSenderReport :: u32
  rr_Delay :: u32

record SenderReport =
  sr_Reports :: "ReceptionReport list"
  sr_ProfileExtensions :: "byte list"
  sr_NTPTime :: u64
  sr_SSRC :: u32
  sr_RTPTime :: u32
  sr_PacketCount :: u32
  sr_OctetCount :: u32
  sr_hdr :: RTCPHeader

record ReceiverReport =
  rcv_Reports :: "ReceptionReport list"
  rcv_ProfileExtensions :: "byte list"
  rcv_SSRC :: u32
  rcv_hdr :: RTCPHeader

record SourceDescriptionItem =
  item_Text :: "byte list"
  item_Type :: byte

record SourceDescriptionChunk =
  chunk_Items :: "SourceDescriptionItem list"
  chunk_Source :: u32

record SourceDescription =
  sdes_Chunks :: "SourceDescriptionChunk list"
  sdes_hdr :: RTCPHeader

record Goodbye =
  bye_Reason :: "byte list"
  bye_Sources :: "u32 list"
  bye_hdr :: RTCPHeader

record ApplicationDefined =
  app_Name :: "byte list"
  app_Data :: "byte list"
  app_SSRC :: u32
  app_hdr :: RTCPHeader
  app_SubType :: byte

record RawRTCP =
  raw_Data :: "byte list"
  raw_HeaderField :: RTCPHeader

text \<open>The interface \<^verbatim>\<open>RTCPPacket\<close>: its six implementations.\<close>

datatype RTCPPacket =
    SR SenderReport
  | RR ReceiverReport
  | SDES SourceDescription
  | BYE Goodbye
  | APP ApplicationDefined
  | Raw RawRTCP

datatype rtcp_error =
    RtcpBufferTooSmall
  | RtcpNoPackets
  | RtcpShortHeader
  | RtcpBadVersion byte
  | RtcpTruncatedCompound
  | RtcpLengthExceeds nat nat
  | RtcpEmptyCompound
  | RtcpReportTooShort
  | RtcpReportTruncated nat
  | RtcpReportBlockTooShort
  | RtcpSdesChunkTooShort nat
  | RtcpSdesItemHeader nat
  | RtcpSdesItemText nat
  | RtcpByeSource nat
  | RtcpByeReason
  | RtcpAppTooShort

fun RTCPPacket_Header :: "RTCPPacket \<Rightarrow> RTCPHeader" where
  "RTCPPacket_Header (SR p) = sr_hdr p"
| "RTCPPacket_Header (RR p) = rcv_hdr p"
| "RTCPPacket_Header (SDES p) = sdes_hdr p"
| "RTCPPacket_Header (BYE p) = bye_hdr p"
| "RTCPPacket_Header (APP p) = app_hdr p"
| "RTCPPacket_Header (Raw p) = raw_HeaderField p"

fun RTCPPacket_DestinationSSRC :: "RTCPPacket \<Rightarrow> u32 list" where
  "RTCPPacket_DestinationSSRC (SR p) = map rr_SSRC (sr_Reports p) @ [sr_SSRC p]"
| "RTCPPacket_DestinationSSRC (RR p) = map rr_SSRC (rcv_Reports p)"
| "RTCPPacket_DestinationSSRC (SDES p) = map chunk_Source (sdes_Chunks p)"
| "RTCPPacket_DestinationSSRC (BYE p) = bye_Sources p"
| "RTCPPacket_DestinationSSRC (APP p) = [app_SSRC p]"
| "RTCPPacket_DestinationSSRC (Raw p) = []"

section \<open>Serialising\<close>

text \<open>
  Two more writers: \<^verbatim>\<open>clear(buf[off:sz])\<close>, after which the code returns \<^verbatim>\<open>sz\<close>, and the bare
  alignment of the position after an SDES chunk, which leaves the skipped bytes as they were.
\<close>

fun clear_to :: "nat \<Rightarrow> ('e, byte) writer" where
  "clear_to sz (buf, off) =
     (if off \<le> sz \<and> sz \<le> length buf then put (replicate (sz - off) 0) (buf, off) else Panic)"

fun align_pos :: "('e, byte) writer" where
  "align_pos (buf, off) = Ok (buf, align4 off)"

definition marshalHeaderTo :: "bool \<Rightarrow> byte \<Rightarrow> RTCPPacketType \<Rightarrow> u16 \<Rightarrow> ('e, byte) writer" where
  "marshalHeaderTo padding count typ len =
     (let b = push_bit 6 rtcpVersion OR (count AND 0x1F) in
      do_all [put [if padding then b OR push_bit 5 1 else b], put [typ], put (u16_bytes len)])"

definition marshalReceptionReportTo :: "ReceptionReport \<Rightarrow> ('e, byte) writer" where
  "marshalReceptionReportTo rr = do_all
     [put (u32_bytes (rr_SSRC rr)), put [rr_FractionLost rr],
      put [ucast (drop_bit 16 (rr_TotalLost rr))], put [ucast (drop_bit 8 (rr_TotalLost rr))],
      put [ucast (rr_TotalLost rr)], put (u32_bytes (rr_LastSequenceNumber rr)),
      put (u32_bytes (rr_Jitter rr)), put (u32_bytes (rr_LastSenderReport rr)),
      put (u32_bytes (rr_Delay rr))]"

definition SenderReport_MarshalSize :: "SenderReport \<Rightarrow> nat" where
  "SenderReport_MarshalSize p =
     align4 (4 + 4 + 8 + 4 + 4 + 4 + length (sr_Reports p) * 24 + length (sr_ProfileExtensions p))"

definition SenderReport_MarshalTo :: "SenderReport \<Rightarrow> byte list \<Rightarrow> (rtcp_error, byte list \<times> nat) go" where
  "SenderReport_MarshalTo p buf =
     (let sz = SenderReport_MarshalSize p; count = of_nat (length (sr_Reports p)) in
      if length buf < sz then Fail RtcpBufferTooSmall
      else do_all
        [marshalHeaderTo (hdr_Padding (sr_hdr p)) count RTCPTypeSR (of_nat (sz div 4 - 1)),
         put (u32_bytes (sr_SSRC p)), put (u64_bytes (sr_NTPTime p)), put (u32_bytes (sr_RTPTime p)),
         put (u32_bytes (sr_PacketCount p)), put (u32_bytes (sr_OctetCount p)),
         do_all (map marshalReceptionReportTo (sr_Reports p)),
         do_when (0 < length (sr_ProfileExtensions p)) (copy (sr_ProfileExtensions p)),
         clear_to sz] (buf, 0))"

definition ReceiverReport_MarshalSize :: "ReceiverReport \<Rightarrow> nat" where
  "ReceiverReport_MarshalSize p =
     align4 (4 + 4 + length (rcv_Reports p) * 24 + length (rcv_ProfileExtensions p))"

definition ReceiverReport_MarshalTo :: "ReceiverReport \<Rightarrow> byte list \<Rightarrow> (rtcp_error, byte list \<times> nat) go" where
  "ReceiverReport_MarshalTo p buf =
     (let sz = ReceiverReport_MarshalSize p; count = of_nat (length (rcv_Reports p)) in
      if length buf < sz then Fail RtcpBufferTooSmall
      else do_all
        [marshalHeaderTo (hdr_Padding (rcv_hdr p)) count RTCPTypeRR (of_nat (sz div 4 - 1)),
         put (u32_bytes (rcv_SSRC p)),
         do_all (map marshalReceptionReportTo (rcv_Reports p)),
         do_when (0 < length (rcv_ProfileExtensions p)) (copy (rcv_ProfileExtensions p)),
         clear_to sz] (buf, 0))"

definition chunk_size :: "SourceDescriptionChunk \<Rightarrow> nat" where
  "chunk_size chunk = 4 + sum_list (map (\<lambda>item. 2 + length (item_Text item)) (chunk_Items chunk)) + 1"

definition SourceDescription_MarshalSize :: "SourceDescription \<Rightarrow> nat" where
  "SourceDescription_MarshalSize p = foldl (\<lambda>sz chunk. align4 (sz + chunk_size chunk)) 4 (sdes_Chunks p)"

definition marshal_sdes_item :: "SourceDescriptionItem \<Rightarrow> ('e, byte) writer" where
  "marshal_sdes_item item =
     do_all [put [item_Type item], put [of_nat (length (item_Text item))], copy (item_Text item)]"

definition marshal_sdes_chunk :: "SourceDescriptionChunk \<Rightarrow> ('e, byte) writer" where
  "marshal_sdes_chunk chunk = do_all
     [put (u32_bytes (chunk_Source chunk)), do_all (map marshal_sdes_item (chunk_Items chunk)),
      put [0], align_pos]"

definition SourceDescription_MarshalTo ::
  "SourceDescription \<Rightarrow> byte list \<Rightarrow> (rtcp_error, byte list \<times> nat) go" where
  "SourceDescription_MarshalTo p buf =
     (let sz = SourceDescription_MarshalSize p; count = of_nat (length (sdes_Chunks p)) in
      if length buf < sz then Fail RtcpBufferTooSmall
      else and_then (do_all
        [marshalHeaderTo (hdr_Padding (sdes_hdr p)) count RTCPTypeSDES (of_nat (sz div 4 - 1)),
         do_all (map marshal_sdes_chunk (sdes_Chunks p))] (buf, 0)) (\<lambda>(buf, _). Ok (buf, sz)))"

definition Goodbye_MarshalSize :: "Goodbye \<Rightarrow> nat" where
  "Goodbye_MarshalSize p = align4 (4 + length (bye_Sources p) * 4
     + (if bye_Reason p \<noteq> [] then 1 + length (bye_Reason p) else 0))"

definition Goodbye_MarshalTo :: "Goodbye \<Rightarrow> byte list \<Rightarrow> (rtcp_error, byte list \<times> nat) go" where
  "Goodbye_MarshalTo p buf =
     (let sz = Goodbye_MarshalSize p; count = of_nat (length (bye_Sources p)) in
      if length buf < sz then Fail RtcpBufferTooSmall
      else do_all
        [marshalHeaderTo (hdr_Padding (bye_hdr p)) count RTCPTypeBYE (of_nat (sz div 4 - 1)),
         do_all (map (\<lambda>s. put (u32_bytes s)) (bye_Sources p)),
         do_when (bye_Reason p \<noteq> [])
           (do_all [put [of_nat (length (bye_Reason p))], copy (bye_Reason p)]),
         clear_to sz] (buf, 0))"

definition ApplicationDefined_MarshalSize :: "ApplicationDefined \<Rightarrow> nat" where
  "ApplicationDefined_MarshalSize p = align4 (4 + 4 + 4 + length (app_Data p))"

definition ApplicationDefined_MarshalTo ::
  "ApplicationDefined \<Rightarrow> byte list \<Rightarrow> (rtcp_error, byte list \<times> nat) go" where
  "ApplicationDefined_MarshalTo p buf =
     (let sz = ApplicationDefined_MarshalSize p in
      if length buf < sz then Fail RtcpBufferTooSmall
      else do_all
        [marshalHeaderTo (hdr_Padding (app_hdr p)) (app_SubType p) RTCPTypeAPP (of_nat (sz div 4 - 1)),
         put (u32_bytes (app_SSRC p)), copy (take (min (length (app_Name p)) 4) (app_Name p)),
         do_all (replicate (4 - length (app_Name p)) (put [0])),
         copy (app_Data p), clear_to sz] (buf, 0))"

definition RawRTCP_MarshalSize :: "RawRTCP \<Rightarrow> nat" where
  "RawRTCP_MarshalSize p = align4 (4 + length (raw_Data p))"

definition RawRTCP_MarshalTo :: "RawRTCP \<Rightarrow> byte list \<Rightarrow> (rtcp_error, byte list \<times> nat) go" where
  "RawRTCP_MarshalTo p buf =
     (let sz = RawRTCP_MarshalSize p in
      if length buf < sz then Fail RtcpBufferTooSmall
      else let h = (raw_HeaderField p)\<lparr>hdr_Length := of_nat (sz div 4 - 1)\<rparr> in
        do_all [marshalHeaderTo (hdr_Padding h) (hdr_Count h) (hdr_Type h) (hdr_Length h),
          copy (raw_Data p), clear_to sz] (buf, 0))"

fun RTCPPacket_MarshalSize :: "RTCPPacket \<Rightarrow> nat" where
  "RTCPPacket_MarshalSize (SR p) = SenderReport_MarshalSize p"
| "RTCPPacket_MarshalSize (RR p) = ReceiverReport_MarshalSize p"
| "RTCPPacket_MarshalSize (SDES p) = SourceDescription_MarshalSize p"
| "RTCPPacket_MarshalSize (BYE p) = Goodbye_MarshalSize p"
| "RTCPPacket_MarshalSize (APP p) = ApplicationDefined_MarshalSize p"
| "RTCPPacket_MarshalSize (Raw p) = RawRTCP_MarshalSize p"

fun RTCPPacket_MarshalTo :: "RTCPPacket \<Rightarrow> byte list \<Rightarrow> (rtcp_error, byte list \<times> nat) go" where
  "RTCPPacket_MarshalTo (SR p) = SenderReport_MarshalTo p"
| "RTCPPacket_MarshalTo (RR p) = ReceiverReport_MarshalTo p"
| "RTCPPacket_MarshalTo (SDES p) = SourceDescription_MarshalTo p"
| "RTCPPacket_MarshalTo (BYE p) = Goodbye_MarshalTo p"
| "RTCPPacket_MarshalTo (APP p) = ApplicationDefined_MarshalTo p"
| "RTCPPacket_MarshalTo (Raw p) = RawRTCP_MarshalTo p"

definition RTCPPacket_Marshal :: "RTCPPacket \<Rightarrow> (rtcp_error, byte list) go" where
  "RTCPPacket_Marshal p =
     and_then (RTCPPacket_MarshalTo p (replicate (RTCPPacket_MarshalSize p) 0)) (\<lambda>(buf, _). Ok buf)"

text \<open>\<^verbatim>\<open>MarshalTo(buf[n:])\<close> writes through the slice into the one buffer of the compound.\<close>

fun marshal_compound :: "RTCPPacket list \<Rightarrow> (rtcp_error, byte) writer" where
  "marshal_compound [] s = Ok s"
| "marshal_compound (p # ps) (buf, n) =
     (if length buf < n then Panic
      else and_then (RTCPPacket_MarshalTo p (drop n buf)) (\<lambda>(b, nn).
        marshal_compound ps (take n buf @ b, n + nn)))"

definition MarshalRTCP :: "RTCPPacket list \<Rightarrow> (rtcp_error, byte list) go" where
  "MarshalRTCP packets =
     (if length packets = 0 then Fail RtcpNoPackets
      else let total = sum_list (map RTCPPacket_MarshalSize packets) in
        and_then (marshal_compound packets (replicate total 0, 0)) (\<lambda>(buf, n). slice buf 0 n))"

section \<open>Parsing\<close>

definition unmarshalRTCPHeader :: "byte list \<Rightarrow> (rtcp_error, RTCPHeader) go" where
  "unmarshalRTCPHeader data =
     (if length data < 4 then Fail RtcpShortHeader
      else and_then (index data 0) (\<lambda>b0.
        let version = drop_bit 6 b0 AND 0x03 in
        if version \<noteq> rtcpVersion then Fail (RtcpBadVersion version)
        else and_then (index data 1) (\<lambda>b1.
          and_then (get_u16 data 2) (\<lambda>len.
          Ok \<lparr>hdr_Padding = (drop_bit 5 b0 AND 0x01 \<noteq> 0), hdr_Count = b0 AND 0x1F,
              hdr_Type = b1, hdr_Length = len\<rparr>))))"

definition unmarshalReceptionReport :: "byte list \<Rightarrow> (rtcp_error, ReceptionReport) go" where
  "unmarshalReceptionReport data =
     (if length data < 24 then Fail RtcpReportBlockTooShort
      else
        and_then (get_u32 data 0) (\<lambda>ssrc. and_then (index data 4) (\<lambda>fraction.
        and_then (get_u32 data 8) (\<lambda>seq. and_then (get_u32 data 12) (\<lambda>jitter.
        and_then (get_u32 data 16) (\<lambda>lsr. and_then (get_u32 data 20) (\<lambda>delay.
        and_then (index data 5) (\<lambda>b5. and_then (index data 6) (\<lambda>b6. and_then (index data 7) (\<lambda>b7.
        Ok \<lparr>rr_SSRC = ssrc, rr_FractionLost = fraction,
            rr_TotalLost = push_bit 16 (ucast b5) OR push_bit 8 (ucast b6) OR ucast b7,
            rr_LastSequenceNumber = seq, rr_Jitter = jitter, rr_LastSenderReport = lsr,
            rr_Delay = delay\<rparr>))))))))))"

text \<open>The loop over the report blocks, shared by sender and receiver reports: \<open>k\<close> blocks left.\<close>

fun unmarshal_reports :: "byte list \<Rightarrow> nat \<Rightarrow> nat \<Rightarrow> nat \<Rightarrow> (rtcp_error, ReceptionReport list \<times> nat) go" where
  "unmarshal_reports body i off 0 = Ok ([], off)"
| "unmarshal_reports body i off (Suc k) =
     (if off + 24 > length body then Fail (RtcpReportTruncated i)
      else and_then (slice body off (length body)) (\<lambda>b.
        and_then (unmarshalReceptionReport b) (\<lambda>rr.
        and_then (unmarshal_reports body (i + 1) (off + 24) k) (\<lambda>(rrs, off'). Ok (rr # rrs, off')))))"

definition unmarshalSenderReport :: "RTCPHeader \<Rightarrow> byte list \<Rightarrow> (rtcp_error, SenderReport) go" where
  "unmarshalSenderReport hdr data =
     (if length data < 28 then Fail RtcpReportTooShort
      else
        and_then (slice data 4 (length data)) (\<lambda>body.
        and_then (get_u32 body 0) (\<lambda>ssrc. and_then (get_u64 body 4) (\<lambda>ntp.
        and_then (get_u32 body 12) (\<lambda>rtp. and_then (get_u32 body 16) (\<lambda>packets.
        and_then (get_u32 body 20) (\<lambda>octets.
        and_then (unmarshal_reports body 0 24 (unat (hdr_Count hdr))) (\<lambda>(rrs, off).
        and_then (if off < length body then slice body off (length body) else Ok []) (\<lambda>ext.
        Ok \<lparr>sr_Reports = rrs, sr_ProfileExtensions = ext, sr_NTPTime = ntp, sr_SSRC = ssrc,
            sr_RTPTime = rtp, sr_PacketCount = packets, sr_OctetCount = octets, sr_hdr = hdr\<rparr>)))))))))"

definition unmarshalReceiverReport :: "RTCPHeader \<Rightarrow> byte list \<Rightarrow> (rtcp_error, ReceiverReport) go" where
  "unmarshalReceiverReport hdr data =
     (if length data < 8 then Fail RtcpReportTooShort
      else
        and_then (slice data 4 (length data)) (\<lambda>body.
        and_then (get_u32 body 0) (\<lambda>ssrc.
        and_then (unmarshal_reports body 0 4 (unat (hdr_Count hdr))) (\<lambda>(rrs, off).
        and_then (if off < length body then slice body off (length body) else Ok []) (\<lambda>ext.
        Ok \<lparr>rcv_Reports = rrs, rcv_ProfileExtensions = ext, rcv_SSRC = ssrc, rcv_hdr = hdr\<rparr>)))))"

text \<open>The items of one SDES chunk; the loop ends at a zero byte or at the end of the packet.\<close>

function unmarshal_sdes_items ::
  "byte list \<Rightarrow> nat \<Rightarrow> SourceDescriptionItem list \<Rightarrow> (rtcp_error, SourceDescriptionItem list \<times> nat) go" where
  "unmarshal_sdes_items body off items =
     (if off < length body then
        and_then (index body off) (\<lambda>typ.
        if typ = 0 then Ok (items, off + 1)
        else if off + 2 > length body then Fail (RtcpSdesItemHeader (length items))
        else and_then (index body (off + 1)) (\<lambda>b.
          let itemLen = unat b in
          if off + 2 + itemLen > length body then Fail (RtcpSdesItemText (length items))
          else and_then (slice body (off + 2) (off + 2 + itemLen)) (\<lambda>text.
            unmarshal_sdes_items body (off + 2 + itemLen) (items @ [\<lparr>item_Text = text, item_Type = typ\<rparr>]))))
      else Ok (items, off))"
  by pat_completeness auto
termination by (relation "measure (\<lambda>(body, off, items). length body - off)") auto

fun unmarshal_sdes_chunks ::
  "byte list \<Rightarrow> nat \<Rightarrow> nat \<Rightarrow> nat \<Rightarrow> (rtcp_error, SourceDescriptionChunk list) go" where
  "unmarshal_sdes_chunks body i off 0 = Ok []"
| "unmarshal_sdes_chunks body i off (Suc k) =
     (if off + 4 > length body then Fail (RtcpSdesChunkTooShort i)
      else and_then (get_u32 body off) (\<lambda>src.
        and_then (unmarshal_sdes_items body (off + 4) []) (\<lambda>(items, off').
        and_then (unmarshal_sdes_chunks body (i + 1) (align4 off') k) (\<lambda>chunks.
        Ok (\<lparr>chunk_Items = items, chunk_Source = src\<rparr> # chunks)))))"

definition unmarshalSourceDescription :: "RTCPHeader \<Rightarrow> byte list \<Rightarrow> (rtcp_error, SourceDescription) go" where
  "unmarshalSourceDescription hdr data =
     and_then (slice data 4 (length data)) (\<lambda>body.
     and_then (unmarshal_sdes_chunks body 0 0 (unat (hdr_Count hdr))) (\<lambda>chunks.
     Ok \<lparr>sdes_Chunks = chunks, sdes_hdr = hdr\<rparr>))"

fun unmarshal_bye_sources :: "byte list \<Rightarrow> nat \<Rightarrow> nat \<Rightarrow> (rtcp_error, u32 list) go" where
  "unmarshal_bye_sources body i 0 = Ok []"
| "unmarshal_bye_sources body i (Suc k) =
     (if i * 4 + 4 > length body then Fail (RtcpByeSource i)
      else and_then (get_u32 body (i * 4)) (\<lambda>s.
        and_then (unmarshal_bye_sources body (i + 1) k) (\<lambda>ss. Ok (s # ss))))"

definition unmarshalGoodbye :: "RTCPHeader \<Rightarrow> byte list \<Rightarrow> (rtcp_error, Goodbye) go" where
  "unmarshalGoodbye hdr data =
     and_then (slice data 4 (length data)) (\<lambda>body.
     and_then (unmarshal_bye_sources body 0 (unat (hdr_Count hdr))) (\<lambda>sources.
     let off = unat (hdr_Count hdr) * 4 in
     if off < length body then
       and_then (index body off) (\<lambda>b.
       let reasonLen = unat b in
       if off + 1 + reasonLen > length body then Fail RtcpByeReason
       else and_then (slice body (off + 1) (off + 1 + reasonLen)) (\<lambda>reason.
         Ok \<lparr>bye_Reason = reason, bye_Sources = sources, bye_hdr = hdr\<rparr>))
     else Ok \<lparr>bye_Reason = [], bye_Sources = sources, bye_hdr = hdr\<rparr>))"

definition strip_app_padding :: "bool \<Rightarrow> byte list \<Rightarrow> ('e, byte list) go" where
  "strip_app_padding padding data =
     (if padding \<and> 0 < length data then
        and_then (index data (length data - 1)) (\<lambda>b.
        let padSize = unat b in
        if 0 < padSize \<and> padSize \<le> length data then slice data 0 (length data - padSize) else Ok data)
      else Ok data)"

definition unmarshalApplicationDefined :: "RTCPHeader \<Rightarrow> byte list \<Rightarrow> (rtcp_error, ApplicationDefined) go" where
  "unmarshalApplicationDefined hdr data =
     (if length data < 12 then Fail RtcpAppTooShort
      else
        and_then (get_u32 data 4) (\<lambda>ssrc. and_then (slice data 8 12) (\<lambda>name.
        and_then (slice data 12 (length data)) (\<lambda>d.
        and_then (strip_app_padding (hdr_Padding hdr) d) (\<lambda>d'.
        Ok \<lparr>app_Name = name, app_Data = d', app_SSRC = ssrc, app_hdr = hdr, app_SubType = hdr_Count hdr\<rparr>)))))"

definition unmarshal_packet :: "RTCPHeader \<Rightarrow> byte list \<Rightarrow> (rtcp_error, RTCPPacket) go" where
  "unmarshal_packet hdr data =
     (if hdr_Type hdr = RTCPTypeSR then and_then (unmarshalSenderReport hdr data) (\<lambda>p. Ok (SR p))
      else if hdr_Type hdr = RTCPTypeRR then and_then (unmarshalReceiverReport hdr data) (\<lambda>p. Ok (RR p))
      else if hdr_Type hdr = RTCPTypeSDES then and_then (unmarshalSourceDescription hdr data) (\<lambda>p. Ok (SDES p))
      else if hdr_Type hdr = RTCPTypeBYE then and_then (unmarshalGoodbye hdr data) (\<lambda>p. Ok (BYE p))
      else if hdr_Type hdr = RTCPTypeAPP then and_then (unmarshalApplicationDefined hdr data) (\<lambda>p. Ok (APP p))
      else and_then (slice data 4 (length data)) (\<lambda>d. Ok (Raw \<lparr>raw_Data = d, raw_HeaderField = hdr\<rparr>)))"

text \<open>
  The compound loop.  On an error the packets parsed so far are returned with it.
\<close>

function unmarshal_compound ::
  "byte list \<Rightarrow> RTCPPacket list \<Rightarrow> (rtcp_error \<times> RTCPPacket list, RTCPPacket list) go" where
  "unmarshal_compound data packets =
     (if data = [] then Ok packets
      else if length data < 4 then Fail (RtcpTruncatedCompound, packets)
      else case unmarshalRTCPHeader data of
        Fail e \<Rightarrow> Fail (e, packets) | Panic \<Rightarrow> Panic
      | Ok hdr \<Rightarrow>
          (let pktLen = (unat (hdr_Length hdr) + 1) * 4 in
           if pktLen > length data then Fail (RtcpLengthExceeds pktLen (length data), packets)
           else and_then (slice data 0 pktLen) (\<lambda>pktData. case unmarshal_packet hdr pktData of
             Fail e \<Rightarrow> Fail (e, packets) | Panic \<Rightarrow> Panic
           | Ok pkt \<Rightarrow> and_then (slice data pktLen (length data)) (\<lambda>data. unmarshal_compound data (packets @ [pkt])))))"
  by pat_completeness auto
termination by (relation "measure (\<lambda>(data, packets). length data)") (auto simp: slice_def split: if_splits)

definition UnmarshalRTCP :: "byte list \<Rightarrow> (rtcp_error \<times> RTCPPacket list, RTCPPacket list) go" where
  "UnmarshalRTCP data =
     and_then (unmarshal_compound data []) (\<lambda>packets.
     if length packets = 0 then Fail (RtcpEmptyCompound, []) else Ok packets)"

declare unmarshal_sdes_items.simps [simp del] unmarshal_compound.simps [simp del]

section \<open>The wire format\<close>

text \<open>
  What the serialisers should produce, packet by packet: the header, the body and zeros up to the next
  word.  \<open>rtcp_canon\<close> is the packet as the parser gives it back: the unexported header field
  filled in from the packet, whatever it was before.  \<open>rtcp_ok\<close> says which packets survive the
  trip: counts of at most 31, 24-bit loss counters, texts of at most 255 bytes, whole words of extension
  data, a four-byte APP name, and no APP data that its own padding flag would strip.
\<close>

definition rtcp_hdr_byte :: "bool \<Rightarrow> byte \<Rightarrow> byte" where
  "rtcp_hdr_byte padding count =
     (let b = push_bit 6 2 OR (count AND 0x1F) in if padding then b OR push_bit 5 1 else b)"

definition rtcp_hdr_wire :: "bool \<Rightarrow> byte \<Rightarrow> RTCPPacketType \<Rightarrow> nat \<Rightarrow> byte list" where
  "rtcp_hdr_wire padding count typ sz =
     [rtcp_hdr_byte padding count, typ] @ u16_bytes (of_nat (sz div 4 - 1))"

definition rr_wire :: "ReceptionReport \<Rightarrow> byte list" where
  "rr_wire rr = u32_bytes (rr_SSRC rr) @ [rr_FractionLost rr, ucast (drop_bit 16 (rr_TotalLost rr)),
     ucast (drop_bit 8 (rr_TotalLost rr)), ucast (rr_TotalLost rr)]
     @ u32_bytes (rr_LastSequenceNumber rr) @ u32_bytes (rr_Jitter rr)
     @ u32_bytes (rr_LastSenderReport rr) @ u32_bytes (rr_Delay rr)"

definition item_wire :: "SourceDescriptionItem \<Rightarrow> byte list" where
  "item_wire item = item_Type item # of_nat (length (item_Text item)) # item_Text item"

definition chunk_wire :: "SourceDescriptionChunk \<Rightarrow> byte list" where
  "chunk_wire chunk = u32_bytes (chunk_Source chunk) @ concat (map item_wire (chunk_Items chunk))
     @ replicate (align4 (chunk_size chunk) - chunk_size chunk + 1) 0"

fun rtcp_body :: "RTCPPacket \<Rightarrow> byte list" where
  "rtcp_body (SR p) = u32_bytes (sr_SSRC p) @ u64_bytes (sr_NTPTime p) @ u32_bytes (sr_RTPTime p)
     @ u32_bytes (sr_PacketCount p) @ u32_bytes (sr_OctetCount p)
     @ concat (map rr_wire (sr_Reports p)) @ sr_ProfileExtensions p"
| "rtcp_body (RR p) = u32_bytes (rcv_SSRC p) @ concat (map rr_wire (rcv_Reports p)) @ rcv_ProfileExtensions p"
| "rtcp_body (SDES p) = concat (map chunk_wire (sdes_Chunks p))"
| "rtcp_body (BYE p) = concat (map u32_bytes (bye_Sources p))
     @ (if bye_Reason p = [] then [] else of_nat (length (bye_Reason p)) # bye_Reason p)"
| "rtcp_body (APP p) = u32_bytes (app_SSRC p) @ take 4 (app_Name p)
     @ replicate (4 - length (app_Name p)) 0 @ app_Data p"
| "rtcp_body (Raw p) = raw_Data p"

fun rtcp_count :: "RTCPPacket \<Rightarrow> byte" where
  "rtcp_count (SR p) = of_nat (length (sr_Reports p))"
| "rtcp_count (RR p) = of_nat (length (rcv_Reports p))"
| "rtcp_count (SDES p) = of_nat (length (sdes_Chunks p))"
| "rtcp_count (BYE p) = of_nat (length (bye_Sources p))"
| "rtcp_count (APP p) = app_SubType p"
| "rtcp_count (Raw p) = hdr_Count (raw_HeaderField p)"

fun rtcp_type :: "RTCPPacket \<Rightarrow> RTCPPacketType" where
  "rtcp_type (SR p) = RTCPTypeSR"
| "rtcp_type (RR p) = RTCPTypeRR"
| "rtcp_type (SDES p) = RTCPTypeSDES"
| "rtcp_type (BYE p) = RTCPTypeBYE"
| "rtcp_type (APP p) = RTCPTypeAPP"
| "rtcp_type (Raw p) = hdr_Type (raw_HeaderField p)"

definition rtcp_wire :: "RTCPPacket \<Rightarrow> byte list" where
  "rtcp_wire p = (let sz = RTCPPacket_MarshalSize p in
     rtcp_hdr_wire (hdr_Padding (RTCPPacket_Header p)) (rtcp_count p) (rtcp_type p) sz
     @ rtcp_body p @ replicate (sz - (4 + length (rtcp_body p))) 0)"

definition rtcp_header_of :: "RTCPPacket \<Rightarrow> RTCPHeader" where
  "rtcp_header_of p = \<lparr>hdr_Padding = hdr_Padding (RTCPPacket_Header p), hdr_Count = rtcp_count p,
     hdr_Type = rtcp_type p, hdr_Length = of_nat (RTCPPacket_MarshalSize p div 4 - 1)\<rparr>"

fun rtcp_canon :: "RTCPPacket \<Rightarrow> RTCPPacket" where
  "rtcp_canon (SR p) = SR (p\<lparr>sr_hdr := rtcp_header_of (SR p)\<rparr>)"
| "rtcp_canon (RR p) = RR (p\<lparr>rcv_hdr := rtcp_header_of (RR p)\<rparr>)"
| "rtcp_canon (SDES p) = SDES (p\<lparr>sdes_hdr := rtcp_header_of (SDES p)\<rparr>)"
| "rtcp_canon (BYE p) = BYE (p\<lparr>bye_hdr := rtcp_header_of (BYE p)\<rparr>)"
| "rtcp_canon (APP p) = APP (p\<lparr>app_hdr := rtcp_header_of (APP p)\<rparr>)"
| "rtcp_canon (Raw p) = Raw (p\<lparr>raw_HeaderField := rtcp_header_of (Raw p)\<rparr>)"

definition rr_ok :: "ReceptionReport \<Rightarrow> bool" where
  "rr_ok rr \<longleftrightarrow> drop_bit 24 (rr_TotalLost rr) = 0"

definition item_ok :: "SourceDescriptionItem \<Rightarrow> bool" where
  "item_ok item \<longleftrightarrow> item_Type item \<noteq> 0 \<and> length (item_Text item) \<le> 255"

fun rtcp_body_ok :: "RTCPPacket \<Rightarrow> bool" where
  "rtcp_body_ok (SR p) \<longleftrightarrow> length (sr_Reports p) < 32 \<and> list_all rr_ok (sr_Reports p)
     \<and> 4 dvd length (sr_ProfileExtensions p)"
| "rtcp_body_ok (RR p) \<longleftrightarrow> length (rcv_Reports p) < 32 \<and> list_all rr_ok (rcv_Reports p)
     \<and> 4 dvd length (rcv_ProfileExtensions p)"
| "rtcp_body_ok (SDES p) \<longleftrightarrow> length (sdes_Chunks p) < 32
     \<and> list_all (\<lambda>c. list_all item_ok (chunk_Items c)) (sdes_Chunks p)"
| "rtcp_body_ok (BYE p) \<longleftrightarrow> length (bye_Sources p) < 32 \<and> length (bye_Reason p) \<le> 255"
| "rtcp_body_ok (APP p) \<longleftrightarrow> app_SubType p < 32 \<and> length (app_Name p) = 4 \<and> 4 dvd length (app_Data p)
     \<and> (hdr_Padding (app_hdr p) \<and> app_Data p \<noteq> [] \<longrightarrow>
          last (app_Data p) = 0 \<or> length (app_Data p) < unat (last (app_Data p)))"
| "rtcp_body_ok (Raw p) \<longleftrightarrow> hdr_Count (raw_HeaderField p) < 32 \<and> 4 dvd length (raw_Data p)
     \<and> hdr_Type (raw_HeaderField p) \<notin> {RTCPTypeSR, RTCPTypeRR, RTCPTypeSDES, RTCPTypeBYE, RTCPTypeAPP}"

definition rtcp_ok :: "RTCPPacket \<Rightarrow> bool" where
  "rtcp_ok p \<longleftrightarrow> rtcp_body_ok p \<and> RTCPPacket_MarshalSize p \<le> 65536 * 4"

text \<open>
  What the compound parser promises of each packet it returns: the length field of the header counts the
  words of the packet, and type and count of the header describe it.
\<close>

definition rtcp_sized :: "RTCPPacket \<Rightarrow> nat" where
  "rtcp_sized p = (unat (hdr_Length (RTCPPacket_Header p)) + 1) * 4"

definition rtcp_consistent :: "RTCPPacket \<Rightarrow> bool" where
  "rtcp_consistent p \<longleftrightarrow> hdr_Type (RTCPPacket_Header p) = rtcp_type p \<and>
     hdr_Count (RTCPPacket_Header p) = rtcp_count p \<and> rtcp_count p < 32"

section \<open>The code writes the wire format\<close>

lemma length_rr_wire [simp]: "length (rr_wire rr) = 24"
  by (simp add: rr_wire_def)

lemma length_concat_rr [simp]: "length (concat (map rr_wire rrs)) = 24 * length rrs"
  by (induction rrs) auto

lemma length_rtcp_hdr_wire [simp]: "length (rtcp_hdr_wire padding count typ sz) = 4"
  by (simp add: rtcp_hdr_wire_def)

lemma length_items: "length (concat (map item_wire items)) = sum_list (map (\<lambda>item. 2 + length (item_Text item)) items)"
  by (induction items) (auto simp: item_wire_def)

lemma length_chunk_wire [simp]: "length (chunk_wire c) = align4 (chunk_size c)"
  using align4_ge [of "chunk_size c"] unfolding chunk_wire_def length_append length_items
  by (simp add: chunk_size_def)

lemma foldl_align:
  "4 dvd a \<Longrightarrow> foldl (\<lambda>sz c. align4 (sz + chunk_size c)) a cs = a + length (concat (map chunk_wire cs))"
proof (induction cs arbitrary: a)
  case (Cons c cs)
  have "4 dvd a + align4 (chunk_size c)" using Cons.prems align4_dvd by (rule dvd_add)
  then show ?case using Cons by (simp add: align4_add)
qed simp

lemma sdes_size: "SourceDescription_MarshalSize p = 4 + length (rtcp_body (SDES p))"
  by (simp add: SourceDescription_MarshalSize_def foldl_align)

lemma concat_chunks_dvd: "4 dvd length (concat (map chunk_wire cs))"
  by (induction cs) (simp_all add: align4_dvd)

lemma rtcp_size_dvd: "4 dvd RTCPPacket_MarshalSize p"
proof (cases p)
  case (SDES q)
  then show ?thesis using concat_chunks_dvd [of "sdes_Chunks q"] by (simp add: sdes_size)
qed (simp_all add: align4_dvd SenderReport_MarshalSize_def ReceiverReport_MarshalSize_def
    Goodbye_MarshalSize_def ApplicationDefined_MarshalSize_def RawRTCP_MarshalSize_def)

lemma rtcp_size_ge: "4 + length (rtcp_body p) \<le> RTCPPacket_MarshalSize p"
proof (cases p)
  case (SR q)
  show ?thesis unfolding SR RTCPPacket_MarshalSize.simps SenderReport_MarshalSize_def
    by (rule order_trans [OF _ align4_ge]) simp
next
  case (RR q)
  show ?thesis unfolding RR RTCPPacket_MarshalSize.simps ReceiverReport_MarshalSize_def
    by (rule order_trans [OF _ align4_ge]) simp
next
  case (BYE q)
  show ?thesis unfolding BYE RTCPPacket_MarshalSize.simps Goodbye_MarshalSize_def
    by (rule order_trans [OF _ align4_ge]) simp
next
  case (APP q)
  show ?thesis unfolding APP RTCPPacket_MarshalSize.simps ApplicationDefined_MarshalSize_def
    by (rule order_trans [OF _ align4_ge]) simp
next
  case (Raw q)
  show ?thesis unfolding Raw RTCPPacket_MarshalSize.simps RawRTCP_MarshalSize_def
    by (rule order_trans [OF _ align4_ge]) simp
qed (simp add: sdes_size)

lemma length_rtcp_wire [simp]: "length (rtcp_wire p) = RTCPPacket_MarshalSize p"
  using rtcp_size_ge [of p] by (simp add: rtcp_wire_def Let_def)

lemma emits_rtcp_header: "emits (marshalHeaderTo padding count typ (of_nat (sz div 4 - 1))) (rtcp_hdr_wire padding count typ sz)"
  unfolding marshalHeaderTo_def Let_def
  by (rule emits_eq, (rule emits_intros)+) (simp add: rtcp_hdr_wire_def rtcp_hdr_byte_def rtcpVersion_def)

lemma emits_rr: "emits (marshalReceptionReportTo rr) (rr_wire rr)"
  unfolding marshalReceptionReportTo_def
  by (rule emits_eq, (rule emits_intros)+) (simp add: rr_wire_def)

lemma emits_item: "emits (marshal_sdes_item item) (item_wire item)"
  unfolding marshal_sdes_item_def
  by (rule emits_eq, (rule emits_intros)+) (simp add: item_wire_def)

lemmas rtcp_emits = emits_rtcp_header emits_rr emits_item

lemma do_all_append: "do_all (ws @ vs) s = and_then (do_all ws s) (do_all vs)"
proof (induction ws arbitrary: s)
  case (Cons w ws)
  then show ?case by (cases "w s") (simp_all add: writer_simps)
qed (simp add: writer_simps)

lemma do_all_single: "do_all [w] s = w s"
  by (cases "w s") (simp_all add: writer_simps)

lemma do_all_pair: "do_all [v, w] s = and_then (v s) w"
  by (cases "v s") (simp_all add: do_all.simps(2) [of v "[w]"] do_all_single)

lemma emits_clear:
  assumes "emits (do_all ws) out" and "length out \<le> sz" and "sz \<le> length buf"
  shows "do_all (ws @ [clear_to sz]) (buf, 0) = Ok (out @ replicate (sz - length out) 0 @ drop sz buf, sz)"
proof -
  have run: "do_all ws (buf, 0) = Ok (out @ drop (length out) buf, length out)"
    using assms by (intro emits_run) auto
  have "drop (length out) buf = take (sz - length out) (drop (length out) buf) @ drop sz buf"
    by (metis append_take_drop_id assms(2) drop_drop le_add_diff_inverse2)
  moreover have "put (replicate (sz - length out) 0) (out @ take (sz - length out) (drop (length out) buf) @ drop sz buf, length out)
      = (Ok (out @ replicate (sz - length out) 0 @ drop sz buf, sz) :: ('a, byte list \<times> nat) go)"
    using assms by (subst emitsD [OF emits_put]) simp_all
  ultimately show ?thesis unfolding do_all_append run using assms by (simp add: do_all_single)
qed

lemma marshal_clear:
  assumes "RTCPPacket_MarshalSize p \<le> length buf"
    and "emits (do_all (butlast ws)) (rtcp_hdr_wire (hdr_Padding (RTCPPacket_Header p)) (rtcp_count p) (rtcp_type p)
       (RTCPPacket_MarshalSize p) @ rtcp_body p)"
    and "ws \<noteq> []" and "last ws = clear_to (RTCPPacket_MarshalSize p)"
  shows "(if length buf < RTCPPacket_MarshalSize p then e else do_all ws (buf, 0)) =
    Ok (rtcp_wire p @ drop (RTCPPacket_MarshalSize p) buf, RTCPPacket_MarshalSize p)"
proof -
  have "ws = butlast ws @ [clear_to (RTCPPacket_MarshalSize p)]"
    using assms(3,4) by (metis append_butlast_last_id)
  with emits_clear [OF assms(2) _ assms(1)] rtcp_size_ge [of p] assms(1) show ?thesis
    by (simp add: rtcp_wire_def Let_def)
qed

lemmas size_fold = RTCPPacket_MarshalSize.simps [symmetric]

lemmas MarshalTo_defs = SenderReport_MarshalTo_def ReceiverReport_MarshalTo_def Goodbye_MarshalTo_def
  ApplicationDefined_MarshalTo_def RawRTCP_MarshalTo_def

lemma butlast_Cons_Cons: "butlast (x # y # zs) = x # butlast (y # zs)" "butlast [x] = []"
  by simp_all

lemma hdr_update:
  "hdr_Padding (h\<lparr>hdr_Length := l\<rparr>) = hdr_Padding h" "hdr_Count (h\<lparr>hdr_Length := l\<rparr>) = hdr_Count h"
  "hdr_Type (h\<lparr>hdr_Length := l\<rparr>) = hdr_Type h" "hdr_Length (h\<lparr>hdr_Length := l\<rparr>) = l"
  by simp_all

lemma MarshalTo_wire_clear:
  assumes "RTCPPacket_MarshalSize p \<le> length buf" and "\<And>q. p \<noteq> SDES q"
  shows "RTCPPacket_MarshalTo p buf =
    Ok (rtcp_wire p @ drop (RTCPPacket_MarshalSize p) buf, RTCPPacket_MarshalSize p)"
proof (cases p)
  case (SR q)
  show ?thesis using assms(1)
    unfolding SR RTCPPacket_MarshalTo.simps MarshalTo_defs size_fold Let_def
  proof (rule marshal_clear, goal_cases)
    case 1 show ?case unfolding butlast_Cons_Cons
      by (rule emits_eq, (rule emits_intros rtcp_emits)+) simp
  qed simp_all
next
  case (RR q)
  show ?thesis using assms(1)
    unfolding RR RTCPPacket_MarshalTo.simps MarshalTo_defs size_fold Let_def
  proof (rule marshal_clear, goal_cases)
    case 1 show ?case unfolding butlast_Cons_Cons
      by (rule emits_eq, (rule emits_intros rtcp_emits)+) simp
  qed simp_all
next
  case (SDES q)
  then show ?thesis using assms(2) by simp
next
  case (BYE q)
  show ?thesis using assms(1)
    unfolding BYE RTCPPacket_MarshalTo.simps MarshalTo_defs size_fold Let_def
  proof (rule marshal_clear, goal_cases)
    case 1 show ?case unfolding butlast_Cons_Cons
      by (rule emits_eq, (rule emits_intros rtcp_emits)+) simp
  qed simp_all
next
  case (APP q)
  show ?thesis using assms(1)
    unfolding APP RTCPPacket_MarshalTo.simps MarshalTo_defs size_fold Let_def
  proof (rule marshal_clear, goal_cases)
    case 1 show ?case unfolding butlast_Cons_Cons
      by (rule emits_eq, (rule emits_intros rtcp_emits)+) (simp add: min_def)
  qed simp_all
next
  case (Raw q)
  show ?thesis using assms(1)
    unfolding Raw RTCPPacket_MarshalTo.simps MarshalTo_defs size_fold Let_def
  proof (rule marshal_clear, goal_cases)
    case 1 show ?case unfolding butlast_Cons_Cons hdr_update
      by (rule emits_eq, (rule emits_intros rtcp_emits)+) simp
  qed simp_all
qed

text \<open>
  An SDES chunk is followed by a bare alignment of the position, so the serialiser relies on the
  zeros of a fresh buffer.
\<close>

lemma marshal_chunk:
  assumes "4 dvd length pre"
  shows "marshal_sdes_chunk c (pre @ replicate (align4 (chunk_size c)) 0 @ rest, length pre) =
     Ok (pre @ chunk_wire c @ rest, length pre + align4 (chunk_size c))"
proof -
  let ?out = "u32_bytes (chunk_Source c) @ concat (map item_wire (chunk_Items c)) @ [0]"
  let ?ws = "[put (u32_bytes (chunk_Source c)), do_all (map marshal_sdes_item (chunk_Items c)), put [0]]
     :: ('e, byte) writer list"
  let ?k = "align4 (chunk_size c) - chunk_size c"
  have len: "length ?out = chunk_size c"
    by (simp only: length_append length_items) (simp add: chunk_size_def)
  have "emits (do_all ?ws) ?out"
    by (rule emits_eq, (rule emits_intros rtcp_emits)+) simp
  from emitsD [OF this, of "replicate (chunk_size c) 0" "length pre" pre "replicate ?k 0 @ rest"]
  have run: "do_all ?ws (pre @ replicate (chunk_size c) 0 @ replicate ?k 0 @ rest, length pre) =
      Ok (pre @ ?out @ replicate ?k 0 @ rest, length pre + chunk_size c)"
    unfolding len by simp
  have rep: "replicate (align4 (chunk_size c)) 0 @ rest = replicate (chunk_size c) 0 @ replicate ?k 0 @ rest"
    using align4_ge [of "chunk_size c"] by (simp flip: replicate_add add: append_assoc [symmetric])
  have unf: "marshal_sdes_chunk c s = and_then (do_all ?ws s) (do_all [align_pos])" for s
    using do_all_append [of ?ws "[align_pos]" s] by (simp add: marshal_sdes_chunk_def)
  show ?thesis unfolding rep unf run and_then.simps
    using assms by (simp add: do_all_single align4_add chunk_wire_def)
qed

lemma marshal_chunks:
  assumes "4 dvd length pre"
  shows "do_all (map marshal_sdes_chunk cs) (pre @ replicate (length (concat (map chunk_wire cs))) 0 @ rest, length pre) =
     Ok (pre @ concat (map chunk_wire cs) @ rest, length pre + length (concat (map chunk_wire cs)))"
  using assms
proof (induction cs arbitrary: pre)
  case (Cons c cs)
  have dvd: "4 dvd length (pre @ chunk_wire c)" using Cons.prems align4_dvd by simp
  show ?case
    using Cons.IH [OF dvd]
    by (simp add: writer_simps replicate_add marshal_chunk [OF Cons.prems])
qed (simp add: writer_simps)

lemma SDES_MarshalTo_wire:
  assumes "RTCPPacket_MarshalSize (SDES p) \<le> length buf"
    and "take (RTCPPacket_MarshalSize (SDES p)) buf = replicate (RTCPPacket_MarshalSize (SDES p)) 0"
  shows "RTCPPacket_MarshalTo (SDES p) buf =
    Ok (rtcp_wire (SDES p) @ drop (RTCPPacket_MarshalSize (SDES p)) buf, RTCPPacket_MarshalSize (SDES p))"
proof -
  let ?sz = "SourceDescription_MarshalSize p" and ?body = "concat (map chunk_wire (sdes_Chunks p))"
  let ?h = "rtcp_hdr_wire (hdr_Padding (sdes_hdr p)) (of_nat (length (sdes_Chunks p))) RTCPTypeSDES ?sz"
  have "[] @ replicate 4 0 @ replicate (length ?body) 0 @ drop ?sz buf = replicate ?sz 0 @ drop ?sz buf"
    by (simp add: sdes_size replicate_add)
  also have "\<dots> = buf" using assms(2) by (metis append_take_drop_id RTCPPacket_MarshalSize.simps(3))
  finally have buf: "buf = [] @ replicate 4 0 @ replicate (length ?body) 0 @ drop ?sz buf" ..
  have h: "marshalHeaderTo (hdr_Padding (sdes_hdr p)) (of_nat (length (sdes_Chunks p))) RTCPTypeSDES
      (of_nat (?sz div 4 - 1)) (buf, 0) =
      (Ok (?h @ replicate (length ?body) 0 @ drop ?sz buf, 4) :: (rtcp_error, byte list \<times> nat) go)"
    by (subst buf, subst emitsD [OF emits_rtcp_header]) simp_all
  have chunks: "do_all (map marshal_sdes_chunk (sdes_Chunks p)) (?h @ replicate (length ?body) 0 @ drop ?sz buf, 4) =
      (Ok (?h @ ?body @ drop ?sz buf, 4 + length ?body) :: (rtcp_error, byte list \<times> nat) go)"
    using marshal_chunks [of ?h "sdes_Chunks p" "drop ?sz buf", where 'a = rtcp_error] by simp
  show ?thesis
    unfolding RTCPPacket_MarshalTo.simps SourceDescription_MarshalTo_def Let_def do_all_pair h and_then.simps chunks
    using assms(1) by (simp add: rtcp_wire_def sdes_size)
qed

lemma MarshalTo_wire:
  assumes "RTCPPacket_MarshalSize p \<le> length buf"
    and "(\<exists>q. p = SDES q) \<Longrightarrow> take (RTCPPacket_MarshalSize p) buf = replicate (RTCPPacket_MarshalSize p) 0"
  shows "RTCPPacket_MarshalTo p buf =
    Ok (rtcp_wire p @ drop (RTCPPacket_MarshalSize p) buf, RTCPPacket_MarshalSize p)"
  using assms MarshalTo_wire_clear [of p buf] SDES_MarshalTo_wire [of _ buf] by metis

lemma marshal_compound_wire:
  "marshal_compound ps (pre @ replicate (sum_list (map RTCPPacket_MarshalSize ps)) 0, length pre) =
     Ok (pre @ concat (map rtcp_wire ps), length pre + sum_list (map RTCPPacket_MarshalSize ps))"
proof (induction ps arbitrary: pre)
  case (Cons p ps)
  show ?case using Cons.IH [of "pre @ rtcp_wire p"]
    by (simp add: MarshalTo_wire replicate_add)
qed simp

lemma MarshalRTCP_wire:
  assumes "ps \<noteq> []"
  shows "MarshalRTCP ps = Ok (concat (map rtcp_wire ps))"
proof -
  have "length (concat (map rtcp_wire ps)) = sum_list (map RTCPPacket_MarshalSize ps)"
    by (induction ps) simp_all
  then show ?thesis
    using assms marshal_compound_wire [of ps "[]"] by (simp add: MarshalRTCP_def Let_def slice_def)
qed

section \<open>The parser inverts the wire format\<close>

lemma header_byte_table:
  "list_all (\<lambda>n. list_all (\<lambda>p. let b = rtcp_hdr_byte p (of_nat n) in
     drop_bit 6 b AND 3 = 2 \<and> (drop_bit 5 b AND 1 \<noteq> 0) = p \<and> b AND 31 = of_nat n) [True, False]) [0..<32]"
  by code_simp

lemma header_byte:
  assumes "c < 32"
  shows "drop_bit 6 (rtcp_hdr_byte p c) AND 3 = 2" and "(drop_bit 5 (rtcp_hdr_byte p c) AND 1 \<noteq> 0) = p"
    and "rtcp_hdr_byte p c AND 31 = c"
proof -
  have "unat c < 32" using assms unat_mono [of c 32] by simp
  then have "unat c \<in> set [0..<32]" by simp
  moreover have "p \<in> set [True, False]" by simp
  ultimately have "let b = rtcp_hdr_byte p (of_nat (unat c)) in
     drop_bit 6 b AND 3 = 2 \<and> (drop_bit 5 b AND 1 \<noteq> 0) = p \<and> b AND 31 = of_nat (unat c)"
    using header_byte_table unfolding list_all_iff by blast
  then show "drop_bit 6 (rtcp_hdr_byte p c) AND 3 = 2" "(drop_bit 5 (rtcp_hdr_byte p c) AND 1 \<noteq> 0) = p"
    "rtcp_hdr_byte p c AND 31 = c"
    by (simp_all add: Let_def)
qed

lemma rtcp_ok_count: "rtcp_ok p \<Longrightarrow> rtcp_count p < 32"
  by (cases p) (auto simp: rtcp_ok_def word_less_nat_alt unat_of_nat)

lemma unmarshal_header_wire:
  assumes "c < 32"
  shows "unmarshalRTCPHeader (rtcp_hdr_wire padding c typ sz @ rest) =
     Ok \<lparr>hdr_Padding = padding, hdr_Count = c, hdr_Type = typ, hdr_Length = of_nat (sz div 4 - 1)\<rparr>"
  using header_byte [OF assms, of padding]
  by (simp add: unmarshalRTCPHeader_def rtcp_hdr_wire_def reads rtcpVersion_def Let_def)

lemma total_lost_bytes:
  assumes "drop_bit 24 (v :: u32) = 0"
  shows "push_bit 16 (ucast (ucast (drop_bit 16 v) :: byte)) OR push_bit 8 (ucast (ucast (drop_bit 8 v) :: byte))
     OR ucast (ucast v :: byte) = v"
proof (rule bit_word_eqI)
  fix n assume n: "n < LENGTH(32)"
  have "bit v m = bit (drop_bit 24 v) (m - 24)" if "24 \<le> m" for m
    using that by (simp add: bit_drop_bit_eq)
  then have hi: "\<not> bit v n" if "24 \<le> n" using that assms by simp
  consider "n < 8" | "8 \<le> n" "n < 16" | "16 \<le> n" "n < 24" | "24 \<le> n" by linarith
  then show "bit (push_bit 16 (ucast (ucast (drop_bit 16 v) :: byte)) OR push_bit 8 (ucast (ucast (drop_bit 8 v) :: byte))
     OR ucast (ucast v :: byte) :: u32) n = bit v n"
    using n hi by cases (simp_all add: bit_simps less_diff_conv2)
qed

lemma unmarshal_rr_wire: "rr_ok rr \<Longrightarrow> unmarshalReceptionReport (rr_wire rr @ rest) = Ok rr"
  by (simp add: unmarshalReceptionReport_def rr_wire_def reads rr_ok_def total_lost_bytes)

lemma unmarshal_reports_wire:
  assumes "list_all rr_ok rrs"
  shows "unmarshal_reports (pre @ concat (map rr_wire rrs) @ rest) i (length pre) (length rrs) =
     Ok (rrs, length pre + 24 * length rrs)"
  using assms
proof (induction rrs arbitrary: pre i)
  case (Cons rr rrs)
  show ?case using Cons.prems Cons.IH [of "pre @ rr_wire rr" "i + 1"]
    by (simp add: slice_def unmarshal_rr_wire)
qed simp


lemma unat_u16: "n < 65536 \<Longrightarrow> unat (of_nat n :: u16) = n"
  by (simp add: unat_of_nat)

lemma unat_count: "n < 32 \<Longrightarrow> unat (of_nat n :: byte) = n"
  by (simp add: unat_of_nat)

lemma item_eta: "\<lparr>item_Text = item_Text i, item_Type = item_Type i\<rparr> = i"
  by simp

lemma unmarshal_items_wire:
  assumes "list_all item_ok items"
  shows "unmarshal_sdes_items (pre @ concat (map item_wire items) @ 0 # rest) (length pre) acc =
     Ok (acc @ items, length pre + length (concat (map item_wire items)) + 1)"
  using assms
proof (induction items arbitrary: pre acc)
  case Nil
  show ?case by (subst unmarshal_sdes_items.simps) (simp add: index_def)
next
  case (Cons item items)
  have "unat (of_nat (length (item_Text item)) :: byte) = length (item_Text item)"
    using Cons.prems by (simp add: item_ok_def unat_of_nat)
  moreover have "unmarshal_sdes_items (pre @ item_wire item @ concat (map item_wire items) @ 0 # rest)
      (length pre + 2 + length (item_Text item)) (acc @ [item]) =
      Ok (acc @ item # items, length pre + length (concat (map item_wire (item # items))) + 1)"
    using Cons.prems Cons.IH [of "pre @ item_wire item" "acc @ [item]"]
    by (simp add: item_wire_def [of item] numeral_2_eq_2)
  ultimately show ?case using Cons.prems
    by (subst unmarshal_sdes_items.simps)
      (simp add: item_wire_def [of item] item_ok_def nth_append index_def slice_def Let_def
        item_eta)
qed

lemma unmarshal_chunks_wire:
  assumes "list_all (\<lambda>c. list_all item_ok (chunk_Items c)) cs" and "4 dvd length pre"
  shows "unmarshal_sdes_chunks (pre @ concat (map chunk_wire cs)) i (length pre) (length cs) = Ok cs"
  using assms
proof (induction cs arbitrary: pre i)
  case (Cons c cs)
  let ?k = "align4 (chunk_size c) - chunk_size c" and ?post = "concat (map chunk_wire cs)"
  let ?body = "pre @ concat (map chunk_wire (c # cs))"
  have body: "?body = (pre @ u32_bytes (chunk_Source c)) @ concat (map item_wire (chunk_Items c)) @ 0 # replicate ?k 0 @ ?post"
    by (simp add: chunk_wire_def)
  have items: "unmarshal_sdes_items ?body (length pre + 4) [] = Ok (chunk_Items c, length pre + chunk_size c)"
    using Cons.prems(1) unmarshal_items_wire [of "chunk_Items c" "pre @ u32_bytes (chunk_Source c)" "replicate ?k 0 @ ?post" "[]"]
    unfolding body length_items by (simp add: chunk_size_def)
  have src: "get_u32 ?body (length pre) = Ok (chunk_Source c)"
    by (simp add: chunk_wire_def reads)
  have "4 dvd length (pre @ chunk_wire c)" using Cons.prems(2) align4_dvd by simp
  from Cons.IH [OF _ this, of "i + 1"] Cons.prems
  have rest: "unmarshal_sdes_chunks ?body (i + 1) (length pre + align4 (chunk_size c)) (length cs) = Ok cs" by simp
  have "\<not> length pre + 4 > length ?body"
    using align4_ge [of "chunk_size c"] by (simp add: chunk_size_def)
  then show ?case
    using Cons.prems(2) by (simp only: list.size unmarshal_sdes_chunks.simps add_Suc_right add_0_right
        if_False and_then.simps src items rest split: prod.split)
      (simp add: align4_add rest [simplified] )
qed simp

lemma unmarshal_sources_wire:
  "unmarshal_bye_sources (concat (map u32_bytes (xs @ ys)) @ rest) (length xs) (length ys) = Ok ys"
proof (induction ys arbitrary: xs)
  case (Cons y ys)
  show ?case using Cons.IH [of "xs @ [y]"] by (simp add: reads)
qed simp

lemma slice_body: "length h = 4 \<Longrightarrow> slice (h @ b) 4 (length (h @ b)) = Ok b"
  by (simp add: slice_def)

lemma rtcp_no_pad:
  assumes "rtcp_ok p" "\<And>q. p \<noteq> BYE q"
  shows "RTCPPacket_MarshalSize p = 4 + length (rtcp_body p)"
  using assms
  by (cases p, auto simp: rtcp_ok_def sdes_size SenderReport_MarshalSize_def ReceiverReport_MarshalSize_def
      ApplicationDefined_MarshalSize_def RawRTCP_MarshalSize_def align4_def elim!: dvdE, presburger+)

lemma unmarshal_SR_wire:
  assumes "rtcp_ok (SR q)" and "length h = 4" and "hdr_Count hdr = rtcp_count (SR q)"
  shows "unmarshalSenderReport hdr (h @ rtcp_body (SR q)) = Ok (q\<lparr>sr_hdr := hdr\<rparr>)"
proof -
  let ?pre = "u32_bytes (sr_SSRC q) @ u64_bytes (sr_NTPTime q) @ u32_bytes (sr_RTPTime q)
     @ u32_bytes (sr_PacketCount q) @ u32_bytes (sr_OctetCount q)"
  have reports: "unmarshal_reports (rtcp_body (SR q)) 0 24 (unat (hdr_Count hdr)) =
      Ok (sr_Reports q, 24 + 24 * length (sr_Reports q))"
    using unmarshal_reports_wire [of "sr_Reports q" ?pre "sr_ProfileExtensions q" 0] assms
    by (simp add: rtcp_ok_def unat_count)
  have ext: "(if 24 + 24 * length (sr_Reports q) < length (rtcp_body (SR q))
       then slice (rtcp_body (SR q)) (24 + 24 * length (sr_Reports q)) (length (rtcp_body (SR q))) else Ok []) =
       (Ok (sr_ProfileExtensions q) :: (rtcp_error, byte list) go)"
    by (simp add: slice_def)
  show ?thesis
    unfolding unmarshalSenderReport_def slice_body [OF assms(2)] and_then.simps
    using assms(2) by (simp add: reads reports [simplified] ext [simplified])
qed

lemma unmarshal_RR_wire:
  assumes "rtcp_ok (RR q)" and "length h = 4" and "hdr_Count hdr = rtcp_count (RR q)"
  shows "unmarshalReceiverReport hdr (h @ rtcp_body (RR q)) = Ok (q\<lparr>rcv_hdr := hdr\<rparr>)"
proof -
  have reports: "unmarshal_reports (rtcp_body (RR q)) 0 4 (unat (hdr_Count hdr)) =
      Ok (rcv_Reports q, 4 + 24 * length (rcv_Reports q))"
    using unmarshal_reports_wire [of "rcv_Reports q" "u32_bytes (rcv_SSRC q)" "rcv_ProfileExtensions q" 0] assms
    by (simp add: rtcp_ok_def unat_count)
  have ext: "(if 4 + 24 * length (rcv_Reports q) < length (rtcp_body (RR q))
       then slice (rtcp_body (RR q)) (4 + 24 * length (rcv_Reports q)) (length (rtcp_body (RR q))) else Ok []) =
       (Ok (rcv_ProfileExtensions q) :: (rtcp_error, byte list) go)"
    by (simp add: slice_def)
  show ?thesis
    unfolding unmarshalReceiverReport_def slice_body [OF assms(2)] and_then.simps
    using assms(2) by (simp add: reads reports [simplified] ext [simplified])
qed

lemma unmarshal_SDES_wire:
  assumes "rtcp_ok (SDES q)" and "length h = 4" and "hdr_Count hdr = rtcp_count (SDES q)"
  shows "unmarshalSourceDescription hdr (h @ rtcp_body (SDES q)) = Ok (q\<lparr>sdes_hdr := hdr\<rparr>)"
  using assms unmarshal_chunks_wire [of "sdes_Chunks q" "[]" 0]
  unfolding unmarshalSourceDescription_def slice_body [OF assms(2)] and_then.simps
  by (simp add: rtcp_ok_def unat_count)

lemma unmarshal_BYE_wire:
  assumes "rtcp_ok (BYE q)" and "length h = 4" and "hdr_Count hdr = rtcp_count (BYE q)"
    and "bye_Reason q = [] \<Longrightarrow> pad = []"
  shows "unmarshalGoodbye hdr (h @ rtcp_body (BYE q) @ pad) = Ok (q\<lparr>bye_hdr := hdr\<rparr>)"
proof -
  have cnt: "unat (hdr_Count hdr) = length (bye_Sources q)"
    using assms by (simp add: rtcp_ok_def unat_count)
  have src: "unmarshal_bye_sources (rtcp_body (BYE q) @ pad) 0 (length (bye_Sources q)) = Ok (bye_Sources q)"
    using unmarshal_sources_wire [of "[]" "bye_Sources q"] by simp
  have rl: "unat (of_nat (length (bye_Reason q)) :: byte) = length (bye_Reason q)"
    using assms(1) by (simp add: rtcp_ok_def unat_of_nat)
  show ?thesis
    unfolding unmarshalGoodbye_def slice_body [OF assms(2)] and_then.simps cnt src Let_def
    using assms(4) rl by (cases "bye_Reason q = []") (simp_all add: index_def slice_def nth_append)
qed

lemma unmarshal_APP_wire:
  assumes "rtcp_ok (APP q)" and "length h = 4"
    and "hdr_Count hdr = rtcp_count (APP q)" and "hdr_Padding hdr = hdr_Padding (app_hdr q)"
  shows "unmarshalApplicationDefined hdr (h @ rtcp_body (APP q)) = Ok (q\<lparr>app_hdr := hdr\<rparr>)"
proof -
  have name: "length (app_Name q) = 4" using assms by (simp add: rtcp_ok_def)
  have "strip_app_padding (hdr_Padding hdr) (app_Data q) = (Ok (app_Data q) :: (rtcp_error, byte list) go)"
    using assms(1,4)
    by (cases "app_Data q = []") (auto simp: strip_app_padding_def rtcp_ok_def index_def last_conv_nth Let_def unat_gt_0)
  then show ?thesis using assms(2,3) name
    by (simp add: unmarshalApplicationDefined_def reads slice_here [of _ "app_Name q"])
qed

lemma rtcp_types_distinct [simp]: "distinct [RTCPTypeSR, RTCPTypeRR, RTCPTypeSDES, RTCPTypeBYE, RTCPTypeAPP]"
  by (simp add: rtcp_types)

lemma bye_no_pad: "bye_Reason q = [] \<Longrightarrow> RTCPPacket_MarshalSize (BYE q) - (4 + length (rtcp_body (BYE q))) = 0"
  by (simp add: Goodbye_MarshalSize_def align4_id)

lemma unmarshal_packet_wire:
  assumes "rtcp_ok p"
  shows "unmarshal_packet (rtcp_header_of p) (rtcp_wire p) = Ok (rtcp_canon p)"
proof (cases p)
  case (BYE q)
  then show ?thesis using assms bye_no_pad [of q]
    by (simp add: unmarshal_packet_def rtcp_header_of_def rtcp_wire_def Let_def rtcp_types
        unmarshal_BYE_wire [simplified])
next
  case (Raw q)
  then show ?thesis using assms rtcp_no_pad [OF assms]
    by (auto simp: unmarshal_packet_def rtcp_header_of_def rtcp_wire_def Let_def slice_def rtcp_ok_def)
qed (use assms rtcp_no_pad [OF assms] in \<open>simp_all add: unmarshal_packet_def rtcp_header_of_def rtcp_wire_def Let_def rtcp_types
        unmarshal_SR_wire [simplified] unmarshal_RR_wire [simplified] unmarshal_SDES_wire [simplified] unmarshal_APP_wire [simplified]\<close>)

lemma unmarshal_compound_wire:
  assumes "rtcp_ok p"
  shows "unmarshal_compound (rtcp_wire p @ rest) acc = unmarshal_compound rest (acc @ [rtcp_canon p])"
proof -
  let ?sz = "RTCPPacket_MarshalSize p"
  have sz: "4 dvd ?sz" "4 \<le> ?sz" "?sz \<le> 65536 * 4"
    using rtcp_size_dvd rtcp_size_ge [of p] assms by (auto simp: rtcp_ok_def)
  then have "unat (of_nat (?sz div 4 - 1) :: u16) = ?sz div 4 - 1"
    by (intro unat_u16) auto
  with sz have len: "(unat (hdr_Length (rtcp_header_of p)) + 1) * 4 = ?sz"
    by (auto simp: rtcp_header_of_def)
  then have len': "4 + unat (hdr_Length (rtcp_header_of p)) * 4 = ?sz" by simp
  have hdr: "unmarshalRTCPHeader (rtcp_wire p @ rest) = Ok (rtcp_header_of p)"
    using rtcp_ok_count [OF assms] by (simp add: rtcp_wire_def Let_def unmarshal_header_wire rtcp_header_of_def)
  have "rtcp_wire p \<noteq> []" "\<not> length (rtcp_wire p @ rest) < 4" using sz(2) length_rtcp_wire [of p] by force+
  then show ?thesis
    by (subst unmarshal_compound.simps) (simp add: hdr len' Let_def slice_def unmarshal_packet_wire [OF assms])
qed

lemma unmarshal_compound_wires:
  assumes "list_all rtcp_ok ps"
  shows "unmarshal_compound (concat (map rtcp_wire ps)) acc = Ok (acc @ map rtcp_canon ps)"
  using assms
proof (induction ps arbitrary: acc)
  case Nil
  show ?case by (subst unmarshal_compound.simps) simp
qed (simp add: unmarshal_compound_wire)

lemma UnmarshalRTCP_wire:
  "list_all rtcp_ok ps \<Longrightarrow> ps \<noteq> [] \<Longrightarrow> UnmarshalRTCP (concat (map rtcp_wire ps)) = Ok (map rtcp_canon ps)"
  by (simp add: UnmarshalRTCP_def unmarshal_compound_wires)


section \<open>The parser on arbitrary input\<close>

lemma unmarshal_reports_total: "unmarshal_reports body i off k \<noteq> Panic"
  by (induction body i off k rule: unmarshal_reports.induct)
    (auto simp: go_simps unmarshalReceptionReport_def)

lemma unmarshal_items_total: "unmarshal_sdes_items body off items \<noteq> Panic"
proof (induction body off items rule: unmarshal_sdes_items.induct)
  case (1 body off items)
  then show ?case by (subst unmarshal_sdes_items.simps) (auto simp: go_simps Let_def)
qed

lemma unmarshal_chunks_total: "unmarshal_sdes_chunks body i off k \<noteq> Panic"
  by (induction body i off k rule: unmarshal_sdes_chunks.induct)
    (auto simp: go_simps unmarshal_items_total)

lemma unmarshal_sources_total: "unmarshal_bye_sources body i k \<noteq> Panic"
  by (induction body i k rule: unmarshal_bye_sources.induct) (auto simp: go_simps)

lemma unmarshal_report_total:
  "unmarshalSenderReport hdr data \<noteq> Panic" "unmarshalReceiverReport hdr data \<noteq> Panic"
  by (auto simp: unmarshalSenderReport_def unmarshalReceiverReport_def go_simps unmarshal_reports_total)

lemma unmarshal_SDES_BYE_total:
  assumes "4 \<le> length data"
  shows "unmarshalSourceDescription hdr data \<noteq> Panic" "unmarshalGoodbye hdr data \<noteq> Panic"
  using assms by (auto simp: unmarshalSourceDescription_def unmarshalGoodbye_def go_simps Let_def
      unmarshal_chunks_total unmarshal_sources_total)

lemma unmarshal_APP_total: "unmarshalApplicationDefined hdr data \<noteq> Panic"
  by (auto simp: unmarshalApplicationDefined_def strip_app_padding_def go_simps Let_def)

lemma unmarshal_packet_total: "4 \<le> length data \<Longrightarrow> unmarshal_packet hdr data \<noteq> Panic"
  by (simp add: unmarshal_packet_def go_simps unmarshal_report_total unmarshal_SDES_BYE_total unmarshal_APP_total)

lemma unmarshal_header_total: "unmarshalRTCPHeader data \<noteq> Panic"
  by (auto simp: unmarshalRTCPHeader_def go_simps Let_def)

lemma unmarshal_compound_total: "unmarshal_compound data packets \<noteq> Panic"
proof (induction data packets rule: unmarshal_compound.induct)
  case (1 data packets)
  then show ?case
    by (subst unmarshal_compound.simps)
      (auto simp: unmarshal_header_total unmarshal_packet_total Let_def slice_def split: go.split)
qed

lemma unmarshal_packet_header: "unmarshal_packet hdr data = Ok p \<Longrightarrow> RTCPPacket_Header p = hdr"
  by (auto simp: unmarshal_packet_def go_simps unmarshalSenderReport_def unmarshalReceiverReport_def
      unmarshalSourceDescription_def unmarshalGoodbye_def unmarshalApplicationDefined_def Let_def
      split: if_splits)

lemma unmarshal_reports_length: "unmarshal_reports body i off k = Ok (rrs, n) \<Longrightarrow> length rrs = k"
  by (induction body i off k arbitrary: rrs n rule: unmarshal_reports.induct)
    (auto simp: go_simps split: if_splits)

lemma unmarshal_chunks_length: "unmarshal_sdes_chunks body i off k = Ok cs \<Longrightarrow> length cs = k"
  by (induction body i off k arbitrary: cs rule: unmarshal_sdes_chunks.induct)
    (auto simp: go_simps split: if_splits)

lemma unmarshal_sources_length: "unmarshal_bye_sources body i k = Ok ss \<Longrightarrow> length ss = k"
  by (induction body i k arbitrary: ss rule: unmarshal_bye_sources.induct)
    (auto simp: go_simps split: if_splits)

lemma unmarshal_packet_type:
  "unmarshal_packet hdr data = Ok p \<Longrightarrow> rtcp_type p = hdr_Type hdr \<and> rtcp_count p = hdr_Count hdr"
  by (auto simp: unmarshal_packet_def go_simps unmarshalSenderReport_def unmarshalReceiverReport_def
      unmarshalSourceDescription_def unmarshalGoodbye_def unmarshalApplicationDefined_def Let_def
      dest: unmarshal_reports_length unmarshal_chunks_length unmarshal_sources_length
      split: if_splits)

lemma unmarshal_header_Ok:
  assumes "unmarshalRTCPHeader data = Ok h"
  shows "hdr_Count h < 32"
proof -
  have "b AND 31 < 32" for b :: byte
    by (rule le_less_trans [OF word_and_le1]) simp
  then show ?thesis using assms by (auto simp: unmarshalRTCPHeader_def go_simps Let_def split: if_splits)
qed

lemma unmarshal_compound_Ok:
  "unmarshal_compound data packets = Ok ps \<Longrightarrow>
     \<exists>qs. ps = packets @ qs \<and> sum_list (map rtcp_sized qs) = length data \<and> list_all rtcp_consistent qs"
proof (induction data packets arbitrary: ps rule: unmarshal_compound.induct)
  case (1 data packets)
  show ?case
  proof (cases "data = []")
    case True
    then show ?thesis using 1(2) by (subst (asm) unmarshal_compound.simps) simp
  next
    case False
    with 1(2) obtain h p where d: "4 \<le> length data" "unmarshalRTCPHeader data = Ok h"
      and le: "(unat (hdr_Length h) + 1) * 4 \<le> length data"
      and p: "unmarshal_packet h (take ((unat (hdr_Length h) + 1) * 4) data) = Ok p"
      and rec: "unmarshal_compound (drop ((unat (hdr_Length h) + 1) * 4) data) (packets @ [p]) = Ok ps"
      by (subst (asm) unmarshal_compound.simps) (auto simp: Let_def slice_def split: go.split_asm if_splits)
    have "\<not> length data < 4" "\<not> length data < (unat (hdr_Length h) + 1) * 4" using d le by auto
    from 1(1) [OF False this(1) d(2) refl this(2) _ p _ rec] le obtain qs where
      qs: "ps = (packets @ [p]) @ qs" "sum_list (map rtcp_sized qs) = length data - (unat (hdr_Length h) + 1) * 4"
        "list_all rtcp_consistent qs" by (auto simp: slice_def)
    have "rtcp_consistent p"
      using unmarshal_packet_header [OF p] unmarshal_packet_type [OF p] unmarshal_header_Ok [OF d(2)]
      by (simp add: rtcp_consistent_def)
    with qs le show ?thesis
      by (intro exI [of _ "p # qs"]) (simp add: rtcp_sized_def [of p] unmarshal_packet_header [OF p])
  qed
qed


section \<open>The codec contract\<close>

lemma rtcp_canon_simps [simp]:
  "RTCPPacket_MarshalSize (rtcp_canon p) = RTCPPacket_MarshalSize p" "rtcp_count (rtcp_canon p) = rtcp_count p"
  "rtcp_type (rtcp_canon p) = rtcp_type p" "rtcp_body (rtcp_canon p) = rtcp_body p"
  "hdr_Padding (RTCPPacket_Header (rtcp_canon p)) = hdr_Padding (RTCPPacket_Header p)"
  by (cases p; simp add: rtcp_header_of_def SenderReport_MarshalSize_def ReceiverReport_MarshalSize_def
      SourceDescription_MarshalSize_def Goodbye_MarshalSize_def ApplicationDefined_MarshalSize_def
      RawRTCP_MarshalSize_def)+

lemma rtcp_canon_ok: "rtcp_ok p \<Longrightarrow> rtcp_ok (rtcp_canon p)"
  unfolding rtcp_ok_def rtcp_canon_simps by (cases p) (simp_all add: rtcp_header_of_def)

lemma rtcp_wire_canon: "rtcp_wire (rtcp_canon p) = rtcp_wire p"
  by (simp add: rtcp_wire_def)

interpretation rtcp: wire_codec "\<lambda>ps. ps \<noteq> [] \<and> list_all rtcp_ok ps" MarshalRTCP UnmarshalRTCP "map rtcp_canon"
proof unfold_locales
  fix ps assume "ps \<noteq> [] \<and> list_all rtcp_ok ps"
  then show "\<exists>bs. MarshalRTCP ps = Ok bs \<and> UnmarshalRTCP bs = Ok (map rtcp_canon ps)"
    by (simp add: MarshalRTCP_wire UnmarshalRTCP_wire)
next
  fix ps assume "ps \<noteq> [] \<and> list_all rtcp_ok ps"
  then show "map rtcp_canon ps \<noteq> [] \<and> list_all rtcp_ok (map rtcp_canon ps)"
    by (auto simp: list_all_iff rtcp_canon_ok)
next
  fix ps assume "ps \<noteq> [] \<and> list_all rtcp_ok ps"
  then show "MarshalRTCP (map rtcp_canon ps) = MarshalRTCP ps"
    by (simp add: MarshalRTCP_wire comp_def rtcp_wire_canon)
qed

section \<open>Properties\<close>

text \<open>
  C27. Compound round trip: serialising a non-empty list of well-formed RTCP packets of all six kinds
  succeeds, and parsing the bytes gives the packets back in order, with their header fields filled in.
\<close>
theorem rtcp_roundtrip:
  assumes "ps \<noteq> []" and "list_all rtcp_ok ps"
  shows "\<exists>bs. MarshalRTCP ps = Ok bs \<and> UnmarshalRTCP bs = Ok (map rtcp_canon ps)"
  using assms by (simp add: rtcp.encode_decode)

definition sample_rtcp :: "RTCPPacket list" where
  "sample_rtcp = (let h = \<lparr>hdr_Padding = False, hdr_Count = 0, hdr_Type = 0, hdr_Length = 0\<rparr> in
     [RR \<lparr>rcv_Reports = [\<lparr>rr_SSRC = 7, rr_FractionLost = 1, rr_TotalLost = 0xABCDEF,
            rr_LastSequenceNumber = 9, rr_Jitter = 3, rr_LastSenderReport = 0, rr_Delay = 0\<rparr>],
          rcv_ProfileExtensions = [], rcv_SSRC = 5, rcv_hdr = h\<rparr>,
      SDES \<lparr>sdes_Chunks = [\<lparr>chunk_Items = [\<lparr>item_Text = [97, 98], item_Type = 1\<rparr>], chunk_Source = 5\<rparr>], sdes_hdr = h\<rparr>,
      BYE \<lparr>bye_Reason = [98, 121, 101], bye_Sources = [5], bye_hdr = h\<rparr>])"

lemma sample_rtcp_ok: "sample_rtcp \<noteq> []" "list_all rtcp_ok sample_rtcp"
  by (simp_all add: sample_rtcp_def Let_def rtcp_ok_def rr_ok_def item_ok_def ReceiverReport_MarshalSize_def
      SourceDescription_MarshalSize_def Goodbye_MarshalSize_def chunk_size_def align4_def)

theorem rtcp_roundtrip_witness:
  "\<exists>bs. MarshalRTCP sample_rtcp = Ok bs \<and> UnmarshalRTCP bs = Ok (map rtcp_canon sample_rtcp)"
  by (rule rtcp_roundtrip) (rule sample_rtcp_ok)+

text \<open>
  C28. The compound parser is total: on every byte string it returns packets or an error; it never
  indexes or slices out of range, and its loop ends.
\<close>
theorem UnmarshalRTCP_total: "UnmarshalRTCP data \<noteq> Panic"
  by (simp add: UnmarshalRTCP_def go_simps unmarshal_compound_total)

text \<open>
  What an accepted compound is: at least one packet; the length fields of the packets add up to the
  number of bytes, so nothing is skipped and nothing is read twice; and the type and count in each
  header are those of the packet that was parsed.
\<close>
theorem UnmarshalRTCP_accounts:
  assumes "UnmarshalRTCP data = Ok ps"
  shows "ps \<noteq> [] \<and> sum_list (map rtcp_sized ps) = length data \<and> list_all rtcp_consistent ps"
proof -
  from assms have "unmarshal_compound data [] = Ok ps" "ps \<noteq> []"
    by (auto simp: UnmarshalRTCP_def go_simps split: if_splits)
  then show ?thesis by (auto dest: unmarshal_compound_Ok)
qed

theorem UnmarshalRTCP_accounts_witness:
  "map rtcp_canon sample_rtcp \<noteq> [] \<and>
   sum_list (map rtcp_sized (map rtcp_canon sample_rtcp)) = length (concat (map rtcp_wire sample_rtcp)) \<and>
   list_all rtcp_consistent (map rtcp_canon sample_rtcp)"
  by (rule UnmarshalRTCP_accounts) (intro UnmarshalRTCP_wire sample_rtcp_ok)

text \<open>
  The compound serialiser never fails on packets, well formed or not: for a non-empty list it
  returns exactly the announced number of bytes, a whole number of 32-bit words.
\<close>
theorem MarshalRTCP_total:
  assumes "ps \<noteq> []"
  shows "\<exists>bs. MarshalRTCP ps = Ok bs \<and> length bs = sum_list (map RTCPPacket_MarshalSize ps) \<and> 4 dvd length bs"
proof -
  have len: "length (concat (map rtcp_wire ps)) = sum_list (map RTCPPacket_MarshalSize ps)"
    by (induction ps) simp_all
  have "4 dvd sum_list (map RTCPPacket_MarshalSize ps)"
    by (induction ps) (auto intro!: dvd_add rtcp_size_dvd)
  then show ?thesis using MarshalRTCP_wire [OF assms] by (simp add: len)
qed

theorem MarshalRTCP_total_witness:
  "\<exists>bs. MarshalRTCP sample_rtcp = Ok bs \<and> length bs = sum_list (map RTCPPacket_MarshalSize sample_rtcp) \<and> 4 dvd length bs"
  by (rule MarshalRTCP_total) (rule sample_rtcp_ok)

end
