(* ===== verification/Go_Strings.thy ===== *)
theory Go_Strings
  imports Prelude "HOL-Library.Char_ord" "HOL-Library.List_Lexorder"
begin

text \<open>
  The parts of Go's packages \<^verbatim>\<open>strings\<close>, \<^verbatim>\<open>strconv\<close>, \<^verbatim>\<open>unicode/utf8\<close> and \<^verbatim>\<open>net/textproto\<close> that the
  sources use.  A Go string is a sequence of bytes, here a \<open>string\<close> (a list of 8-bit
  characters).  The case tables of \<^verbatim>\<open>unicode.ToLower\<close> and \<^verbatim>\<open>unicode.ToUpper\<close> beyond ASCII are data of the Go
  distribution and stay a parameter of the definitions that use them.  The collection
  \<open>str_simps\<close> evaluates splitting at a separator.
\<close>

named_theorems str_simps

abbreviation code :: "char \<Rightarrow> nat" where "code c \<equiv> of_char c"

lemma char_table:
  assumes "list_all P (map char_of [0..<256])"
  shows "P c"
proof -
  have "c = char_of (code c)" by simp
  moreover have "code c \<in> set [0..<256]" by simp
  ultimately have "c \<in> set (map char_of [0..<256])" unfolding set_map by (metis image_eqI)
  with assms show ?thesis by (simp only: list_all_iff)
qed

section \<open>Searching and splitting\<close>

definition HasPrefix :: "string \<Rightarrow> string \<Rightarrow> bool" where
  "HasPrefix s p \<longleftrightarrow> take (length p) s = p"

definition HasSuffix :: "string \<Rightarrow> string \<Rightarrow> bool" where
  "HasSuffix s p \<longleftrightarrow> length p \<le> length s \<and> drop (length s - length p) s = p"

definition TrimPrefix :: "string \<Rightarrow> string \<Rightarrow> string" where
  "TrimPrefix s p = (if HasPrefix s p then drop (length p) s else s)"

definition TrimSuffix :: "string \<Rightarrow> string \<Rightarrow> string" where
  "TrimSuffix s p = (if HasSuffix s p then take (length s - length p) s else s)"

fun Index :: "string \<Rightarrow> string \<Rightarrow> nat option" where
  "Index [] sub = (if sub = [] then Some 0 else None)"
| "Index (c # s) sub = (if HasPrefix (c # s) sub then Some 0 else map_option Suc (Index s sub))"

fun IndexByte :: "string \<Rightarrow> char \<Rightarrow> nat option" where
  "IndexByte [] b = None"
| "IndexByte (c # s) b = (if c = b then Some 0 else map_option Suc (IndexByte s b))"

fun LastIndexByte :: "string \<Rightarrow> char \<Rightarrow> nat option" where
  "LastIndexByte [] b = None"
| "LastIndexByte (c # s) b =
     (case LastIndexByte s b of Some i \<Rightarrow> Some (Suc i) | None \<Rightarrow> if c = b then Some 0 else None)"

definition Contains :: "string \<Rightarrow> string \<Rightarrow> bool" where
  "Contains s sub \<longleftrightarrow> Index s sub \<noteq> None"

definition Cut :: "string \<Rightarrow> string \<Rightarrow> string \<times> string \<times> bool" where
  "Cut s sep = (case Index s sep of
     Some i \<Rightarrow> (take i s, drop (i + length sep) s, True) | None \<Rightarrow> (s, [], False))"

text \<open>\<^verbatim>\<open>strings.Split\<close> with a one-byte separator.\<close>

fun Split :: "string \<Rightarrow> char \<Rightarrow> string list" where
  "Split [] b = [[]]"
| "Split (c # s) b = (if c = b then [] # Split s b
     else case Split s b of p # ps \<Rightarrow> (c # p) # ps | [] \<Rightarrow> [[c]])"

fun Join :: "string list \<Rightarrow> string \<Rightarrow> string" where
  "Join [] sep = []"
| "Join [s] sep = s"
| "Join (s # t # ss) sep = s @ sep @ Join (t # ss) sep"

text \<open>\<^verbatim>\<open>strings.ReplaceAll\<close> with a non-empty pattern.\<close>

function ReplaceAll :: "string \<Rightarrow> string \<Rightarrow> string \<Rightarrow> string" where
  "ReplaceAll s old new =
     (if old = [] then s
      else case s of [] \<Rightarrow> []
      | c # t \<Rightarrow> if HasPrefix s old then new @ ReplaceAll (drop (length old) s) old new
                else c # ReplaceAll t old new)"
  by pat_completeness auto
termination by (relation "measure (\<lambda>(s, _, _). length s)") auto

declare ReplaceAll.simps [simp del]

definition TrimLeft :: "string \<Rightarrow> string \<Rightarrow> string" where
  "TrimLeft s cutset = dropWhile (\<lambda>c. c \<in> set cutset) s"

definition TrimRight :: "string \<Rightarrow> string \<Rightarrow> string" where
  "TrimRight s cutset = rev (dropWhile (\<lambda>c. c \<in> set cutset) (rev s))"

lemma IndexByte_eq: "IndexByte s b = Index s [b]"
  by (induction s) (auto simp: HasPrefix_def)

lemma Index_None_byte: "Index s [b] = None \<longleftrightarrow> b \<notin> set s"
  by (induction s) (auto simp: HasPrefix_def)

lemma Index_byte [str_simps]: "b \<notin> set s \<Longrightarrow> Index (s @ b # t) [b] = Some (length s)"
  by (induction s) (auto simp: HasPrefix_def)

lemma IndexByte_None: "IndexByte s b = None \<longleftrightarrow> b \<notin> set s"
  by (simp add: IndexByte_eq Index_None_byte)

lemma Index_Some_byte: "Index s [b] = Some i \<Longrightarrow> i < length s \<and> s ! i = b \<and> b \<notin> set (take i s)"
  by (induction s arbitrary: i) (auto simp: HasPrefix_def split: if_splits)

lemma Cut_byte [str_simps]: "b \<notin> set s \<Longrightarrow> Cut (s @ b # t) [b] = (s, t, True)"
  by (simp add: Cut_def Index_byte)

lemma Cut_no_byte [str_simps]: "b \<notin> set s \<Longrightarrow> Cut s [b] = (s, [], False)"
  by (simp add: Cut_def Index_None_byte [THEN iffD2])

lemma Cut_TrueE:
  assumes "Cut s [b] = (k, v, True)"
  obtains "s = k @ b # v" "b \<notin> set k"
proof -
  from assms obtain i where i: "Index s [b] = Some i" "k = take i s" "v = drop (Suc i) s"
    by (auto simp: Cut_def split: option.splits)
  with Index_Some_byte [OF i(1)] show ?thesis
    by (intro that) (auto simp: id_take_nth_drop)
qed

lemma HasPrefix_append [simp]: "HasPrefix (p @ s) p"
  by (simp add: HasPrefix_def)

lemma TrimSuffix_append [simp]: "TrimSuffix (s @ p) p = s"
  by (simp add: TrimSuffix_def HasSuffix_def)

lemma Index_Some_le: "Index s sub = Some i \<Longrightarrow> i + length sub \<le> length s"
proof (induction s arbitrary: i)
  case (Cons c s)
  show ?case
  proof (cases "HasPrefix (c # s) sub")
    case True
    then have "length sub \<le> length (c # s)" unfolding HasPrefix_def by (metis length_take min.cobounded1)
    with Cons.prems True show ?thesis by simp
  next
    case False
    with Cons show ?thesis by auto
  qed
qed (auto split: if_splits)

section \<open>White space\<close>

text \<open>
  \<^verbatim>\<open>strings.TrimSpace\<close> and \<^verbatim>\<open>strings.Fields\<close> use the Unicode white-space property; these are the UTF-8
  encodings of its code points.
\<close>

definition space_encodings :: "string list" where
  "space_encodings = map (map char_of)
     ([[9], [10], [11], [12], [13], [32], [0xC2, 0x85], [0xC2, 0xA0], [0xE1, 0x9A, 0x80],
       [0xE2, 0x80, 0xA8], [0xE2, 0x80, 0xA9], [0xE2, 0x80, 0xAF], [0xE2, 0x81, 0x9F], [0xE3, 0x80, 0x80]]
      @ map (\<lambda>k. [0xE2, 0x80, 0x80 + k]) [0..<11 :: nat])"

lemma space_encodings_ne: "w \<in> set space_encodings \<Longrightarrow> w \<noteq> []"
  by (auto simp: space_encodings_def)

lemma HasPrefix_shorter: "HasPrefix s w \<Longrightarrow> w \<noteq> [] \<Longrightarrow> length s - length w < length s"
  by (cases s) (auto simp: HasPrefix_def)

function trim_front :: "string list \<Rightarrow> string \<Rightarrow> string" where
  "trim_front seqs s = (case find (\<lambda>w. w \<noteq> [] \<and> HasPrefix s w) seqs of
     Some w \<Rightarrow> trim_front seqs (drop (length w) s) | None \<Rightarrow> s)"
  by pat_completeness auto
termination
  by (relation "measure (\<lambda>(seqs, s). length s)") (auto simp: find_Some_iff intro: HasPrefix_shorter)

declare trim_front.simps [simp del]

definition TrimSpace :: "string \<Rightarrow> string" where
  "TrimSpace s = rev (trim_front (map rev space_encodings) (rev (trim_front space_encodings s)))"

text \<open>Printable ASCII, which \<open>TrimSpace\<close> never removes.\<close>

definition graphic :: "char \<Rightarrow> bool" where
  "graphic c \<longleftrightarrow> 33 \<le> code c \<and> code c \<le> 126"

lemma trim_front_id:
  assumes "\<And>w. w \<in> set seqs \<Longrightarrow> w \<noteq> [] \<Longrightarrow> \<not> graphic (hd w)" and "s = [] \<or> graphic (hd s)"
  shows "trim_front seqs s = s"
proof -
  have "find (\<lambda>w. w \<noteq> [] \<and> HasPrefix s w) seqs = None"
    using assms by (auto simp: find_None_iff HasPrefix_def) (metis hd_append2 append_take_drop_id take_Nil)
  then show ?thesis by (subst trim_front.simps) simp
qed

lemma space_encodings_ends:
  "list_all (\<lambda>w. \<not> graphic (hd w) \<and> \<not> graphic (last w)) space_encodings"
  by (simp add: space_encodings_def graphic_def list_all_iff)

lemma TrimSpace_id:
  assumes "s = [] \<or> graphic (hd s) \<and> graphic (last s)"
  shows "TrimSpace s = s"
proof -
  have "trim_front space_encodings s = s"
    using assms space_encodings_ends by (intro trim_front_id) (auto simp: list_all_iff)
  moreover have "trim_front (map rev space_encodings) (rev s) = rev s"
    using assms space_encodings_ends by (intro trim_front_id) (auto simp: list_all_iff hd_rev)
  ultimately show ?thesis by (simp add: TrimSpace_def)
qed

section \<open>UTF-8 and letter case\<close>

definition is_cont :: "char \<Rightarrow> bool" where
  "is_cont c \<longleftrightarrow> 0x80 \<le> code c \<and> code c \<le> 0xBF"

text \<open>\<^verbatim>\<open>utf8.DecodeRuneInString\<close>: the first rune and its width; an invalid sequence is U+FFFD of width 1.\<close>

fun DecodeRune :: "string \<Rightarrow> nat \<times> nat" where
  "DecodeRune [] = (0xFFFD, 0)"
| "DecodeRune (a # s) =
     (let x = code a in
      if x < 0x80 then (x, 1)
      else case s of
        b # t \<Rightarrow>
          let y = code b in
          if 0xC2 \<le> x \<and> x \<le> 0xDF \<and> is_cont b then ((x mod 32) * 64 + y mod 64, 2)
          else (case t of
            c # u \<Rightarrow>
              let z = code c in
              if 0xE0 \<le> x \<and> x \<le> 0xEF \<and> is_cont b \<and> is_cont c
                 \<and> (x = 0xE0 \<longrightarrow> 0xA0 \<le> y) \<and> (x = 0xED \<longrightarrow> y \<le> 0x9F)
              then ((x mod 16) * 4096 + (y mod 64) * 64 + z mod 64, 3)
              else (case u of
                d # _ \<Rightarrow>
                  if 0xF0 \<le> x \<and> x \<le> 0xF4 \<and> is_cont b \<and> is_cont c \<and> is_cont d
                     \<and> (x = 0xF0 \<longrightarrow> 0x90 \<le> y) \<and> (x = 0xF4 \<longrightarrow> y \<le> 0x8F)
                  then ((x mod 8) * 262144 + (y mod 64) * 4096 + (z mod 64) * 64 + code d mod 64, 4)
                  else (0xFFFD, 1)
              | [] \<Rightarrow> (0xFFFD, 1))
          | [] \<Rightarrow> (0xFFFD, 1))
      | [] \<Rightarrow> (0xFFFD, 1))"

definition EncodeRune :: "nat \<Rightarrow> string" where
  "EncodeRune r =
     (if r < 0x80 then [char_of r]
      else if r < 0x800 then map char_of [0xC0 + r div 64, 0x80 + r mod 64]
      else if r > 0x10FFFF \<or> 0xD800 \<le> r \<and> r \<le> 0xDFFF then map char_of [0xEF, 0xBF, 0xBD :: nat]
      else if r < 0x10000 then map char_of [0xE0 + r div 4096, 0x80 + r div 64 mod 64, 0x80 + r mod 64]
      else map char_of [0xF0 + r div 262144, 0x80 + r div 4096 mod 64, 0x80 + r div 64 mod 64, 0x80 + r mod 64])"

lemma DecodeRune_width: "s \<noteq> [] \<Longrightarrow> 0 < snd (DecodeRune s)"
  by (cases s) (auto simp: Let_def split: list.split)

function runes :: "string \<Rightarrow> nat list" where
  "runes [] = []"
| "runes (c # s) = (case DecodeRune (c # s) of (r, n) \<Rightarrow> r # runes (drop n (c # s)))"
  by pat_completeness auto
termination
proof (relation "measure length")
  fix c s r n
  assume "(r, n) = DecodeRune (c # s)"
  then have "0 < n" using DecodeRune_width [of "c # s"] by (metis list.distinct(1) snd_conv)
  then show "(drop n (c # s), c # s) \<in> measure length" by simp
qed simp

declare runes.simps(2) [simp del]

definition lower_char :: "char \<Rightarrow> char" where
  "lower_char c = (if 65 \<le> code c \<and> code c \<le> 90 then char_of (code c + 32) else c)"

definition upper_char :: "char \<Rightarrow> char" where
  "upper_char c = (if 97 \<le> code c \<and> code c \<le> 122 then char_of (code c - 32) else c)"

definition ascii_string :: "string \<Rightarrow> bool" where
  "ascii_string s \<longleftrightarrow> list_all (\<lambda>c. code c < 128) s"

text \<open>
  \<^verbatim>\<open>strings.ToLower\<close>, \<^verbatim>\<open>strings.ToUpper\<close>: ASCII strings byte by byte, others rune by rune with
  \<open>tbl\<close> for the code points from U+0080.
\<close>

definition ToLower :: "(nat \<Rightarrow> nat) \<Rightarrow> string \<Rightarrow> string" where
  "ToLower tbl s = (if ascii_string s then map lower_char s
     else concat (map (\<lambda>r. EncodeRune (if r < 128 then code (lower_char (char_of r)) else tbl r)) (runes s)))"

definition ToUpper :: "(nat \<Rightarrow> nat) \<Rightarrow> string \<Rightarrow> string" where
  "ToUpper tbl s = (if ascii_string s then map upper_char s
     else concat (map (\<lambda>r. EncodeRune (if r < 128 then code (upper_char (char_of r)) else tbl r)) (runes s)))"

text \<open>
  \<^verbatim>\<open>strings.EqualFold(s, t)\<close> for an ASCII string \<open>t\<close>, as at every call of the sources: the
  only code points beyond ASCII that fold to ASCII are U+017F (long s) and U+212A (Kelvin sign).
\<close>

definition fold_rune :: "nat \<Rightarrow> nat" where
  "fold_rune r = (if 65 \<le> r \<and> r \<le> 90 then r + 32 else if r = 0x17F then 115 else if r = 0x212A then 107 else r)"

definition EqualFold :: "string \<Rightarrow> string \<Rightarrow> bool" where
  "EqualFold s t \<longleftrightarrow> map fold_rune (runes s) = map fold_rune (runes t)"

lemma EqualFold_refl [simp]: "EqualFold s s"
  by (simp add: EqualFold_def)

lemma runes_ascii: "ascii_string s \<Longrightarrow> runes s = map code s"
  by (induction s) (auto simp: ascii_string_def runes.simps(2))

section \<open>Decimal numbers\<close>

definition digit_char :: "nat \<Rightarrow> char" where
  "digit_char d = char_of (48 + d)"

definition is_digit :: "char \<Rightarrow> bool" where
  "is_digit c \<longleftrightarrow> 48 \<le> code c \<and> code c \<le> 57"

definition digit_val :: "char \<Rightarrow> nat" where
  "digit_val c = code c - 48"

fun nat_digits :: "nat \<Rightarrow> string" where
  "nat_digits n = (if n < 10 then [digit_char n] else nat_digits (n div 10) @ [digit_char (n mod 10)])"

declare nat_digits.simps [simp del]

text \<open>\<^verbatim>\<open>strconv.Itoa\<close>, \<^verbatim>\<open>strconv.AppendInt(.., n, 10)\<close> and the verb \<^verbatim>\<open>%d\<close>.\<close>

definition Itoa :: "int \<Rightarrow> string" where
  "Itoa n = (if n < 0 then CHR ''-'' # nat_digits (nat (- n)) else nat_digits (nat n))"

definition digits_val :: "string \<Rightarrow> nat" where
  "digits_val s = foldl (\<lambda>n c. 10 * n + digit_val c) 0 s"

definition digits_ok :: "string \<Rightarrow> bool" where
  "digits_ok s \<longleftrightarrow> s \<noteq> [] \<and> list_all is_digit s"

text \<open>
  \<^verbatim>\<open>strconv.Atoi\<close> on a 64-bit platform: an optional sign, decimal digits, and the range of
  \<^verbatim>\<open>int64\<close>; a syntax error and a range error are both \<open>None\<close>.
\<close>

definition Atoi :: "string \<Rightarrow> int option" where
  "Atoi s =
     (let (neg, ds) = (case s of c # t \<Rightarrow> if c = CHR ''-'' then (True, t)
                                   else if c = CHR ''+'' then (False, t) else (False, s)
                               | [] \<Rightarrow> (False, s)) in
      if digits_ok ds then
        let n = int (digits_val ds); v = (if neg then - n else n) in
        if - (2 ^ 63) \<le> v \<and> v < 2 ^ 63 then Some v else None
      else None)"

text \<open>\<^verbatim>\<open>intLen\<close> of \<^verbatim>\<open>proto/sdp.go\<close>, which counts no digit for a negative number.\<close>

fun count_digits :: "nat \<Rightarrow> nat" where
  "count_digits n = (if n = 0 then 0 else 1 + count_digits (n div 10))"

declare count_digits.simps [simp del]

definition intLen :: "int \<Rightarrow> nat" where
  "intLen n = (if n = 0 then 1 else count_digits (nat n))"

lemma digit_char_code [simp]: "d < 10 \<Longrightarrow> code (digit_char d) = 48 + d"
  by (simp add: digit_char_def)

lemma digits_val_snoc [simp]: "digits_val (s @ [c]) = 10 * digits_val s + digit_val c"
  by (simp add: digits_val_def)

lemma digits_val_Nil [simp]: "digits_val [] = 0"
  by (simp add: digits_val_def)

lemma nat_digits_ok: "digits_ok (nat_digits n) \<and> digits_val (nat_digits n) = n"
proof (induction n rule: nat_digits.induct)
  case (1 n)
  show ?case
  proof (cases "n < 10")
    case True
    then have "nat_digits n = [] @ [digit_char n]" by (subst nat_digits.simps) simp
    with True show ?thesis by (simp add: digits_ok_def is_digit_def digit_val_def del: append.simps)
  next
    case False
    then have "nat_digits n = nat_digits (n div 10) @ [digit_char (n mod 10)]" by (subst nat_digits.simps) simp
    with 1 False show ?thesis by (simp add: digits_ok_def is_digit_def digit_val_def)
  qed
qed

lemma nat_digits_length: "0 < n \<Longrightarrow> length (nat_digits n) = count_digits n"
proof (induction n rule: nat_digits.induct)
  case (1 n)
  then show ?case
    by (cases "n < 10") (subst nat_digits.simps, subst count_digits.simps, simp add: count_digits.simps [of 0] count_digits.simps [of "n div 10"])+
qed

lemma length_Itoa: "0 \<le> n \<Longrightarrow> length (Itoa n) = intLen n"
  by (cases "n = 0") (simp_all add: Itoa_def intLen_def nat_digits_length nat_digits.simps [of 0])

lemma Itoa_digits: "0 \<le> n \<Longrightarrow> digits_ok (Itoa n)"
  by (simp add: Itoa_def nat_digits_ok)

lemma is_digit_graphic: "is_digit c \<Longrightarrow> graphic c"
  by (simp add: is_digit_def graphic_def)

lemma digits_graphic: "digits_ok s \<Longrightarrow> TrimSpace s = s"
  by (rule TrimSpace_id) (auto simp: digits_ok_def list_all_iff intro!: is_digit_graphic)

lemma digit_not_sign: "is_digit c \<Longrightarrow> c \<noteq> CHR ''-'' \<and> c \<noteq> CHR ''+''"
  by (auto simp: is_digit_def)

lemma Atoi_digits:
  assumes "digits_ok s" and "digits_val s < 2 ^ 63"
  shows "Atoi s = Some (int (digits_val s))"
proof -
  obtain c t where s: "s = c # t" using assms(1) by (cases s) (auto simp: digits_ok_def)
  have "is_digit c" using assms(1) s by (simp add: digits_ok_def)
  moreover have "int (digits_val s) < int (2 ^ 63)" using assms(2) by (simp only: of_nat_less_iff)
  ultimately show ?thesis using assms(1) digit_not_sign [of c] by (simp add: Atoi_def s Let_def)
qed

lemma Atoi_Itoa: "0 \<le> n \<Longrightarrow> n < 2 ^ 63 \<Longrightarrow> Atoi (Itoa n) = Some n"
  by (subst Atoi_digits) (auto simp: Itoa_def nat_digits_ok)

lemma Itoa_chars: "0 \<le> n \<Longrightarrow> c \<in> set (Itoa n) \<Longrightarrow> is_digit c"
  using Itoa_digits [of n] by (auto simp: digits_ok_def list_all_iff)

section \<open>Canonical header names\<close>

text \<open>
  \<^verbatim>\<open>textproto.CanonicalMIMEHeaderKey\<close>: a name of token characters gets an upper-case letter at the start
  and after each dash and lower case elsewhere; any other name is returned as it is.
\<close>

definition validHeaderFieldByte :: "char \<Rightarrow> bool" where
  "validHeaderFieldByte c \<longleftrightarrow> 97 \<le> code c \<and> code c \<le> 122 \<or> 65 \<le> code c \<and> code c \<le> 90
     \<or> is_digit c \<or> c \<in> set ''!#$%&*+-.^_|~'' \<or> code c = 39 \<or> code c = 96"

fun canonical_case :: "bool \<Rightarrow> string \<Rightarrow> string" where
  "canonical_case upper [] = []"
| "canonical_case upper (c # s) =
     (let c' = (if upper then upper_char c else lower_char c) in c' # canonical_case (c' = CHR ''-'') s)"

definition CanonicalMIMEHeaderKey :: "string \<Rightarrow> string" where
  "CanonicalMIMEHeaderKey s = (if list_all validHeaderFieldByte s then canonical_case True s else s)"

lemma case_char_idem:
  "upper_char (upper_char c) = upper_char c \<and> lower_char (lower_char c) = lower_char c \<and>
   (validHeaderFieldByte c \<longrightarrow> validHeaderFieldByte (upper_char c) \<and> validHeaderFieldByte (lower_char c))"
  by (auto simp: upper_char_def lower_char_def validHeaderFieldByte_def)

lemma canonical_case_idem: "canonical_case u (canonical_case u s) = canonical_case u s"
  by (induction u s rule: canonical_case.induct) (auto simp: Let_def case_char_idem)

lemma canonical_case_valid:
  "list_all validHeaderFieldByte s \<Longrightarrow> list_all validHeaderFieldByte (canonical_case u s)"
  by (induction u s rule: canonical_case.induct) (auto simp: Let_def case_char_idem)

lemma CanonicalMIMEHeaderKey_idem: "CanonicalMIMEHeaderKey (CanonicalMIMEHeaderKey s) = CanonicalMIMEHeaderKey s"
  by (simp add: CanonicalMIMEHeaderKey_def canonical_case_valid canonical_case_idem)

end
