(* ===== verification/SIP_Message.thy ===== *)
theory SIP_Message
  imports Go_Strings Wire_Codec "HOL-Library.Finite_Map"
begin

text \<open>
  SIP messages, \<^verbatim>\<open>proto/sip.go\<close>, \<^verbatim>\<open>proto/proto_read.go\<close>, \<^verbatim>\<open>proto/sip_constants.go\<close>: the header multimap, the
  message structure and its accessors, address and Via parsing, the message parser for datagrams and
  streams, and the serialiser in long and compact form.
\<close>

section \<open>Constants\<close>

abbreviation CR :: char where "CR \<equiv> CHR 0x0D"
abbreviation LF :: char where "LF \<equiv> CHR 0x0A"
abbreviation TAB :: char where "TAB \<equiv> CHR 0x09"
abbreviation CRLF :: string where "CRLF \<equiv> [CR, LF]"

type_synonym SIPMethod = string

definition SIPIndicator :: string where "SIPIndicator = ''SIP/''"
definition SIPVersion :: string where "SIPVersion = ''SIP/2.0''"

definition sip_methods :: "SIPMethod list" where
  "sip_methods = [''INVITE'', ''ACK'', ''CANCEL'', ''OPTIONS'', ''BYE'', ''REGISTER'', ''PRACK'',
     ''SUBSCRIBE'', ''NOTIFY'', ''PUBLISH'', ''INFO'', ''REFER'', ''MESSAGE'', ''UPDATE'']"

definition compact_table :: "(string \<times> string) list" where
  "compact_table = [(''a'', ''Accept-Contact''), (''b'', ''Referred-By''), (''c'', ''Content-Type''),
     (''d'', ''Request-Disposition''), (''e'', ''Content-Encoding''), (''f'', ''From''), (''i'', ''Call-ID''),
     (''j'', ''Reject-Contact''), (''k'', ''Supported''), (''l'', ''Content-Length''), (''m'', ''Contact''),
     (''n'', ''RSeq''), (''o'', ''Event''), (''r'', ''Refer-To''), (''s'', ''Subject''), (''t'', ''To''),
     (''u'', ''Allow-Events''), (''v'', ''Via'')]"

definition compactHeaders :: "string \<Rightarrow> string option" where
  "compactHeaders k = map_of compact_table k"

definition rfcOverride :: "string \<Rightarrow> string option" where
  "rfcOverride k = map_of [(''Call-Id'', ''Call-ID''), (''Cseq'', ''CSeq''), (''Rack'', ''RAck''), (''Rseq'', ''RSeq''),
     (''Www-Authenticate'', ''WWW-Authenticate'')] k"

text \<open>The switch of \<^verbatim>\<open>compactKey\<close>, case by case.\<close>

definition compactKey :: "string \<Rightarrow> string" where
  "compactKey k = (case map_of
     [(''Accept-Contact'', ''a''), (''Referred-By'', ''b''), (''Content-Type'', ''c''), (''Request-Disposition'', ''d''),
      (''Content-Encoding'', ''e''), (''From'', ''f''), (''Call-ID'', ''i''), (''Reject-Contact'', ''j''), (''Supported'', ''k''),
      (''Content-Length'', ''l''), (''Contact'', ''m''), (''RSeq'', ''n''), (''Event'', ''o''), (''Refer-To'', ''r''),
      (''Subject'', ''s''), (''To'', ''t''), (''Allow-Events'', ''u''), (''Via'', ''v'')] k of
     Some c \<Rightarrow> c | None \<Rightarrow> k)"

section \<open>Headers\<close>

text \<open>
  The Go map from header names to value lists is a finite map: keys are unordered, lookup of an absent
  key in an \<^verbatim>\<open>append\<close> is the empty list.
\<close>

type_synonym SIPHeaders = "(string, string list) fmap"

definition canonicalHeaderKey :: "string \<Rightarrow> string" where
  "canonicalHeaderKey k =
     (let can = CanonicalMIMEHeaderKey k in case rfcOverride can of Some rfc \<Rightarrow> rfc | None \<Rightarrow> can)"

definition SIPHeaders_GetFirst :: "SIPHeaders \<Rightarrow> string \<Rightarrow> ('e, string) go" where
  "SIPHeaders_GetFirst h k =
     (case fmlookup h (canonicalHeaderKey k) of Some values \<Rightarrow> index values 0 | None \<Rightarrow> Ok '''')"

definition SIPHeaders_Get :: "SIPHeaders \<Rightarrow> string \<Rightarrow> string list" where
  "SIPHeaders_Get h k = (case fmlookup h (canonicalHeaderKey k) of Some values \<Rightarrow> values | None \<Rightarrow> [])"

definition SIPHeaders_Set :: "SIPHeaders \<Rightarrow> string \<Rightarrow> string list \<Rightarrow> SIPHeaders" where
  "SIPHeaders_Set h k v = fmupd (canonicalHeaderKey k) v h"

definition values_at :: "SIPHeaders \<Rightarrow> string \<Rightarrow> string list" where
  "values_at h k = (case fmlookup h k of Some values \<Rightarrow> values | None \<Rightarrow> [])"

definition SIPHeaders_Add :: "SIPHeaders \<Rightarrow> string \<Rightarrow> string \<Rightarrow> SIPHeaders" where
  "SIPHeaders_Add h k v = (let k = canonicalHeaderKey k in fmupd k (values_at h k @ [v]) h)"

definition SIPHeaders_Delete :: "SIPHeaders \<Rightarrow> string \<Rightarrow> SIPHeaders" where
  "SIPHeaders_Delete h k = fmdrop (canonicalHeaderKey k) h"

section \<open>Messages\<close>

record CSeq =
  cseq_Method :: SIPMethod
  cseq_Seq :: int

record startLine =
  sl_Method :: SIPMethod
  sl_Version :: string
  sl_Status :: string
  sl_URI :: string
  sl_StatusCode :: int
  sl_IsRequest :: bool

text \<open>
  The two values computed lazily from the top Via header and cached under a \<^verbatim>\<open>sync.Once\<close> are
  \<open>None\<close> until they are first asked for.
\<close>

record SIPMessage =
  msg_startLine :: "startLine option"
  msg_Headers :: SIPHeaders
  msg_CSeq :: CSeq
  msg_Body :: string
  msg_branch :: "string option"
  msg_reliable :: "bool option"

datatype sip_error =
    SipStartLineRead
  | SipStartLine string
  | SipStatusCode string
  | SipMethodInvalid string
  | SipVersion string
  | SipHeaderEOF
  | SipHeaderInvalid string
  | SipCSeqNone
  | SipCSeqMultiple
  | SipCSeqPayload string
  | SipCSeqSequence string
  | SipCSeqMethod string
  | SipContentLength
  | SipContentLengthNegative int
  | SipContentLengthRequired
  | SipBodyRead
  | SipAddressEmpty
  | SipAddressBracket
  | SipMissingRequiredHeader string
  | SipNoStartLine
  | SipBufferTooSmall

definition zero_CSeq :: CSeq where "zero_CSeq = \<lparr>cseq_Method = '''', cseq_Seq = 0\<rparr>"

definition CSeq_String :: "CSeq \<Rightarrow> string" where
  "CSeq_String c = Itoa (cseq_Seq c) @ '' '' @ cseq_Method c"

definition startLine_String :: "startLine \<Rightarrow> string" where
  "startLine_String sl = (if sl_IsRequest sl then sl_Method sl @ '' '' @ sl_URI sl @ '' '' @ sl_Version sl
     else sl_Version sl @ '' '' @ sl_Status sl)"

definition NewRequest :: "SIPMethod \<Rightarrow> string \<Rightarrow> SIPMessage" where
  "NewRequest method requestURI =
     \<lparr>msg_startLine = Some \<lparr>sl_Method = method, sl_Version = SIPVersion, sl_Status = '''',
        sl_URI = requestURI, sl_StatusCode = 0, sl_IsRequest = True\<rparr>,
      msg_Headers = fmempty, msg_CSeq = \<lparr>cseq_Method = method, cseq_Seq = 1\<rparr>, msg_Body = [],
      msg_branch = None, msg_reliable = None\<rparr>"

definition copied_headers :: "string list" where
  "copied_headers = [''Via'', ''From'', ''To'', ''Call-ID'', ''CSeq'']"

definition NewResponse :: "SIPMessage \<Rightarrow> int \<Rightarrow> string \<Rightarrow> SIPMessage" where
  "NewResponse req statusCode reason =
     \<lparr>msg_startLine = Some \<lparr>sl_Method = '''', sl_Version = SIPVersion,
        sl_Status = Itoa statusCode @ '' '' @ reason, sl_URI = '''', sl_StatusCode = statusCode,
        sl_IsRequest = False\<rparr>,
      msg_Headers = fold (\<lambda>h hs. let vals = values_at (msg_Headers req) h in
          if 0 < length vals then fmupd h vals hs else hs) copied_headers fmempty,
      msg_CSeq = msg_CSeq req, msg_Body = [], msg_branch = None, msg_reliable = None\<rparr>"

definition SIPMessage_StartLine :: "SIPMessage \<Rightarrow> string" where
  "SIPMessage_StartLine m = (case msg_startLine m of None \<Rightarrow> '''' | Some sl \<Rightarrow> startLine_String sl)"

definition SIPMessage_IsRequest :: "SIPMessage \<Rightarrow> bool" where
  "SIPMessage_IsRequest m = (case msg_startLine m of None \<Rightarrow> False | Some sl \<Rightarrow> sl_IsRequest sl)"

definition SIPMessage_StatusCode :: "SIPMessage \<Rightarrow> int" where
  "SIPMessage_StatusCode m = (case msg_startLine m of None \<Rightarrow> 0
     | Some sl \<Rightarrow> if sl_IsRequest sl then 0 else sl_StatusCode sl)"

definition SIPMessage_Status :: "SIPMessage \<Rightarrow> string" where
  "SIPMessage_Status m = (case msg_startLine m of None \<Rightarrow> ''''
     | Some sl \<Rightarrow> if sl_IsRequest sl then '''' else sl_Status sl)"

definition SIPMessage_RequestURI :: "SIPMessage \<Rightarrow> string" where
  "SIPMessage_RequestURI m = (case msg_startLine m of None \<Rightarrow> ''''
     | Some sl \<Rightarrow> if \<not> sl_IsRequest sl then '''' else sl_URI sl)"

definition SIPMessage_Method :: "SIPMessage \<Rightarrow> SIPMethod" where
  "SIPMessage_Method m = (case msg_startLine m of None \<Rightarrow> ''''
     | Some sl \<Rightarrow> if \<not> sl_IsRequest sl then '''' else sl_Method sl)"

definition SIPMessage_Version :: "SIPMessage \<Rightarrow> string" where
  "SIPMessage_Version m = (case msg_startLine m of None \<Rightarrow> '''' | Some sl \<Rightarrow> sl_Version sl)"

section \<open>Addresses\<close>

record SIPAddress =
  addr_Params :: "(string, string) fmap"
  addr_DisplayName :: string
  addr_URI :: string
  addr_Tag :: string

definition unquoteDisplayName :: "string \<Rightarrow> string" where
  "unquoteDisplayName s =
     (if length s \<ge> 2 \<and> s ! 0 = CHR 0x22 \<and> s ! (length s - 1) = CHR 0x22 then
        let s = take (length s - 2) (drop 1 s);
            s = ReplaceAll s [CHR 0x5C, CHR 0x22] [CHR 0x22]
        in ReplaceAll s [CHR 0x5C, CHR 0x5C] [CHR 0x5C]
      else s)"

lemma Cut_shorter: "s \<noteq> [] \<Longrightarrow> Cut s [b] = (p, t, f) \<Longrightarrow> length t < length s"
  using Index_Some_byte [of s b] by (auto simp: Cut_def split: option.splits)

function unmarshal_params :: "string \<Rightarrow> SIPAddress \<Rightarrow> SIPAddress" where
  "unmarshal_params s ft =
     (if s = [] then ft
      else case Cut s '';'' of (p, s', _) \<Rightarrow>
        let p = TrimSpace p in
        if p = [] then unmarshal_params s' ft
        else case Cut p ''='' of (k, v, found) \<Rightarrow>
          if found then
            if k = ''tag'' then unmarshal_params s' (ft\<lparr>addr_Tag := v\<rparr>)
            else unmarshal_params s' (ft\<lparr>addr_Params := fmupd k v (addr_Params ft)\<rparr>)
          else unmarshal_params s' (ft\<lparr>addr_Params := fmupd k '''' (addr_Params ft)\<rparr>))"
  by pat_completeness auto
termination
  by (relation "measure (\<lambda>(s, ft). length s)") (auto simp: Cut_shorter dest!: sym [of "(_, _, _)"])

declare unmarshal_params.simps [simp del]

definition SIPAddress_unmarshalParams :: "SIPAddress \<Rightarrow> string \<Rightarrow> SIPAddress" where
  "SIPAddress_unmarshalParams ft s = (if s = [] then ft else unmarshal_params (TrimPrefix s '';'') ft)"

definition splitAddrSpec :: "string \<Rightarrow> string \<times> string" where
  "splitAddrSpec raw = (case Index raw '';tag='' of Some idx \<Rightarrow> (take idx raw, drop (idx + 1) raw) | None \<Rightarrow> (raw, ''''))"

definition zero_SIPAddress :: SIPAddress where
  "zero_SIPAddress = \<lparr>addr_Params = fmempty, addr_DisplayName = '''', addr_URI = '''', addr_Tag = ''''\<rparr>"

definition UnmarshalSIPAddress :: "string \<Rightarrow> (sip_error, SIPAddress) go" where
  "UnmarshalSIPAddress raw =
     (let raw = TrimSpace raw in
      if raw = [] then Fail SipAddressEmpty
      else case IndexByte raw (CHR ''<'') of
        Some openBracket \<Rightarrow>
          (case IndexByte (drop openBracket raw) (CHR ''>'') of
             None \<Rightarrow> Fail SipAddressBracket
           | Some n \<Rightarrow>
               let closeBracket = n + openBracket;
                   display = TrimSpace (take openBracket raw);
                   ft = (if display \<noteq> [] then zero_SIPAddress\<lparr>addr_DisplayName := unquoteDisplayName display\<rparr>
                         else zero_SIPAddress) in
               and_then (slice raw (openBracket + 1) closeBracket) (\<lambda>uri.
               and_then (slice raw (closeBracket + 1) (length raw)) (\<lambda>rest.
               Ok (SIPAddress_unmarshalParams (ft\<lparr>addr_URI := TrimSpace uri\<rparr>) (TrimSpace rest)))))
      | None \<Rightarrow>
          (case splitAddrSpec raw of (uri, params) \<Rightarrow>
             Ok (SIPAddress_unmarshalParams (zero_SIPAddress\<lparr>addr_URI := uri\<rparr>) params)))"

definition SIPMessage_From :: "SIPMessage \<Rightarrow> (sip_error, SIPAddress) go" where
  "SIPMessage_From m = and_then (SIPHeaders_GetFirst (msg_Headers m) ''From'') UnmarshalSIPAddress"

definition SIPMessage_To :: "SIPMessage \<Rightarrow> (sip_error, SIPAddress) go" where
  "SIPMessage_To m = and_then (SIPHeaders_GetFirst (msg_Headers m) ''To'') UnmarshalSIPAddress"

section \<open>The Via header\<close>

definition unmarshalProto :: "string \<Rightarrow> string" where
  "unmarshalProto via = (if \<not> HasPrefix via ''SIP/2.0/'' then ''''
     else case Cut (drop 8 via) '' '' of (proto, _, _) \<Rightarrow> proto)"

definition SIPMessage_IsReliableTransport :: "SIPMessage \<Rightarrow> ('e, bool \<times> SIPMessage) go" where
  "SIPMessage_IsReliableTransport m = (case msg_reliable m of
     Some r \<Rightarrow> Ok (r, m)
   | None \<Rightarrow> and_then (SIPHeaders_GetFirst (msg_Headers m) ''Via'') (\<lambda>via.
       let proto = unmarshalProto via; r = (proto \<noteq> [] \<and> \<not> EqualFold proto ''UDP'') in
       Ok (r, m\<lparr>msg_reliable := Some r\<rparr>)))"

definition unmarshalViaSentBy :: "string \<Rightarrow> string" where
  "unmarshalViaSentBy via = (case Index via '' '' of
     None \<Rightarrow> ''''
   | Some afterProto \<Rightarrow>
       let rest = TrimSpace (drop (afterProto + 1) via) in
       case IndexByte rest (CHR '';'') of Some semi \<Rightarrow> take semi rest | None \<Rightarrow> rest)"

definition SIPMessage_ViaSentBy :: "SIPMessage \<Rightarrow> ('e, string) go" where
  "SIPMessage_ViaSentBy m =
     and_then (SIPHeaders_GetFirst (msg_Headers m) ''Via'') (\<lambda>via. Ok (unmarshalViaSentBy via))"

text \<open>
  The case-insensitive fallback finds the parameter in the lower-cased string and uses that position
  in the original one, which can lie past its end when lower-casing made the string longer.
\<close>

definition unmarshalViaBranch :: "(nat \<Rightarrow> nat) \<Rightarrow> string \<Rightarrow> ('e, string) go" where
  "unmarshalViaBranch tbl via =
     (case (case Index via '';branch='' of Some idx \<Rightarrow> Some idx
            | None \<Rightarrow> Index (ToLower tbl via) '';branch='') of
        None \<Rightarrow> Ok ''''
      | Some idx \<Rightarrow>
          and_then (slice via (idx + 8) (length via)) (\<lambda>rest.
          case Cut rest '';'' of (branch, _, found) \<Rightarrow>
            if found then Ok branch else Ok (TrimRight rest [CHR '' '', CR])))"

definition SIPMessage_ViaBranch :: "(nat \<Rightarrow> nat) \<Rightarrow> SIPMessage \<Rightarrow> ('e, string \<times> SIPMessage) go" where
  "SIPMessage_ViaBranch tbl m = (case msg_branch m of
     Some b \<Rightarrow> Ok (b, m)
   | None \<Rightarrow> and_then (SIPHeaders_GetFirst (msg_Headers m) ''Via'') (\<lambda>via.
       and_then (unmarshalViaBranch tbl via) (\<lambda>b. Ok (b, m\<lparr>msg_branch := Some b\<rparr>))))"

section \<open>Parsing\<close>

text \<open>
  The buffered reader is the list of the bytes not yet consumed; it ends with EOF, the only error of
  a datagram's reader and the one that stands for a closed stream.  \<^verbatim>\<open>ReadString\<close> returns a last line
  without its newline together with EOF, which \<^verbatim>\<open>readLine\<close> ignores unless the line is empty.
\<close>

definition readLine :: "string \<Rightarrow> (string \<times> string) option" where
  "readLine r =
     (let (line, r') = (case IndexByte r LF of Some i \<Rightarrow> (take (i + 1) r, drop (i + 1) r) | None \<Rightarrow> (r, [])) in
      if line = [] then None else Some (TrimSuffix line CRLF, r'))"

lemma readLine_shorter: "readLine r = Some (line, r') \<Longrightarrow> length r' < length r"
  using Index_Some_byte [of r LF] by (auto simp: readLine_def IndexByte_eq Let_def split: option.splits if_splits)

function read_continuation :: "string \<Rightarrow> string \<Rightarrow> (string \<times> string) option" where
  "read_continuation line r = (case r of
     b # _ \<Rightarrow>
       if b \<noteq> CHR '' '' \<and> b \<noteq> TAB then Some (line, r)
       else (case readLine r of None \<Rightarrow> None
         | Some (cont, r') \<Rightarrow> read_continuation (TrimRight line [CHR '' '', TAB, CR] @ cont) r')
   | [] \<Rightarrow> Some (line, r))"
  by pat_completeness auto
termination
  by (relation "measure (\<lambda>(line, r). length r)") (auto simp del: length_Cons dest: readLine_shorter)

declare read_continuation.simps [simp del]

definition readContinuedLine :: "string \<Rightarrow> (string \<times> string) option" where
  "readContinuedLine r = (case readLine r of None \<Rightarrow> None
     | Some (line, r') \<Rightarrow> if line = [] then Some (line, r') else read_continuation line r')"

lemma read_continuation_shorter:
  "read_continuation line r = Some (line', r') \<Longrightarrow> length r' \<le> length r"
proof (induction line r rule: read_continuation.induct)
  case (1 line r)
  show ?case
  proof (cases "r \<noteq> [] \<and> (hd r = CHR '' '' \<or> hd r = TAB)")
    case True
    then obtain b t where r: "r = b # t" "\<not> (b \<noteq> CHR '' '' \<and> b \<noteq> TAB)" by (cases r) auto
    with 1(2) obtain cont r'' where rl: "readLine r = Some (cont, r'')"
      and rec: "read_continuation (TrimRight line [CHR '' '', TAB, CR] @ cont) r'' = Some (line', r')"
      by (subst (asm) read_continuation.simps) (auto split: option.splits)
    have "length r' \<le> length r''" by (rule 1(1) [OF r rl refl rec])
    with readLine_shorter [OF rl] show ?thesis by simp
  next
    case False
    with 1(2) show ?thesis by (subst (asm) read_continuation.simps) (auto split: list.splits)
  qed
qed

lemma readContinuedLine_shorter: "readContinuedLine r = Some (line, r') \<Longrightarrow> length r' < length r"
  by (auto simp: readContinuedLine_def split: option.splits if_splits
      dest!: readLine_shorter read_continuation_shorter)

definition header_key :: "string \<Rightarrow> string" where
  "header_key k = canonicalHeaderKey (case compactHeaders k of Some l \<Rightarrow> l | None \<Rightarrow> k)"

function unmarshal_headers :: "string \<Rightarrow> SIPHeaders \<Rightarrow> (sip_error, SIPHeaders \<times> string) go" where
  "unmarshal_headers r h = (case readContinuedLine r of
     None \<Rightarrow> Fail SipHeaderEOF
   | Some (line, r') \<Rightarrow>
       if line = [] then Ok (h, r')
       else case Cut line '':'' of (k, v, found) \<Rightarrow>
         if \<not> found then Fail (SipHeaderInvalid line)
         else let k = header_key k; v = dropWhile (\<lambda>c. c = CHR '' '') v in
           unmarshal_headers r' (fmupd k (values_at h k @ [v]) h))"
  by pat_completeness auto
termination
  by (relation "measure (\<lambda>(r, h). length r)") (auto dest: readContinuedLine_shorter)

declare unmarshal_headers.simps [simp del]

definition unmarshalHeaders :: "string \<Rightarrow> (sip_error, SIPHeaders \<times> string) go" where
  "unmarshalHeaders r = unmarshal_headers r fmempty"

definition unmarshalMethod :: "string \<Rightarrow> (sip_error, SIPMethod) go" where
  "unmarshalMethod v = (if v \<in> set sip_methods then Ok v else Fail (SipMethodInvalid v))"

definition zero_startLine :: startLine where
  "zero_startLine = \<lparr>sl_Method = '''', sl_Version = '''', sl_Status = '''', sl_URI = '''', sl_StatusCode = 0,
     sl_IsRequest = False\<rparr>"

definition unmarshalStartLine :: "string \<Rightarrow> (sip_error, startLine) go" where
  "unmarshalStartLine s =
     (case Cut s '' '' of (t0, rest, ok) \<Rightarrow>
      if \<not> ok then Fail (SipStartLine s)
      else case Cut rest '' '' of (t1, t2, ok) \<Rightarrow>
        if \<not> ok \<or> t1 = [] \<or> t2 = [] then Fail (SipStartLine s)
        else if HasPrefix t0 SIPIndicator then
          if length t1 \<noteq> 3 then Fail (SipStatusCode t1)
          else (case Atoi t1 of
              None \<Rightarrow> Fail (SipStatusCode t1)
            | Some sc \<Rightarrow> Ok (zero_startLine\<lparr>sl_IsRequest := False, sl_Version := t0, sl_StatusCode := sc,
                 sl_Status := t1 @ '' '' @ t2\<rparr>))
        else
          and_then (unmarshalMethod t0) (\<lambda>m.
          if \<not> HasPrefix t2 SIPIndicator then Fail (SipVersion t2)
          else Ok (zero_startLine\<lparr>sl_IsRequest := True, sl_Method := m, sl_URI := t1, sl_Version := t2\<rparr>)))"

definition unmarshalCSeq :: "string list \<Rightarrow> (sip_error, CSeq) go" where
  "unmarshalCSeq values =
     (if length values = 0 then Fail SipCSeqNone
      else if length values > 1 then Fail SipCSeqMultiple
      else case Cut (values ! 0) '' '' of (seqStr, methodStr, found) \<Rightarrow>
        if \<not> found then Fail (SipCSeqPayload (values ! 0))
        else case Atoi seqStr of
          None \<Rightarrow> Fail (SipCSeqSequence seqStr)
        | Some seq \<Rightarrow>
            (case unmarshalMethod methodStr of
               Ok method \<Rightarrow> Ok \<lparr>cseq_Method = method, cseq_Seq = seq\<rparr>
             | Fail _ \<Rightarrow> Fail (SipCSeqMethod methodStr)
             | Panic \<Rightarrow> Panic))"

text \<open>
  \<^verbatim>\<open>make([]byte, n)\<close> panics when \<^verbatim>\<open>n\<close> exceeds the largest allocation of the runtime, 2^48 bytes on a
  64-bit platform.
\<close>

definition max_alloc :: int where "max_alloc = 2 ^ 48"

definition unmarshal_body :: "string \<Rightarrow> bool \<Rightarrow> SIPMessage \<Rightarrow> (sip_error, SIPMessage \<times> string) go" where
  "unmarshal_body r streamed msg =
     (case fmlookup (msg_Headers msg) ''Content-Length'' of
        Some clStr \<Rightarrow>
          and_then (index clStr 0) (\<lambda>cl.
          case Atoi (TrimSpace cl) of
            None \<Rightarrow> Fail SipContentLength
          | Some contentLength \<Rightarrow>
              if contentLength < 0 then Fail (SipContentLengthNegative contentLength)
              else if contentLength > max_alloc then Panic
              else let n = nat contentLength in
                if length r < n then Fail SipBodyRead
                else let msg = msg\<lparr>msg_Body := take n r\<rparr>; r = drop n r in
                  Ok (msg, if streamed then r else drop (2 ^ 20) r))
      | None \<Rightarrow>
          if streamed then Fail SipContentLengthRequired
          else Ok (msg\<lparr>msg_Body := r\<rparr>, []))"

definition unmarshalSIP :: "string \<Rightarrow> bool \<Rightarrow> (sip_error, SIPMessage \<times> string) go" where
  "unmarshalSIP r streamed =
     (case readLine r of None \<Rightarrow> Fail SipStartLineRead
      | Some (line, r) \<Rightarrow>
          and_then (unmarshalStartLine line) (\<lambda>sl.
          and_then (unmarshalHeaders r) (\<lambda>(headers, r).
          and_then (case fmlookup headers ''CSeq'' of Some values \<Rightarrow> unmarshalCSeq values | None \<Rightarrow> Ok zero_CSeq) (\<lambda>cseq.
          unmarshal_body r streamed \<lparr>msg_startLine = Some sl, msg_Headers = headers, msg_CSeq = cseq, msg_Body = [],
             msg_branch = None, msg_reliable = None\<rparr>))))"

definition UnmarshalSIPDatagram :: "string \<Rightarrow> (sip_error, SIPMessage) go" where
  "UnmarshalSIPDatagram data = and_then (unmarshalSIP data False) (\<lambda>(msg, _). Ok msg)"

text \<open>On a stream the reader keeps what follows the message.\<close>

definition UnmarshalSIP :: "string \<Rightarrow> (sip_error, SIPMessage \<times> string) go" where
  "UnmarshalSIP r = unmarshalSIP r True"

section \<open>Serialising\<close>

definition written_elsewhere :: "string \<Rightarrow> bool" where
  "written_elsewhere k \<longleftrightarrow> k = ''CSeq'' \<or> k = ''Content-Length''"

definition header_keys :: "SIPHeaders \<Rightarrow> string list" where
  "header_keys h = filter (\<lambda>k. \<not> written_elsewhere k) (sorted_list_of_fset (fmdom h))"

definition out_key :: "bool \<Rightarrow> string \<Rightarrow> string" where
  "out_key compact k = (if compact then compactKey k else k)"

definition marshalSize :: "SIPMessage \<Rightarrow> bool \<Rightarrow> nat" where
  "marshalSize m compact = (case msg_startLine m of None \<Rightarrow> 0
     | Some sl \<Rightarrow>
         (if sl_IsRequest sl then length (sl_Method sl) + 1 + length (sl_URI sl) + 1 + length (sl_Version sl)
          else length (sl_Version sl) + 1 + length (sl_Status sl)) + 2
         + sum_list (map (\<lambda>k. sum_list (map (\<lambda>v. length (out_key compact k) + 2 + length v + 2)
              (values_at (msg_Headers m) k))) (header_keys (msg_Headers m)))
         + (6 + intLen (cseq_Seq (msg_CSeq m)) + 1 + length (cseq_Method (msg_CSeq m)) + 2)
         + (length (out_key compact ''Content-Length'') + 2 + intLen (int (length (msg_Body m))) + 2)
         + (2 + length (msg_Body m)))"

definition validateRequiredHeaders :: "SIPMessage \<Rightarrow> sip_error option" where
  "validateRequiredHeaders m = (case msg_startLine m of None \<Rightarrow> Some SipNoStartLine
     | Some _ \<Rightarrow> map_option SipMissingRequiredHeader
         (find (\<lambda>h. fmlookup (msg_Headers m) h = None) [''Via'', ''From'', ''To'', ''Call-ID'']))"

definition marshal_start_line :: "startLine \<Rightarrow> ('e, char) writer" where
  "marshal_start_line sl =
     (if sl_IsRequest sl then do_all [copy (sl_Method sl), put '' '', copy (sl_URI sl), put '' '', copy (sl_Version sl)]
      else do_all [copy (sl_Version sl), put '' '', copy (sl_Status sl)])"

definition marshal_header :: "string \<Rightarrow> string \<Rightarrow> ('e, char) writer" where
  "marshal_header key v = do_all [copy key, put '': '', copy v, put CRLF]"

definition marshalToImpl :: "SIPMessage \<Rightarrow> bool \<Rightarrow> string \<Rightarrow> (sip_error, string \<times> nat) go" where
  "marshalToImpl m compact buf = (case msg_startLine m of None \<Rightarrow> Ok (buf, 0)
     | Some sl \<Rightarrow> do_all
         [marshal_start_line sl, put CRLF,
          do_all (map (\<lambda>k. do_all (map (marshal_header (out_key compact k)) (values_at (msg_Headers m) k)))
            (header_keys (msg_Headers m))),
          copy ''CSeq: '', append_in_place (Itoa (cseq_Seq (msg_CSeq m))), put '' '',
          copy (cseq_Method (msg_CSeq m)), put CRLF,
          copy (out_key compact ''Content-Length''), put '': '',
          append_in_place (Itoa (int (length (msg_Body m)))), put CRLF,
          put CRLF, copy (msg_Body m)] (buf, 0))"

definition SIPMessage_MarshalSize :: "SIPMessage \<Rightarrow> nat" where
  "SIPMessage_MarshalSize m = marshalSize m False"

definition SIPMessage_MarshalCompactSize :: "SIPMessage \<Rightarrow> nat" where
  "SIPMessage_MarshalCompactSize m = marshalSize m True"

definition SIPMessage_MarshalTo :: "SIPMessage \<Rightarrow> string \<Rightarrow> (sip_error, string \<times> nat) go" where
  "SIPMessage_MarshalTo m buf = (case validateRequiredHeaders m of Some e \<Rightarrow> Fail e
     | None \<Rightarrow> if length buf < SIPMessage_MarshalSize m then Fail SipBufferTooSmall
         else marshalToImpl m False buf)"

definition SIPMessage_Marshal :: "SIPMessage \<Rightarrow> (sip_error, string) go" where
  "SIPMessage_Marshal m = (case validateRequiredHeaders m of Some e \<Rightarrow> Fail e
     | None \<Rightarrow> and_then (marshalToImpl m False (replicate (SIPMessage_MarshalSize m) (CHR 0x00))) (\<lambda>(buf, _). Ok buf))"

definition SIPMessage_String :: "SIPMessage \<Rightarrow> (sip_error, string) go" where
  "SIPMessage_String m =
     and_then (marshalToImpl m False (replicate (SIPMessage_MarshalSize m) (CHR 0x00))) (\<lambda>(buf, _). Ok buf)"

definition SIPMessage_MarshalCompactTo :: "SIPMessage \<Rightarrow> string \<Rightarrow> (sip_error, string \<times> nat) go" where
  "SIPMessage_MarshalCompactTo m buf =
     (if length buf < SIPMessage_MarshalCompactSize m then Fail SipBufferTooSmall
      else marshalToImpl m True buf)"

definition SIPMessage_MarshalCompact :: "SIPMessage \<Rightarrow> (sip_error, string) go" where
  "SIPMessage_MarshalCompact m =
     and_then (marshalToImpl m True (replicate (SIPMessage_MarshalCompactSize m) (CHR 0x00))) (\<lambda>(buf, _). Ok buf)"

section \<open>The wire format\<close>

text \<open>
  A message as text: the start line, one line per header value, the two lines the serialiser computes
  itself (CSeq and Content-Length), an empty line and the body.  \<open>sip_ok\<close> says which messages have
  such a text that can be read back: no newline inside a line, header names that are canonical and do not
  start with white space, values that do not start with a space, a known method, a non-negative sequence
  number.  \<open>sip_canon\<close> is the message as it is read back.
\<close>

definition header_line :: "string \<Rightarrow> string \<Rightarrow> string" where
  "header_line key v = key @ '': '' @ v @ CRLF"

definition header_pairs :: "bool \<Rightarrow> SIPMessage \<Rightarrow> (string \<times> string) list" where
  "header_pairs compact m =
     concat (map (\<lambda>k. map (Pair (out_key compact k)) (values_at (msg_Headers m) k)) (header_keys (msg_Headers m)))
     @ [(''CSeq'', CSeq_String (msg_CSeq m)),
        (out_key compact ''Content-Length'', Itoa (int (length (msg_Body m))))]"

definition sip_wire :: "bool \<Rightarrow> SIPMessage \<Rightarrow> string" where
  "sip_wire compact m = SIPMessage_StartLine m @ CRLF
     @ concat (map (\<lambda>(k, v). header_line k v) (header_pairs compact m)) @ CRLF @ msg_Body m"

definition key_ok :: "string \<Rightarrow> bool" where
  "key_ok k \<longleftrightarrow> CHR '':'' \<notin> set k \<and> LF \<notin> set k \<and> (k = [] \<or> hd k \<noteq> CHR '' '' \<and> hd k \<noteq> TAB)"

definition value_ok :: "string \<Rightarrow> bool" where
  "value_ok v \<longleftrightarrow> LF \<notin> set v \<and> (v = [] \<or> hd v \<noteq> CHR '' '')"

definition headers_ok :: "SIPHeaders \<Rightarrow> bool" where
  "headers_ok h \<longleftrightarrow> fmpred (\<lambda>k vs. written_elsewhere k \<or>
     canonicalHeaderKey k = k \<and> key_ok k \<and> vs \<noteq> [] \<and> list_all value_ok vs) h"

definition startLine_ok :: "startLine \<Rightarrow> bool" where
  "startLine_ok sl \<longleftrightarrow> LF \<notin> set (startLine_String sl) \<and>
     (if sl_IsRequest sl then sl_Method sl \<in> set sip_methods \<and> sl_URI sl \<noteq> [] \<and> CHR '' '' \<notin> set (sl_URI sl)
        \<and> HasPrefix (sl_Version sl) SIPIndicator \<and> sl_Status sl = [] \<and> sl_StatusCode sl = 0
      else HasPrefix (sl_Version sl) SIPIndicator \<and> CHR '' '' \<notin> set (sl_Version sl) \<and> sl_Method sl = [] \<and> sl_URI sl = []
        \<and> 4 < length (sl_Status sl) \<and> CHR '' '' \<notin> set (take 3 (sl_Status sl)) \<and> sl_Status sl ! 3 = CHR '' ''
        \<and> Atoi (take 3 (sl_Status sl)) = Some (sl_StatusCode sl))"

definition sip_ok :: "SIPMessage \<Rightarrow> bool" where
  "sip_ok m \<longleftrightarrow> (case msg_startLine m of None \<Rightarrow> False | Some sl \<Rightarrow> startLine_ok sl)
     \<and> headers_ok (msg_Headers m) \<and> validateRequiredHeaders m = None
     \<and> cseq_Method (msg_CSeq m) \<in> set sip_methods \<and> 0 \<le> cseq_Seq (msg_CSeq m) \<and> cseq_Seq (msg_CSeq m) < 2 ^ 63
     \<and> int (length (msg_Body m)) \<le> max_alloc"

definition sip_canon :: "SIPMessage \<Rightarrow> SIPMessage" where
  "sip_canon m = m\<lparr>msg_Headers := fmupd ''CSeq'' [CSeq_String (msg_CSeq m)]
       (fmupd ''Content-Length'' [Itoa (int (length (msg_Body m)))] (msg_Headers m)),
     msg_branch := None, msg_reliable := None\<rparr>"

section \<open>The serialiser writes the wire format\<close>

lemma emits_start_line: "emits (marshal_start_line sl) (startLine_String sl)"
proof (cases "sl_IsRequest sl")
  case True
  show ?thesis unfolding marshal_start_line_def if_P [OF True]
    by (rule emits_eq, (rule emits_intros)+) (simp add: startLine_String_def True)
next
  case False
  show ?thesis unfolding marshal_start_line_def if_not_P [OF False]
    by (rule emits_eq, (rule emits_intros)+) (simp add: startLine_String_def False)
qed

lemma emits_header_line: "emits (marshal_header key v) (header_line key v)"
  unfolding marshal_header_def
  by (rule emits_eq, (rule emits_intros)+) (simp add: header_line_def)

lemma concat_map_pairs:
  "concat (map f (concat (map (\<lambda>k. map (Pair (g k)) (vs k)) ks))) = concat (map (\<lambda>k. concat (map (\<lambda>v. f (g k, v)) (vs k))) ks)"
  by (induction ks) (simp_all add: comp_def)

lemma marshalToImpl_emits:
  assumes "msg_startLine m = Some sl"
  shows "\<exists>w. emits w (sip_wire compact m) \<and> (\<forall>buf. marshalToImpl m compact buf = w (buf, 0))"
proof -
  let ?w = "do_all
         [marshal_start_line sl, put CRLF,
          do_all (map (\<lambda>k. do_all (map (marshal_header (out_key compact k)) (values_at (msg_Headers m) k)))
            (header_keys (msg_Headers m))),
          copy ''CSeq: '', append_in_place (Itoa (cseq_Seq (msg_CSeq m))), put '' '',
          copy (cseq_Method (msg_CSeq m)), put CRLF,
          copy (out_key compact ''Content-Length''), put '': '',
          append_in_place (Itoa (int (length (msg_Body m)))), put CRLF,
          put CRLF, copy (msg_Body m)] :: (sip_error, char) writer"
  have "emits ?w (sip_wire compact m)"
    by (rule emits_eq, (rule emits_intros emits_start_line emits_header_line)+)
      (simp add: sip_wire_def header_pairs_def SIPMessage_StartLine_def assms concat_map_pairs
        header_line_def [of "''CSeq''"] header_line_def [of "out_key compact ''Content-Length''"] CSeq_String_def)
  then show ?thesis using assms by (intro exI [of _ ?w]) (simp add: marshalToImpl_def)
qed

lemma length_sip_wire:
  assumes "msg_startLine m = Some sl" and "0 \<le> cseq_Seq (msg_CSeq m)"
  shows "length (sip_wire compact m) = marshalSize m compact"
proof -
  have "length (concat (map (\<lambda>k. concat (map (\<lambda>v. header_line (out_key compact k) v) (values_at (msg_Headers m) k))) ks)) =
      sum_list (map (\<lambda>k. sum_list (map (\<lambda>v. length (out_key compact k) + 2 + length v + 2) (values_at (msg_Headers m) k))) ks)" for ks
    by (simp add: length_concat comp_def header_line_def)
  then show ?thesis using assms
    by (simp add: sip_wire_def header_pairs_def concat_map_pairs SIPMessage_StartLine_def startLine_String_def
        marshalSize_def header_line_def [of "''CSeq''"] header_line_def [of "out_key compact ''Content-Length''"]
        CSeq_String_def length_Itoa del: length_concat)
qed

lemma marshalToImpl_wire:
  assumes "msg_startLine m = Some sl" and "0 \<le> cseq_Seq (msg_CSeq m)" and "marshalSize m compact \<le> length buf"
  shows "marshalToImpl m compact buf =
     Ok (sip_wire compact m @ drop (marshalSize m compact) buf, marshalSize m compact)"
proof -
  obtain w where "emits w (sip_wire compact m)" "marshalToImpl m compact buf = w (buf, 0)"
    using marshalToImpl_emits [OF assms(1)] by blast
  with emits_run [of w] assms show ?thesis by (simp add: length_sip_wire)
qed

section \<open>The parser inverts the wire format\<close>

lemma readLine_line: "LF \<notin> set line \<Longrightarrow> readLine (line @ CR # LF # r) = Some (line, r)"
proof -
  assume l: "LF \<notin> set line"
  then have "IndexByte ((line @ [CR]) @ LF # r) LF = Some (length (line @ [CR]))"
    unfolding IndexByte_eq by (intro Index_byte) simp
  then show ?thesis
    using TrimSuffix_append [of line CRLF] by (simp add: readLine_def)
qed

lemma readContinuedLine_line:
  assumes "LF \<notin> set line" and "line \<noteq> []" and "r = [] \<or> hd r \<noteq> CHR '' '' \<and> hd r \<noteq> TAB"
  shows "readContinuedLine (line @ CR # LF # r) = Some (line, r)"
  using assms by (cases r) (simp_all add: readContinuedLine_def readLine_line read_continuation.simps)

lemma readContinuedLine_empty: "readContinuedLine (CR # LF # r) = Some ([], r)"
  using readLine_line [of "[]" r] by (simp add: readContinuedLine_def)

definition header_add :: "SIPHeaders \<Rightarrow> string \<times> string \<Rightarrow> SIPHeaders" where
  "header_add h p = fmupd (header_key (fst p)) (values_at h (header_key (fst p)) @ [snd p]) h"

lemma unmarshal_headers_end: "unmarshal_headers (CR # LF # r) h = Ok (h, r)"
  by (subst unmarshal_headers.simps) (simp add: readContinuedLine_empty)

lemma unmarshal_headers_line:
  assumes "key_ok k" and "value_ok v" and "r = [] \<or> hd r \<noteq> CHR '' '' \<and> hd r \<noteq> TAB"
  shows "unmarshal_headers (header_line k v @ r) h = unmarshal_headers r (header_add h (k, v))"
proof -
  have "readContinuedLine (header_line k v @ r) = Some (k @ '': '' @ v, r)"
    using readContinuedLine_line [of "k @ '': '' @ v" r] assms by (simp add: header_line_def key_ok_def value_ok_def)
  moreover have "Cut (k @ '': '' @ v) '':'' = (k, CHR '' '' # v, True)"
    using assms(1) by (simp add: key_ok_def Cut_byte)
  moreover have "dropWhile (\<lambda>c. c = CHR '' '') v = v"
    using assms(2) by (cases v) (auto simp: value_ok_def)
  ultimately show ?thesis
    by (subst unmarshal_headers.simps) (simp add: header_add_def Let_def)
qed

lemma unmarshal_headers_wire:
  assumes "list_all (\<lambda>(k, v). key_ok k \<and> value_ok v) ps"
  shows "unmarshal_headers (concat (map (\<lambda>(k, v). header_line k v) ps) @ CR # LF # r) h = Ok (foldl header_add h ps, r)"
  using assms
proof (induction ps arbitrary: h)
  case Nil
  show ?case by (simp add: unmarshal_headers_end)
next
  case (Cons p ps)
  obtain k v where p: "p = (k, v)" by (cases p)
  let ?rest = "concat (map (\<lambda>(k, v). header_line k v) ps) @ CR # LF # r"
  have "?rest = [] \<or> hd ?rest \<noteq> CHR '' '' \<and> hd ?rest \<noteq> TAB"
    using Cons.prems by (cases ps) (auto simp: header_line_def key_ok_def hd_append split: prod.splits)
  then show ?case using Cons p by (simp add: unmarshal_headers_line)
qed

lemma foldl_header_add:
  "fmlookup (foldl header_add h ps) k =
     (let vs = map snd (filter (\<lambda>p. header_key (fst p) = k) ps) in
      if fmlookup h k = None \<and> vs = [] then None else Some (values_at h k @ vs))"
  by (induction ps arbitrary: h) (auto simp: Let_def header_add_def values_at_def split: option.splits)

lemma compact_table_ok:
  "list_all (\<lambda>(c, l). canonicalHeaderKey c \<noteq> c \<and> compactKey l = c \<and> compactHeaders c = Some l \<and> canonicalHeaderKey l = l) compact_table"
  by code_simp

lemma compactKey_cases: "compactKey k = k \<or> (compactKey k, k) \<in> set compact_table"
proof (cases "k \<in> snd ` set compact_table")
  case True
  then obtain c where "(c, k) \<in> set compact_table" by auto
  with compact_table_ok show ?thesis by (auto simp: list_all_iff)
next
  case False
  then show ?thesis by (simp add: compact_table_def compactKey_def)
qed

lemma header_key_canonical: "canonicalHeaderKey k = k \<Longrightarrow> header_key k = k"
  using compact_table_ok by (auto simp: header_key_def compactHeaders_def list_all_iff split: option.split dest!: map_of_SomeD)

lemma header_key_out_key:
  assumes "canonicalHeaderKey k = k"
  shows "header_key (out_key compact k) = k"
proof (cases "compact \<and> (compactKey k, k) \<in> set compact_table")
  case True
  with compact_table_ok assms show ?thesis by (auto simp: list_all_iff header_key_def out_key_def)
next
  case False
  with compactKey_cases [of k] have "out_key compact k = k" by (auto simp: out_key_def)
  then show ?thesis by (simp add: header_key_canonical assms)
qed

lemma filter_pairs:
  assumes "distinct ks" and "\<And>k'. k' \<in> set ks \<Longrightarrow> header_key (f k') = k'"
  shows "map snd (filter (\<lambda>p. header_key (fst p) = k) (concat (map (\<lambda>k. map (Pair (f k)) (vs k)) ks))) = (if k \<in> set ks then vs k else [])"
  using assms
proof (induction ks)
  case (Cons a ks)
  have "filter (\<lambda>p. header_key (fst p) = k) (map (Pair (f a)) (vs a)) = (if k = a then map (Pair (f a)) (vs a) else [])"
    using Cons.prems by (auto simp: filter_map comp_def)
  then show ?case using Cons by (auto simp: comp_def)
qed simp

lemma own_keys_canonical: "canonicalHeaderKey ''CSeq'' = ''CSeq''" "canonicalHeaderKey ''Content-Length'' = ''Content-Length''"
  by code_simp+


lemma set_header_keys: "k \<in> set (header_keys h) \<longleftrightarrow> fmlookup h k \<noteq> None \<and> \<not> written_elsewhere k"
  by (auto simp: header_keys_def fmdom'_notI dest: fmdomI)

lemma headers_okD:
  assumes "headers_ok h" and "k \<in> set (header_keys h)"
  shows "canonicalHeaderKey k = k" "key_ok k" "values_at h k \<noteq> []" "list_all value_ok (values_at h k)"
    "fmlookup h k = Some (values_at h k)"
  using assms by (auto simp: set_header_keys headers_ok_def values_at_def dest: fmpredD)

lemma parsed_headers:
  assumes "headers_ok (msg_Headers m)"
  shows "foldl header_add fmempty (header_pairs compact m) = msg_Headers (sip_canon m)"
proof (rule fmap_ext)
  fix k
  let ?h = "msg_Headers m" and ?cs = "CSeq_String (msg_CSeq m)" and ?cl = "Itoa (int (length (msg_Body m)))"
  have own: "header_key ''CSeq'' = ''CSeq''" "header_key (out_key compact ''Content-Length'') = ''Content-Length''"
    by (simp_all add: header_key_canonical header_key_out_key own_keys_canonical)
  have "map snd (filter (\<lambda>p. header_key (fst p) = k) (concat (map (\<lambda>k. map (Pair (out_key compact k)) (values_at ?h k)) (header_keys ?h))))
      = (if k \<in> set (header_keys ?h) then values_at ?h k else [])"
  proof (rule filter_pairs)
    show "distinct (header_keys ?h)" by (simp add: header_keys_def sorted_list_of_fset.rep_eq)
    show "header_key (out_key compact k') = k'" if "k' \<in> set (header_keys ?h)" for k'
      by (intro header_key_out_key headers_okD(1) [OF assms that])
  qed
  then have "map snd (filter (\<lambda>p. header_key (fst p) = k) (header_pairs compact m)) =
      (if k \<in> set (header_keys ?h) then values_at ?h k else []) @ (if k = ''CSeq'' then [?cs] else [])
        @ (if k = ''Content-Length'' then [?cl] else [])"
    by (simp add: header_pairs_def own)
  moreover have "values_at fmempty k = []" by (simp add: values_at_def)
  ultimately show "fmlookup (foldl header_add fmempty (header_pairs compact m)) k = fmlookup (msg_Headers (sip_canon m)) k"
    using headers_okD [OF assms, of k]
    by (auto simp: foldl_header_add sip_canon_def set_header_keys written_elsewhere_def Let_def)
qed

lemma sip_methods_plain:
  "list_all (\<lambda>m. m \<noteq> [] \<and> list_all graphic m \<and> \<not> HasPrefix m SIPIndicator) sip_methods"
  by code_simp

lemma sip_methodD:
  assumes "m \<in> set sip_methods"
  shows "m \<noteq> []" "CHR '' '' \<notin> set m" "LF \<notin> set m" "\<not> HasPrefix m SIPIndicator"
proof -
  have "\<not> graphic (CHR '' '')" "\<not> graphic LF" by (simp_all add: graphic_def)
  then show "m \<noteq> []" "CHR '' '' \<notin> set m" "LF \<notin> set m" "\<not> HasPrefix m SIPIndicator"
    using assms sip_methods_plain by (auto simp: list_all_iff)
qed

lemma digits_no: "digits_ok s \<Longrightarrow> CHR '' '' \<notin> set s" "digits_ok s \<Longrightarrow> LF \<notin> set s"
  by (auto simp: digits_ok_def list_all_iff is_digit_def)

lemma digits_value_ok: "digits_ok s \<Longrightarrow> value_ok (s @ t) \<longleftrightarrow> LF \<notin> set t"
  using digits_no [of s] by (cases s) (auto simp: value_ok_def digits_ok_def)

lemma key_ok_out_key:
  assumes "key_ok k"
  shows "key_ok (out_key compact k)"
proof -
  have "list_all (\<lambda>(c, l). key_ok c) compact_table" by code_simp
  then show ?thesis using assms compactKey_cases [of k] by (auto simp: out_key_def list_all_iff)
qed

lemma header_pairs_ok:
  assumes "sip_ok m"
  shows "list_all (\<lambda>(k, v). key_ok k \<and> value_ok v) (header_pairs compact m)"
proof -
  have h: "headers_ok (msg_Headers m)" and cs: "0 \<le> cseq_Seq (msg_CSeq m)" "cseq_Method (msg_CSeq m) \<in> set sip_methods"
    using assms by (simp_all add: sip_ok_def)
  have "key_ok ''CSeq''" "key_ok ''Content-Length''" by (simp_all add: key_ok_def)
  moreover have "value_ok (CSeq_String (msg_CSeq m))"
    using sip_methodD [OF cs(2)] by (simp add: CSeq_String_def digits_value_ok Itoa_digits cs(1))
  moreover have "value_ok (Itoa (int (length (msg_Body m))))"
    using digits_value_ok [of "Itoa (int (length (msg_Body m)))" "[]"] by (simp add: Itoa_digits)
  ultimately show ?thesis
    using headers_okD [OF h] by (auto simp: header_pairs_def list_all_iff key_ok_out_key)
qed

lemma unmarshalCSeq_String:
  assumes "cseq_Method c \<in> set sip_methods" and "0 \<le> cseq_Seq c" and "cseq_Seq c < 2 ^ 63"
  shows "unmarshalCSeq [CSeq_String c] = Ok c"
  using assms digits_no [OF Itoa_digits]
  by (simp add: unmarshalCSeq_def CSeq_String_def Cut_byte Atoi_Itoa unmarshalMethod_def)

lemma unmarshalStartLine_String:
  assumes "startLine_ok sl"
  shows "unmarshalStartLine (startLine_String sl) = Ok sl"
proof (cases "sl_IsRequest sl")
  case True
  with assms have m: "sl_Method sl \<in> set sip_methods" and u: "sl_URI sl \<noteq> []" "CHR '' '' \<notin> set (sl_URI sl)"
    and v: "HasPrefix (sl_Version sl) SIPIndicator" "sl_Status sl = []" "sl_StatusCode sl = 0"
    by (simp_all add: startLine_ok_def)
  have "sl_Version sl \<noteq> []" using v(1) by (auto simp: HasPrefix_def SIPIndicator_def)
  with True m u v sip_methodD [OF m] show ?thesis
    by (simp add: unmarshalStartLine_def startLine_String_def Cut_byte unmarshalMethod_def zero_startLine_def)
next
  case False
  with assms have v: "HasPrefix (sl_Version sl) SIPIndicator" "CHR '' '' \<notin> set (sl_Version sl)"
    and s: "4 < length (sl_Status sl)" "CHR '' '' \<notin> set (take 3 (sl_Status sl))" "sl_Status sl ! 3 = CHR '' ''"
      "Atoi (take 3 (sl_Status sl)) = Some (sl_StatusCode sl)"
    and z: "sl_Method sl = []" "sl_URI sl = []"
    by (simp_all add: startLine_ok_def)
  define a b where "a = take 3 (sl_Status sl)" and "b = drop 4 (sl_Status sl)"
  have st: "sl_Status sl = a @ CHR '' '' # b"
    using s(1,3) id_take_nth_drop [of 3 "sl_Status sl"] by (simp add: a_def b_def)
  have "length a = 3" "b \<noteq> []" using s(1) by (simp_all add: a_def b_def)
  moreover from this have "a \<noteq> []" by auto
  ultimately show ?thesis
    using False v s(2,4) z st by (simp add: unmarshalStartLine_def startLine_String_def Cut_byte zero_startLine_def a_def [symmetric])
qed

lemma unmarshalSIP_wire:
  assumes "sip_ok m"
  shows "unmarshalSIP (sip_wire compact m @ rest) streamed =
     Ok (sip_canon m, if streamed then rest else drop (2 ^ 20) rest)"
proof -
  from assms obtain sl where sl: "msg_startLine m = Some sl" "startLine_ok sl"
    by (auto simp: sip_ok_def split: option.splits)
  let ?ps = "concat (map (\<lambda>(k, v). header_line k v) (header_pairs compact m))"
  have line: "readLine (sip_wire compact m @ rest) = Some (startLine_String sl, ?ps @ CR # LF # msg_Body m @ rest)"
    using sl readLine_line [of "startLine_String sl" "?ps @ CR # LF # msg_Body m @ rest"]
    by (simp add: sip_wire_def SIPMessage_StartLine_def startLine_ok_def)
  have hs: "unmarshalHeaders (?ps @ CR # LF # msg_Body m @ rest) = Ok (msg_Headers (sip_canon m), msg_Body m @ rest)"
    using assms by (simp add: unmarshalHeaders_def unmarshal_headers_wire header_pairs_ok parsed_headers sip_ok_def)
  have cs: "unmarshalCSeq [CSeq_String (msg_CSeq m)] = Ok (msg_CSeq m)"
    using assms by (intro unmarshalCSeq_String) (simp_all add: sip_ok_def)
  have len: "int (length (msg_Body m)) \<le> max_alloc" using assms by (simp add: sip_ok_def)
  then have "Atoi (TrimSpace (Itoa (int (length (msg_Body m))))) = Some (int (length (msg_Body m)))"
    by (simp add: digits_graphic Itoa_digits Atoi_Itoa max_alloc_def)
  then show ?thesis
    using len sl by (simp add: unmarshalSIP_def line unmarshalStartLine_String hs sip_canon_def cs unmarshal_body_def index_def Let_def)
qed

section \<open>The header interface\<close>

text \<open>
  What the users of a message's headers rely on: names are compared up to canonical form, \<open>set\<close>
  replaces, \<open>add\<close> appends, \<open>del\<close> removes, and none of them touches another name.
\<close>

locale header_multimap =
  fixes canon :: "'k \<Rightarrow> 'k"
    and get :: "'h \<Rightarrow> 'k \<Rightarrow> 'v list"
    and put_all :: "'h \<Rightarrow> 'k \<Rightarrow> 'v list \<Rightarrow> 'h"
    and add :: "'h \<Rightarrow> 'k \<Rightarrow> 'v \<Rightarrow> 'h"
    and del :: "'h \<Rightarrow> 'k \<Rightarrow> 'h"
  assumes canon_idem: "canon (canon k) = canon k"
    and get_canon: "get h (canon k) = get h k"
    and get_put_all: "get (put_all h k vs) k' = (if canon k' = canon k then vs else get h k')"
    and get_add: "get (add h k v) k' = (if canon k' = canon k then get h k' @ [v] else get h k')"
    and get_del: "get (del h k) k' = (if canon k' = canon k then [] else get h k')"
begin

definition same :: "'h \<Rightarrow> 'h \<Rightarrow> bool" where
  "same h h' \<longleftrightarrow> (\<forall>k. get h k = get h' k)"

lemma add_as_put_all: "same (add h k v) (put_all h k (get h k @ [v]))"
  unfolding same_def get_add get_put_all by (metis get_canon)

lemma add_after_del: "get (add (del h k) k v) k = [v]"
  by (simp add: get_add get_del)

lemma adds_in_order: "get (fold (\<lambda>v h. add h k v) vs h) k = get h k @ vs"
  by (induction vs arbitrary: h) (simp_all add: get_add)

lemma add_commute: "canon k \<noteq> canon k' \<Longrightarrow> same (add (add h k v) k' v') (add (add h k' v') k v)"
  by (auto simp: same_def get_add)

end

lemma rfcOverride_table:
  "list_all (\<lambda>l. canonicalHeaderKey l = l) [''Call-ID'', ''CSeq'', ''RAck'', ''RSeq'', ''WWW-Authenticate'']"
  by code_simp

lemma canonicalHeaderKey_idem [simp]: "canonicalHeaderKey (canonicalHeaderKey k) = canonicalHeaderKey k"
proof (cases "rfcOverride (CanonicalMIMEHeaderKey k)")
  case None
  then show ?thesis by (simp add: canonicalHeaderKey_def CanonicalMIMEHeaderKey_idem Let_def)
next
  case (Some l)
  then have "l \<in> set [''Call-ID'', ''CSeq'', ''RAck'', ''RSeq'', ''WWW-Authenticate'']"
    by (auto simp: rfcOverride_def split: if_splits)
  then have "canonicalHeaderKey l = l" using rfcOverride_table by (simp only: list_all_iff)
  with Some show ?thesis by (simp add: canonicalHeaderKey_def [of k] Let_def)
qed

interpretation sip_headers: header_multimap canonicalHeaderKey SIPHeaders_Get SIPHeaders_Set SIPHeaders_Add SIPHeaders_Delete
  by unfold_locales (auto simp: SIPHeaders_Get_def SIPHeaders_Set_def SIPHeaders_Add_def SIPHeaders_Delete_def
      values_at_def Let_def split: option.splits)

section \<open>Parsed messages\<close>

definition parsed_headers_ok :: "SIPHeaders \<Rightarrow> bool" where
  "parsed_headers_ok h \<longleftrightarrow> fmpred (\<lambda>k vs. canonicalHeaderKey k = k \<and> vs \<noteq> []) h"

lemma unmarshal_headers_wf:
  "unmarshal_headers r h = Ok (h', r') \<Longrightarrow> parsed_headers_ok h \<Longrightarrow> parsed_headers_ok h'"
proof (induction r h rule: unmarshal_headers.induct)
  case (1 r h)
  from 1(2) obtain line r1 where line: "readContinuedLine r = Some (line, r1)"
    by (subst (asm) unmarshal_headers.simps) (auto split: option.splits)
  show ?case
  proof (cases "line = []")
    case True
    with 1 line show ?thesis by (subst (asm) unmarshal_headers.simps) simp
  next
    case False
    obtain k v found where cut: "Cut line '':'' = (k, v, found)" by (cases "Cut line '':''") auto
    from 1(2) line False cut have f: "\<not> \<not> found" and
      rec: "unmarshal_headers r1 (fmupd (header_key k) (values_at h (header_key k) @ [dropWhile (\<lambda>c. c = CHR '' '') v]) h) = Ok (h', r')"
      by (subst (asm) unmarshal_headers.simps, auto simp: Let_def split: if_splits)+
    have "parsed_headers_ok (fmupd (header_key k) (values_at h (header_key k) @ [dropWhile (\<lambda>c. c = CHR '' '') v]) h)"
      using 1(3) by (auto simp: parsed_headers_ok_def header_key_def intro!: fmpred_upd)
    from 1(1) [OF line refl False cut [symmetric] refl f refl refl rec this] show ?thesis .
  qed
qed

lemma unmarshal_headers_no_panic: "unmarshal_headers r h \<noteq> Panic"
proof (induction r h rule: unmarshal_headers.induct)
  case (1 r h)
  show ?case
    by (subst unmarshal_headers.simps) (auto simp: Let_def 1 split: option.splits prod.splits)
qed

lemma unmarshalStartLine_no_panic: "unmarshalStartLine s \<noteq> Panic"
  by (auto simp: unmarshalStartLine_def unmarshalMethod_def go_simps split: prod.splits option.splits)

lemma unmarshalCSeq_no_panic: "unmarshalCSeq vs \<noteq> Panic"
  by (auto simp: unmarshalCSeq_def unmarshalMethod_def go_simps split: prod.splits option.splits go.splits)

lemma unmarshalHeaders_wf: "unmarshalHeaders r = Ok (h, r') \<Longrightarrow> parsed_headers_ok h"
  unfolding unmarshalHeaders_def by (erule unmarshal_headers_wf) (simp add: parsed_headers_ok_def)

lemma parsed_first: "parsed_headers_ok h \<Longrightarrow> fmlookup h k = Some vs \<Longrightarrow> vs \<noteq> []"
  by (auto simp: parsed_headers_ok_def dest!: fmpredD)

lemma unmarshal_body_Ok: "unmarshal_body r streamed m = Ok (m', r') \<Longrightarrow> msg_Headers m' = msg_Headers m"
  by (auto simp: unmarshal_body_def go_simps Let_def split: option.splits if_splits)

lemma unmarshalSIP_wf:
  assumes "unmarshalSIP r streamed = Ok (m, r')"
  shows "parsed_headers_ok (msg_Headers m)"
proof -
  from assms obtain r1 r2 where "unmarshalHeaders r1 = Ok (msg_Headers m, r2)"
    by (auto simp: unmarshalSIP_def go_simps split: option.split_asm dest!: unmarshal_body_Ok)
  then show ?thesis by (rule unmarshalHeaders_wf)
qed

lemma unmarshalSIP_panic:
  assumes "unmarshalSIP r streamed = Panic"
  shows "\<exists>line r1 h r2 n. readLine r = Some (line, r1) \<and> unmarshalHeaders r1 = Ok (h, r2) \<and>
     values_at h ''Content-Length'' \<noteq> [] \<and> Atoi (TrimSpace (hd (values_at h ''Content-Length''))) = Some n \<and> max_alloc < n"
proof -
  from assms obtain line r1 sl h r2 c where l: "readLine r = Some (line, r1)" and h: "unmarshalHeaders r1 = Ok (h, r2)"
    and b: "unmarshal_body r2 streamed \<lparr>msg_startLine = Some sl, msg_Headers = h, msg_CSeq = c, msg_Body = [],
             msg_branch = None, msg_reliable = None\<rparr> = Panic"
    by (auto simp: unmarshalSIP_def go_simps unmarshalStartLine_no_panic unmarshalHeaders_def unmarshal_headers_no_panic
        unmarshalCSeq_no_panic split: option.splits)
  from b obtain vs where vs: "fmlookup h ''Content-Length'' = Some vs"
    by (auto simp: unmarshal_body_def split: option.splits if_splits)
  with unmarshalHeaders_wf [OF h] have ne: "vs \<noteq> []" by (auto simp: parsed_headers_ok_def dest!: fmpredD)
  with b vs obtain n where "Atoi (TrimSpace (hd vs)) = Some n" "max_alloc < n"
    by (auto simp: unmarshal_body_def index_def hd_conv_nth Let_def split: option.splits if_splits)
  with l h vs ne show ?thesis by (auto simp: values_at_def)
qed

section \<open>Via\<close>

lemma ToLower_ascii_length: "ascii_string s \<Longrightarrow> length (ToLower tbl s) = length s"
  by (simp add: ToLower_def)

lemma unmarshalViaBranch_ascii:
  assumes "ascii_string via"
  shows "\<exists>b. unmarshalViaBranch tbl via = Ok b"
proof -
  have "idx + 8 \<le> length via" if "Index via '';branch='' = Some idx \<or> Index (ToLower tbl via) '';branch='' = Some idx" for idx
    using that Index_Some_le [of via "'';branch=''" idx] Index_Some_le [of "ToLower tbl via" "'';branch=''" idx]
    by (auto simp: ToLower_ascii_length assms)
  then show ?thesis
    by (auto simp: unmarshalViaBranch_def slice_def split: option.splits prod.splits)
qed

section \<open>Responses\<close>

lemma fold_copied:
  "fmlookup (fold (\<lambda>h hs. let vals = values_at req h in if 0 < length vals then fmupd h vals hs else hs) ks hs) k =
     (if k \<in> set ks \<and> values_at req k \<noteq> [] then Some (values_at req k) else fmlookup hs k)"
  by (induction ks arbitrary: hs) (auto simp: Let_def)

lemma NewResponse_lookup:
  "fmlookup (msg_Headers (NewResponse req sc reason)) k =
     (if k \<in> set copied_headers \<and> values_at (msg_Headers req) k \<noteq> [] then Some (values_at (msg_Headers req) k) else None)"
  by (simp only: NewResponse_def SIPMessage.select_convs fold_copied fmempty_lookup)

lemma required_present:
  "validateRequiredHeaders m = None \<longleftrightarrow> msg_startLine m \<noteq> None \<and>
     list_all (\<lambda>h. fmlookup (msg_Headers m) h \<noteq> None) [''Via'', ''From'', ''To'', ''Call-ID'']"
  by (auto simp: validateRequiredHeaders_def find_None_iff list_all_iff split: option.splits)

lemma status_code_digits:
  assumes "100 \<le> sc" and "sc \<le> 999"
  shows "length (Itoa sc) = 3" "Atoi (Itoa sc) = Some sc"
proof -
  have "count_digits n = 3" if "100 \<le> n" "n \<le> 999" for n
    using that by (simp add: count_digits.simps div_greater_zero_iff flip: div_mult2_eq)
  then show "length (Itoa sc) = 3" using assms by (simp add: length_Itoa intLen_def)
  show "Atoi (Itoa sc) = Some sc" using assms by (intro Atoi_Itoa) auto
qed

lemma NewResponse_sip_ok:
  assumes "sip_ok req" and "100 \<le> sc" and "sc \<le> 999" and "reason \<noteq> []" and "LF \<notin> set reason"
  shows "sip_ok (NewResponse req sc reason)"
proof -
  let ?m = "NewResponse req sc reason" and ?h = "msg_Headers req"
  have d: "length (Itoa sc) = 3" "Atoi (Itoa sc) = Some sc" "digits_ok (Itoa sc)"
    using assms(2,3) by (simp_all add: status_code_digits Itoa_digits)
  have ok: "headers_ok ?h" using assms(1) by (simp add: sip_ok_def)
  have "headers_ok (msg_Headers ?m)"
    unfolding headers_ok_def
  proof (rule fmpredI)
    fix k vs assume "fmlookup (msg_Headers ?m) k = Some vs"
    then have vs: "vs = values_at ?h k" "vs \<noteq> []" by (auto simp: NewResponse_lookup split: if_splits)
    then have "written_elsewhere k \<or> k \<in> set (header_keys ?h)"
      by (auto simp: set_header_keys values_at_def split: option.splits)
    with headers_okD [OF ok, of k] vs
    show "written_elsewhere k \<or> canonicalHeaderKey k = k \<and> key_ok k \<and> vs \<noteq> [] \<and> list_all value_ok vs" by auto
  qed
  moreover have "validateRequiredHeaders ?m = None"
  proof -
    have "values_at ?h k \<noteq> []" if "k \<in> {''Via'', ''From'', ''To'', ''Call-ID''}" for k
      using assms(1) that headers_okD(3) [OF ok, of k]
      by (auto simp: sip_ok_def required_present set_header_keys written_elsewhere_def)
    then show ?thesis by (simp add: required_present NewResponse_lookup copied_headers_def) (simp add: NewResponse_def)
  qed
  moreover have "startLine_ok (the (msg_startLine ?m))"
    using d assms(4,5) digits_no [OF d(3)]
    by (auto simp: startLine_ok_def startLine_String_def NewResponse_def SIPVersion_def SIPIndicator_def HasPrefix_def
        nth_append numeral_eq_Suc Suc_le_eq)
  ultimately show ?thesis using assms(1)
    by (simp add: sip_ok_def) (simp add: NewResponse_def max_alloc_def)
qed

section \<open>The codec contract\<close>

lemma SIPMessage_Marshal_wire:
  assumes "sip_ok m"
  shows "SIPMessage_Marshal m = Ok (sip_wire False m)" "length (sip_wire False m) = SIPMessage_MarshalSize m"
proof -
  from assms obtain sl where "msg_startLine m = Some sl" "validateRequiredHeaders m = None" "0 \<le> cseq_Seq (msg_CSeq m)"
    by (auto simp: sip_ok_def split: option.splits)
  then show "SIPMessage_Marshal m = Ok (sip_wire False m)" "length (sip_wire False m) = SIPMessage_MarshalSize m"
    by (simp_all add: SIPMessage_Marshal_def SIPMessage_MarshalSize_def marshalToImpl_wire length_sip_wire)
qed

lemma SIPMessage_MarshalCompact_wire:
  assumes "sip_ok m"
  shows "SIPMessage_MarshalCompact m = Ok (sip_wire True m)"
proof -
  from assms obtain sl where "msg_startLine m = Some sl" "0 \<le> cseq_Seq (msg_CSeq m)"
    by (auto simp: sip_ok_def split: option.splits)
  then show ?thesis by (simp add: SIPMessage_MarshalCompact_def SIPMessage_MarshalCompactSize_def marshalToImpl_wire)
qed

lemma UnmarshalSIPDatagram_wire: "sip_ok m \<Longrightarrow> UnmarshalSIPDatagram (sip_wire compact m) = Ok (sip_canon m)"
  using unmarshalSIP_wire [of m compact "[]" False] by (simp add: UnmarshalSIPDatagram_def)

lemma header_keys_canon: "header_keys (msg_Headers (sip_canon m)) = header_keys (msg_Headers m)"
proof -
  have "set (header_keys (msg_Headers (sip_canon m))) = set (header_keys (msg_Headers m))"
    by (auto simp: set_header_keys sip_canon_def written_elsewhere_def)
  then show ?thesis
    by (intro sorted_distinct_set_unique) (simp_all add: header_keys_def sorted_list_of_fset.rep_eq sorted_wrt_filter)
qed

lemma sip_canon_fields:
  "msg_startLine (sip_canon m) = msg_startLine m" "msg_CSeq (sip_canon m) = msg_CSeq m" "msg_Body (sip_canon m) = msg_Body m"
  "\<not> written_elsewhere k \<Longrightarrow> fmlookup (msg_Headers (sip_canon m)) k = fmlookup (msg_Headers m) k"
  by (auto simp: sip_canon_def written_elsewhere_def)

lemma sip_canon_ok:
  assumes "sip_ok m"
  shows "sip_ok (sip_canon m)"
proof -
  have "headers_ok (msg_Headers (sip_canon m))"
    using assms unfolding sip_canon_def
    by (auto simp: sip_ok_def headers_ok_def written_elsewhere_def intro!: fmpred_upd)
  then show ?thesis using assms
    by (simp add: sip_ok_def sip_canon_fields required_present written_elsewhere_def)
qed

lemma sip_wire_canon: "sip_wire compact (sip_canon m) = sip_wire compact m"
proof -
  have "values_at (msg_Headers (sip_canon m)) k = values_at (msg_Headers m) k" if "k \<in> set (header_keys (msg_Headers m))" for k
    using that by (simp add: values_at_def sip_canon_fields set_header_keys)
  then show ?thesis
    by (simp add: sip_wire_def header_pairs_def header_keys_canon sip_canon_fields SIPMessage_StartLine_def cong: map_cong)
qed

interpretation sip: wire_codec sip_ok SIPMessage_Marshal UnmarshalSIPDatagram sip_canon
  by unfold_locales
    (simp_all add: SIPMessage_Marshal_wire UnmarshalSIPDatagram_wire sip_canon_ok sip_wire_canon)

interpretation sip_compact: wire_codec sip_ok SIPMessage_MarshalCompact UnmarshalSIPDatagram sip_canon
  by unfold_locales
    (simp_all add: SIPMessage_MarshalCompact_wire UnmarshalSIPDatagram_wire sip_canon_ok sip_wire_canon)

lemma compactKey_shorter: "length (compactKey k) \<le> length k"
proof -
  have "list_all (\<lambda>(c, l). length c \<le> length l) compact_table" by code_simp
  with compactKey_cases [of k] show ?thesis by (auto simp: list_all_iff)
qed

lemma marshalSize_compact_le: "marshalSize m True \<le> marshalSize m False"
proof -
  have sums: "sum_list (map (\<lambda>k. sum_list (map (\<lambda>v. length (out_key True k) + 2 + length v + 2) (vs k))) ks)
      \<le> sum_list (map (\<lambda>k. sum_list (map (\<lambda>v. length (out_key False k) + 2 + length v + 2) (vs k))) ks)" for vs ks
    by (intro sum_list_mono) (simp add: out_key_def compactKey_shorter)
  then show ?thesis
  proof (cases "msg_startLine m")
    case (Some sl)
    have "length (out_key True ''Content-Length'') \<le> length (out_key False ''Content-Length'')"
      by (simp only: out_key_def if_True if_False compactKey_shorter)
    then show ?thesis unfolding marshalSize_def Some option.case
      by (intro add_mono order_refl sums)
  qed (simp add: marshalSize_def)
qed

lemma sip_ok_sizes: "sip_ok m \<Longrightarrow> length (sip_wire compact m) = marshalSize m compact"
  by (auto simp: sip_ok_def length_sip_wire split: option.splits)

lemma sip_ok_required:
  assumes "sip_ok m" and "k \<in> {''Via'', ''From'', ''To'', ''Call-ID''}"
  shows "values_at (msg_Headers m) k \<noteq> []"
proof -
  have "headers_ok (msg_Headers m)" using assms by (simp add: sip_ok_def)
  from headers_okD(3) [OF this, of k] assms show ?thesis
    by (auto simp: sip_ok_def required_present set_header_keys written_elsewhere_def)
qed

section \<open>Properties\<close>

text \<open>
  C17. Round trip: a well-formed SIP message is serialised without error, and parsing the text as a
  datagram gives the message back, all headers with all their values in order, with the CSeq and
  Content-Length headers the serialiser computed from the message.
\<close>
theorem sip_roundtrip:
  assumes "sip_ok m"
  shows "and_then (SIPMessage_Marshal m) UnmarshalSIPDatagram = Ok (sip_canon m)"
  using sip.encode_decode [OF assms] by auto

definition sample_sip :: SIPMessage where
  "sample_sip = (NewRequest ''OPTIONS'' ''sip:bob@b.org'')
     \<lparr>msg_Headers := fmap_of_list [(''Via'', [''SIP/2.0/UDP a.org;branch=z9hG4bK1'', ''SIP/2.0/TCP c.org'']),
        (''From'', [''<sip:alice@a.org>;tag=1'']), (''To'', [''<sip:bob@b.org>'']), (''Call-ID'', [''x@a.org'']),
        (''Max-Forwards'', [''70''])], msg_Body := ''hi''\<rparr>"

lemma sample_sip_ok: "sip_ok sample_sip"
  by code_simp

theorem sip_roundtrip_witness:
  "and_then (SIPMessage_Marshal sample_sip) UnmarshalSIPDatagram = Ok (sip_canon sample_sip)"
  by (rule sip_roundtrip) (rule sample_sip_ok)

text \<open>
  Framing on a stream: the text has exactly the announced size, and reading one message from a
  stream that starts with it consumes exactly that text, whatever follows.
\<close>
theorem sip_stream_framing:
  assumes "sip_ok m"
  shows "\<exists>w. SIPMessage_Marshal m = Ok w \<and> length w = SIPMessage_MarshalSize m \<and>
     (\<forall>rest. UnmarshalSIP (w @ rest) = Ok (sip_canon m, rest))"
  using SIPMessage_Marshal_wire [OF assms] unmarshalSIP_wire [OF assms] by (simp add: UnmarshalSIP_def)

theorem sip_stream_framing_witness:
  "\<exists>w. SIPMessage_Marshal sample_sip = Ok w \<and> length w = SIPMessage_MarshalSize sample_sip \<and>
     (\<forall>rest. UnmarshalSIP (w @ rest) = Ok (sip_canon sample_sip, rest))"
  by (rule sip_stream_framing) (rule sample_sip_ok)

text \<open>
  C29. The compact form is equivalent: it is never longer than the long form, and parsing it gives the
  same message.
\<close>
theorem sip_compact_equivalent:
  assumes "sip_ok m"
  shows "\<exists>w c. SIPMessage_Marshal m = Ok w \<and> SIPMessage_MarshalCompact m = Ok c \<and> length c \<le> length w \<and>
     UnmarshalSIPDatagram c = UnmarshalSIPDatagram w"
proof -
  have "length (sip_wire True m) \<le> length (sip_wire False m)"
    using assms sip_ok_sizes [OF assms] by (simp add: marshalSize_compact_le)
  then show ?thesis
    by (simp add: SIPMessage_Marshal_wire SIPMessage_MarshalCompact_wire UnmarshalSIPDatagram_wire assms)
qed

theorem sip_compact_equivalent_witness:
  "\<exists>w c. SIPMessage_Marshal sample_sip = Ok w \<and> SIPMessage_MarshalCompact sample_sip = Ok c \<and> length c \<le> length w \<and>
     UnmarshalSIPDatagram c = UnmarshalSIPDatagram w"
  by (rule sip_compact_equivalent) (rule sample_sip_ok)

text \<open>
  Responses are well formed: a response built from a well-formed request with a three-digit status
  code and a non-empty reason is itself a well-formed message (so it is serialised and read back), carries
  the request's CSeq, and copies its Via, From, To and Call-ID headers.
\<close>
theorem NewResponse_wellformed:
  assumes "sip_ok req" and "100 \<le> sc" and "sc \<le> 999" and "reason \<noteq> []" and "LF \<notin> set reason"
  shows "sip_ok (NewResponse req sc reason) \<and> msg_CSeq (NewResponse req sc reason) = msg_CSeq req \<and>
     SIPMessage_StatusCode (NewResponse req sc reason) = sc \<and>
     list_all (\<lambda>k. SIPHeaders_Get (msg_Headers (NewResponse req sc reason)) k = SIPHeaders_Get (msg_Headers req) k)
       [''Via'', ''From'', ''To'', ''Call-ID'']"
proof -
  have "values_at (msg_Headers req) k \<noteq> []" if "k \<in> {''Via'', ''From'', ''To'', ''Call-ID''}" for k
    using sip_ok_required [OF assms(1)] that by blast
  moreover have "canonicalHeaderKey ''Via'' = ''Via''" "canonicalHeaderKey ''From'' = ''From''"
    "canonicalHeaderKey ''To'' = ''To''" "canonicalHeaderKey ''Call-ID'' = ''Call-ID''" by code_simp+
  ultimately have "list_all (\<lambda>k. SIPHeaders_Get (msg_Headers (NewResponse req sc reason)) k = SIPHeaders_Get (msg_Headers req) k)
       [''Via'', ''From'', ''To'', ''Call-ID'']"
    by (simp add: SIPHeaders_Get_def NewResponse_lookup copied_headers_def values_at_def split: option.splits)
  then show ?thesis using NewResponse_sip_ok [OF assms]
    by (simp add: NewResponse_def SIPMessage_StatusCode_def)
qed

theorem NewResponse_wellformed_witness:
  "sip_ok (NewResponse sample_sip 200 ''OK'') \<and> msg_CSeq (NewResponse sample_sip 200 ''OK'') = msg_CSeq sample_sip \<and>
     SIPMessage_StatusCode (NewResponse sample_sip 200 ''OK'') = 200 \<and>
     list_all (\<lambda>k. SIPHeaders_Get (msg_Headers (NewResponse sample_sip 200 ''OK'')) k = SIPHeaders_Get (msg_Headers sample_sip) k)
       [''Via'', ''From'', ''To'', ''Call-ID'']"
  by (rule NewResponse_wellformed) (simp_all add: sample_sip_ok)

text \<open>
  C30. Well-formedness of what the parser returns, for any input, datagram or stream: every header name
  is canonical, so that the accessors find it under any spelling, and every header has a value, so that
  \<^verbatim>\<open>GetFirst\<close> does not index an empty slice.
\<close>
theorem unmarshalSIP_wellformed:
  assumes "unmarshalSIP r streamed = Ok (m, r')"
  shows "parsed_headers_ok (msg_Headers m) \<and> SIPHeaders_GetFirst (msg_Headers m) k \<noteq> Panic"
  using unmarshalSIP_wf [OF assms]
  by (auto simp: SIPHeaders_GetFirst_def go_simps split: option.split dest: parsed_first)

theorem unmarshalSIP_wellformed_witness:
  "parsed_headers_ok (msg_Headers (sip_canon sample_sip)) \<and> SIPHeaders_GetFirst (msg_Headers (sip_canon sample_sip)) ''v'' \<noteq> Panic"
  by (rule unmarshalSIP_wellformed [OF unmarshalSIP_wire [OF sample_sip_ok, of False "[]" True]])

text \<open>
  The only way the message parser can panic is the allocation of the body: a Content-Length that is
  a valid integer beyond the largest allocation.  Every other input gives a message or an error.
\<close>
theorem unmarshalSIP_panics_only_on_length:
  assumes "unmarshalSIP r streamed = Panic"
  shows "\<exists>line r1 h r2 n. readLine r = Some (line, r1) \<and> unmarshalHeaders r1 = Ok (h, r2) \<and>
     values_at h ''Content-Length'' \<noteq> [] \<and> Atoi (TrimSpace (hd (values_at h ''Content-Length''))) = Some n \<and> max_alloc < n"
  using unmarshalSIP_panic [OF assms] by blast

definition huge_length_request :: string where
  "huge_length_request = ''BYE sip:a SIP/2.0'' @ CRLF @ ''l: 9223372036854775807'' @ CRLF @ CRLF"

lemma huge_length_panics: "unmarshalSIP huge_length_request True = Panic"
proof -
  let ?n = "''9223372036854775807''"
  have "readLine huge_length_request = Some (''BYE sip:a SIP/2.0'', header_line ''l'' ?n @ CRLF)"
    "unmarshalStartLine ''BYE sip:a SIP/2.0'' \<noteq> Fail e" for e
    by code_simp+
  moreover have "unmarshal_headers (header_line ''l'' ?n @ CRLF) fmempty = Ok (header_add fmempty (''l'', ?n), [])"
    by (subst unmarshal_headers_line) (simp_all add: key_ok_def value_ok_def unmarshal_headers_end)
  moreover have "Atoi (TrimSpace ?n) = Some 9223372036854775807"
    by (subst digits_graphic) (simp_all add: Atoi_def digits_ok_def is_digit_def digits_val_def digit_val_def Let_def)
  moreover have "header_key ''l'' = ''Content-Length''" by code_simp
  moreover obtain sl where "unmarshalStartLine ''BYE sip:a SIP/2.0'' = Ok sl"
    using unmarshalStartLine_no_panic calculation(2) by (cases "unmarshalStartLine ''BYE sip:a SIP/2.0''") auto
  ultimately show ?thesis
    by (simp add: unmarshalSIP_def unmarshalHeaders_def unmarshal_body_def header_add_def values_at_def index_def max_alloc_def)
qed

theorem unmarshalSIP_panics_only_on_length_witness:
  "\<exists>line r1 h r2 n. readLine huge_length_request = Some (line, r1) \<and> unmarshalHeaders r1 = Ok (h, r2) \<and>
     values_at h ''Content-Length'' \<noteq> [] \<and> Atoi (TrimSpace (hd (values_at h ''Content-Length''))) = Some n \<and> max_alloc < n"
  by (rule unmarshalSIP_panics_only_on_length [OF huge_length_panics])

text \<open>
  The header operations obey the laws of a multimap keyed by canonical names: what \<^verbatim>\<open>Get\<close> returns
  after \<^verbatim>\<open>Set\<close>, \<^verbatim>\<open>Add\<close> and \<^verbatim>\<open>Delete\<close>, under any spelling of the name, and that canonicalisation is idempotent.
\<close>
theorem SIPHeaders_laws:
  "SIPHeaders_Get (SIPHeaders_Set h k vs) k' = (if canonicalHeaderKey k' = canonicalHeaderKey k then vs else SIPHeaders_Get h k') \<and>
   SIPHeaders_Get (SIPHeaders_Add h k v) k' = (if canonicalHeaderKey k' = canonicalHeaderKey k then SIPHeaders_Get h k' @ [v] else SIPHeaders_Get h k') \<and>
   SIPHeaders_Get (SIPHeaders_Delete h k) k' = (if canonicalHeaderKey k' = canonicalHeaderKey k then [] else SIPHeaders_Get h k') \<and>
   SIPHeaders_Get (fold (\<lambda>v h. SIPHeaders_Add h k v) vs h) k = SIPHeaders_Get h k @ vs \<and>
   canonicalHeaderKey (canonicalHeaderKey k) = canonicalHeaderKey k"
  by (intro conjI sip_headers.get_put_all sip_headers.get_add sip_headers.get_del sip_headers.adds_in_order sip_headers.canon_idem)

text \<open>
  The branch of the top Via header is extracted without panic from every ASCII value, also by the
  case-insensitive fallback.
\<close>
theorem unmarshalViaBranch_total:
  assumes "ascii_string via"
  shows "\<exists>b. unmarshalViaBranch tbl via = Ok b"
  using assms by (rule unmarshalViaBranch_ascii)

theorem unmarshalViaBranch_total_witness: "\<exists>b. unmarshalViaBranch (\<lambda>r. r) ''SIP/2.0/UDP h;BRANCH=z9'' = Ok b"
  by (rule unmarshalViaBranch_total) code_simp

text \<open>
  Outside ASCII it is not: a byte that is not valid UTF-8 is replaced by three bytes when the value
  is lower-cased, and the position found there lies past the end of the value.
\<close>
theorem unmarshalViaBranch_panics:
  assumes "tbl 0xFFFD = 0xFFFD"
  shows "unmarshalViaBranch tbl (CHR 0xFF # '';BRANCH='') = Panic"
proof -
  have chars: "map char_of [239, 191, 189, 59, 98, 114, 97, 110, 99, 104, 61 :: nat] =
      [CHR 0xEF, CHR 0xBF, CHR 0xBD] @ '';branch=''" by code_simp
  have "runes (CHR 0xFF # '';BRANCH='') = 0xFFFD # map (of_char :: char \<Rightarrow> nat) '';BRANCH=''"
    by (simp add: runes.simps)
  then have "ToLower tbl (CHR 0xFF # '';BRANCH='') = [CHR 0xEF, CHR 0xBF, CHR 0xBD] @ '';branch=''"
    using assms by (simp add: ToLower_def ascii_string_def EncodeRune_def lower_char_def chars [simplified])
  then show ?thesis
    by (simp add: unmarshalViaBranch_def HasPrefix_def slice_def)
qed

theorem unmarshalViaBranch_panics_witness: "unmarshalViaBranch (\<lambda>r. r) (CHR 0xFF # '';BRANCH='') = Panic"
  by (rule unmarshalViaBranch_panics) simp

end
