(* ===== verification/SDP.thy ===== *)
theory SDP
  imports SIP_Message
begin

text \<open>
  Session descriptions, \<^verbatim>\<open>proto/sdp.go\<close>: the structures, the line-by-line parser and the serialiser.  The
  reader is the list of unread bytes, as for SIP messages.
\<close>

section \<open>Structures\<close>

record Origin =
  o_Username :: string
  o_SessionID :: string
  o_SessionVersion :: string
  o_NetworkType :: string
  o_AddressType :: string
  o_Address :: string

record ConnectionInfo =
  c_NetworkType :: string
  c_AddressType :: string
  c_Address :: string

record BandwidthInfo =
  bw_Type :: string
  bw_Value :: int

record RepeatInfo =
  r_Offsets :: "int list"
  r_Interval :: int
  r_Duration :: int

record TimeDescription =
  t_Repeats :: "RepeatInfo list"
  t_Start :: int
  t_Stop :: int

record EncryptionKey =
  k_Method :: string
  k_Key :: string

record Attribute =
  a_Key :: string
  a_Value :: string

record MediaDescription =
  m_Connection :: "ConnectionInfo option"
  m_Encryption :: "EncryptionKey option"
  m_Type :: string
  m_Proto :: string
  m_Title :: string
  m_Fmt :: "string list"
  m_Bandwidths :: "BandwidthInfo list"
  m_Attributes :: "Attribute list"
  m_Port :: int
  m_PortCount :: int

record SDP =
  s_Connection :: "ConnectionInfo option"
  s_Encryption :: "EncryptionKey option"
  s_Origin :: Origin
  s_SessionName :: string
  s_SessionInfo :: string
  s_URI :: string
  s_TimeZone :: string
  s_Phones :: "string list"
  s_Bandwidths :: "BandwidthInfo list"
  s_Times :: "TimeDescription list"
  s_Emails :: "string list"
  s_Attributes :: "Attribute list"
  s_MediaDescs :: "MediaDescription list"
  s_Version :: int

datatype sdp_error =
    SdpEmptyBody
  | SdpMalformedLine string
  | SdpDuplicateVersion
  | SdpInvalidVersion string
  | SdpMissingVersion
  | SdpVersionNotZero int
  | SdpMissingOrigin
  | SdpMissingSessionName
  | SdpMissingTime
  | SdpRepeatBeforeTime
  | SdpUnknownField char
  | SdpInvalidField string
  | SdpBufferTooSmall

definition zero_Origin :: Origin where
  "zero_Origin = \<lparr>o_Username = '''', o_SessionID = '''', o_SessionVersion = '''', o_NetworkType = '''',
     o_AddressType = '''', o_Address = ''''\<rparr>"

definition zero_SDP :: SDP where
  "zero_SDP = \<lparr>s_Connection = None, s_Encryption = None, s_Origin = zero_Origin, s_SessionName = '''',
     s_SessionInfo = '''', s_URI = '''', s_TimeZone = '''', s_Phones = [], s_Bandwidths = [], s_Times = [],
     s_Emails = [], s_Attributes = [], s_MediaDescs = [], s_Version = 0\<rparr>"

section \<open>Parsing\<close>

definition unmarshalOrigin :: "string \<Rightarrow> (sdp_error, Origin) go" where
  "unmarshalOrigin val =
     (case Cut val '' '' of (f1, rest, ok) \<Rightarrow> if \<not> ok then Fail (SdpInvalidField val) else
      case Cut (TrimLeft rest '' '') '' '' of (f2, rest, ok) \<Rightarrow> if \<not> ok then Fail (SdpInvalidField val) else
      case Cut (TrimLeft rest '' '') '' '' of (f3, rest, ok) \<Rightarrow> if \<not> ok then Fail (SdpInvalidField val) else
      case Cut (TrimLeft rest '' '') '' '' of (f4, rest, ok) \<Rightarrow> if \<not> ok then Fail (SdpInvalidField val) else
      case Cut (TrimLeft rest '' '') '' '' of (f5, f6, ok) \<Rightarrow> if \<not> ok then Fail (SdpInvalidField val) else
      Ok \<lparr>o_Username = f1, o_SessionID = f2, o_SessionVersion = f3, o_NetworkType = f4, o_AddressType = f5,
          o_Address = f6\<rparr>)"

definition unmarshalConnection :: "string \<Rightarrow> (sdp_error, ConnectionInfo) go" where
  "unmarshalConnection val =
     (case Cut val '' '' of (f1, rest, ok) \<Rightarrow> if \<not> ok then Fail (SdpInvalidField val) else
      case Cut (TrimLeft rest '' '') '' '' of (f2, f3, ok) \<Rightarrow> if \<not> ok then Fail (SdpInvalidField val) else
      Ok \<lparr>c_NetworkType = f1, c_AddressType = f2, c_Address = f3\<rparr>)"

definition unmarshalBandwidth :: "string \<Rightarrow> (sdp_error, BandwidthInfo) go" where
  "unmarshalBandwidth val =
     (case Cut val '':'' of (before, after, ok) \<Rightarrow> if \<not> ok then Fail (SdpInvalidField val) else
      case Atoi (TrimSpace after) of None \<Rightarrow> Fail (SdpInvalidField val)
      | Some n \<Rightarrow> Ok \<lparr>bw_Type = TrimSpace before, bw_Value = n\<rparr>)"

text \<open>\<^verbatim>\<open>strconv.ParseInt(s, 10, 64)\<close> accepts what \<^verbatim>\<open>Atoi\<close> accepts on a 64-bit platform.\<close>

abbreviation ParseInt64 :: "string \<Rightarrow> int option" where "ParseInt64 \<equiv> Atoi"

definition unmarshalTime :: "string \<Rightarrow> (sdp_error, TimeDescription) go" where
  "unmarshalTime val =
     (case Cut val '' '' of (startStr, rest, ok) \<Rightarrow> if \<not> ok then Fail (SdpInvalidField val) else
      let stopStr = TrimSpace rest in
      if stopStr = [] then Fail (SdpInvalidField val)
      else case ParseInt64 startStr of None \<Rightarrow> Fail (SdpInvalidField val)
      | Some start \<Rightarrow> (case ParseInt64 stopStr of None \<Rightarrow> Fail (SdpInvalidField val)
        | Some stop \<Rightarrow> Ok \<lparr>t_Repeats = [], t_Start = start, t_Stop = stop\<rparr>))"

lemma TrimLeft_le: "length (TrimLeft s cs) \<le> length s"
  by (simp add: TrimLeft_def length_dropWhile_le)

function unmarshal_offsets :: "string \<Rightarrow> int list \<Rightarrow> (sdp_error, int list) go" where
  "unmarshal_offsets rest offsets =
     (if rest = [] then Ok offsets
      else case Cut rest '' '' of (oStr, rest', _) \<Rightarrow>
        case ParseInt64 oStr of None \<Rightarrow> Fail (SdpInvalidField oStr)
        | Some n \<Rightarrow> unmarshal_offsets (TrimLeft rest' '' '') (offsets @ [n]))"
  by pat_completeness auto
termination
  by (relation "measure (\<lambda>(rest, _). length rest)")
    (auto intro!: le_less_trans [OF TrimLeft_le] simp: Cut_shorter dest!: sym [of "(_, _, _)"])

declare unmarshal_offsets.simps [simp del]

definition unmarshalRepeat :: "string \<Rightarrow> (sdp_error, RepeatInfo) go" where
  "unmarshalRepeat val =
     (case Cut val '' '' of (intvStr, rest, ok) \<Rightarrow> if \<not> ok then Fail (SdpInvalidField val) else
      case Cut (TrimLeft rest '' '') '' '' of (durStr, rest, ok) \<Rightarrow> if \<not> ok then Fail (SdpInvalidField val) else
      case ParseInt64 intvStr of None \<Rightarrow> Fail (SdpInvalidField val)
      | Some interval \<Rightarrow> (case ParseInt64 durStr of None \<Rightarrow> Fail (SdpInvalidField val)
        | Some duration \<Rightarrow>
            and_then (unmarshal_offsets (TrimLeft rest '' '') []) (\<lambda>offsets.
            Ok \<lparr>r_Offsets = offsets, r_Interval = interval, r_Duration = duration\<rparr>)))"

definition unmarshalEncryption :: "string \<Rightarrow> EncryptionKey" where
  "unmarshalEncryption val = (case Cut val '':'' of (before, after, ok) \<Rightarrow>
     if \<not> ok then \<lparr>k_Method = val, k_Key = ''''\<rparr> else \<lparr>k_Method = before, k_Key = after\<rparr>)"

definition unmarshalAttribute :: "string \<Rightarrow> Attribute" where
  "unmarshalAttribute val = (case Cut val '':'' of (k, v, found) \<Rightarrow>
     if found then \<lparr>a_Key = k, a_Value = v\<rparr> else \<lparr>a_Key = val, a_Value = ''''\<rparr>)"

definition unmarshal_port :: "string \<Rightarrow> string \<Rightarrow> (sdp_error, int \<times> int) go" where
  "unmarshal_port val portStr =
     and_then (case IndexByte portStr (CHR ''/'') of
         Some idx \<Rightarrow> and_then (slice portStr (idx + 1) (length portStr)) (\<lambda>count. case Atoi count of
             None \<Rightarrow> Fail (SdpInvalidField val)
           | Some n \<Rightarrow> and_then (slice portStr 0 idx) (\<lambda>portStr. Ok (n, portStr)))
       | None \<Rightarrow> Ok (1, portStr)) (\<lambda>(portCount, portStr).
     case Atoi portStr of None \<Rightarrow> Fail (SdpInvalidField val) | Some port \<Rightarrow> Ok (port, portCount))"

definition unmarshalMedia :: "string \<Rightarrow> (sdp_error, MediaDescription) go" where
  "unmarshalMedia val =
     (case Cut val '' '' of (typ, rest, ok) \<Rightarrow> if \<not> ok then Fail (SdpInvalidField val) else
      case Cut (TrimLeft rest '' '') '' '' of (portStr, rest, ok) \<Rightarrow> if \<not> ok then Fail (SdpInvalidField val) else
      case Cut (TrimLeft rest '' '') '' '' of (proto, rest, ok) \<Rightarrow> if \<not> ok then Fail (SdpInvalidField val) else
      and_then (unmarshal_port val portStr) (\<lambda>(port, portCount).
      let rest = TrimLeft rest '' '' in
      Ok \<lparr>m_Connection = None, m_Encryption = None, m_Type = typ, m_Proto = proto, m_Title = '''',
          m_Fmt = (if rest \<noteq> [] then Split rest (CHR '' '') else []), m_Bandwidths = [], m_Attributes = [],
          m_Port = port, m_PortCount = portCount\<rparr>))"

definition update_last :: "('a \<Rightarrow> 'a) \<Rightarrow> 'a list \<Rightarrow> ('e, 'a list) go" where
  "update_last f xs = and_then (index xs (length xs - 1)) (\<lambda>x. Ok (xs[length xs - 1 := f x]))"

definition unmarshalSessionLine :: "SDP \<Rightarrow> char \<Rightarrow> string \<Rightarrow> (sdp_error, SDP) go" where
  "unmarshalSessionLine sdp typ val =
     (if typ = CHR ''o'' then and_then (unmarshalOrigin val) (\<lambda>x. Ok (sdp\<lparr>s_Origin := x\<rparr>))
      else if typ = CHR ''s'' then Ok (sdp\<lparr>s_SessionName := val\<rparr>)
      else if typ = CHR ''i'' then Ok (sdp\<lparr>s_SessionInfo := val\<rparr>)
      else if typ = CHR ''u'' then Ok (sdp\<lparr>s_URI := val\<rparr>)
      else if typ = CHR ''e'' then Ok (sdp\<lparr>s_Emails := s_Emails sdp @ [val]\<rparr>)
      else if typ = CHR ''p'' then Ok (sdp\<lparr>s_Phones := s_Phones sdp @ [val]\<rparr>)
      else if typ = CHR ''c'' then and_then (unmarshalConnection val) (\<lambda>c. Ok (sdp\<lparr>s_Connection := Some c\<rparr>))
      else if typ = CHR ''b'' then and_then (unmarshalBandwidth val) (\<lambda>b. Ok (sdp\<lparr>s_Bandwidths := s_Bandwidths sdp @ [b]\<rparr>))
      else if typ = CHR ''t'' then and_then (unmarshalTime val) (\<lambda>t. Ok (sdp\<lparr>s_Times := s_Times sdp @ [t]\<rparr>))
      else if typ = CHR ''r'' then
        if length (s_Times sdp) = 0 then Fail SdpRepeatBeforeTime
        else and_then (unmarshalRepeat val) (\<lambda>r.
          and_then (update_last (\<lambda>t. t\<lparr>t_Repeats := t_Repeats t @ [r]\<rparr>) (s_Times sdp)) (\<lambda>ts. Ok (sdp\<lparr>s_Times := ts\<rparr>)))
      else if typ = CHR ''z'' then Ok (sdp\<lparr>s_TimeZone := val\<rparr>)
      else if typ = CHR ''k'' then Ok (sdp\<lparr>s_Encryption := Some (unmarshalEncryption val)\<rparr>)
      else if typ = CHR ''a'' then Ok (sdp\<lparr>s_Attributes := s_Attributes sdp @ [unmarshalAttribute val]\<rparr>)
      else Fail (SdpUnknownField typ))"

definition unmarshalMediaLine :: "MediaDescription \<Rightarrow> char \<Rightarrow> string \<Rightarrow> (sdp_error, MediaDescription) go" where
  "unmarshalMediaLine md typ val =
     (if typ = CHR ''i'' then Ok (md\<lparr>m_Title := val\<rparr>)
      else if typ = CHR ''c'' then and_then (unmarshalConnection val) (\<lambda>c. Ok (md\<lparr>m_Connection := Some c\<rparr>))
      else if typ = CHR ''b'' then and_then (unmarshalBandwidth val) (\<lambda>b. Ok (md\<lparr>m_Bandwidths := m_Bandwidths md @ [b]\<rparr>))
      else if typ = CHR ''k'' then Ok (md\<lparr>m_Encryption := Some (unmarshalEncryption val)\<rparr>)
      else if typ = CHR ''a'' then Ok (md\<lparr>m_Attributes := m_Attributes md @ [unmarshalAttribute val]\<rparr>)
      else Fail (SdpUnknownField typ))"

text \<open>
  One line of the loop.  The pointer \<^verbatim>\<open>media\<close> is nil until the first media line and then points at the
  last media description.
\<close>

definition unmarshal_sdp_line :: "char \<Rightarrow> string \<Rightarrow> SDP \<times> bool \<Rightarrow> (sdp_error, SDP \<times> bool) go" where
  "unmarshal_sdp_line typ val st = (case st of (sdp, seenVersion) \<Rightarrow>
     if typ = CHR ''m'' then
       and_then (unmarshalMedia val) (\<lambda>md. Ok (sdp\<lparr>s_MediaDescs := s_MediaDescs sdp @ [md]\<rparr>, seenVersion))
     else if typ = CHR ''v'' then
       if seenVersion then Fail SdpDuplicateVersion
       else (case Atoi (TrimSpace val) of None \<Rightarrow> Fail (SdpInvalidVersion val)
         | Some n \<Rightarrow> Ok (sdp\<lparr>s_Version := n\<rparr>, True))
     else if s_MediaDescs sdp \<noteq> [] then
       and_then (index (s_MediaDescs sdp) (length (s_MediaDescs sdp) - 1)) (\<lambda>media.
       and_then (unmarshalMediaLine media typ val) (\<lambda>md.
       and_then (update_last (\<lambda>_. md) (s_MediaDescs sdp)) (\<lambda>mds. Ok (sdp\<lparr>s_MediaDescs := mds\<rparr>, seenVersion))))
     else and_then (unmarshalSessionLine sdp typ val) (\<lambda>sdp. Ok (sdp, seenVersion)))"

function unmarshal_sdp_lines :: "string \<Rightarrow> SDP \<times> bool \<Rightarrow> bool \<Rightarrow> (sdp_error, SDP \<times> bool) go" where
  "unmarshal_sdp_lines r st seenFirstLine = (case readLine r of
     None \<Rightarrow> if \<not> seenFirstLine then Fail SdpEmptyBody else Ok st
   | Some (line, r') \<Rightarrow>
       let line = TrimSpace line in
       if line = [] then unmarshal_sdp_lines r' st True
       else if length line < 3 then Fail (SdpMalformedLine line)
       else
         and_then (index line 1) (\<lambda>eq. if eq \<noteq> CHR ''='' then Fail (SdpMalformedLine line) else
         and_then (index line 0) (\<lambda>typ.
         and_then (slice line 2 (length line)) (\<lambda>val.
         and_then (unmarshal_sdp_line typ val st) (\<lambda>st'. unmarshal_sdp_lines r' st' True)))))"
  by pat_completeness auto
termination
  by (relation "measure (\<lambda>(r, _). length r)") (auto dest: readLine_shorter)

declare unmarshal_sdp_lines.simps [simp del]

definition UnmarshalSDP :: "string \<Rightarrow> (sdp_error, SDP) go" where
  "UnmarshalSDP r =
     and_then (unmarshal_sdp_lines r (zero_SDP, False) False) (\<lambda>(sdp, seenVersion).
     if \<not> seenVersion then Fail SdpMissingVersion
     else if s_Version sdp \<noteq> 0 then Fail (SdpVersionNotZero (s_Version sdp))
     else if o_Username (s_Origin sdp) = [] then Fail SdpMissingOrigin
     else if s_SessionName sdp = [] then Fail SdpMissingSessionName
     else if length (s_Times sdp) = 0 then Fail SdpMissingTime
     else Ok sdp)"

section \<open>Serialising\<close>

fun joinLen :: "string list \<Rightarrow> string \<Rightarrow> nat" where
  "joinLen [] sep = 0"
| "joinLen (s # ss) sep = length sep * length ss + sum_list (map length (s # ss))"

definition connection_size :: "ConnectionInfo option \<Rightarrow> nat" where
  "connection_size c = (case c of None \<Rightarrow> 0
     | Some c \<Rightarrow> 2 + length (c_NetworkType c) + 1 + length (c_AddressType c) + 1 + length (c_Address c) + 2)"

definition encryption_size :: "EncryptionKey option \<Rightarrow> nat" where
  "encryption_size k = (case k of None \<Rightarrow> 0
     | Some k \<Rightarrow> 2 + length (k_Method k) + 2 + (if k_Key k \<noteq> [] then 1 + length (k_Key k) else 0))"

definition bandwidth_size :: "BandwidthInfo \<Rightarrow> nat" where
  "bandwidth_size bw = 2 + length (bw_Type bw) + 1 + intLen (bw_Value bw) + 2"

definition attribute_size :: "Attribute \<Rightarrow> nat" where
  "attribute_size a = 2 + length (a_Key a) + 2 + (if a_Value a \<noteq> [] then 1 + length (a_Value a) else 0)"

definition text_size :: "string \<Rightarrow> nat" where
  "text_size v = (if v \<noteq> [] then 2 + length v + 2 else 0)"

definition time_size :: "TimeDescription \<Rightarrow> nat" where
  "time_size td = 2 + intLen (t_Start td) + 1 + intLen (t_Stop td) + 2
     + sum_list (map (\<lambda>r. 2 + intLen (r_Interval r) + 1 + intLen (r_Duration r)
         + sum_list (map (\<lambda>x. 1 + intLen x) (r_Offsets r)) + 2) (t_Repeats td))"

definition media_size :: "MediaDescription \<Rightarrow> nat" where
  "media_size md = 2 + length (m_Type md) + 1 + intLen (m_Port md)
     + (if m_PortCount md > 1 then 1 + intLen (m_PortCount md) else 0)
     + (1 + length (m_Proto md) + 1 + joinLen (m_Fmt md) '' '' + 2)
     + text_size (m_Title md) + connection_size (m_Connection md)
     + sum_list (map bandwidth_size (m_Bandwidths md)) + encryption_size (m_Encryption md)
     + sum_list (map attribute_size (m_Attributes md))"

definition SDP_MarshalSize :: "SDP \<Rightarrow> nat" where
  "SDP_MarshalSize s =
     (2 + intLen (s_Version s) + 2)
     + (2 + length (o_Username (s_Origin s)) + 1 + length (o_SessionID (s_Origin s)) + 1
        + length (o_SessionVersion (s_Origin s)) + 1 + length (o_NetworkType (s_Origin s)) + 1
        + length (o_AddressType (s_Origin s)) + 1 + length (o_Address (s_Origin s)) + 2)
     + (2 + length (s_SessionName s) + 2)
     + text_size (s_SessionInfo s) + text_size (s_URI s)
     + sum_list (map (\<lambda>e. 2 + length e + 2) (s_Emails s))
     + sum_list (map (\<lambda>p. 2 + length p + 2) (s_Phones s))
     + connection_size (s_Connection s)
     + sum_list (map bandwidth_size (s_Bandwidths s))
     + sum_list (map time_size (s_Times s))
     + text_size (s_TimeZone s) + encryption_size (s_Encryption s)
     + sum_list (map attribute_size (s_Attributes s))
     + sum_list (map media_size (s_MediaDescs s))"

text \<open>A line: the two bytes of its type, the writers of its value, and the line end.\<close>

definition sdp_line :: "char \<Rightarrow> ('e, char) writer list \<Rightarrow> ('e, char) writer" where
  "sdp_line c ws = do_all [put [c, CHR ''=''], do_all ws, put CRLF]"

definition marshal_connection :: "ConnectionInfo option \<Rightarrow> ('e, char) writer" where
  "marshal_connection c = (case c of None \<Rightarrow> do_all []
     | Some c \<Rightarrow> sdp_line (CHR ''c'') [copy (c_NetworkType c), put '' '', copy (c_AddressType c), put '' '', copy (c_Address c)])"

definition marshal_encryption :: "EncryptionKey option \<Rightarrow> ('e, char) writer" where
  "marshal_encryption k = (case k of None \<Rightarrow> do_all []
     | Some k \<Rightarrow> sdp_line (CHR ''k'') [copy (k_Method k), do_when (k_Key k \<noteq> []) (do_all [put '':'', copy (k_Key k)])])"

definition marshal_bandwidth :: "BandwidthInfo \<Rightarrow> ('e, char) writer" where
  "marshal_bandwidth bw = sdp_line (CHR ''b'') [copy (bw_Type bw), put '':'', append_in_place (Itoa (bw_Value bw))]"

definition marshal_attribute :: "Attribute \<Rightarrow> ('e, char) writer" where
  "marshal_attribute a =
     sdp_line (CHR ''a'') [copy (a_Key a), do_when (a_Value a \<noteq> []) (do_all [put '':'', copy (a_Value a)])]"

definition marshal_text :: "char \<Rightarrow> string \<Rightarrow> ('e, char) writer" where
  "marshal_text c v = do_when (v \<noteq> []) (sdp_line c [copy v])"

definition marshal_repeat :: "RepeatInfo \<Rightarrow> ('e, char) writer" where
  "marshal_repeat r = sdp_line (CHR ''r'')
     [append_in_place (Itoa (r_Interval r)), put '' '', append_in_place (Itoa (r_Duration r)),
      do_all (map (\<lambda>x. do_all [put '' '', append_in_place (Itoa x)]) (r_Offsets r))]"

definition marshal_time :: "TimeDescription \<Rightarrow> ('e, char) writer" where
  "marshal_time td = do_all
     [sdp_line (CHR ''t'') [append_in_place (Itoa (t_Start td)), put '' '', append_in_place (Itoa (t_Stop td))],
      do_all (map marshal_repeat (t_Repeats td))]"

definition marshal_fmts :: "string list \<Rightarrow> ('e, char) writer" where
  "marshal_fmts fs = (case fs of [] \<Rightarrow> do_all []
     | f # fs \<Rightarrow> do_all [copy f, do_all (map (\<lambda>f. do_all [put '' '', copy f]) fs)])"

definition marshal_media :: "MediaDescription \<Rightarrow> ('e, char) writer" where
  "marshal_media md = do_all
     [sdp_line (CHR ''m'')
        [copy (m_Type md), put '' '', append_in_place (Itoa (m_Port md)),
         do_when (m_PortCount md > 1) (do_all [put ''/'', append_in_place (Itoa (m_PortCount md))]),
         put '' '', copy (m_Proto md), put '' '', marshal_fmts (m_Fmt md)],
      marshal_text (CHR ''i'') (m_Title md),
      marshal_connection (m_Connection md),
      do_all (map marshal_bandwidth (m_Bandwidths md)),
      marshal_encryption (m_Encryption md),
      do_all (map marshal_attribute (m_Attributes md))]"

definition marshal_sdp :: "SDP \<Rightarrow> ('e, char) writer" where
  "marshal_sdp s = do_all
     [sdp_line (CHR ''v'') [append_in_place (Itoa (s_Version s))],
      sdp_line (CHR ''o'') [copy (o_Username (s_Origin s)), put '' '', copy (o_SessionID (s_Origin s)), put '' '',
        copy (o_SessionVersion (s_Origin s)), put '' '', copy (o_NetworkType (s_Origin s)), put '' '',
        copy (o_AddressType (s_Origin s)), put '' '', copy (o_Address (s_Origin s))],
      sdp_line (CHR ''s'') [copy (s_SessionName s)],
      marshal_text (CHR ''i'') (s_SessionInfo s),
      marshal_text (CHR ''u'') (s_URI s),
      do_all (map (\<lambda>e. sdp_line (CHR ''e'') [copy e]) (s_Emails s)),
      do_all (map (\<lambda>p. sdp_line (CHR ''p'') [copy p]) (s_Phones s)),
      marshal_connection (s_Connection s),
      do_all (map marshal_bandwidth (s_Bandwidths s)),
      do_all (map marshal_time (s_Times s)),
      marshal_text (CHR ''z'') (s_TimeZone s),
      marshal_encryption (s_Encryption s),
      do_all (map marshal_attribute (s_Attributes s)),
      do_all (map marshal_media (s_MediaDescs s))]"

definition SDP_marshalTo :: "SDP \<Rightarrow> string \<Rightarrow> (sdp_error, string \<times> nat) go" where
  "SDP_marshalTo s buf = marshal_sdp s (buf, 0)"

definition SDP_MarshalTo :: "SDP \<Rightarrow> string \<Rightarrow> (sdp_error, string \<times> nat) go" where
  "SDP_MarshalTo s buf = (if length buf < SDP_MarshalSize s then Fail SdpBufferTooSmall else SDP_marshalTo s buf)"

definition SDP_Marshal :: "SDP \<Rightarrow> (sdp_error, string) go" where
  "SDP_Marshal s = and_then (SDP_marshalTo s (replicate (SDP_MarshalSize s) (CHR 0x00))) (\<lambda>(buf, _). Ok buf)"

text \<open>
  Times as seconds since 1900: \<^verbatim>\<open>ntpToTime\<close> adds the low 32 bits to the epoch; \<open>None\<close> is the
  zero time.
\<close>

definition ntpToTime :: "int \<Rightarrow> int option" where
  "ntpToTime ntp = (if ntp = 0 then None else Some (ntp AND 0xFFFFFFFF))"

definition SDP_StartTime :: "SDP \<Rightarrow> int option" where
  "SDP_StartTime s = (if length (s_Times s) = 0 then None else ntpToTime (t_Start (s_Times s ! 0)))"

definition SDP_StopTime :: "SDP \<Rightarrow> int option" where
  "SDP_StopTime s = (if length (s_Times s) = 0 then None else ntpToTime (t_Stop (s_Times s ! 0)))"

section \<open>The text format\<close>

text \<open>
  A description as a list of lines, each a type letter and a value: what the serialiser should write and
  what the parser takes apart.
\<close>

definition keyed :: "string \<Rightarrow> string \<Rightarrow> string" where
  "keyed k v = (if v \<noteq> [] then k @ '':'' @ v else k)"

definition connection_text :: "ConnectionInfo \<Rightarrow> string" where
  "connection_text c = c_NetworkType c @ '' '' @ c_AddressType c @ '' '' @ c_Address c"

definition connection_lines :: "ConnectionInfo option \<Rightarrow> (char \<times> string) list" where
  "connection_lines c = (case c of None \<Rightarrow> [] | Some c \<Rightarrow> [(CHR ''c'', connection_text c)])"

definition encryption_lines :: "EncryptionKey option \<Rightarrow> (char \<times> string) list" where
  "encryption_lines k = (case k of None \<Rightarrow> [] | Some k \<Rightarrow> [(CHR ''k'', keyed (k_Method k) (k_Key k))])"

definition bandwidth_line :: "BandwidthInfo \<Rightarrow> char \<times> string" where
  "bandwidth_line bw = (CHR ''b'', bw_Type bw @ '':'' @ Itoa (bw_Value bw))"

definition attribute_line :: "Attribute \<Rightarrow> char \<times> string" where
  "attribute_line a = (CHR ''a'', keyed (a_Key a) (a_Value a))"

definition text_lines :: "char \<Rightarrow> string \<Rightarrow> (char \<times> string) list" where
  "text_lines c v = (if v \<noteq> [] then [(c, v)] else [])"

definition repeat_line :: "RepeatInfo \<Rightarrow> char \<times> string" where
  "repeat_line r = (CHR ''r'', Itoa (r_Interval r) @ '' '' @ Itoa (r_Duration r)
     @ concat (map (\<lambda>x. '' '' @ Itoa x) (r_Offsets r)))"

definition time_lines :: "TimeDescription \<Rightarrow> (char \<times> string) list" where
  "time_lines td = (CHR ''t'', Itoa (t_Start td) @ '' '' @ Itoa (t_Stop td)) # map repeat_line (t_Repeats td)"

definition media_text :: "MediaDescription \<Rightarrow> string" where
  "media_text md = m_Type md @ '' '' @ Itoa (m_Port md)
     @ (if m_PortCount md > 1 then ''/'' @ Itoa (m_PortCount md) else [])
     @ '' '' @ m_Proto md @ '' '' @ Join (m_Fmt md) '' ''"

definition media_lines :: "MediaDescription \<Rightarrow> (char \<times> string) list" where
  "media_lines md = (CHR ''m'', media_text md) # text_lines (CHR ''i'') (m_Title md)
     @ connection_lines (m_Connection md) @ map bandwidth_line (m_Bandwidths md)
     @ encryption_lines (m_Encryption md) @ map attribute_line (m_Attributes md)"

definition origin_text :: "Origin \<Rightarrow> string" where
  "origin_text x = o_Username x @ '' '' @ o_SessionID x @ '' '' @ o_SessionVersion x @ '' '' @ o_NetworkType x
     @ '' '' @ o_AddressType x @ '' '' @ o_Address x"

definition session_lines :: "SDP \<Rightarrow> (char \<times> string) list" where
  "session_lines s = [(CHR ''v'', Itoa (s_Version s)), (CHR ''o'', origin_text (s_Origin s)), (CHR ''s'', s_SessionName s)]
     @ text_lines (CHR ''i'') (s_SessionInfo s) @ text_lines (CHR ''u'') (s_URI s)
     @ map (Pair (CHR ''e'')) (s_Emails s) @ map (Pair (CHR ''p'')) (s_Phones s)
     @ connection_lines (s_Connection s) @ map bandwidth_line (s_Bandwidths s)
     @ concat (map time_lines (s_Times s)) @ text_lines (CHR ''z'') (s_TimeZone s)
     @ encryption_lines (s_Encryption s) @ map attribute_line (s_Attributes s)"

definition sdp_lines :: "SDP \<Rightarrow> (char \<times> string) list" where
  "sdp_lines s = session_lines s @ concat (map media_lines (s_MediaDescs s))"

definition line_text :: "char \<times> string \<Rightarrow> string" where
  "line_text l = fst l # CHR ''='' # snd l @ CRLF"

definition sdp_text :: "SDP \<Rightarrow> string" where
  "sdp_text s = concat (map line_text (sdp_lines s))"

section \<open>The serialiser writes the text\<close>

lemma emits_line: "emits (do_all ws) out \<Longrightarrow> emits (sdp_line c ws) (line_text (c, out))"
  unfolding sdp_line_def
  by (rule emits_eq, (rule emits_intros | assumption)+) (simp add: line_text_def)

lemma emits_connection: "emits (marshal_connection c) (concat (map line_text (connection_lines c)))"
proof (cases c)
  case None
  show ?thesis unfolding marshal_connection_def connection_lines_def None option.case
    by (simp add: emits_Nil)
next
  case (Some a)
  show ?thesis unfolding marshal_connection_def connection_lines_def Some option.case
    by (rule emits_eq, rule emits_line, (rule emits_intros)+) (simp add: connection_text_def)
qed

lemma emits_encryption: "emits (marshal_encryption k) (concat (map line_text (encryption_lines k)))"
proof (cases k)
  case None
  show ?thesis unfolding marshal_encryption_def encryption_lines_def None option.case
    by (simp add: emits_Nil)
next
  case (Some a)
  show ?thesis unfolding marshal_encryption_def encryption_lines_def Some option.case
    by (rule emits_eq, rule emits_line, (rule emits_intros)+) (simp add: keyed_def)
qed

lemma emits_bandwidth: "emits (marshal_bandwidth bw) (line_text (bandwidth_line bw))"
  unfolding marshal_bandwidth_def
  by (rule emits_eq, rule emits_line, (rule emits_intros)+) (simp add: bandwidth_line_def)

lemma emits_attribute: "emits (marshal_attribute a) (line_text (attribute_line a))"
  unfolding marshal_attribute_def
  by (rule emits_eq, rule emits_line, (rule emits_intros)+) (simp add: attribute_line_def keyed_def)

lemma emits_text: "emits (marshal_text c v) (concat (map line_text (text_lines c v)))"
  unfolding marshal_text_def
  by (rule emits_eq, rule emits_when, rule emits_line, (rule emits_intros)+) (simp add: text_lines_def)

lemma emits_repeat: "emits (marshal_repeat r) (line_text (repeat_line r))"
  unfolding marshal_repeat_def
  by (rule emits_eq, rule emits_line, (rule emits_intros)+) (simp add: repeat_line_def)

lemma emits_time: "emits (marshal_time td) (concat (map line_text (time_lines td)))"
  unfolding marshal_time_def
  by (rule emits_eq, (rule emits_intros emits_line emits_repeat)+) (simp add: time_lines_def comp_def)

lemma Join_Cons: "Join (f # fs) sep = f @ concat (map (\<lambda>f. sep @ f) fs)"
  by (induction fs arbitrary: f) simp_all

lemma emits_fmts: "emits (marshal_fmts fs) (Join fs '' '')"
proof (cases fs)
  case Nil
  show ?thesis unfolding marshal_fmts_def Nil list.case by (simp add: emits_Nil)
next
  case (Cons f fs')
  show ?thesis unfolding marshal_fmts_def Cons list.case
    by (rule emits_eq, (rule emits_intros)+) (simp add: Join_Cons)
qed

lemma emits_media: "emits (marshal_media md) (concat (map line_text (media_lines md)))"
  unfolding marshal_media_def
  by (rule emits_eq, (rule emits_intros emits_line emits_fmts emits_text emits_connection emits_bandwidth
        emits_encryption emits_attribute)+)
    (simp add: media_lines_def media_text_def comp_def)

lemma concat_map_concat: "concat (map g (concat (map f xs))) = concat (map (\<lambda>x. concat (map g (f x))) xs)"
  by (induction xs) simp_all

lemma emits_sdp: "emits (marshal_sdp s) (sdp_text s)"
  unfolding marshal_sdp_def
  by (rule emits_eq, (rule emits_intros emits_line emits_text emits_connection emits_bandwidth emits_time
        emits_encryption emits_attribute emits_media)+)
    (simp add: sdp_text_def sdp_lines_def session_lines_def origin_text_def comp_def concat_map_concat)

section \<open>The announced size is exact\<close>

definition times_nonneg :: "TimeDescription \<Rightarrow> bool" where
  "times_nonneg td \<longleftrightarrow> 0 \<le> t_Start td \<and> 0 \<le> t_Stop td \<and>
     list_all (\<lambda>r. 0 \<le> r_Interval r \<and> 0 \<le> r_Duration r \<and> list_all (\<lambda>x. 0 \<le> x) (r_Offsets r)) (t_Repeats td)"

definition media_nonneg :: "MediaDescription \<Rightarrow> bool" where
  "media_nonneg md \<longleftrightarrow> 0 \<le> m_Port md \<and> list_all (\<lambda>b. 0 \<le> bw_Value b) (m_Bandwidths md)"

definition sdp_nonneg :: "SDP \<Rightarrow> bool" where
  "sdp_nonneg s \<longleftrightarrow> 0 \<le> s_Version s \<and> list_all (\<lambda>b. 0 \<le> bw_Value b) (s_Bandwidths s)
     \<and> list_all times_nonneg (s_Times s) \<and> list_all media_nonneg (s_MediaDescs s)"

definition text_len :: "(char \<times> string) list \<Rightarrow> nat" where
  "text_len ls = length (concat (map line_text ls))"

lemma text_len_simps [simp]:
  "text_len [] = 0" "text_len (l # ls) = 4 + length (snd l) + text_len ls" "text_len (xs @ ys) = text_len xs + text_len ys"
  by (simp_all add: text_len_def line_text_def)

lemma text_len_map: "(\<And>x. x \<in> set xs \<Longrightarrow> 4 + length (snd (f x)) = g x) \<Longrightarrow> text_len (map f xs) = sum_list (map g xs)"
  by (induction xs) auto

lemma text_len_concat: "(\<And>x. x \<in> set xs \<Longrightarrow> text_len (f x) = g x) \<Longrightarrow> text_len (concat (map f xs)) = sum_list (map g xs)"
  by (induction xs) auto

lemma joinLen_Join: "joinLen fs '' '' = length (Join fs '' '')"
proof (cases fs)
  case (Cons f fs')
  have "length fs' + sum_list (map length fs') = length (concat (map (\<lambda>f. '' '' @ f) fs'))"
    by (induction fs') simp_all
  then show ?thesis by (simp add: Cons Join_Cons)
qed simp

lemma text_len_parts [simp]:
  "text_len (connection_lines c) = connection_size c"
  "text_len (encryption_lines k) = encryption_size k"
  "text_len (text_lines ch v) = text_size v"
  by (auto simp: connection_lines_def connection_size_def connection_text_def encryption_lines_def encryption_size_def
      text_lines_def text_size_def keyed_def split: option.split)

lemma text_len_attributes [simp]: "text_len (map attribute_line as) = sum_list (map attribute_size as)"
  by (rule text_len_map) (simp add: attribute_line_def attribute_size_def keyed_def)

lemma text_len_bandwidths:
  "list_all (\<lambda>b. 0 \<le> bw_Value b) bs \<Longrightarrow> text_len (map bandwidth_line bs) = sum_list (map bandwidth_size bs)"
  by (rule text_len_map) (simp add: bandwidth_line_def bandwidth_size_def list_all_iff length_Itoa)

lemma text_len_repeat:
  assumes "0 \<le> r_Interval r" "0 \<le> r_Duration r" "list_all (\<lambda>x. 0 \<le> x) (r_Offsets r)"
  shows "4 + length (snd (repeat_line r)) = 2 + intLen (r_Interval r) + 1 + intLen (r_Duration r)
         + sum_list (map (\<lambda>x. 1 + intLen x) (r_Offsets r)) + 2"
proof -
  have "length (concat (map (\<lambda>x. '' '' @ Itoa x) xs)) = sum_list (map (\<lambda>x. 1 + intLen x) xs)" if "list_all (\<lambda>x. 0 \<le> x) xs" for xs
    using that by (induction xs) (simp_all add: length_Itoa)
  with assms show ?thesis by (simp add: repeat_line_def length_Itoa)
qed

lemma text_len_time: "times_nonneg td \<Longrightarrow> text_len (time_lines td) = time_size td"
  unfolding time_lines_def time_size_def text_len_simps
  by (subst text_len_map, rule text_len_repeat) (auto simp: times_nonneg_def list_all_iff length_Itoa)

lemma text_len_media: "media_nonneg md \<Longrightarrow> text_len (media_lines md) = media_size md"
  by (simp add: media_lines_def media_size_def media_nonneg_def text_len_bandwidths media_text_def length_Itoa joinLen_Join)

lemma length_sdp_text:
  assumes "sdp_nonneg s"
  shows "length (sdp_text s) = SDP_MarshalSize s"
proof -
  have "text_len (concat (map time_lines (s_Times s))) = sum_list (map time_size (s_Times s))"
    "text_len (concat (map media_lines (s_MediaDescs s))) = sum_list (map media_size (s_MediaDescs s))"
    using assms by (auto intro!: text_len_concat simp: sdp_nonneg_def list_all_iff text_len_time text_len_media)
  moreover have "text_len (map (Pair ch) xs) = sum_list (map (\<lambda>e. 2 + length e + 2) xs)" for ch xs
    by (rule text_len_map) simp
  moreover have "text_len (map bandwidth_line (s_Bandwidths s)) = sum_list (map bandwidth_size (s_Bandwidths s))"
    using assms by (simp add: text_len_bandwidths sdp_nonneg_def)
  moreover have "length (sdp_text s) = text_len (sdp_lines s)" by (simp add: sdp_text_def text_len_def)
  ultimately show ?thesis
    using assms by (simp add: sdp_lines_def session_lines_def SDP_MarshalSize_def sdp_nonneg_def origin_text_def length_Itoa)
qed

section \<open>The parser inverts the text\<close>

text \<open>
  White space at the end of a line is trimmed by the parser.  \<open>clean_end v\<close>: no encoding of a
  white-space code point is a suffix of \<open>v\<close>.
\<close>

definition clean_end :: "string \<Rightarrow> bool" where
  "clean_end v \<longleftrightarrow> list_all (\<lambda>w. \<not> HasSuffix v w) space_encodings"

fun opt_all :: "('a \<Rightarrow> bool) \<Rightarrow> 'a option \<Rightarrow> bool" where
  "opt_all P None \<longleftrightarrow> True"
| "opt_all P (Some x) \<longleftrightarrow> P x"

definition text_ok :: "string \<Rightarrow> bool" where
  "text_ok v \<longleftrightarrow> v \<noteq> [] \<and> LF \<notin> set v \<and> clean_end v"

definition word_ok :: "string \<Rightarrow> bool" where
  "word_ok v \<longleftrightarrow> v \<noteq> [] \<and> LF \<notin> set v \<and> CHR '' '' \<notin> set v"

definition num_ok :: "int \<Rightarrow> bool" where
  "num_ok n \<longleftrightarrow> 0 \<le> n \<and> n < 2 ^ 63"

definition keyed_ok :: "string \<Rightarrow> string \<Rightarrow> bool" where
  "keyed_ok k v \<longleftrightarrow> CHR '':'' \<notin> set k \<and> LF \<notin> set k \<and> text_ok (if v = [] then k else v)"

definition connection_ok :: "ConnectionInfo \<Rightarrow> bool" where
  "connection_ok c \<longleftrightarrow> CHR '' '' \<notin> set (c_NetworkType c) \<and> LF \<notin> set (c_NetworkType c)
     \<and> word_ok (c_AddressType c) \<and> text_ok (c_Address c)"

definition origin_ok :: "Origin \<Rightarrow> bool" where
  "origin_ok x \<longleftrightarrow> list_all word_ok [o_Username x, o_SessionID x, o_SessionVersion x, o_NetworkType x, o_AddressType x]
     \<and> text_ok (o_Address x)"

definition bandwidth_ok :: "BandwidthInfo \<Rightarrow> bool" where
  "bandwidth_ok b \<longleftrightarrow> CHR '':'' \<notin> set (bw_Type b) \<and> LF \<notin> set (bw_Type b) \<and> TrimSpace (bw_Type b) = bw_Type b
     \<and> num_ok (bw_Value b)"

definition repeat_ok :: "RepeatInfo \<Rightarrow> bool" where
  "repeat_ok r \<longleftrightarrow> num_ok (r_Interval r) \<and> num_ok (r_Duration r) \<and> r_Offsets r \<noteq> [] \<and> list_all num_ok (r_Offsets r)"

definition time_ok :: "TimeDescription \<Rightarrow> bool" where
  "time_ok t \<longleftrightarrow> num_ok (t_Start t) \<and> num_ok (t_Stop t) \<and> list_all repeat_ok (t_Repeats t)"

definition media_ok :: "MediaDescription \<Rightarrow> bool" where
  "media_ok md \<longleftrightarrow> CHR '' '' \<notin> set (m_Type md) \<and> LF \<notin> set (m_Type md) \<and> num_ok (m_Port md)
     \<and> 1 \<le> m_PortCount md \<and> m_PortCount md < 2 ^ 63 \<and> word_ok (m_Proto md)
     \<and> m_Fmt md \<noteq> [] \<and> hd (m_Fmt md) \<noteq> [] \<and> list_all (\<lambda>f. CHR '' '' \<notin> set f) (m_Fmt md) \<and> text_ok (Join (m_Fmt md) '' '')
     \<and> (m_Title md = [] \<or> text_ok (m_Title md)) \<and> opt_all connection_ok (m_Connection md)
     \<and> list_all bandwidth_ok (m_Bandwidths md) \<and> opt_all (\<lambda>k. keyed_ok (k_Method k) (k_Key k)) (m_Encryption md)
     \<and> list_all (\<lambda>a. keyed_ok (a_Key a) (a_Value a)) (m_Attributes md)"

definition sdp_ok :: "SDP \<Rightarrow> bool" where
  "sdp_ok s \<longleftrightarrow> s_Version s = 0 \<and> origin_ok (s_Origin s) \<and> text_ok (s_SessionName s)
     \<and> list_all (\<lambda>v. v = [] \<or> text_ok v) [s_SessionInfo s, s_URI s, s_TimeZone s]
     \<and> list_all text_ok (s_Emails s) \<and> list_all text_ok (s_Phones s) \<and> opt_all connection_ok (s_Connection s)
     \<and> list_all bandwidth_ok (s_Bandwidths s) \<and> s_Times s \<noteq> [] \<and> list_all time_ok (s_Times s)
     \<and> opt_all (\<lambda>k. keyed_ok (k_Method k) (k_Key k)) (s_Encryption s)
     \<and> list_all (\<lambda>a. keyed_ok (a_Key a) (a_Value a)) (s_Attributes s) \<and> list_all media_ok (s_MediaDescs s)"

subsection \<open>Line ends\<close>

lemma space_encodings_ascii: "list_all (\<lambda>w. length w = 1 \<or> list_all (\<lambda>c. 128 \<le> code c) w) space_encodings"
  by code_simp

lemma HasSuffix_append: "HasSuffix (x @ v) w \<Longrightarrow> length w \<le> length v \<Longrightarrow> HasSuffix v w"
  by (simp add: HasSuffix_def)

lemma clean_end_append:
  assumes "code c < 128" and "v \<noteq> []" and "clean_end v"
  shows "clean_end (x @ c # v)"
  unfolding clean_end_def list_all_iff
proof (intro ballI notI)
  fix w assume w: "w \<in> set space_encodings" and suf: "HasSuffix (x @ c # v) w"
  show False
  proof (cases "length w \<le> length v")
    case True
    with suf have "HasSuffix v w" using HasSuffix_append [of "x @ [c]" v w] by simp
    with w assms(3) show False by (simp add: clean_end_def list_all_iff)
  next
    case False
    then have "w = drop (length (x @ c # v) - length w) x @ c # v" using suf by (auto simp: HasSuffix_def)
    then have "c \<in> set w" by (metis in_set_conv_decomp)
    moreover have "length w \<noteq> 1" using False assms(2) by (cases v) auto
    ultimately show False using w assms(1) space_encodings_ascii by (force simp: list_all_iff)
  qed
qed

lemma HasSuffix_last: "HasSuffix s w \<Longrightarrow> w \<noteq> [] \<Longrightarrow> last s = last w"
  by (metis HasSuffix_def last_drop append_take_drop_id last_appendR)

lemma clean_end_graphic: "graphic (last s) \<Longrightarrow> clean_end s"
  unfolding clean_end_def list_all_iff
  using space_encodings_ends space_encodings_ne by (metis (no_types, lifting) HasSuffix_last list_all_iff)

lemma TrimSpace_clean:
  assumes "graphic (hd s)" and "clean_end s"
  shows "TrimSpace s = s"
proof -
  have "trim_front space_encodings s = s"
    using assms(1) space_encodings_ends by (intro trim_front_id) (auto simp: list_all_iff)
  moreover have "find (\<lambda>w. w \<noteq> [] \<and> HasPrefix (rev s) w) (map rev space_encodings) = None"
    using assms(2) by (auto simp: find_None_iff clean_end_def list_all_iff HasPrefix_def HasSuffix_def take_rev)
  then have "trim_front (map rev space_encodings) (rev s) = rev s" by (subst trim_front.simps) simp
  ultimately show ?thesis by (simp add: TrimSpace_def)
qed

lemma text_ok_append: "LF \<notin> set x \<Longrightarrow> code c < 128 \<Longrightarrow> c \<noteq> LF \<Longrightarrow> text_ok v \<Longrightarrow> text_ok (x @ c # v)"
  by (auto simp: text_ok_def clean_end_append)

lemma text_ok_Itoa: "0 \<le> n \<Longrightarrow> text_ok (Itoa n)"
proof -
  assume n: "0 \<le> n"
  then have d: "digits_ok (Itoa n)" by (rule Itoa_digits)
  then have "graphic (last (Itoa n))" by (auto simp: digits_ok_def list_all_iff intro: is_digit_graphic)
  with d digits_no [OF d] show ?thesis by (simp add: text_ok_def clean_end_graphic digits_ok_def)
qed

lemma text_ok_graphic: "v \<noteq> [] \<Longrightarrow> LF \<notin> set v \<Longrightarrow> graphic (last v) \<Longrightarrow> text_ok v"
  by (simp add: text_ok_def clean_end_graphic)

lemma word_Itoa: "0 \<le> n \<Longrightarrow> word_ok (Itoa n)"
  using digits_no [OF Itoa_digits [of n]] Itoa_digits [of n] by (auto simp: word_ok_def digits_ok_def)

subsection \<open>Fields\<close>

lemma TrimLeft_word: "v \<noteq> [] \<Longrightarrow> CHR '' '' \<notin> set v \<Longrightarrow> TrimLeft (v @ t) '' '' = v @ t"
  by (cases v) (auto simp: TrimLeft_def)

lemma next_word: "word_ok v \<Longrightarrow> Cut (TrimLeft (v @ CHR '' '' # t) '' '') '' '' = (v, t, True)"
  by (subst TrimLeft_word) (auto simp: word_ok_def Cut_byte)

lemma first_word: "CHR '' '' \<notin> set v \<Longrightarrow> Cut (v @ CHR '' '' # t) '' '' = (v, t, True)"
  by (simp add: Cut_byte)

lemma unmarshalOrigin_text: "origin_ok x \<Longrightarrow> unmarshalOrigin (origin_text x) = Ok x"
  by (simp add: unmarshalOrigin_def origin_text_def origin_ok_def next_word first_word word_ok_def [of "o_Username x"])

lemma unmarshalConnection_text: "connection_ok c \<Longrightarrow> unmarshalConnection (connection_text c) = Ok c"
  by (simp add: unmarshalConnection_def connection_text_def connection_ok_def next_word first_word)

lemma num_ok_Atoi: "num_ok n \<Longrightarrow> Atoi (Itoa n) = Some n" "num_ok n \<Longrightarrow> TrimSpace (Itoa n) = Itoa n"
  by (simp_all add: num_ok_def Atoi_Itoa digits_graphic Itoa_digits)

lemma unmarshalBandwidth_text: "bandwidth_ok b \<Longrightarrow> unmarshalBandwidth (snd (bandwidth_line b)) = Ok b"
  by (simp add: unmarshalBandwidth_def bandwidth_line_def bandwidth_ok_def Cut_byte num_ok_Atoi)

lemma num_word: "num_ok n \<Longrightarrow> word_ok (Itoa n)" "num_ok n \<Longrightarrow> CHR '' '' \<notin> set (Itoa n)" "num_ok n \<Longrightarrow> Itoa n \<noteq> []"
  using word_Itoa [of n] by (auto simp: num_ok_def word_ok_def)

lemma unmarshalTime_text:
  "num_ok a \<Longrightarrow> num_ok b \<Longrightarrow> unmarshalTime (Itoa a @ '' '' @ Itoa b) = Ok \<lparr>t_Repeats = [], t_Start = a, t_Stop = b\<rparr>"
  by (simp add: unmarshalTime_def first_word num_word num_ok_Atoi)

lemma unmarshal_offsets_text:
  "num_ok x \<Longrightarrow> list_all num_ok xs \<Longrightarrow>
     unmarshal_offsets (Itoa x @ concat (map (\<lambda>x. '' '' @ Itoa x) xs)) acc = Ok (acc @ x # xs)"
proof (induction xs arbitrary: x acc)
  case Nil
  then show ?case
    by (subst unmarshal_offsets.simps)
      (simp add: num_word num_ok_Atoi Cut_no_byte TrimLeft_def unmarshal_offsets.simps [of "[]"])
next
  case (Cons y xs)
  then have "TrimLeft (Itoa y @ concat (map (\<lambda>x. '' '' @ Itoa x) xs)) '' '' = Itoa y @ concat (map (\<lambda>x. '' '' @ Itoa x) xs)"
    by (intro TrimLeft_word) (simp_all add: num_word)
  with Cons show ?case
    by (subst unmarshal_offsets.simps) (simp add: num_word num_ok_Atoi first_word)
qed

lemma unmarshalRepeat_text:
  assumes "repeat_ok r"
  shows "unmarshalRepeat (snd (repeat_line r)) = Ok r"
proof -
  obtain x xs where xs: "r_Offsets r = x # xs" using assms by (cases "r_Offsets r") (auto simp: repeat_ok_def)
  have "TrimLeft (Itoa x @ concat (map (\<lambda>x. '' '' @ Itoa x) xs)) '' '' = Itoa x @ concat (map (\<lambda>x. '' '' @ Itoa x) xs)"
    using assms by (intro TrimLeft_word) (simp_all add: repeat_ok_def xs num_word)
  with assms show ?thesis
    using unmarshal_offsets_text [of x xs "[]"]
    by (simp add: unmarshalRepeat_def repeat_line_def repeat_ok_def xs first_word next_word num_word num_ok_Atoi)
qed

lemma unmarshalEncryption_text: "keyed_ok (k_Method k) (k_Key k) \<Longrightarrow> unmarshalEncryption (keyed (k_Method k) (k_Key k)) = k"
  by (simp add: unmarshalEncryption_def keyed_def keyed_ok_def Cut_byte Cut_no_byte)

lemma unmarshalAttribute_text: "keyed_ok (a_Key a) (a_Value a) \<Longrightarrow> unmarshalAttribute (keyed (a_Key a) (a_Value a)) = a"
  by (simp add: unmarshalAttribute_def keyed_def keyed_ok_def Cut_byte Cut_no_byte)

lemma Split_no: "b \<notin> set s \<Longrightarrow> Split s b = [s]"
  by (induction s) auto

lemma Split_append: "b \<notin> set s \<Longrightarrow> Split (s @ b # t) b = s # Split t b"
  by (induction s) (auto split: list.split)

lemma Split_Join: "fs \<noteq> [] \<Longrightarrow> list_all (\<lambda>f. b \<notin> set f) fs \<Longrightarrow> Split (Join fs [b]) b = fs"
proof (induction fs rule: induct_list012)
  case (3 f g fs)
  then show ?case using Split_append [of b f "Join (g # fs) [b]"] by simp
qed (simp_all add: Split_no)

lemma unmarshal_port_text:
  assumes "num_ok p" and "1 \<le> c" and "c < 2 ^ 63"
  shows "unmarshal_port val (Itoa p @ (if c > 1 then ''/'' @ Itoa c else [])) = Ok (p, c)"
proof -
  have "CHR ''/'' \<notin> set (Itoa p)" using Itoa_digits [of p] assms(1) by (auto simp: num_ok_def digits_ok_def list_all_iff is_digit_def)
  moreover have "Atoi (Itoa c) = Some c" using assms by (intro Atoi_Itoa) auto
  ultimately show ?thesis using assms
    by (auto simp: unmarshal_port_def slice_def IndexByte_eq Index_byte Index_None_byte [THEN iffD2] num_ok_Atoi)
qed

definition media_head :: "MediaDescription \<Rightarrow> MediaDescription" where
  "media_head md = md\<lparr>m_Title := '''', m_Connection := None, m_Bandwidths := [], m_Encryption := None, m_Attributes := []\<rparr>"

lemma unmarshalMedia_text:
  assumes "media_ok md"
  shows "unmarshalMedia (media_text md) = Ok (media_head md)"
proof -
  define port where "port = Itoa (m_Port md) @ (if m_PortCount md > 1 then ''/'' @ Itoa (m_PortCount md) else [])"
  have nn: "num_ok (m_Port md)" "1 \<le> m_PortCount md" "m_PortCount md < 2 ^ 63" using assms by (simp_all add: media_ok_def)
  then have "word_ok port" using word_Itoa [of "m_Port md"] word_Itoa [of "m_PortCount md"]
    by (auto simp: port_def word_ok_def num_ok_def)
  moreover have "unmarshal_port val port = Ok (m_Port md, m_PortCount md)" for val
    unfolding port_def by (rule unmarshal_port_text [OF nn])
  moreover have "media_text md = m_Type md @ CHR '' '' # port @ CHR '' '' # m_Proto md @ CHR '' '' # Join (m_Fmt md) '' ''"
    by (simp add: media_text_def port_def)
  moreover obtain f fs where fs: "m_Fmt md = f # fs" using assms by (cases "m_Fmt md") (auto simp: media_ok_def)
  have "TrimLeft (Join (m_Fmt md) '' '') '' '' = Join (m_Fmt md) '' ''"
    using assms unfolding fs Join_Cons by (intro TrimLeft_word) (simp_all add: media_ok_def fs)
  moreover have "Join (m_Fmt md) '' '' \<noteq> []" using assms by (simp add: media_ok_def text_ok_def)
  ultimately show ?thesis using assms
    by (simp add: unmarshalMedia_def media_ok_def first_word next_word Split_Join media_head_def)
qed


subsection \<open>Lines\<close>

fun mfold :: "('l \<Rightarrow> 's \<Rightarrow> ('e, 's) go) \<Rightarrow> 'l list \<Rightarrow> 's \<Rightarrow> ('e, 's) go" where
  "mfold f [] st = Ok st"
| "mfold f (l # ls) st = and_then (f l st) (mfold f ls)"

lemma mfold_append: "mfold f (xs @ ys) st = and_then (mfold f xs st) (mfold f ys)"
proof (induction xs arbitrary: st)
  case (Cons x xs)
  then show ?case by (cases "f x st") simp_all
qed simp

definition line_ok :: "char \<times> string \<Rightarrow> bool" where
  "line_ok l \<longleftrightarrow> graphic (fst l) \<and> text_ok (snd l)"

lemma unmarshal_lines_text:
  assumes "list_all line_ok ls"
  shows "unmarshal_sdp_lines (concat (map line_text ls)) st True =
     mfold (\<lambda>(c, v) st. unmarshal_sdp_line c v st) ls st"
  using assms
proof (induction ls arbitrary: st)
  case Nil
  show ?case by (subst unmarshal_sdp_lines.simps) (simp add: readLine_def)
next
  case (Cons l ls)
  obtain c v where l: "l = (c, v)" by (cases l)
  have ok: "graphic c" "text_ok v" using Cons.prems by (simp_all add: line_ok_def l)
  have "c \<noteq> LF" using ok(1) by (auto simp: graphic_def)
  then have "readLine ((c # CHR ''='' # v) @ CR # LF # concat (map line_text ls)) = Some (c # CHR ''='' # v, concat (map line_text ls))"
    using ok by (intro readLine_line) (simp add: text_ok_def)
  moreover have "TrimSpace (c # CHR ''='' # v) = c # CHR ''='' # v"
    using ok clean_end_append [of "CHR ''=''" v "[c]"] by (intro TrimSpace_clean) (simp_all add: text_ok_def)
  moreover have "\<not> length (c # CHR ''='' # v) < 3" using ok(2) by (cases v) (simp_all add: text_ok_def)
  ultimately show ?case using Cons.prems
    by (subst unmarshal_sdp_lines.simps) (cases "unmarshal_sdp_line c v st"; simp add: l line_text_def Cons.IH Let_def index_def slice_def)
qed

lemma unmarshal_first_text:
  assumes "list_all line_ok ls" and "ls \<noteq> []"
  shows "unmarshal_sdp_lines (concat (map line_text ls)) st seen = unmarshal_sdp_lines (concat (map line_text ls)) st True"
proof -
  obtain l ls' where "ls = l # ls'" using assms(2) by (cases ls) auto
  then have "readLine (concat (map line_text ls)) \<noteq> None"
    by (auto simp: readLine_def line_text_def Let_def split: option.splits)
  then show ?thesis
    by (subst (1 2) unmarshal_sdp_lines.simps) (auto split: option.split)
qed

subsection \<open>Media descriptions\<close>

abbreviation media_steps where "media_steps \<equiv> mfold (\<lambda>(c, v) md. unmarshalMediaLine md c v)"
abbreviation session_steps where "session_steps \<equiv> mfold (\<lambda>(c, v) s. unmarshalSessionLine s c v)"
abbreviation sdp_steps where "sdp_steps \<equiv> mfold (\<lambda>(c, v) st. unmarshal_sdp_line c v st)"

lemma media_steps_text:
  "media_steps (text_lines (CHR ''i'') t) md = Ok (if t = [] then md else md\<lparr>m_Title := t\<rparr>)"
  by (simp add: text_lines_def unmarshalMediaLine_def)

lemma media_steps_connection:
  "opt_all connection_ok c \<Longrightarrow> media_steps (connection_lines c) md = Ok (if c = None then md else md\<lparr>m_Connection := c\<rparr>)"
  by (cases c) (simp_all add: connection_lines_def unmarshalMediaLine_def unmarshalConnection_text)

lemma media_steps_encryption:
  "opt_all (\<lambda>k. keyed_ok (k_Method k) (k_Key k)) k \<Longrightarrow>
     media_steps (encryption_lines k) md = Ok (if k = None then md else md\<lparr>m_Encryption := k\<rparr>)"
  by (cases k) (simp_all add: encryption_lines_def unmarshalMediaLine_def unmarshalEncryption_text)

lemma media_steps_bandwidths:
  "list_all bandwidth_ok bs \<Longrightarrow> media_steps (map bandwidth_line bs) md = Ok (md\<lparr>m_Bandwidths := m_Bandwidths md @ bs\<rparr>)"
proof (induction bs arbitrary: md)
  case (Cons b bs)
  then show ?case using unmarshalBandwidth_text [of b]
    by (simp add: bandwidth_line_def [of b] unmarshalMediaLine_def)
qed simp

lemma media_steps_attributes:
  "list_all (\<lambda>a. keyed_ok (a_Key a) (a_Value a)) as \<Longrightarrow>
     media_steps (map attribute_line as) md = Ok (md\<lparr>m_Attributes := m_Attributes md @ as\<rparr>)"
proof (induction as arbitrary: md)
  case (Cons a as)
  then show ?case using unmarshalAttribute_text [of a]
    by (simp add: attribute_line_def [of a] unmarshalMediaLine_def)
qed simp

lemma media_steps_all:
  assumes "media_ok md"
  shows "media_steps (tl (media_lines md)) (media_head md) = Ok md"
  using assms
  by (simp add: media_lines_def mfold_append media_steps_text media_steps_connection media_steps_encryption
      media_steps_bandwidths media_steps_attributes media_ok_def media_head_def)

lemma update_last_snoc [simp]: "update_last f (xs @ [x]) = Ok (xs @ [f x])"
  by (simp add: update_last_def index_def list_update_append)

lemma update_last_Panic [go_simps]: "update_last f xs = Panic \<longleftrightarrow> xs = []"
  by (cases xs rule: rev_cases) (simp_all add: update_last_def index_def)

lemma sdp_steps_media:
  assumes "list_all (\<lambda>l. fst l \<noteq> CHR ''m'' \<and> fst l \<noteq> CHR ''v'') ls"
  shows "sdp_steps ls (s\<lparr>s_MediaDescs := ms @ [md]\<rparr>, v) =
     and_then (media_steps ls md) (\<lambda>md'. Ok (s\<lparr>s_MediaDescs := ms @ [md']\<rparr>, v))"
  using assms
proof (induction ls arbitrary: md)
  case (Cons l ls)
  obtain c t where l: "l = (c, t)" by (cases l)
  have "unmarshal_sdp_line c t (s\<lparr>s_MediaDescs := ms @ [md]\<rparr>, v) =
      and_then (unmarshalMediaLine md c t) (\<lambda>md'. Ok (s\<lparr>s_MediaDescs := ms @ [md']\<rparr>, v))"
    using Cons.prems by (cases "unmarshalMediaLine md c t") (simp_all add: unmarshal_sdp_line_def l index_def)
  then show ?case using Cons by (cases "unmarshalMediaLine md c t") (simp_all add: l)
qed simp

lemma media_line_types: "list_all (\<lambda>l. fst l \<noteq> CHR ''m'' \<and> fst l \<noteq> CHR ''v'') (tl (media_lines md))"
  by (auto simp: media_lines_def text_lines_def connection_lines_def encryption_lines_def bandwidth_line_def
      attribute_line_def list_all_iff split: option.split)

lemma sdp_steps_medias:
  "list_all media_ok ms \<Longrightarrow> sdp_steps (concat (map media_lines ms)) (s, v) = Ok (s\<lparr>s_MediaDescs := s_MediaDescs s @ ms\<rparr>, v)"
proof (induction ms arbitrary: s)
  case (Cons md ms)
  have head: "sdp_steps ((CHR ''m'', media_text md) # L) (s, v) = sdp_steps L (s\<lparr>s_MediaDescs := s_MediaDescs s @ [media_head md]\<rparr>, v)" for L
    using Cons.prems by (simp add: unmarshal_sdp_line_def unmarshalMedia_text)
  have "media_lines md = (CHR ''m'', media_text md) # tl (media_lines md)" by (simp add: media_lines_def)
  then have "sdp_steps (media_lines md) (s, v) = sdp_steps (tl (media_lines md)) (s\<lparr>s_MediaDescs := s_MediaDescs s @ [media_head md]\<rparr>, v)"
    using head by metis
  also have "\<dots> = Ok (s\<lparr>s_MediaDescs := s_MediaDescs s @ [md]\<rparr>, v)"
    using Cons.prems by (simp add: sdp_steps_media [OF media_line_types] media_steps_all)
  finally show ?case using Cons by (simp add: mfold_append)
qed simp


subsection \<open>Session-level lines\<close>

lemma session_steps_text:
  "session_steps (text_lines (CHR ''i'') t) s = Ok (if t = [] then s else s\<lparr>s_SessionInfo := t\<rparr>)"
  "session_steps (text_lines (CHR ''u'') t) s = Ok (if t = [] then s else s\<lparr>s_URI := t\<rparr>)"
  "session_steps (text_lines (CHR ''z'') t) s = Ok (if t = [] then s else s\<lparr>s_TimeZone := t\<rparr>)"
  by (simp_all add: text_lines_def unmarshalSessionLine_def)

lemma session_steps_emails: "session_steps (map (Pair (CHR ''e'')) es) s = Ok (s\<lparr>s_Emails := s_Emails s @ es\<rparr>)"
  by (induction es arbitrary: s) (simp_all add: unmarshalSessionLine_def)

lemma session_steps_phones: "session_steps (map (Pair (CHR ''p'')) ps) s = Ok (s\<lparr>s_Phones := s_Phones s @ ps\<rparr>)"
  by (induction ps arbitrary: s) (simp_all add: unmarshalSessionLine_def)

lemma session_steps_connection:
  "opt_all connection_ok c \<Longrightarrow> session_steps (connection_lines c) s = Ok (if c = None then s else s\<lparr>s_Connection := c\<rparr>)"
  by (cases c) (simp_all add: connection_lines_def unmarshalSessionLine_def unmarshalConnection_text)

lemma session_steps_encryption:
  "opt_all (\<lambda>k. keyed_ok (k_Method k) (k_Key k)) k \<Longrightarrow>
     session_steps (encryption_lines k) s = Ok (if k = None then s else s\<lparr>s_Encryption := k\<rparr>)"
  by (cases k) (simp_all add: encryption_lines_def unmarshalSessionLine_def unmarshalEncryption_text)

lemma session_steps_bandwidths:
  "list_all bandwidth_ok bs \<Longrightarrow> session_steps (map bandwidth_line bs) s = Ok (s\<lparr>s_Bandwidths := s_Bandwidths s @ bs\<rparr>)"
proof (induction bs arbitrary: s)
  case (Cons b bs)
  then show ?case using unmarshalBandwidth_text [of b]
    by (simp add: bandwidth_line_def [of b] unmarshalSessionLine_def)
qed simp

lemma session_steps_attributes:
  "list_all (\<lambda>a. keyed_ok (a_Key a) (a_Value a)) as \<Longrightarrow>
     session_steps (map attribute_line as) s = Ok (s\<lparr>s_Attributes := s_Attributes s @ as\<rparr>)"
proof (induction as arbitrary: s)
  case (Cons a as)
  then show ?case using unmarshalAttribute_text [of a]
    by (simp add: attribute_line_def [of a] unmarshalSessionLine_def)
qed simp

lemma session_steps_repeats:
  "list_all repeat_ok rs \<Longrightarrow> session_steps (map repeat_line rs) (s\<lparr>s_Times := ts @ [t]\<rparr>) =
     Ok (s\<lparr>s_Times := ts @ [t\<lparr>t_Repeats := t_Repeats t @ rs\<rparr>]\<rparr>)"
proof (induction rs arbitrary: t)
  case (Cons r rs)
  then show ?case using unmarshalRepeat_text [of r]
    by (simp add: repeat_line_def [of r] unmarshalSessionLine_def)
qed simp

lemma session_steps_times:
  "list_all time_ok ts \<Longrightarrow> session_steps (concat (map time_lines ts)) s = Ok (s\<lparr>s_Times := s_Times s @ ts\<rparr>)"
proof (induction ts arbitrary: s)
  case (Cons t ts)
  let ?t0 = "\<lparr>t_Repeats = [], t_Start = t_Start t, t_Stop = t_Stop t\<rparr>"
  have "session_steps (time_lines t) s = session_steps (map repeat_line (t_Repeats t)) (s\<lparr>s_Times := s_Times s @ [?t0]\<rparr>)"
    using Cons.prems by (simp add: time_lines_def unmarshalSessionLine_def time_ok_def unmarshalTime_text [simplified])
  also have "\<dots> = Ok (s\<lparr>s_Times := s_Times s @ [t]\<rparr>)"
    using Cons.prems by (simp add: session_steps_repeats time_ok_def)
  finally show ?case using Cons by (simp add: mfold_append)
qed simp

lemma unmarshalSessionLine_media: "unmarshalSessionLine s c v = Ok s' \<Longrightarrow> s_MediaDescs s' = s_MediaDescs s"
  by (auto simp: unmarshalSessionLine_def go_simps split: if_splits)

lemma sdp_steps_session:
  assumes "list_all (\<lambda>l. fst l \<noteq> CHR ''m'' \<and> fst l \<noteq> CHR ''v'') ls" and "s_MediaDescs s = []"
  shows "sdp_steps ls (s, v) = and_then (session_steps ls s) (\<lambda>s'. Ok (s', v))"
  using assms
proof (induction ls arbitrary: s)
  case (Cons l ls)
  obtain c t where l: "l = (c, t)" by (cases l)
  have "unmarshal_sdp_line c t (s, v) = and_then (unmarshalSessionLine s c t) (\<lambda>s'. Ok (s', v))"
    using Cons.prems by (simp add: unmarshal_sdp_line_def l)
  then show ?case using Cons unmarshalSessionLine_media [of s c t]
    by (cases "unmarshalSessionLine s c t") (simp_all add: l)
qed simp

lemma session_line_types: "list_all (\<lambda>l. fst l \<noteq> CHR ''m'' \<and> fst l \<noteq> CHR ''v'') (tl (session_lines s))"
  by (auto simp: session_lines_def text_lines_def connection_lines_def encryption_lines_def bandwidth_line_def
      attribute_line_def time_lines_def repeat_line_def list_all_iff split: option.split)

lemma session_steps_all:
  assumes "sdp_ok s"
  shows "session_steps (tl (session_lines s)) (zero_SDP\<lparr>s_Version := 0\<rparr>) = Ok (s\<lparr>s_MediaDescs := []\<rparr>)"
proof -
  have head: "session_steps [(CHR ''o'', origin_text (s_Origin s)), (CHR ''s'', s_SessionName s)] s0 =
      Ok (s0\<lparr>s_Origin := s_Origin s, s_SessionName := s_SessionName s\<rparr>)" for s0
    using assms by (simp add: unmarshalSessionLine_def unmarshalOrigin_text sdp_ok_def)
  have split: "tl (session_lines s) = [(CHR ''o'', origin_text (s_Origin s)), (CHR ''s'', s_SessionName s)] @ drop 3 (session_lines s)"
    by (simp add: session_lines_def)
  show ?thesis unfolding split mfold_append head
    using assms
    by (simp add: session_lines_def mfold_append session_steps_text session_steps_emails session_steps_phones
        session_steps_connection session_steps_bandwidths session_steps_times session_steps_encryption session_steps_attributes
        sdp_ok_def zero_SDP_def)
qed

lemma sdp_steps_all:
  assumes "sdp_ok s"
  shows "sdp_steps (sdp_lines s) (zero_SDP, False) = Ok (s, True)"
proof -
  have head: "sdp_steps ((CHR ''v'', Itoa (s_Version s)) # L) (zero_SDP, False) = sdp_steps L (zero_SDP\<lparr>s_Version := 0\<rparr>, True)" for L
    using assms by (simp add: unmarshal_sdp_line_def sdp_ok_def num_ok_Atoi num_ok_def)
  have z: "s_MediaDescs (zero_SDP\<lparr>s_Version := 0\<rparr>) = []" by (simp add: zero_SDP_def)
  have session: "sdp_steps (tl (session_lines s)) (zero_SDP\<lparr>s_Version := 0\<rparr>, True) = Ok (s\<lparr>s_MediaDescs := []\<rparr>, True)"
    unfolding sdp_steps_session [OF session_line_types z] session_steps_all [OF assms] by simp
  have "sdp_lines s = ((CHR ''v'', Itoa (s_Version s)) # tl (session_lines s)) @ concat (map media_lines (s_MediaDescs s))"
    by (simp add: sdp_lines_def session_lines_def)
  then have "sdp_steps (sdp_lines s) (zero_SDP, False) =
      and_then (Ok (s\<lparr>s_MediaDescs := []\<rparr>, True)) (sdp_steps (concat (map media_lines (s_MediaDescs s))))"
    by (simp only: mfold_append head session)
  then show ?thesis using assms by (simp add: sdp_steps_medias sdp_ok_def)
qed

subsection \<open>Every line is well formed\<close>

lemma text_ok_sep: "LF \<notin> set x \<Longrightarrow> text_ok v \<Longrightarrow> text_ok (x @ CHR '' '' # v)" "LF \<notin> set x \<Longrightarrow> text_ok v \<Longrightarrow> text_ok (x @ CHR '':'' # v)"
  by (rule text_ok_append; simp)+

lemma word_no_LF: "word_ok v \<Longrightarrow> LF \<notin> set v" by (simp add: word_ok_def)

lemma num_no_LF: "num_ok n \<Longrightarrow> LF \<notin> set (Itoa n)" using num_word(1) word_no_LF by blast

lemma num_text: "num_ok n \<Longrightarrow> text_ok (Itoa n)" by (simp add: num_ok_def text_ok_Itoa)

lemma keyed_text: "keyed_ok k v \<Longrightarrow> text_ok (keyed k v)"
  by (auto simp: keyed_ok_def keyed_def text_ok_sep split: if_splits)

lemma origin_text_ok: "origin_ok x \<Longrightarrow> text_ok (origin_text x)"
  by (simp add: origin_text_def origin_ok_def text_ok_sep word_no_LF)

lemma connection_text_ok: "connection_ok c \<Longrightarrow> text_ok (connection_text c)"
  by (simp add: connection_text_def connection_ok_def text_ok_sep word_no_LF)

lemma bandwidth_text_ok: "bandwidth_ok b \<Longrightarrow> text_ok (snd (bandwidth_line b))"
  by (simp add: bandwidth_line_def bandwidth_ok_def text_ok_sep num_text)

lemma repeat_text_ok:
  assumes "repeat_ok r"
  shows "text_ok (snd (repeat_line r))"
proof -
  have "text_ok (p @ concat (map (\<lambda>x. '' '' @ Itoa x) (x # xs)))" if "LF \<notin> set p" "num_ok x" "list_all num_ok xs" for p x xs
    using that
  proof (induction xs arbitrary: p x)
    case (Cons y ys)
    from Cons.IH [of "p @ '' '' @ Itoa x" y] Cons.prems show ?case by (simp add: num_no_LF)
  qed (simp add: text_ok_sep num_text)
  from this [of "Itoa (r_Interval r) @ '' '' @ Itoa (r_Duration r)" "hd (r_Offsets r)" "tl (r_Offsets r)"] assms
  show ?thesis by (cases "r_Offsets r") (simp_all add: repeat_line_def repeat_ok_def num_no_LF)
qed

lemma media_text_ok:
  assumes "media_ok md"
  shows "text_ok (media_text md)"
proof -
  have "LF \<notin> set (m_Type md @ '' '' @ Itoa (m_Port md) @ (if m_PortCount md > 1 then ''/'' @ Itoa (m_PortCount md) else []) @ '' '' @ m_Proto md)"
    using assms num_no_LF [of "m_Port md"] num_no_LF [of "m_PortCount md"]
    by (auto simp: media_ok_def word_no_LF num_ok_def)
  from text_ok_sep(1) [OF this, of "Join (m_Fmt md) '' ''"] assms show ?thesis
    by (simp add: media_text_def media_ok_def)
qed

lemma lines_ok_parts:
  "opt_all connection_ok c \<Longrightarrow> list_all line_ok (connection_lines c)"
  "opt_all (\<lambda>k. keyed_ok (k_Method k) (k_Key k)) k \<Longrightarrow> list_all line_ok (encryption_lines k)"
  "list_all bandwidth_ok bs \<Longrightarrow> list_all line_ok (map bandwidth_line bs)"
  "list_all (\<lambda>a. keyed_ok (a_Key a) (a_Value a)) as \<Longrightarrow> list_all line_ok (map attribute_line as)"
  "v = [] \<or> text_ok v \<Longrightarrow> graphic ch \<Longrightarrow> list_all line_ok (text_lines ch v)"
  "list_all text_ok vs \<Longrightarrow> graphic ch \<Longrightarrow> list_all line_ok (map (Pair ch) vs)"
proof -
  have g: "graphic (CHR ''c'')" "graphic (CHR ''k'')" "graphic (CHR ''b'')" "graphic (CHR ''a'')" by (simp_all add: graphic_def)
  show "opt_all connection_ok c \<Longrightarrow> list_all line_ok (connection_lines c)"
    "opt_all (\<lambda>k. keyed_ok (k_Method k) (k_Key k)) k \<Longrightarrow> list_all line_ok (encryption_lines k)"
    using g by (auto simp: connection_lines_def encryption_lines_def line_ok_def connection_text_ok keyed_text split: option.split)
  show "list_all bandwidth_ok bs \<Longrightarrow> list_all line_ok (map bandwidth_line bs)"
    using g bandwidth_text_ok by (auto simp: list_all_iff line_ok_def) (auto simp: bandwidth_line_def)
  show "list_all (\<lambda>a. keyed_ok (a_Key a) (a_Value a)) as \<Longrightarrow> list_all line_ok (map attribute_line as)"
    using g by (auto simp: list_all_iff line_ok_def attribute_line_def keyed_text)
  show "v = [] \<or> text_ok v \<Longrightarrow> graphic ch \<Longrightarrow> list_all line_ok (text_lines ch v)"
    "list_all text_ok vs \<Longrightarrow> graphic ch \<Longrightarrow> list_all line_ok (map (Pair ch) vs)"
    by (auto simp: text_lines_def line_ok_def list_all_iff)
qed

lemma time_lines_ok: "time_ok t \<Longrightarrow> list_all line_ok (time_lines t)"
  using repeat_text_ok
  by (auto simp: time_lines_def time_ok_def line_ok_def list_all_iff graphic_def text_ok_sep num_text num_no_LF)
    (simp_all add: repeat_line_def)

lemma media_lines_ok: "media_ok md \<Longrightarrow> list_all line_ok (media_lines md)"
  by (auto simp: media_lines_def lines_ok_parts media_text_ok media_ok_def line_ok_def graphic_def)

lemma sdp_lines_ok:
  assumes "sdp_ok s"
  shows "list_all line_ok (sdp_lines s)"
proof -
  have "list_all line_ok (concat (map media_lines (s_MediaDescs s)))" "list_all line_ok (concat (map time_lines (s_Times s)))"
    using assms media_lines_ok time_lines_ok by (auto simp: sdp_ok_def list_all_iff)
  then show ?thesis using assms
    by (simp add: sdp_lines_def session_lines_def lines_ok_parts sdp_ok_def line_ok_def graphic_def origin_text_ok text_ok_Itoa)
qed

lemma UnmarshalSDP_text:
  assumes "sdp_ok s"
  shows "UnmarshalSDP (sdp_text s) = Ok s"
proof -
  have "sdp_lines s \<noteq> []" by (simp add: sdp_lines_def session_lines_def)
  then have "unmarshal_sdp_lines (sdp_text s) (zero_SDP, False) False = Ok (s, True)"
    using sdp_lines_ok [OF assms] unfolding sdp_text_def
    by (simp add: unmarshal_first_text [where seen = False] unmarshal_lines_text sdp_steps_all assms)
  then show ?thesis using assms
    by (simp add: UnmarshalSDP_def sdp_ok_def origin_ok_def word_ok_def text_ok_def)
qed

lemma sdp_ok_nonneg: "sdp_ok s \<Longrightarrow> sdp_nonneg s"
  by (auto simp: sdp_ok_def sdp_nonneg_def list_all_iff bandwidth_ok_def time_ok_def repeat_ok_def times_nonneg_def
      media_ok_def media_nonneg_def num_ok_def)

lemma SDP_Marshal_text: "sdp_nonneg s \<Longrightarrow> SDP_Marshal s = Ok (sdp_text s)"
  by (simp add: SDP_Marshal_def SDP_marshalTo_def length_sdp_text emits_run [OF emits_sdp])

interpretation sdp: wire_codec sdp_ok SDP_Marshal UnmarshalSDP "\<lambda>s. s"
  by unfold_locales (simp_all add: SDP_Marshal_text sdp_ok_nonneg UnmarshalSDP_text)

section \<open>The parser never panics\<close>

lemma unmarshal_offsets_total: "unmarshal_offsets rest acc \<noteq> Panic"
proof (induction rest acc rule: unmarshal_offsets.induct)
  case (1 rest acc)
  then show ?case by (subst unmarshal_offsets.simps) (auto split: option.split prod.split)
qed

lemma IndexByte_less: "IndexByte s b = Some i \<Longrightarrow> i < length s"
  by (induction s arbitrary: i) (auto split: if_splits)

lemma unmarshal_port_total: "unmarshal_port v p \<noteq> Panic"
  by (auto simp: unmarshal_port_def go_simps split: option.split dest: IndexByte_less)

lemma unmarshal_fields_total:
  "unmarshalOrigin v \<noteq> Panic" "unmarshalConnection v \<noteq> Panic" "unmarshalBandwidth v \<noteq> Panic" "unmarshalTime v \<noteq> Panic"
  "unmarshalRepeat v \<noteq> Panic" "unmarshalMedia v \<noteq> Panic"
  by (auto simp: unmarshalOrigin_def unmarshalConnection_def unmarshalBandwidth_def unmarshalTime_def unmarshalRepeat_def
      unmarshalMedia_def go_simps unmarshal_port_total unmarshal_offsets_total Let_def split: prod.split option.split)

lemma unmarshalMediaLine_total: "unmarshalMediaLine md c v \<noteq> Panic"
  by (simp add: unmarshalMediaLine_def go_simps unmarshal_fields_total)

lemma unmarshalSessionLine_total: "unmarshalSessionLine s c v \<noteq> Panic"
  by (simp add: unmarshalSessionLine_def go_simps unmarshal_fields_total)

lemma unmarshal_sdp_line_total: "unmarshal_sdp_line c v st \<noteq> Panic"
proof (cases st)
  case (Pair s seen)
  then show ?thesis
    using unmarshal_fields_total(6) [of v] unmarshalMediaLine_total unmarshalSessionLine_total
    by (auto simp: unmarshal_sdp_line_def go_simps Suc_le_eq simp flip: length_greater_0_conv split: option.split)
qed

lemma unmarshal_sdp_lines_total: "unmarshal_sdp_lines r st seen \<noteq> Panic"
proof (induction r st seen rule: unmarshal_sdp_lines.induct)
  case (1 r st seen)
  then show ?case
    by (subst unmarshal_sdp_lines.simps)
      (auto simp: Let_def unmarshal_sdp_line_total go_simps split: option.split prod.split)
qed

section \<open>Properties\<close>

text \<open>
  C19. Round trip: a well-formed session description is serialised to exactly the announced number of
  bytes, and parsing them gives the same description, with all session-level fields, repeat times and media
  descriptions.
\<close>
theorem sdp_roundtrip:
  assumes "sdp_ok s"
  shows "\<exists>t. SDP_Marshal s = Ok t \<and> length t = SDP_MarshalSize s \<and> UnmarshalSDP t = Ok s"
  using sdp_ok_nonneg [OF assms] by (simp add: SDP_Marshal_text length_sdp_text UnmarshalSDP_text assms)

definition sample_sdp :: SDP where
  "sample_sdp = zero_SDP\<lparr>
     s_Origin := \<lparr>o_Username = ''-'', o_SessionID = ''1'', o_SessionVersion = ''2'', o_NetworkType = ''IN'',
        o_AddressType = ''IP4'', o_Address = ''10.0.0.1''\<rparr>,
     s_SessionName := ''trecs call'',
     s_Connection := Some \<lparr>c_NetworkType = ''IN'', c_AddressType = ''IP4'', c_Address = ''10.0.0.1''\<rparr>,
     s_Times := [\<lparr>t_Repeats = [\<lparr>r_Offsets = [0, 90], r_Interval = 7, r_Duration = 3\<rparr>], t_Start = 0, t_Stop = 0\<rparr>],
     s_MediaDescs := [\<lparr>m_Connection = None, m_Encryption = None, m_Type = ''audio'', m_Proto = ''RTP/AVP'', m_Title = '''',
        m_Fmt = [''0'', ''8''], m_Bandwidths = [\<lparr>bw_Type = ''AS'', bw_Value = 64\<rparr>],
        m_Attributes = [\<lparr>a_Key = ''rtpmap'', a_Value = ''8 PCMA/8000''\<rparr>, \<lparr>a_Key = ''sendrecv'', a_Value = ''''\<rparr>],
        m_Port = 40000, m_PortCount = 1\<rparr>]\<rparr>"

lemma sample_sdp_ok: "sdp_ok sample_sdp"
  by (simp add: sample_sdp_def zero_SDP_def sdp_ok_def origin_ok_def connection_ok_def time_ok_def repeat_ok_def
      media_ok_def bandwidth_ok_def keyed_ok_def num_ok_def word_ok_def text_ok_graphic TrimSpace_id graphic_def)

theorem sdp_roundtrip_witness:
  "\<exists>t. SDP_Marshal sample_sdp = Ok t \<and> length t = SDP_MarshalSize sample_sdp \<and> UnmarshalSDP t = Ok sample_sdp"
  by (rule sdp_roundtrip) (rule sample_sdp_ok)

text \<open>
  C31. The session-description parser is total: on every input it returns a description or an error.
\<close>
theorem UnmarshalSDP_total: "UnmarshalSDP r \<noteq> Panic"
  by (auto simp: UnmarshalSDP_def go_simps unmarshal_sdp_lines_total)

text \<open>
  C32. The serialiser is not: the parser accepts negative numbers, for which the size computation counts no
  digit, so that a description that was just parsed can overrun the buffer allocated for it.
\<close>
theorem sdp_negative_overrun:
  "\<exists>s. UnmarshalSDP (''v=0'' @ CRLF @ ''o=- 1 1 IN IP4 h'' @ CRLF @ ''s=x'' @ CRLF @ ''t=-1 0'' @ CRLF) = Ok s \<and> SDP_Marshal s = Panic"
proof (intro exI conjI)
  let ?x = "\<lparr>o_Username = ''-'', o_SessionID = ''1'', o_SessionVersion = ''1'', o_NetworkType = ''IN'',
        o_AddressType = ''IP4'', o_Address = ''h''\<rparr>"
  let ?s = "zero_SDP\<lparr>s_Origin := ?x, s_SessionName := ''x'', s_Times := [\<lparr>t_Repeats = [], t_Start = -1, t_Stop = 0\<rparr>]\<rparr>"
  let ?ls = "[(CHR ''v'', ''0''), (CHR ''o'', ''- 1 1 IN IP4 h''), (CHR ''s'', ''x''), (CHR ''t'', ''-1 0'')]"
  have ok: "list_all line_ok ?ls"
    by (simp add: line_ok_def text_ok_graphic graphic_def)
  have vals: "unmarshalOrigin ''- 1 1 IN IP4 h'' = Ok ?x" "Atoi (TrimSpace ''0'') = Some 0"
    "unmarshalTime ''-1 0'' = Ok \<lparr>t_Repeats = [], t_Start = -1, t_Stop = 0\<rparr>"
    by code_simp+
  have "unmarshal_sdp_lines (concat (map line_text ?ls)) (zero_SDP, False) False = Ok (?s, True)"
    using ok by (subst unmarshal_first_text, simp, simp, subst unmarshal_lines_text, simp)
      (simp add: unmarshal_sdp_line_def unmarshalSessionLine_def vals zero_SDP_def)
  then show "UnmarshalSDP (''v=0'' @ CRLF @ ''o=- 1 1 IN IP4 h'' @ CRLF @ ''s=x'' @ CRLF @ ''t=-1 0'' @ CRLF) = Ok ?s"
    by (simp add: UnmarshalSDP_def line_text_def zero_SDP_def)
  show "SDP_Marshal ?s = Panic"
    by (simp add: zero_SDP_def SDP_Marshal_def SDP_marshalTo_def marshal_sdp_def SDP_MarshalSize_def text_size_def
        connection_size_def time_size_def encryption_size_def intLen_def count_digits.simps writer_simps sdp_line_def
        marshal_text_def marshal_connection_def marshal_time_def marshal_encryption_def do_when_def Itoa_def
        nat_digits.simps digit_char_def write_at_def Let_def eval_nat_numeral)
qed

end
