(* ===== verification/URI.thy ===== *)
theory URI
  imports SIP_Message
begin

text \<open>
  URI helpers of \<^verbatim>\<open>internal/sip/uri.go\<close>, and from the standard library \<^verbatim>\<open>net.SplitHostPort\<close> and
  \<^verbatim>\<open>hex.EncodeToString\<close>.
\<close>

section \<open>URI strings\<close>

definition StripBrackets :: "string \<Rightarrow> string" where
  "StripBrackets s =
     (if s \<noteq> [] \<and> hd s = CHR ''<'' then
        (case IndexByte s (CHR ''>'') of Some closeIdx \<Rightarrow> take (closeIdx - 1) (drop 1 s) | None \<Rightarrow> s)
      else s)"

definition ExtractUser :: "string \<Rightarrow> string" where
  "ExtractUser uri = (case Cut (TrimPrefix uri ''sip:'') ''@'' of (user, _, found) \<Rightarrow> if found then user else '''')"

definition NormalizeAOR :: "string \<Rightarrow> string" where
  "NormalizeAOR uri = (case Cut uri ''@'' of (before, after, found) \<Rightarrow>
     if found then
       (case Cut after '':'' of (host, _, hasPort) \<Rightarrow> if hasPort then before @ ''@'' @ host else uri)
     else uri)"

definition uriHost :: "string \<Rightarrow> string" where
  "uriHost uri =
     (let uri = TrimPrefix uri ''sip:'';
          uri = (case LastIndexByte uri (CHR ''@'') of Some at \<Rightarrow> drop (at + 1) uri | None \<Rightarrow> uri)
      in case IndexByte uri (CHR '';'') of Some semi \<Rightarrow> take semi uri | None \<Rightarrow> uri)"

definition uriHostname :: "string \<Rightarrow> string" where
  "uriHostname uri =
     (let h = uriHost uri in case IndexByte h (CHR '':'') of Some colon \<Rightarrow> take colon h | None \<Rightarrow> h)"

definition StripURIParams :: "string \<Rightarrow> string" where
  "StripURIParams uri = (case IndexByte uri (CHR '';'') of Some semi \<Rightarrow> take semi uri | None \<Rightarrow> uri)"

text \<open>\<^verbatim>\<open>net.SplitHostPort\<close>; any error is \<open>None\<close>.\<close>

definition SplitHostPort :: "string \<Rightarrow> (string \<times> string) option" where
  "SplitHostPort hostport =
     (case LastIndexByte hostport (CHR '':'') of None \<Rightarrow> None
      | Some i \<Rightarrow>
          (case (if hd hostport = CHR ''['' then
               (case IndexByte hostport (CHR '']'') of None \<Rightarrow> None
                | Some e \<Rightarrow> if e + 1 = i then Some (take (e - 1) (drop 1 hostport), 1, e + 1) else None)
             else let host = take i hostport in
               if CHR '':'' \<in> set host then None else Some (host, 0, 0)) of
             None \<Rightarrow> None
           | Some (host, j, k) \<Rightarrow>
               if CHR ''['' \<in> set (drop j hostport) \<or> CHR '']'' \<in> set (drop k hostport) then None
               else Some (host, drop (i + 1) hostport)))"

text \<open>The case tables of package \<^verbatim>\<open>unicode\<close> beyond ASCII, a parameter.\<close>

record unicode_tables =
  uni_lower :: "nat \<Rightarrow> nat"
  uni_upper :: "nat \<Rightarrow> nat"

fun transport_param :: "unicode_tables \<Rightarrow> string list \<Rightarrow> string \<Rightarrow> string" where
  "transport_param uni [] transport = transport"
| "transport_param uni (p # ps) transport =
     (case Cut (TrimSpace p) ''='' of (k, v, ok) \<Rightarrow>
        transport_param uni ps (if ok \<and> EqualFold k ''transport'' then ToUpper (uni_upper uni) v else transport))"

definition extractSIPURI :: "unicode_tables \<Rightarrow> string \<Rightarrow> ('e, string \<times> int \<times> string) go" where
  "extractSIPURI uni contactURI =
     and_then (if HasPrefix (ToLower (uni_lower uni) contactURI) ''sip:''
               then slice contactURI 4 (length contactURI) else Ok contactURI) (\<lambda>uri.
     let (uri, params) = (case IndexByte uri (CHR '';'') of
            Some semi \<Rightarrow> (take semi uri, drop (semi + 1) uri) | None \<Rightarrow> (uri, ''''));
         transport = (if params \<noteq> [] then transport_param uni (Split params (CHR '';'')) ''UDP'' else ''UDP'');
         uri = (case IndexByte uri (CHR ''@'') of Some at \<Rightarrow> drop (at + 1) uri | None \<Rightarrow> uri)
     in case SplitHostPort uri of
          None \<Rightarrow> Ok (uri, 5060, transport)
        | Some (h, p) \<Rightarrow> Ok (h, case Atoi p of Some pn \<Rightarrow> pn | None \<Rightarrow> 5060, transport))"

section \<open>Hexadecimal\<close>

definition hex_digit :: "nat \<Rightarrow> char" where
  "hex_digit d = (if d < 10 then char_of (48 + d) else char_of (87 + d))"

definition hex_EncodeToString :: "string \<Rightarrow> string" where
  "hex_EncodeToString s = concat (map (\<lambda>c. [hex_digit (code c div 16), hex_digit (code c mod 16)]) s)"

text \<open>\<^verbatim>\<open>GenerateTag\<close> with the random bytes as an argument; \<open>None\<close> when the random source fails.\<close>

definition GenerateTag :: "string option \<Rightarrow> string" where
  "GenerateTag rnd = (case rnd of Some b \<Rightarrow> hex_EncodeToString b | None \<Rightarrow> ''trec'')"

fun hex_digits :: "nat \<Rightarrow> string" where
  "hex_digits n = (if n < 16 then [hex_digit n] else hex_digits (n div 16) @ [hex_digit (n mod 16)])"

declare hex_digits.simps [simp del]

text \<open>The verb \<^verbatim>\<open>%08x\<close>.\<close>

definition sprintf_08x :: "u64 \<Rightarrow> string" where
  "sprintf_08x n = (let s = hex_digits (unat n) in replicate (8 - length s) (CHR ''0'') @ s)"

definition hex_val :: "char \<Rightarrow> nat option" where
  "hex_val c = (if is_digit c then Some (code c - 48)
     else if 97 \<le> code c \<and> code c \<le> 102 then Some (code c - 87)
     else if 65 \<le> code c \<and> code c \<le> 70 then Some (code c - 55) else None)"

text \<open>\<^verbatim>\<open>strconv.ParseUint(s, 16, 64)\<close>.\<close>

definition ParseUint16_64 :: "string \<Rightarrow> u64 option" where
  "ParseUint16_64 s =
     (if s = [] \<or> \<not> list_all (\<lambda>c. hex_val c \<noteq> None) s then None
      else let n = foldl (\<lambda>n c. 16 * n + the (hex_val c)) 0 s in
        if n < 2 ^ 64 then Some (of_nat n) else None)"

section \<open>Lemmas\<close>

lemma Cut_False: "Cut s [b] = (k, v, False) \<Longrightarrow> b \<notin> set s \<and> k = s"
  by (auto simp: Cut_def Index_None_byte split: option.splits)

lemma NormalizeAOR_idem: "NormalizeAOR (NormalizeAOR uri) = NormalizeAOR uri"
proof -
  obtain b a f where c: "Cut uri ''@'' = (b, a, f)" by (cases "Cut uri ''@''") auto
  show ?thesis
  proof (cases f)
    case False
    with c show ?thesis by (simp add: NormalizeAOR_def)
  next
    case True
    with c have ba: "CHR ''@'' \<notin> set b" by (auto elim: Cut_TrueE)
    obtain h p g where cp: "Cut a '':'' = (h, p, g)" by (cases "Cut a '':''") auto
    show ?thesis
    proof (cases g)
      case True
      with cp have "CHR '':'' \<notin> set h" by (auto elim: Cut_TrueE)
      then show ?thesis using ba c cp True \<open>f\<close> by (simp add: NormalizeAOR_def Cut_byte Cut_no_byte)
    next
      case False
      then show ?thesis using c cp \<open>f\<close> by (simp add: NormalizeAOR_def)
    qed
  qed
qed

end
