(* ===== verification/Transport.thy ===== *)
theory Transport
  imports URI
begin

text \<open>
  Addresses, connections and transports: \<^verbatim>\<open>internal/sip/transport.go\<close> without its sockets, and
  \<^verbatim>\<open>internal/sip/flow.go\<close>.  An IP address is represented by its printed form.
\<close>

section \<open>Addresses and targets\<close>

text \<open>The two kinds of \<^verbatim>\<open>net.Addr\<close> that occur, and \<^verbatim>\<open>net.JoinHostPort\<close>, which \<^verbatim>\<open>String\<close> uses.\<close>

datatype net_addr = UDPAddr string int | TCPAddr string int

definition JoinHostPort :: "string \<Rightarrow> string \<Rightarrow> string" where
  "JoinHostPort host port =
     (if CHR '':'' \<in> set host then ''['' @ host @ '']:'' @ port else host @ '':'' @ port)"

fun net_addr_String :: "net_addr \<Rightarrow> string" where
  "net_addr_String (UDPAddr ip port) = JoinHostPort ip (Itoa port)"
| "net_addr_String (TCPAddr ip port) = JoinHostPort ip (Itoa port)"

record net_conn =
  conn_id :: nat
  conn_LocalAddr :: net_addr
  conn_RemoteAddr :: net_addr

record Target =
  tgt_Addr :: "net_addr option"
  tgt_Conn :: "net_conn option"
  tgt_FlowID :: string

datatype transport_kind = UDPTransport | TCPTransport | OtherTransport

fun TransportName :: "transport_kind \<Rightarrow> string" where
  "TransportName TCPTransport = ''TCP''"
| "TransportName UDPTransport = ''UDP''"
| "TransportName OtherTransport = ''?''"

record MessageEvent =
  ev_Msg :: SIPMessage
  ev_Target :: Target

section \<open>Sending\<close>

text \<open>What \<^verbatim>\<open>Send\<close> hands to the socket: the destination and the bytes.  Errors of the socket itself are not modelled.\<close>

datatype send_error =
    SendMarshal sip_error
  | SendTooLarge nat
  | SendInvalidAddr

definition marshal_for_send :: "SIPMessage \<Rightarrow> (send_error, string) go" where
  "marshal_for_send msg = (case SIPMessage_Marshal msg of
     Ok data \<Rightarrow> Ok data | Fail e \<Rightarrow> Fail (SendMarshal e) | Panic \<Rightarrow> Panic)"

definition UDPTransport_Send :: "SIPMessage \<Rightarrow> Target \<Rightarrow> (send_error, net_addr \<times> string) go" where
  "UDPTransport_Send msg target =
     and_then (marshal_for_send msg) (\<lambda>data.
       if 1300 < length data then Fail (SendTooLarge (length data))
       else case tgt_Addr target of
         Some (UDPAddr ip port) \<Rightarrow> Ok (UDPAddr ip port, data)
       | _ \<Rightarrow> Fail SendInvalidAddr)"

definition TCPTransport_Send :: "SIPMessage \<Rightarrow> Target \<Rightarrow> (send_error, net_conn \<times> string) go" where
  "TCPTransport_Send msg target =
     and_then (marshal_for_send msg) (\<lambda>data.
       case tgt_Conn target of None \<Rightarrow> Fail SendInvalidAddr | Some conn \<Rightarrow> Ok (conn, data))"

text \<open>
  \<^verbatim>\<open>TargetFromContact\<close>: dialling a TCP connection and resolving a UDP address are arguments; \<open>None\<close> is
  their error.
\<close>

definition TargetFromContact ::
  "unicode_tables \<Rightarrow> (string \<Rightarrow> net_conn option) \<Rightarrow> (string \<Rightarrow> net_addr option) \<Rightarrow> string
   \<Rightarrow> ('e, (Target \<times> string) option) go" where
  "TargetFromContact uni dial resolve contactURI =
     and_then (extractSIPURI uni contactURI) (\<lambda>(host, port, transport).
       let addr = JoinHostPort host (Itoa port) in
       if transport = ''TCP'' then
         Ok (case dial addr of None \<Rightarrow> None
             | Some conn \<Rightarrow> Some (\<lparr>tgt_Addr = None, tgt_Conn = Some conn, tgt_FlowID = []\<rparr>, ''TCP''))
       else
         Ok (case resolve addr of None \<Rightarrow> None
             | Some udpAddr \<Rightarrow> Some (\<lparr>tgt_Addr = Some udpAddr, tgt_Conn = None, tgt_FlowID = []\<rparr>, ''UDP'')))"

section \<open>Keepalives on a stream\<close>

text \<open>
  \<^verbatim>\<open>drainCRLFKeepalive\<close> on the bytes that arrive before the read deadline.  \<open>eof\<close> tells how the input then
  ends: a network error such as the deadline (\<open>False\<close>), after which reading can go on, or the end of the
  stream (\<open>True\<close>).  The result is the number of pongs written, and the unread bytes or \<open>None\<close> for an error.
\<close>

fun drainCRLFKeepalive :: "string \<Rightarrow> bool \<Rightarrow> nat \<Rightarrow> nat \<times> string option" where
  "drainCRLFKeepalive [] eof pongs = (pongs, if eof then None else Some [])"
| "drainCRLFKeepalive [b] eof pongs =
     (pongs, if b \<noteq> CR then Some [b] else if eof then None else Some [CR])"
| "drainCRLFKeepalive [b, next] eof pongs =
     (pongs, if b \<noteq> CR then Some [b, next] else if next \<noteq> LF then Some []
        else if eof then None else Some [LF])"
| "drainCRLFKeepalive [b, next, b2] eof pongs =
     (pongs, if b \<noteq> CR then Some [b, next, b2] else if next \<noteq> LF then Some [b2]
        else if b2 \<noteq> CR then Some [b2] else if eof then None else Some [CR])"
| "drainCRLFKeepalive (b # next # b2 # next2 # rest) eof pongs =
     (if b \<noteq> CR then (pongs, Some (b # next # b2 # next2 # rest))
      else if next \<noteq> LF then (pongs, Some (b2 # next2 # rest))
      else if b2 \<noteq> CR then (pongs, Some (b2 # next2 # rest))
      else if next2 \<noteq> LF then (pongs, Some rest)
      else drainCRLFKeepalive rest eof (pongs + 1))"

section \<open>Flows\<close>

record FlowKey =
  fk_SourceIP :: string
  fk_DestIP :: string
  fk_Transport :: string
  fk_SourcePort :: int
  fk_DestPort :: int

definition FlowKeyFromConn :: "net_conn \<Rightarrow> FlowKey" where
  "FlowKeyFromConn conn =
     (let key = \<lparr>fk_SourceIP = [], fk_DestIP = [], fk_Transport = ''TCP'', fk_SourcePort = 0, fk_DestPort = 0\<rparr>;
          key = (case conn_RemoteAddr conn of TCPAddr ip port \<Rightarrow> key\<lparr>fk_SourceIP := ip, fk_SourcePort := port\<rparr> | _ \<Rightarrow> key);
          key = (case conn_LocalAddr conn of TCPAddr ip port \<Rightarrow> key\<lparr>fk_DestIP := ip, fk_DestPort := port\<rparr> | _ \<Rightarrow> key)
      in key)"

definition FlowKey_String :: "FlowKey \<Rightarrow> string" where
  "FlowKey_String k = fk_Transport k @ '':'' @ fk_SourceIP k @ '':'' @ Itoa (fk_SourcePort k)
     @ map char_of [0xE2, 0x86, 0x92 :: nat] @ fk_DestIP k @ '':'' @ Itoa (fk_DestPort k)"

record FlowConn =
  fc_LastUsed :: int
  fc_Conn :: net_conn
  fc_Key :: FlowKey

text \<open>The pool; its callback is a flag here, and what it does is the business of the caller.\<close>

record FlowPool =
  fp_flows :: "(string, FlowConn) fmap"
  fp_onDead :: bool

definition NewFlowPool :: "bool \<Rightarrow> FlowPool" where
  "NewFlowPool onDead = \<lparr>fp_flows = fmempty, fp_onDead = onDead\<rparr>"

definition FlowPool_Register :: "FlowPool \<Rightarrow> int \<Rightarrow> net_conn \<Rightarrow> FlowPool \<times> FlowConn" where
  "FlowPool_Register p now conn =
     (let key = FlowKeyFromConn conn;
          fc = \<lparr>fc_LastUsed = now, fc_Conn = conn, fc_Key = key\<rparr>
      in (p\<lparr>fp_flows := fmupd (FlowKey_String key) fc (fp_flows p)\<rparr>, fc))"

definition FlowPool_Unregister :: "FlowPool \<Rightarrow> FlowKey \<Rightarrow> FlowPool" where
  "FlowPool_Unregister p key = p\<lparr>fp_flows := fmdrop (FlowKey_String key) (fp_flows p)\<rparr>"

definition FlowPool_Get :: "FlowPool \<Rightarrow> FlowKey \<Rightarrow> FlowConn option" where
  "FlowPool_Get p key = fmlookup (fp_flows p) (FlowKey_String key)"

definition FlowPool_GetByFlowID :: "FlowPool \<Rightarrow> string \<Rightarrow> FlowConn option" where
  "FlowPool_GetByFlowID p flowID = fmlookup (fp_flows p) flowID"

text \<open>\<^verbatim>\<open>GetByAddr\<close> ranges over the map; \<open>order\<close> is the order in which the iteration visits the flows.\<close>

fun FlowPool_GetByAddr :: "FlowPool \<Rightarrow> string list \<Rightarrow> string \<Rightarrow> int \<Rightarrow> ('e, FlowConn option) go" where
  "FlowPool_GetByAddr p [] host port = Ok None"
| "FlowPool_GetByAddr p (flowID # order) host port = (case fmlookup (fp_flows p) flowID of
     None \<Rightarrow> FlowPool_GetByAddr p order host port
   | Some fc \<Rightarrow> (case conn_RemoteAddr (fc_Conn fc) of
       TCPAddr ip rport \<Rightarrow> if ip = host \<and> rport = port then Ok (Some fc) else FlowPool_GetByAddr p order host port
     | UDPAddr _ _ \<Rightarrow> Panic))"

definition FlowPool_Len :: "FlowPool \<Rightarrow> nat" where
  "FlowPool_Len p = fcard (fmdom (fp_flows p))"

definition FlowPool_SetOnDead :: "FlowPool \<Rightarrow> bool \<Rightarrow> FlowPool" where
  "FlowPool_SetOnDead p fn = p\<lparr>fp_onDead := fn\<rparr>"

text \<open>\<^verbatim>\<open>RemoveDead\<close> returns whether the callback is called for the flow.\<close>

definition FlowPool_RemoveDead :: "FlowPool \<Rightarrow> string \<Rightarrow> FlowPool \<times> bool" where
  "FlowPool_RemoveDead p flowID =
     (p\<lparr>fp_flows := fmdrop flowID (fp_flows p)\<rparr>, fmlookup (fp_flows p) flowID \<noteq> None \<and> fp_onDead p)"

section \<open>Properties\<close>

lemma drain_ready: "s = [] \<or> hd s \<noteq> CR \<Longrightarrow> s \<noteq> [] \<or> \<not> eof \<Longrightarrow> drainCRLFKeepalive s eof pongs = (pongs, Some s)"
  by (cases "(s, eof, pongs)" rule: drainCRLFKeepalive.cases) auto

definition keepalive_ping :: string where "keepalive_ping = [CR, LF, CR, LF]"

text \<open>
  Keepalives in front of a message are all answered and leave the message untouched: after \<open>n\<close> double
  CRLFs the reader has written \<open>n\<close> pongs and stands at the first byte of the message, or has nothing left and waits.
\<close>

theorem keepalives_drained:
  assumes "msg = [] \<or> hd msg \<noteq> CR" and "msg \<noteq> [] \<or> \<not> eof"
  shows "drainCRLFKeepalive (concat (replicate n keepalive_ping) @ msg) eof pongs = (pongs + n, Some msg)"
proof (induction n arbitrary: pongs)
  case 0
  show ?case using assms by (simp add: drain_ready)
next
  case (Suc n)
  show ?case using Suc [of "pongs + 1"] by (simp add: keepalive_ping_def)
qed

theorem keepalives_drained_witness:
  "drainCRLFKeepalive (concat (replicate 2 keepalive_ping) @ ''OPTIONS'') False 0 = (2, Some ''OPTIONS'')"
  using keepalives_drained [of "''OPTIONS''" False 2 0] by simp

text \<open>
  A single CRLF, the answer to a ping of the server, breaks the stream: when nothing follows it before the read
  deadline, only its second byte is put back, and whatever arrives later is then rejected as a message.
\<close>

theorem single_crlf_breaks_stream:
  "drainCRLFKeepalive [CR, LF] False 0 = (0, Some [LF]) \<and> (\<exists>e. UnmarshalSIP (LF # later) = Fail e)"
  by (simp add: UnmarshalSIP_def unmarshalSIP_def readLine_def TrimSuffix_def HasSuffix_def unmarshalStartLine_def Cut_def)

section \<open>Identity of flows\<close>

lemma split_at_unique:
  "xs @ a # ys = xs' @ a # ys' \<Longrightarrow> a \<notin> set xs \<Longrightarrow> a \<notin> set xs' \<Longrightarrow> xs = xs' \<and> ys = ys'"
proof (induction xs arbitrary: xs')
  case Nil
  then show ?case by (cases xs') auto
next
  case (Cons x xs)
  then show ?case by (cases xs') auto
qed

lemma split_at_last:
  assumes "xs @ a # ys = xs' @ a # ys'" and "a \<notin> set ys" and "a \<notin> set ys'"
  shows "xs = xs' \<and> ys = ys'"
  using split_at_unique [of "rev ys" a "rev xs" "rev ys'" "rev xs'"] arg_cong [OF assms(1), of rev] assms(2,3) by simp

lemma Itoa_inject: "0 \<le> m \<Longrightarrow> 0 \<le> n \<Longrightarrow> Itoa m = Itoa n \<Longrightarrow> m = n"
proof -
  assume "0 \<le> m" "0 \<le> n" and "Itoa m = Itoa n"
  then have "digits_val (nat_digits (nat m)) = digits_val (nat_digits (nat n))" by (simp add: Itoa_def)
  then show "m = n" using \<open>0 \<le> m\<close> \<open>0 \<le> n\<close> by (simp add: nat_digits_ok)
qed

text \<open>The keys of TCP connections: printable addresses and non-negative ports.\<close>

definition tcp_key :: "FlowKey \<Rightarrow> bool" where
  "tcp_key k \<longleftrightarrow> fk_Transport k = ''TCP'' \<and> 0 \<le> fk_SourcePort k \<and> 0 \<le> fk_DestPort k
     \<and> ascii_string (fk_SourceIP k) \<and> ascii_string (fk_DestIP k)"

lemma host_port_inject:
  assumes "ip @ CHR '':'' # Itoa p = ip' @ CHR '':'' # Itoa p'" and "0 \<le> p" "0 \<le> p'"
  shows "ip = ip' \<and> p = p'"
proof -
  have "CHR '':'' \<notin> set (Itoa p)" "CHR '':'' \<notin> set (Itoa p')"
    using Itoa_chars [of p "CHR '':''"] Itoa_chars [of p' "CHR '':''"] assms(2,3) by (auto simp: is_digit_def)
  from split_at_last [OF assms(1) this] show ?thesis using assms(2,3) by (auto dest: Itoa_inject)
qed

text \<open>
  Two TCP connections have the same flow ID only if they have the same address and port at both ends, for
  IPv6 addresses too.
\<close>

theorem FlowKey_String_injective:
  assumes "tcp_key k" and "tcp_key k'" and "FlowKey_String k = FlowKey_String k'"
  shows "k = k'"
proof -
  let ?s = "\<lambda>k. fk_SourceIP k @ CHR '':'' # Itoa (fk_SourcePort k)"
  let ?d = "\<lambda>k. fk_DestIP k @ CHR '':'' # Itoa (fk_DestPort k)"
  have e2: "char_of (0xE2 :: nat) \<notin> set (?s k)" if "tcp_key k" for k
  proof -
    have "c \<in> set (?s k) \<Longrightarrow> code c < 128" for c
      using that Itoa_chars [of "fk_SourcePort k" c] by (auto simp: tcp_key_def ascii_string_def list_all_iff is_digit_def)
    from this [of "char_of (0xE2 :: nat)"] show ?thesis by auto
  qed
  have "?s k @ char_of (0xE2 :: nat) # char_of (0x86 :: nat) # char_of (0x92 :: nat) # ?d k
      = ?s k' @ char_of (0xE2 :: nat) # char_of (0x86 :: nat) # char_of (0x92 :: nat) # ?d k'"
    using assms by (simp add: FlowKey_String_def tcp_key_def)
  from split_at_unique [OF this e2 [OF assms(1)] e2 [OF assms(2)]] have "?s k = ?s k'" "?d k = ?d k'" by simp_all
  then have "fk_SourceIP k = fk_SourceIP k' \<and> fk_SourcePort k = fk_SourcePort k'"
    "fk_DestIP k = fk_DestIP k' \<and> fk_DestPort k = fk_DestPort k'"
    using assms(1,2) by (auto simp only: tcp_key_def dest: host_port_inject)
  moreover have "fk_Transport k = fk_Transport k'" using assms(1,2) by (simp add: tcp_key_def)
  ultimately show ?thesis by (intro FlowKey.equality) simp_all
qed

definition sample_flow_key :: FlowKey where
  "sample_flow_key = \<lparr>fk_SourceIP = ''2001:db8::1'', fk_DestIP = ''::1'', fk_Transport = ''TCP'',
     fk_SourcePort = 40000, fk_DestPort = 5060\<rparr>"

theorem FlowKey_String_injective_witness:
  "FlowKey_String sample_flow_key \<noteq> FlowKey_String (sample_flow_key\<lparr>fk_SourceIP := ''2001:db8:'', fk_SourcePort := 40001\<rparr>)"
  using FlowKey_String_injective [of sample_flow_key "sample_flow_key\<lparr>fk_SourceIP := ''2001:db8:'', fk_SourcePort := 40001\<rparr>"]
  by (auto simp: sample_flow_key_def tcp_key_def ascii_string_def)

section \<open>The flow pool\<close>

definition pool_ok :: "FlowPool \<Rightarrow> bool" where
  "pool_ok p \<longleftrightarrow> fmpred (\<lambda>flowID fc. fc_Key fc = FlowKeyFromConn (fc_Conn fc) \<and> flowID = FlowKey_String (fc_Key fc)) (fp_flows p)"

lemma pool_ok_init: "pool_ok (NewFlowPool onDead)"
  by (simp add: pool_ok_def NewFlowPool_def)

lemma pool_ok_Register: "pool_ok p \<Longrightarrow> pool_ok (fst (FlowPool_Register p now conn))"
  by (simp add: pool_ok_def FlowPool_Register_def Let_def fmpred_upd)

lemma pool_ok_drop:
  "pool_ok p \<Longrightarrow> pool_ok (FlowPool_Unregister p key)"
  "pool_ok p \<Longrightarrow> pool_ok (fst (FlowPool_RemoveDead p flowID))"
  by (simp_all add: pool_ok_def FlowPool_Unregister_def FlowPool_RemoveDead_def fmpred_drop)

end
