(* ===== verification/Transaction.thy ===== *)
theory Transaction
  imports Transport
begin

text \<open>
  Server transactions: \<^verbatim>\<open>internal/sip/transaction.go\<close>.  Transactions live on a heap and are shared between the
  branch table, the handlers that answer them and the callbacks of their timers.  Each critical section is one
  function on the state of the manager; the order of the sections is left open and is the subject of the
  step relation at the end.  \<^verbatim>\<open>HandleRequest\<close> looks a branch up and files a new transaction in two sections; they are taken
  together here, since each transport has one dispatch loop that handles one message at a time.  A sent message is a record of the call of \<^verbatim>\<open>Transport.Send\<close>, whose error is only logged.
\<close>

section \<open>State\<close>

definition T1 :: int where "T1 = 500000000"
definition T2 :: int where "T2 = 4000000000"
definition T4 :: int where "T4 = 5000000000"

datatype NISTState = NISTTrying | NISTProceeding | NISTCompleted | NISTTerminated

datatype ISTState = ISTTrying | ISTProceeding | ISTCompleted | ISTConfirmed | ISTTerminated

fun NISTState_String :: "NISTState \<Rightarrow> string" where
  "NISTState_String NISTTrying = ''Trying''"
| "NISTState_String NISTProceeding = ''Proceeding''"
| "NISTState_String NISTCompleted = ''Completed''"
| "NISTState_String NISTTerminated = ''Terminated''"

fun ISTState_String :: "ISTState \<Rightarrow> string" where
  "ISTState_String ISTTrying = ''Trying''"
| "ISTState_String ISTProceeding = ''Proceeding''"
| "ISTState_String ISTCompleted = ''Completed''"
| "ISTState_String ISTConfirmed = ''Confirmed''"
| "ISTState_String ISTTerminated = ''Terminated''"

record NonInviteTransaction =
  nt_transport :: transport_kind
  nt_lastResp :: "SIPMessage option"
  nt_timerJ :: "nat option"
  nt_target :: Target
  nt_branch :: string
  nt_method :: SIPMethod
  nt_state :: NISTState
  nt_reliable :: bool
  nt_stopped :: bool

record InviteTransaction =
  it_transport :: transport_kind
  it_timerH :: "nat option"
  it_lastResp :: "SIPMessage option"
  it_cancelOKResp :: "SIPMessage option"
  it_timerG :: "nat option"
  it_timerI :: "nat option"
  it_target :: Target
  it_branch :: string
  it_state :: ISTState
  it_gCount :: nat
  it_reliable :: bool
  it_stopped :: bool

datatype server_tx = IST InviteTransaction | NIST NonInviteTransaction

datatype timer_kind = TimerG | TimerH | TimerI | TimerJ

text \<open>A pending callback: its transaction, what it does, the duration it was armed with, and whether it was stopped.\<close>

record tx_timer =
  tmr_tx :: nat
  tmr_kind :: timer_kind
  tmr_after :: int
  tmr_stopped :: bool

text \<open>
  Besides the branch table the state has the heap of transactions, the pending timers and, per expired timer, the
  branch that its callback has yet to delete from the table: it does that in a second critical section.
\<close>

record TransactionManager =
  tm_serverTxs :: "(string, nat) fmap"
  tm_txs :: "(nat, server_tx) fmap"
  tm_timers :: "(nat, tx_timer) fmap"
  tm_next :: nat
  tm_cleanups :: "string list"
  tm_sent :: "(transport_kind \<times> Target \<times> SIPMessage) list"

definition NewTransactionManager :: TransactionManager where
  "NewTransactionManager = \<lparr>tm_serverTxs = fmempty, tm_txs = fmempty, tm_timers = fmempty, tm_next = 0, tm_cleanups = [],
     tm_sent = []\<rparr>"

definition send_msg :: "transport_kind \<Rightarrow> Target \<Rightarrow> SIPMessage \<Rightarrow> TransactionManager \<Rightarrow> TransactionManager" where
  "send_msg tr target res tm = tm\<lparr>tm_sent := tm_sent tm @ [(tr, target, res)]\<rparr>"

definition put_tx :: "nat \<Rightarrow> server_tx \<Rightarrow> TransactionManager \<Rightarrow> TransactionManager" where
  "put_tx i t tm = tm\<lparr>tm_txs := fmupd i t (tm_txs tm)\<rparr>"

definition forget_branch :: "string \<Rightarrow> TransactionManager \<Rightarrow> TransactionManager" where
  "forget_branch branch tm = tm\<lparr>tm_serverTxs := fmdrop branch (tm_serverTxs tm)\<rparr>"

definition forget_later :: "string \<Rightarrow> TransactionManager \<Rightarrow> TransactionManager" where
  "forget_later branch tm = tm\<lparr>tm_cleanups := branch # tm_cleanups tm\<rparr>"

definition run_cleanup :: "string \<Rightarrow> TransactionManager \<Rightarrow> TransactionManager" where
  "run_cleanup branch tm = forget_branch branch (tm\<lparr>tm_cleanups := remove1 branch (tm_cleanups tm)\<rparr>)"

text \<open>\<^verbatim>\<open>time.AfterFunc\<close> and \<^verbatim>\<open>Timer.Stop\<close>.\<close>

definition AfterFunc :: "nat \<Rightarrow> timer_kind \<Rightarrow> int \<Rightarrow> TransactionManager \<Rightarrow> nat \<times> TransactionManager" where
  "AfterFunc i kind d tm =
     (tm_next tm, tm\<lparr>tm_timers := fmupd (tm_next tm) \<lparr>tmr_tx = i, tmr_kind = kind, tmr_after = d, tmr_stopped = False\<rparr> (tm_timers tm),
        tm_next := Suc (tm_next tm)\<rparr>)"

definition Timer_Stop :: "nat option \<Rightarrow> TransactionManager \<Rightarrow> TransactionManager" where
  "Timer_Stop k tm = (case k of None \<Rightarrow> tm
     | Some k \<Rightarrow> (case fmlookup (tm_timers tm) k of None \<Rightarrow> tm
        | Some t \<Rightarrow> tm\<lparr>tm_timers := fmupd k (t\<lparr>tmr_stopped := True\<rparr>) (tm_timers tm)\<rparr>))"

section \<open>Non-INVITE server transactions\<close>

definition NonInviteTransaction_Respond ::
  "nat \<Rightarrow> NonInviteTransaction \<Rightarrow> SIPMessage \<Rightarrow> TransactionManager \<Rightarrow> TransactionManager" where
  "NonInviteTransaction_Respond i tx res tm =
     (if nt_state tx = NISTTerminated then tm
      else let sc = SIPMessage_StatusCode res in
        if 100 \<le> sc \<and> sc < 200 then
          (let tx = (if nt_state tx = NISTTrying then tx\<lparr>nt_state := NISTProceeding\<rparr> else tx)
           in send_msg (nt_transport tx) (nt_target tx) res (put_tx i (NIST tx) tm))
        else if 200 \<le> sc then
          (let tx = tx\<lparr>nt_lastResp := Some res, nt_state := NISTCompleted\<rparr>;
               tm = send_msg (nt_transport tx) (nt_target tx) res tm;
               (k, tm) = AfterFunc i TimerJ (if nt_reliable tx then 0 else 64 * T1) tm
           in put_tx i (NIST (tx\<lparr>nt_timerJ := Some k\<rparr>)) tm)
        else tm)"

definition NonInviteTransaction_stopTimers ::
  "nat \<Rightarrow> NonInviteTransaction \<Rightarrow> TransactionManager \<Rightarrow> TransactionManager" where
  "NonInviteTransaction_stopTimers i tx tm =
     (if nt_timerJ tx \<noteq> None then put_tx i (NIST (tx\<lparr>nt_timerJ := None\<rparr>)) (Timer_Stop (nt_timerJ tx) tm) else tm)"

section \<open>INVITE server transactions\<close>

definition InviteTransaction_stopTimers :: "InviteTransaction \<Rightarrow> TransactionManager \<Rightarrow> TransactionManager" where
  "InviteTransaction_stopTimers tx tm = Timer_Stop (it_timerG tx) (Timer_Stop (it_timerI tx) (Timer_Stop (it_timerH tx) tm))"

text \<open>\<^verbatim>\<open>T1 << uint(n)\<close> on 64-bit integers, capped by \<^verbatim>\<open>T2\<close>.\<close>

definition backoff :: "nat \<Rightarrow> int" where
  "backoff n = (let interval = sint (push_bit n (word_of_int T1 :: 64 word)) in if interval > T2 then T2 else interval)"

definition scheduleTimerG :: "nat \<Rightarrow> InviteTransaction \<Rightarrow> TransactionManager \<Rightarrow> TransactionManager" where
  "scheduleTimerG i tx tm =
     (let (k, tm) = AfterFunc i TimerG (backoff (it_gCount tx)) tm in put_tx i (IST (tx\<lparr>it_timerG := Some k\<rparr>)) tm)"

definition startTimerG :: "nat \<Rightarrow> InviteTransaction \<Rightarrow> TransactionManager \<Rightarrow> TransactionManager" where
  "startTimerG i tx tm = scheduleTimerG i (tx\<lparr>it_gCount := 0\<rparr>) tm"

definition InviteTransaction_Respond ::
  "nat \<Rightarrow> InviteTransaction \<Rightarrow> SIPMessage \<Rightarrow> TransactionManager \<Rightarrow> TransactionManager" where
  "InviteTransaction_Respond i tx res tm =
     (if it_state tx = ISTTerminated \<or> it_state tx = ISTConfirmed then tm
      else let sc = SIPMessage_StatusCode res; early = (it_state tx = ISTTrying \<or> it_state tx = ISTProceeding) in
        if 100 \<le> sc \<and> sc < 200 then
          (if sc = 100 then (if early then send_msg (it_transport tx) (it_target tx) res tm else tm)
           else if early then
             send_msg (it_transport tx) (it_target tx) res (put_tx i (IST (tx\<lparr>it_state := ISTProceeding\<rparr>)) tm)
           else tm)
        else if 200 \<le> sc \<and> sc < 300 then
          forget_branch (it_branch tx)
            (send_msg (it_transport tx) (it_target tx) res (put_tx i (IST (tx\<lparr>it_state := ISTTerminated\<rparr>)) tm))
        else if 300 \<le> sc then
          (let tx = tx\<lparr>it_lastResp := Some res\<rparr> in
           if it_state tx \<noteq> ISTCompleted then
             (let tx = tx\<lparr>it_state := ISTCompleted\<rparr>;
                  tm = send_msg (it_transport tx) (it_target tx) res tm;
                  (k, tm) = AfterFunc i TimerH (64 * T1) tm;
                  tx = tx\<lparr>it_timerH := Some k\<rparr>
              in if \<not> it_reliable tx then startTimerG i tx tm else put_tx i (IST tx) tm)
           else put_tx i (IST tx) tm)
        else tm)"

definition ackReceived :: "nat \<Rightarrow> InviteTransaction \<Rightarrow> TransactionManager \<Rightarrow> TransactionManager" where
  "ackReceived i tx tm =
     (if it_state tx \<noteq> ISTCompleted then tm
      else
        let tx = tx\<lparr>it_state := ISTConfirmed\<rparr>; tm = InviteTransaction_stopTimers tx tm in
        if \<not> it_reliable tx then
          (let (k, tm) = AfterFunc i TimerI T4 tm in put_tx i (IST (tx\<lparr>it_timerI := Some k\<rparr>)) tm)
        else forget_branch (it_branch tx) (put_tx i (IST (tx\<lparr>it_state := ISTTerminated\<rparr>)) tm))"

text \<open>\<^verbatim>\<open>Transaction.Respond\<close> on whatever transaction a handler holds.\<close>

definition Respond :: "nat \<Rightarrow> SIPMessage \<Rightarrow> TransactionManager \<Rightarrow> TransactionManager" where
  "Respond i res tm = (case fmlookup (tm_txs tm) i of
     None \<Rightarrow> tm
   | Some (IST tx) \<Rightarrow> InviteTransaction_Respond i tx res tm
   | Some (NIST tx) \<Rightarrow> NonInviteTransaction_Respond i tx res tm)"

section \<open>Timer callbacks\<close>

definition fire_G :: "nat \<Rightarrow> InviteTransaction \<Rightarrow> TransactionManager \<Rightarrow> TransactionManager" where
  "fire_G i tx tm =
     (if it_stopped tx \<or> it_state tx \<noteq> ISTCompleted then tm
      else case it_lastResp tx of
        None \<Rightarrow> tm
      | Some res \<Rightarrow>
          scheduleTimerG i (tx\<lparr>it_gCount := Suc (it_gCount tx)\<rparr>) (send_msg (it_transport tx) (it_target tx) res tm))"

definition fire_H :: "nat \<Rightarrow> InviteTransaction \<Rightarrow> TransactionManager \<Rightarrow> TransactionManager" where
  "fire_H i tx tm =
     (if it_stopped tx then tm
      else
        let tx = tx\<lparr>it_state := ISTTerminated\<rparr> in
        forget_later (it_branch tx) (InviteTransaction_stopTimers tx (put_tx i (IST tx) tm)))"

definition fire_I :: "nat \<Rightarrow> InviteTransaction \<Rightarrow> TransactionManager \<Rightarrow> TransactionManager" where
  "fire_I i tx tm =
     (if it_stopped tx then tm else forget_later (it_branch tx) (put_tx i (IST (tx\<lparr>it_state := ISTTerminated\<rparr>)) tm))"

definition fire_J :: "nat \<Rightarrow> NonInviteTransaction \<Rightarrow> TransactionManager \<Rightarrow> TransactionManager" where
  "fire_J i tx tm =
     (if nt_stopped tx then tm else forget_later (nt_branch tx) (put_tx i (NIST (tx\<lparr>nt_state := NISTTerminated\<rparr>)) tm))"

text \<open>The callback of timer \<open>k\<close> runs; it is then no longer pending.\<close>

definition fire_timer :: "nat \<Rightarrow> TransactionManager \<Rightarrow> TransactionManager" where
  "fire_timer k tm = (case fmlookup (tm_timers tm) k of
     None \<Rightarrow> tm
   | Some t \<Rightarrow>
       let tm = tm\<lparr>tm_timers := fmdrop k (tm_timers tm)\<rparr> in
       (case (tmr_kind t, fmlookup (tm_txs tm) (tmr_tx t)) of
          (TimerG, Some (IST tx)) \<Rightarrow> fire_G (tmr_tx t) tx tm
        | (TimerH, Some (IST tx)) \<Rightarrow> fire_H (tmr_tx t) tx tm
        | (TimerI, Some (IST tx)) \<Rightarrow> fire_I (tmr_tx t) tx tm
        | (TimerJ, Some (NIST tx)) \<Rightarrow> fire_J (tmr_tx t) tx tm
        | _ \<Rightarrow> tm))"

section \<open>The manager\<close>

text \<open>What happens with a request besides the change of state: nothing more, or the handler is called with a transaction.\<close>

datatype tx_outcome = Absorbed | Dispatched nat

definition new_server_tx :: "MessageEvent \<Rightarrow> transport_kind \<Rightarrow> string \<Rightarrow> bool \<Rightarrow> server_tx" where
  "new_server_tx ev tr branch reliable =
     (if SIPMessage_Method (ev_Msg ev) = ''INVITE'' then
        IST \<lparr>it_transport = tr, it_timerH = None, it_lastResp = None, it_cancelOKResp = None, it_timerG = None,
          it_timerI = None, it_target = ev_Target ev, it_branch = branch, it_state = ISTTrying, it_gCount = 0,
          it_reliable = reliable, it_stopped = False\<rparr>
      else
        NIST \<lparr>nt_transport = tr, nt_lastResp = None, nt_timerJ = None, nt_target = ev_Target ev, nt_branch = branch,
          nt_method = SIPMessage_Method (ev_Msg ev), nt_state = NISTTrying, nt_reliable = reliable, nt_stopped = False\<rparr>)"

definition handleRetransmission :: "server_tx \<Rightarrow> TransactionManager \<Rightarrow> TransactionManager" where
  "handleRetransmission tx tm = (case tx of
     NIST t \<Rightarrow> (case nt_lastResp t of
        Some res \<Rightarrow> if nt_state t = NISTCompleted then send_msg (nt_transport t) (nt_target t) res tm else tm
      | None \<Rightarrow> tm)
   | IST t \<Rightarrow> (case it_lastResp t of
        Some res \<Rightarrow> if it_state t = ISTCompleted then send_msg (it_transport t) (it_target t) res tm else tm
      | None \<Rightarrow> tm))"

definition no_transaction :: "MessageEvent \<Rightarrow> transport_kind \<Rightarrow> TransactionManager \<Rightarrow> TransactionManager" where
  "no_transaction ev tr tm =
     send_msg tr (ev_Target ev) (NewResponse (ev_Msg ev) 481 ''Call Leg/Transaction Does Not Exist'') tm"

definition handleCancelRequest ::
  "bool \<Rightarrow> MessageEvent \<Rightarrow> transport_kind \<Rightarrow> nat \<Rightarrow> server_tx \<Rightarrow> TransactionManager \<Rightarrow> TransactionManager \<times> tx_outcome" where
  "handleCancelRequest handler ev tr i existing tm = (case existing of
     NIST _ \<Rightarrow> (no_transaction ev tr tm, Absorbed)
   | IST ist \<Rightarrow>
       if it_state ist = ISTTrying \<or> it_state ist = ISTProceeding then
         (let okResp = NewResponse (ev_Msg ev) 200 ''OK'';
              tm = send_msg tr (ev_Target ev) okResp tm;
              ist = ist\<lparr>it_cancelOKResp := Some okResp\<rparr>
          in if handler then (put_tx i (IST ist) tm, Dispatched i)
             else
               let inviteResp = (NewResponse (ev_Msg ev) 487 ''Request Terminated'')
                     \<lparr>msg_CSeq := \<lparr>cseq_Method = ''INVITE'', cseq_Seq = cseq_Seq (msg_CSeq (ev_Msg ev))\<rparr>\<rparr>;
                   tm = send_msg (it_transport ist) (it_target ist) inviteResp tm;
                   ist = ist\<lparr>it_lastResp := Some inviteResp, it_state := ISTCompleted\<rparr>;
                   tm = InviteTransaction_stopTimers ist tm;
                   (k, tm) = AfterFunc i TimerH (64 * T1) tm;
                   ist = ist\<lparr>it_timerH := Some k\<rparr>
               in (if \<not> it_reliable ist then startTimerG i ist tm else put_tx i (IST ist) tm, Absorbed))
       else (case it_cancelOKResp ist of
           Some okResp \<Rightarrow>
             if it_state ist = ISTCompleted then (send_msg tr (ev_Target ev) okResp tm, Absorbed)
             else (no_transaction ev tr tm, Absorbed)
         | None \<Rightarrow> (no_transaction ev tr tm, Absorbed)))"

definition HandleRequest ::
  "unicode_tables \<Rightarrow> bool \<Rightarrow> MessageEvent \<Rightarrow> transport_kind \<Rightarrow> TransactionManager \<Rightarrow> ('e, TransactionManager \<times> tx_outcome) go" where
  "HandleRequest uni handler ev tr tm =
     and_then (SIPMessage_ViaBranch (uni_lower uni) (ev_Msg ev)) (\<lambda>(branch, msg).
     let ev = ev\<lparr>ev_Msg := msg\<rparr> in
     if branch = [] then Ok (tm, Absorbed)
     else case fmlookup (tm_serverTxs tm) branch of
       Some i \<Rightarrow>
         (case fmlookup (tm_txs tm) i of
            None \<Rightarrow> Panic
          | Some existing \<Rightarrow>
              if SIPMessage_Method msg = ''CANCEL'' then Ok (handleCancelRequest handler ev tr i existing tm)
              else Ok (handleRetransmission existing tm, Absorbed))
     | None \<Rightarrow>
         if SIPMessage_Method msg = ''CANCEL'' then
           and_then (SIPHeaders_GetFirst (msg_Headers msg) ''Call-ID'') (\<lambda>_. Ok (no_transaction ev tr tm, Absorbed))
         else and_then (SIPMessage_IsReliableTransport msg) (\<lambda>(reliable, msg).
           let i = tm_next tm;
               tm = put_tx i (new_server_tx (ev\<lparr>ev_Msg := msg\<rparr>) tr branch reliable) (tm\<lparr>tm_next := Suc i\<rparr>);
               tm = tm\<lparr>tm_serverTxs := fmupd branch i (tm_serverTxs tm)\<rparr>
           in Ok (tm, if handler then Dispatched i else Absorbed)))"

definition HandleACK :: "unicode_tables \<Rightarrow> MessageEvent \<Rightarrow> TransactionManager \<Rightarrow> ('e, TransactionManager) go" where
  "HandleACK uni ev tm =
     and_then (SIPMessage_ViaBranch (uni_lower uni) (ev_Msg ev)) (\<lambda>(branch, _).
     if branch = [] then Ok tm
     else case fmlookup (tm_serverTxs tm) branch of
       None \<Rightarrow> Ok tm
     | Some i \<Rightarrow> (case fmlookup (tm_txs tm) i of
          Some (IST ist) \<Rightarrow> Ok (ackReceived i ist tm)
        | _ \<Rightarrow> Ok tm))"

text \<open>\<^verbatim>\<open>Stop\<close>: the transactions in the table are marked and their timers stopped, then the table is emptied.\<close>

definition stop_tx :: "nat \<Rightarrow> TransactionManager \<Rightarrow> TransactionManager" where
  "stop_tx i tm = (case fmlookup (tm_txs tm) i of
     Some (IST ist) \<Rightarrow> InviteTransaction_stopTimers ist (put_tx i (IST (ist\<lparr>it_stopped := True\<rparr>)) tm)
   | Some (NIST nist) \<Rightarrow>
       (let nist = nist\<lparr>nt_stopped := True\<rparr> in NonInviteTransaction_stopTimers i nist (put_tx i (NIST nist) tm))
   | None \<Rightarrow> tm)"

definition TransactionManager_Stop :: "TransactionManager \<Rightarrow> TransactionManager" where
  "TransactionManager_Stop tm =
     (fold stop_tx (map (\<lambda>b. the (fmlookup (tm_serverTxs tm) b)) (sorted_list_of_fset (fmdom (tm_serverTxs tm)))) tm)
       \<lparr>tm_serverTxs := fmempty\<rparr>"



section \<open>The invariant\<close>

fun tx_branch :: "server_tx \<Rightarrow> string" where
  "tx_branch (IST tx) = it_branch tx"
| "tx_branch (NIST tx) = nt_branch tx"

fun is_IST :: "server_tx \<Rightarrow> bool" where
  "is_IST (IST _) = True"
| "is_IST (NIST _) = False"

text \<open>A timer field that belongs to transaction \<open>i\<close>, and one whose callback is still to come.\<close>

definition owned :: "TransactionManager \<Rightarrow> nat \<Rightarrow> nat option \<Rightarrow> bool" where
  "owned tm i k \<longleftrightarrow> (\<forall>k'. k = Some k' \<longrightarrow> k' < tm_next tm \<and> (\<forall>t. fmlookup (tm_timers tm) k' = Some t \<longrightarrow> tmr_tx t = i))"

definition armed :: "TransactionManager \<Rightarrow> nat \<Rightarrow> timer_kind \<Rightarrow> nat option \<Rightarrow> bool" where
  "armed tm i kind k \<longleftrightarrow> (\<exists>k' t. k = Some k' \<and> fmlookup (tm_timers tm) k' = Some t \<and> tmr_tx t = i \<and> tmr_kind t = kind
     \<and> tmr_after t \<le> 64 * T1 \<and> \<not> tmr_stopped t)"

fun tx_ok :: "TransactionManager \<Rightarrow> nat \<Rightarrow> server_tx \<Rightarrow> bool" where
  "tx_ok tm i (IST tx) \<longleftrightarrow>
     owned tm i (it_timerH tx) \<and> owned tm i (it_timerG tx) \<and> owned tm i (it_timerI tx)
     \<and> (it_state tx = ISTCompleted \<longrightarrow> it_lastResp tx \<noteq> None \<and> (it_stopped tx \<or> armed tm i TimerH (it_timerH tx)))
     \<and> (it_state tx = ISTConfirmed \<longrightarrow> \<not> it_reliable tx \<and> (it_stopped tx \<or> armed tm i TimerI (it_timerI tx)))"
| "tx_ok tm i (NIST tx) \<longleftrightarrow>
     owned tm i (nt_timerJ tx)
     \<and> (nt_state tx = NISTCompleted \<longrightarrow> nt_lastResp tx \<noteq> None \<and> (nt_stopped tx \<or> armed tm i TimerJ (nt_timerJ tx)))"

text \<open>The invariant, with the transactions \<open>X\<close> that an operation has taken apart exempt.\<close>

definition tm_inv :: "nat set \<Rightarrow> TransactionManager \<Rightarrow> bool" where
  "tm_inv X tm \<longleftrightarrow>
     (\<forall>b i. fmlookup (tm_serverTxs tm) b = Some i \<longrightarrow> (\<exists>t. fmlookup (tm_txs tm) i = Some t \<and> tx_branch t = b))
     \<and> (\<forall>i t. fmlookup (tm_txs tm) i = Some t \<longrightarrow> i < tm_next tm \<and> (i \<notin> X \<longrightarrow> tx_ok tm i t))
     \<and> (\<forall>k t. fmlookup (tm_timers tm) k = Some t \<longrightarrow> k < tm_next tm
          \<and> (\<exists>tx. fmlookup (tm_txs tm) (tmr_tx t) = Some tx \<and> (is_IST tx \<longleftrightarrow> tmr_kind t \<noteq> TimerJ)))"

lemma tm_inv_mono: "tm_inv X tm \<Longrightarrow> X \<subseteq> Y \<Longrightarrow> tm_inv Y tm"
  unfolding tm_inv_def by blast

lemma tx_ok_cong:
  "tm_timers tm' = tm_timers tm \<Longrightarrow> tm_next tm' = tm_next tm \<Longrightarrow> tx_ok tm' i t = tx_ok tm i t"
  by (cases t) (simp_all add: owned_def armed_def)

lemma tm_inv_send [simp]: "tm_inv X (send_msg tr target res tm) = tm_inv X tm"
  by (simp add: tm_inv_def send_msg_def tx_ok_cong [of "tm\<lparr>tm_sent := _\<rparr>" tm])

lemma tm_inv_forget: "tm_inv X tm \<Longrightarrow> tm_inv X (forget_branch b tm)"
  by (auto simp: tm_inv_def forget_branch_def tx_ok_cong [of "tm\<lparr>tm_serverTxs := _\<rparr>" tm])

lemma tm_inv_forget_later [simp]: "tm_inv X (forget_later b tm) = tm_inv X tm"
  by (simp add: tm_inv_def forget_later_def tx_ok_cong [of "tm\<lparr>tm_cleanups := _\<rparr>" tm])

lemma tm_inv_cleanups [simp]: "tm_inv X (tm\<lparr>tm_cleanups := c\<rparr>) = tm_inv X tm"
  by (simp add: tm_inv_def tx_ok_cong [of "tm\<lparr>tm_cleanups := _\<rparr>" tm])

lemma tx_ok_send [simp]: "tx_ok (send_msg tr target res tm) i t = tx_ok tm i t"
  by (rule tx_ok_cong) (simp_all add: send_msg_def)

lemma owned_send [simp]: "owned (send_msg tr target res tm) i f = owned tm i f"
  by (simp add: owned_def send_msg_def)

lemma armed_send [simp]: "armed (send_msg tr target res tm) i kind f = armed tm i kind f"
  by (simp add: armed_def send_msg_def)

lemma tm_inv_branch:
  "tm_inv X tm \<Longrightarrow> fmlookup (tm_serverTxs tm) b = Some i \<Longrightarrow> fmlookup (tm_txs tm) i = Some t \<Longrightarrow> tx_branch t = b"
  by (fastforce simp: tm_inv_def)

lemma tm_inv_timer:
  "tm_inv X tm \<Longrightarrow> fmlookup (tm_timers tm) k = Some t \<Longrightarrow> fmlookup (tm_txs tm) (tmr_tx t) = Some tx \<Longrightarrow>
     is_IST tx \<longleftrightarrow> tmr_kind t \<noteq> TimerJ"
  by (fastforce simp: tm_inv_def)

lemma tm_inv_timer_tx:
  "tm_inv X tm \<Longrightarrow> fmlookup (tm_timers tm) k = Some t \<Longrightarrow>
     k < tm_next tm \<and> (\<exists>tx. fmlookup (tm_txs tm) (tmr_tx t) = Some tx \<and> (is_IST tx \<longleftrightarrow> tmr_kind t \<noteq> TimerJ))"
  unfolding tm_inv_def by blast

lemma tm_inv_tx:
  "tm_inv X tm \<Longrightarrow> fmlookup (tm_txs tm) i = Some t \<Longrightarrow> i < tm_next tm \<and> (i \<notin> X \<longrightarrow> tx_ok tm i t)"
  by (simp add: tm_inv_def)

lemma tm_invI:
  assumes "\<And>b i. fmlookup (tm_serverTxs tm) b = Some i \<Longrightarrow> \<exists>t. fmlookup (tm_txs tm) i = Some t \<and> tx_branch t = b"
    and "\<And>i t. fmlookup (tm_txs tm) i = Some t \<Longrightarrow> i < tm_next tm"
    and "\<And>i t. fmlookup (tm_txs tm) i = Some t \<Longrightarrow> i \<notin> X \<Longrightarrow> tx_ok tm i t"
    and "\<And>k t. fmlookup (tm_timers tm) k = Some t \<Longrightarrow> k < tm_next tm"
    and "\<And>k t. fmlookup (tm_timers tm) k = Some t \<Longrightarrow>
      \<exists>tx. fmlookup (tm_txs tm) (tmr_tx t) = Some tx \<and> (is_IST tx \<longleftrightarrow> tmr_kind t \<noteq> TimerJ)"
  shows "tm_inv X tm"
  unfolding tm_inv_def using assms by blast

lemma tm_inv_put:
  assumes "tm_inv X tm" and "fmlookup (tm_txs tm) i = Some t0" and "tx_branch t = tx_branch t0"
    and "is_IST t = is_IST t0" and "tx_ok tm i t"
  shows "tm_inv (X - {i}) (put_tx i t tm)"
proof (rule tm_invI)
  fix b j assume "fmlookup (tm_serverTxs (put_tx i t tm)) b = Some j"
  then have s: "fmlookup (tm_serverTxs tm) b = Some j" by (simp add: put_tx_def)
  then have "j = i \<Longrightarrow> tx_branch t = b" using tm_inv_branch [OF assms(1) s] assms(2,3) by simp
  then show "\<exists>ta. fmlookup (tm_txs (put_tx i t tm)) j = Some ta \<and> tx_branch ta = b"
    using s assms(1) by (auto simp: put_tx_def tm_inv_def)
next
  fix k ta assume "fmlookup (tm_timers (put_tx i t tm)) k = Some ta"
  then have s: "fmlookup (tm_timers tm) k = Some ta" by (simp add: put_tx_def)
  then have "tmr_tx ta = i \<Longrightarrow> is_IST t \<longleftrightarrow> tmr_kind ta \<noteq> TimerJ" using tm_inv_timer [OF assms(1) s] assms(2,4) by simp
  then show "\<exists>tx. fmlookup (tm_txs (put_tx i t tm)) (tmr_tx ta) = Some tx \<and> (is_IST tx \<longleftrightarrow> tmr_kind ta \<noteq> TimerJ)"
    using s assms(1) by (auto simp: put_tx_def tm_inv_def)
  show "k < tm_next (put_tx i t tm)" using s assms(1) by (auto simp: put_tx_def tm_inv_def)
qed (use assms(1,2,5) in \<open>auto simp: put_tx_def tm_inv_tx tx_ok_cong [of "tm\<lparr>tm_txs := _\<rparr>" tm] split: if_splits\<close>)

text \<open>Arming a timer: the key is new, so nothing is disturbed.\<close>

lemma AfterFunc_frame:
  assumes "AfterFunc i kind d tm = (k, tm')" and "tm_inv X tm"
  shows "tx_ok tm j t \<Longrightarrow> tx_ok tm' j t" and "d \<le> 64 * T1 \<Longrightarrow> armed tm' i kind (Some k)" and "owned tm' i (Some k)"
    and "owned tm j f \<Longrightarrow> owned tm' j f" and "armed tm j kd f \<Longrightarrow> armed tm' j kd f"
    and "tm_txs tm' = tm_txs tm"
proof -
  have k: "fmlookup (tm_timers tm) (tm_next tm) = None"
  proof (cases "fmlookup (tm_timers tm) (tm_next tm)")
    case (Some t)
    then show ?thesis using assms(2) by (auto simp: tm_inv_def)
  qed simp
  have o: "owned tm j f \<Longrightarrow> owned tm' j f" for j f
    using assms(1) by (auto simp: AfterFunc_def owned_def)
  have a: "armed tm j kd f \<Longrightarrow> armed tm' j kd f" for j kd f
    using assms(1) k by (auto simp: AfterFunc_def armed_def)
  show "tx_ok tm j t \<Longrightarrow> tx_ok tm' j t" by (cases t) (auto intro: o a)
  show "owned tm j f \<Longrightarrow> owned tm' j f" "armed tm j kd f \<Longrightarrow> armed tm' j kd f" by (rule o, assumption) (rule a)
  show "d \<le> 64 * T1 \<Longrightarrow> armed tm' i kind (Some k)" "owned tm' i (Some k)" "tm_txs tm' = tm_txs tm"
    using assms(1) by (auto simp: AfterFunc_def armed_def owned_def)
qed

lemma AfterFunc_inv:
  assumes "AfterFunc i kind d tm = (k, tm')" and "tm_inv X tm" and "fmlookup (tm_txs tm) i = Some t0"
    and "is_IST t0 \<longleftrightarrow> kind \<noteq> TimerJ"
  shows "tm_inv X tm'"
proof (rule tm_invI)
  fix j t assume j: "fmlookup (tm_txs tm') j = Some t"
  then have "fmlookup (tm_txs tm) j = Some t" using AfterFunc_frame(6) [OF assms(1,2)] by simp
  note this [THEN tm_inv_tx [OF assms(2)]]
  then show "j < tm_next tm'" and "j \<notin> X \<Longrightarrow> tx_ok tm' j t"
    using assms(1) AfterFunc_frame(1) [OF assms(1,2)] by (auto simp: AfterFunc_def)
next
  fix ka t assume ka: "fmlookup (tm_timers tm') ka = Some t"
  show "\<exists>tx. fmlookup (tm_txs tm') (tmr_tx t) = Some tx \<and> (is_IST tx \<longleftrightarrow> tmr_kind t \<noteq> TimerJ)"
  proof (cases "ka = tm_next tm")
    case True
    then show ?thesis using ka assms(1,3,4) by (auto simp: AfterFunc_def)
  next
    case False
    then have "fmlookup (tm_timers tm) ka = Some t" using ka assms(1) by (auto simp: AfterFunc_def)
    then show ?thesis using assms(2) AfterFunc_frame(6) [OF assms(1,2)] unfolding tm_inv_def by metis
  qed
qed (use assms(1,2) in \<open>auto simp: AfterFunc_def tm_inv_def less_Suc_eq split: if_splits\<close>)

text \<open>Stopping a timer of transaction \<open>i\<close> can only disturb that transaction.\<close>

lemma Timer_Stop_frame:
  assumes "owned tm i f"
  shows "owned tm j g \<Longrightarrow> owned (Timer_Stop f tm) j g" and "j \<noteq> i \<Longrightarrow> armed tm j kd g \<Longrightarrow> armed (Timer_Stop f tm) j kd g"
    and "tm_txs (Timer_Stop f tm) = tm_txs tm" and "tm_serverTxs (Timer_Stop f tm) = tm_serverTxs tm"
  using assms by (auto simp: Timer_Stop_def owned_def armed_def split: option.splits)

lemma Timer_Stop_inv:
  assumes "tm_inv X tm" and "owned tm i f"
  shows "tm_inv (insert i X) (Timer_Stop f tm)"
proof -
  have "tx_ok tm j t \<Longrightarrow> j \<noteq> i \<Longrightarrow> tx_ok (Timer_Stop f tm) j t" for j t
    by (cases t) (auto intro: Timer_Stop_frame [OF assms(2)])
  then show ?thesis using assms(1)
    by (auto simp: tm_inv_def Timer_Stop_def split: option.splits if_splits)
qed

lemma IST_stopTimers_inv:
  assumes "tm_inv X tm" and "owned tm i (it_timerH tx)" "owned tm i (it_timerG tx)" "owned tm i (it_timerI tx)"
  shows "tm_inv (insert i X) (InviteTransaction_stopTimers tx tm)"
    and "owned (InviteTransaction_stopTimers tx tm) i (it_timerH tx)"
    and "owned (InviteTransaction_stopTimers tx tm) i (it_timerG tx)"
    and "owned (InviteTransaction_stopTimers tx tm) i (it_timerI tx)"
    and "tm_txs (InviteTransaction_stopTimers tx tm) = tm_txs tm"
    and "tm_serverTxs (InviteTransaction_stopTimers tx tm) = tm_serverTxs tm"
proof -
  let ?a = "Timer_Stop (it_timerH tx) tm" and ?b = "Timer_Stop (it_timerI tx) (Timer_Stop (it_timerH tx) tm)"
  have a: "owned ?a i f" if "owned tm i f" for f using that assms by (auto intro: Timer_Stop_frame)
  have b: "owned ?b i f" if "owned tm i f" for f using that assms a by (auto intro: Timer_Stop_frame)
  have c: "owned (InviteTransaction_stopTimers tx tm) i f" if "owned tm i f" for f
    using that assms b by (auto simp: InviteTransaction_stopTimers_def intro: Timer_Stop_frame)
  show "tm_inv (insert i X) (InviteTransaction_stopTimers tx tm)"
    using Timer_Stop_inv [OF Timer_Stop_inv [OF Timer_Stop_inv [OF assms(1,2)] a [OF assms(4)]] b [OF assms(3)]]
    by (simp add: InviteTransaction_stopTimers_def)
  show "owned (InviteTransaction_stopTimers tx tm) i (it_timerH tx)" "owned (InviteTransaction_stopTimers tx tm) i (it_timerG tx)"
    "owned (InviteTransaction_stopTimers tx tm) i (it_timerI tx)" using assms c by blast+
  show "tm_txs (InviteTransaction_stopTimers tx tm) = tm_txs tm" "tm_serverTxs (InviteTransaction_stopTimers tx tm) = tm_serverTxs tm"
    by (simp_all add: InviteTransaction_stopTimers_def Timer_Stop_def split: option.splits)
qed

section \<open>Every operation keeps the invariant\<close>

lemma tm_inv_put_IST:
  assumes "tm_inv X tm" "X \<subseteq> {i}" and "fmlookup (tm_txs tm) i = Some (IST tx0)" and "it_branch tx = it_branch tx0"
    and "tx_ok tm i (IST tx)"
  shows "tm_inv {} (put_tx i (IST tx) tm)"
  using tm_inv_put [OF assms(1,3) _ _ assms(5)] assms(2,4) by (auto elim: tm_inv_mono)

lemma tm_inv_put_NIST:
  assumes "tm_inv X tm" "X \<subseteq> {i}" and "fmlookup (tm_txs tm) i = Some (NIST tx0)" and "nt_branch tx = nt_branch tx0"
    and "tx_ok tm i (NIST tx)"
  shows "tm_inv {} (put_tx i (NIST tx) tm)"
  using tm_inv_put [OF assms(1,3) _ _ assms(5)] assms(2,4) by (auto elim: tm_inv_mono)

lemma scheduleTimerG_inv:
  assumes "tm_inv X tm" "X \<subseteq> {i}" and "fmlookup (tm_txs tm) i = Some (IST tx0)" and "it_branch tx = it_branch tx0"
    and "tx_ok tm i (IST tx)"
  shows "tm_inv {} (scheduleTimerG i tx tm)"
proof -
  obtain k tm' where a: "AfterFunc i TimerG (backoff (it_gCount tx)) tm = (k, tm')" by fastforce
  note f = AfterFunc_frame [OF a assms(1)]
  have "tm_inv {} (put_tx i (IST (tx\<lparr>it_timerG := Some k\<rparr>)) tm')"
  proof (rule tm_inv_put_IST [OF AfterFunc_inv [OF a assms(1,3)] assms(2)])
    show "tx_ok tm' i (IST (tx\<lparr>it_timerG := Some k\<rparr>))" using f(1) [OF assms(5)] f(3) by simp
  qed (use assms f(6) in simp_all)
  then show ?thesis by (simp add: scheduleTimerG_def a)
qed

lemma send_msg_fields [simp]:
  "tm_txs (send_msg tr target res tm) = tm_txs tm" "tm_serverTxs (send_msg tr target res tm) = tm_serverTxs tm"
  "tm_timers (send_msg tr target res tm) = tm_timers tm" "tm_next (send_msg tr target res tm) = tm_next tm"
  by (simp_all add: send_msg_def)

text \<open>Entering \<open>Completed\<close>: timer H is armed, and timer G on an unreliable transport.\<close>

lemma complete_inv:
  assumes "tm_inv X tm" "X \<subseteq> {i}" and "fmlookup (tm_txs tm) i = Some (IST tx0)" and "it_branch tx = it_branch tx0"
    and "owned tm i (it_timerG tx)" "owned tm i (it_timerI tx)" and "it_state tx = ISTCompleted" "it_lastResp tx \<noteq> None"
    and "AfterFunc i TimerH (64 * T1) tm = (k, tm')"
  shows "tm_inv {} (if \<not> it_reliable tx then startTimerG i (tx\<lparr>it_timerH := Some k\<rparr>) tm' else put_tx i (IST (tx\<lparr>it_timerH := Some k\<rparr>)) tm')"
proof -
  note f = AfterFunc_frame [OF assms(9,1)]
  have inv: "tm_inv X tm'" using AfterFunc_inv [OF assms(9,1,3)] by simp
  have l: "fmlookup (tm_txs tm') i = Some (IST tx0)" using assms(3) f(6) by simp
  have ok: "tx_ok tm' i (IST (tx\<lparr>it_timerH := Some k, it_gCount := g\<rparr>))" "tx_ok tm' i (IST (tx\<lparr>it_timerH := Some k\<rparr>))" for g
    using assms f(2,3) f(4) by simp_all
  show ?thesis
    using scheduleTimerG_inv [OF inv assms(2) l _ ok(1)] tm_inv_put_IST [OF inv assms(2) l _ ok(2)] assms(4)
    by (simp add: startTimerG_def)
qed

lemma IST_Respond_inv:
  assumes "tm_inv {} tm" and "fmlookup (tm_txs tm) i = Some (IST tx)"
  shows "tm_inv {} (InviteTransaction_Respond i tx res tm)"
proof -
  let ?sc = "SIPMessage_StatusCode res"
  have ok: "tx_ok tm i (IST tx)" using tm_inv_tx [OF assms] by simp
  obtain k tm' where a: "AfterFunc i TimerH (64 * T1) (send_msg (it_transport tx) (it_target tx) res tm) = (k, tm')" by fastforce
  have final: "tm_inv {} (InviteTransaction_Respond i tx res tm)" if "300 \<le> ?sc" "it_state tx = ISTTrying \<or> it_state tx = ISTProceeding"
    using complete_inv [OF _ _ _ _ _ _ _ _ a, of "{}" tx "tx\<lparr>it_lastResp := Some res, it_state := ISTCompleted\<rparr>"] assms ok that
    by (auto simp: InviteTransaction_Respond_def Let_def a owned_def)
  have "tm_inv {} (put_tx i (IST (tx\<lparr>it_state := ISTProceeding\<rparr>)) tm)" "tm_inv {} (put_tx i (IST (tx\<lparr>it_state := ISTTerminated\<rparr>)) tm)"
    "it_state tx = ISTCompleted \<Longrightarrow> tm_inv {} (put_tx i (IST (tx\<lparr>it_lastResp := Some res\<rparr>)) tm)"
    using ok by (auto intro!: tm_inv_put_IST [OF assms(1) _ assms(2)])
  then show ?thesis using final assms(1)
    by (cases "it_state tx"; cases "300 \<le> ?sc") (auto simp: InviteTransaction_Respond_def Let_def intro: tm_inv_forget)
qed

lemma NIST_Respond_inv:
  assumes "tm_inv {} tm" and "fmlookup (tm_txs tm) i = Some (NIST tx)"
  shows "tm_inv {} (NonInviteTransaction_Respond i tx res tm)"
proof -
  have ok: "tx_ok tm i (NIST tx)" using tm_inv_tx [OF assms] by simp
  let ?tm = "send_msg (nt_transport tx) (nt_target tx) res tm"
  obtain k tm' where a: "AfterFunc i TimerJ (if nt_reliable tx then 0 else 64 * T1) ?tm = (k, tm')" by fastforce
  have inv: "tm_inv {} ?tm" "fmlookup (tm_txs ?tm) i = Some (NIST tx)" using assms by simp_all
  note f = AfterFunc_frame [OF a inv(1)]
  have "tm_inv {} (put_tx i (NIST (tx\<lparr>nt_lastResp := Some res, nt_state := NISTCompleted, nt_timerJ := Some k\<rparr>)) tm')"
    using AfterFunc_inv [OF a inv] inv(2) f f(2) [unfolded T1_def]
    by (intro tm_inv_put_NIST [of "{}"]) (simp_all split: if_splits)
  moreover have "tm_inv {} (put_tx i (NIST (tx\<lparr>nt_state := NISTProceeding\<rparr>)) tm)" "tm_inv {} (put_tx i (NIST tx) tm)"
    using ok by (auto intro!: tm_inv_put_NIST [OF assms(1) _ assms(2)])
  ultimately show ?thesis using assms(1) by (auto simp: NonInviteTransaction_Respond_def Let_def a)
qed

lemma Respond_inv: "tm_inv {} tm \<Longrightarrow> tm_inv {} (Respond i res tm)"
  by (auto simp: Respond_def IST_Respond_inv NIST_Respond_inv split: option.splits server_tx.splits)

lemma ackReceived_inv:
  assumes "tm_inv {} tm" and "fmlookup (tm_txs tm) i = Some (IST tx)"
  shows "tm_inv {} (ackReceived i tx tm)"
proof (cases "it_state tx = ISTCompleted")
  case True
  have ok: "tx_ok tm i (IST tx)" using tm_inv_tx [OF assms] by simp
  let ?tx = "tx\<lparr>it_state := ISTConfirmed\<rparr>" let ?tm = "InviteTransaction_stopTimers ?tx tm"
  from ok have "owned tm i (it_timerH ?tx)" "owned tm i (it_timerG ?tx)" "owned tm i (it_timerI ?tx)" by simp_all
  note s = IST_stopTimers_inv [OF assms(1) this]
  have l: "fmlookup (tm_txs ?tm) i = Some (IST tx)" using s(5) assms(2) by simp
  obtain k tm' where a: "AfterFunc i TimerI T4 ?tm = (k, tm')" by fastforce
  note f = AfterFunc_frame [OF a s(1)]
  have "tm_inv {} (put_tx i (IST (?tx\<lparr>it_timerI := Some k\<rparr>)) tm')" if "\<not> it_reliable tx"
    using AfterFunc_inv [OF a s(1) l] l f(3,6) f(2) [unfolded T1_def T4_def, simplified] f(4) [OF s(2)] f(4) [OF s(3)] that
    by (intro tm_inv_put_IST [of "{i}"]) simp_all
  moreover have "tm_inv {} (put_tx i (IST (?tx\<lparr>it_state := ISTTerminated\<rparr>)) ?tm)"
    using s l by (intro tm_inv_put_IST [of "{i}"]) simp_all
  ultimately show ?thesis using True by (auto simp: ackReceived_def Let_def a intro: tm_inv_forget)
qed (use assms(1) in \<open>simp add: ackReceived_def\<close>)


text \<open>A timer that runs is no longer pending; only the transaction it belongs to can depend on it.\<close>

lemma drop_timer:
  assumes "tm_inv {} tm" and "fmlookup (tm_timers tm) k = Some t"
  defines "tm' \<equiv> tm\<lparr>tm_timers := fmdrop k (tm_timers tm)\<rparr>"
  shows "tm_inv {tmr_tx t} tm'" and "owned tm j f \<Longrightarrow> owned tm' j f"
    and "armed tm j kd f \<Longrightarrow> kd \<noteq> tmr_kind t \<or> j \<noteq> tmr_tx t \<Longrightarrow> armed tm' j kd f"
proof -
  have o: "owned tm j f \<Longrightarrow> owned tm' j f" for j f by (auto simp: owned_def tm'_def)
  have a: "armed tm' j kd f" if "armed tm j kd f" "kd \<noteq> tmr_kind t \<or> j \<noteq> tmr_tx t" for j kd f
  proof -
    from that(1) obtain k' t' where k': "f = Some k'" "fmlookup (tm_timers tm) k' = Some t'" "tmr_tx t' = j" "tmr_kind t' = kd"
      "tmr_after t' \<le> 64 * T1" "\<not> tmr_stopped t'" by (auto simp: armed_def)
    with that(2) assms(2) have "k' \<noteq> k" by auto
    with k' show ?thesis by (simp add: armed_def tm'_def)
  qed
  have ok: "tx_ok tm' j x" if "tx_ok tm j x" "j \<noteq> tmr_tx t" for j x
    using that a [OF _ disjI2 [OF that(2)]] by (cases x) (auto intro: o)
  show "tm_inv {tmr_tx t} tm'"
  proof (rule tm_invI)
    fix j x assume "fmlookup (tm_txs tm') j = Some x"
    then have "fmlookup (tm_txs tm) j = Some x" by (simp add: tm'_def)
    from tm_inv_tx [OF assms(1) this] show "j < tm_next tm'" and "j \<notin> {tmr_tx t} \<Longrightarrow> tx_ok tm' j x"
      using ok [of j x] by (simp_all add: tm'_def)
  next
    fix k' t' assume "fmlookup (tm_timers tm') k' = Some t'"
    then have "fmlookup (tm_timers tm) k' = Some t'" by (simp add: tm'_def split: if_splits)
    from tm_inv_timer_tx [OF assms(1) this] show "k' < tm_next tm'"
      and "\<exists>tx. fmlookup (tm_txs tm') (tmr_tx t') = Some tx \<and> (is_IST tx \<longleftrightarrow> tmr_kind t' \<noteq> TimerJ)"
      by (simp_all add: tm'_def)
  qed (use assms(1) in \<open>simp add: tm_inv_def tm'_def\<close>)
  show "owned tm j f \<Longrightarrow> owned tm' j f" "armed tm j kd f \<Longrightarrow> kd \<noteq> tmr_kind t \<or> j \<noteq> tmr_tx t \<Longrightarrow> armed tm' j kd f"
    by (rule o, assumption) (rule a)
qed

lemma tm_inv_keep:
  assumes "tm_inv {i} tm" and "fmlookup (tm_txs tm) i = Some t" and "tx_ok tm i t"
  shows "tm_inv {} tm"
proof (rule tm_invI)
  fix j x assume "fmlookup (tm_txs tm) j = Some x"
  then show "tx_ok tm j x" using tm_inv_tx [OF assms(1), of j x] assms(2,3) by (cases "j = i") simp_all
qed (use assms(1) in \<open>unfold tm_inv_def, blast+\<close>)

lemma fire_timer_inv:
  assumes "tm_inv {} tm"
  shows "tm_inv {} (fire_timer k tm)"
proof (cases "fmlookup (tm_timers tm) k")
  case None
  then show ?thesis using assms by (simp add: fire_timer_def)
next
  case (Some t)
  define i where "i = tmr_tx t"
  define tm' where "tm' = tm\<lparr>tm_timers := fmdrop k (tm_timers tm)\<rparr>"
  note d = drop_timer [OF assms Some, folded tm'_def i_def]
  have l: "tm_txs tm' = tm_txs tm" by (simp add: tm'_def)
  from assms Some obtain x where x: "fmlookup (tm_txs tm) i = Some x" "is_IST x \<longleftrightarrow> tmr_kind t \<noteq> TimerJ"
    using tm_inv_timer_tx [OF assms Some] by (auto simp: i_def)
  have ok: "tx_ok tm i x" using tm_inv_tx [OF assms x(1)] by simp
  show ?thesis
  proof (cases x)
    case (NIST tx)
    have "tm_inv {} (fire_J i tx tm')"
    proof (cases "nt_stopped tx")
      case True
      then show ?thesis using tm_inv_keep [OF d(1), of x] x(1) ok NIST d(2) l by (simp add: fire_J_def)
    next
      case False
      have "tm_inv {} (put_tx i (NIST (tx\<lparr>nt_state := NISTTerminated\<rparr>)) tm')"
        using x(1) ok NIST d l by (intro tm_inv_put_NIST [of "{i}"]) simp_all
      with False show ?thesis by (simp add: fire_J_def)
    qed
    then show ?thesis using Some x NIST l by (simp add: fire_timer_def Let_def i_def tm'_def)
  next
    case (IST tx)
    have own: "owned tm' i (it_timerH tx)" "owned tm' i (it_timerG tx)" "owned tm' i (it_timerI tx)"
      using ok IST d(2) by simp_all
    have stopped: "tm_inv {} tm'" if "it_stopped tx"
      using tm_inv_keep [OF d(1), of x] x(1) ok IST own l that by simp
    have fin: "tm_inv {} (put_tx i (IST (tx\<lparr>it_state := ISTTerminated\<rparr>)) tm')"
      using x(1) IST own l by (intro tm_inv_put_IST [OF d(1)]) simp_all
    have "tm_inv {} (fire_I i tx tm')" using stopped fin by (auto simp: fire_I_def)
    moreover have "tm_inv {} (fire_H i tx tm')"
    proof (cases "it_stopped tx")
      case False
      let ?tx = "tx\<lparr>it_state := ISTTerminated\<rparr>" let ?tm = "put_tx i (IST ?tx) tm'"
      have "owned ?tm i (it_timerH ?tx)" "owned ?tm i (it_timerG ?tx)" "owned ?tm i (it_timerI ?tx)"
        using own by (simp_all add: owned_def put_tx_def)
      note s = IST_stopTimers_inv [OF fin this]
      have "tm_inv {} (InviteTransaction_stopTimers ?tx ?tm)"
        by (rule tm_inv_keep [OF s(1), of "IST ?tx"]) (use s in \<open>simp_all add: put_tx_def\<close>)
      with False show ?thesis by (simp add: fire_H_def Let_def)
    qed (simp add: stopped fire_H_def)
    moreover have "tm_inv {} (fire_G i tx tm')" if "tmr_kind t = TimerG"
    proof -
      have ok': "tx_ok tm' i (IST tx)" using ok IST own d(3) that by auto
      then have keep: "tm_inv {} tm'" using tm_inv_keep [OF d(1), of x] x(1) IST l by simp
      have "tm_inv {} (scheduleTimerG i (tx\<lparr>it_gCount := n\<rparr>) (send_msg tr tgt res tm'))" for n tr tgt res
        by (rule scheduleTimerG_inv [of "{}"]) (use keep x(1) IST ok' l in simp_all)
      then show ?thesis using keep by (auto simp: fire_G_def split: option.splits)
    qed
    ultimately show ?thesis using Some x IST l
      by (cases "tmr_kind t") (simp_all add: fire_timer_def Let_def i_def tm'_def)
  qed
qed


lemma handleRetransmission_inv [simp]: "tm_inv X (handleRetransmission t tm) = tm_inv X tm"
  by (auto simp: handleRetransmission_def split: server_tx.splits option.splits)

lemma no_transaction_inv [simp]: "tm_inv X (no_transaction ev tr tm) = tm_inv X tm"
  by (simp add: no_transaction_def)

lemma handleCancelRequest_inv:
  assumes "tm_inv {} tm" and "fmlookup (tm_txs tm) i = Some t"
  shows "tm_inv {} (fst (handleCancelRequest handler ev tr i t tm))"
proof (cases t)
  case (NIST tx)
  then show ?thesis using assms(1) by (simp add: handleCancelRequest_def)
next
  case (IST ist)
  have ok: "tx_ok tm i (IST ist)" using tm_inv_tx [OF assms] IST by simp
  show ?thesis
  proof (cases "it_state ist = ISTTrying \<or> it_state ist = ISTProceeding")
    case False
    then show ?thesis using assms(1) IST by (auto simp: handleCancelRequest_def split: option.splits)
  next
    case True
    define tm1 where "tm1 = send_msg tr (ev_Target ev) (NewResponse (ev_Msg ev) 200 ''OK'') tm"
    define ist1 where "ist1 = ist\<lparr>it_cancelOKResp := Some (NewResponse (ev_Msg ev) 200 ''OK'')\<rparr>"
    have l1: "fmlookup (tm_txs tm1) i = Some (IST ist)" "tm_inv {} tm1" using assms IST by (simp_all add: tm1_def)
    have put: "tm_inv {} (put_tx i (IST ist1) tm1)"
      using l1 ok True by (intro tm_inv_put_IST [of "{}"]) (auto simp: ist1_def tm1_def)
    define res where "res = (NewResponse (ev_Msg ev) 487 ''Request Terminated'')
       \<lparr>msg_CSeq := \<lparr>cseq_Method = ''INVITE'', cseq_Seq = cseq_Seq (msg_CSeq (ev_Msg ev))\<rparr>\<rparr>"
    define ist2 where "ist2 = ist1\<lparr>it_lastResp := Some res, it_state := ISTCompleted\<rparr>"
    define tm2 where "tm2 = send_msg (it_transport ist1) (it_target ist1) res tm1"
    have "tm_inv {} tm2" "owned tm2 i (it_timerH ist2)" "owned tm2 i (it_timerG ist2)" "owned tm2 i (it_timerI ist2)"
      using l1 ok by (simp_all add: tm2_def tm1_def ist2_def ist1_def)
    note s = IST_stopTimers_inv [OF this]
    have l2: "fmlookup (tm_txs (InviteTransaction_stopTimers ist2 tm2)) i = Some (IST ist)"
      using s(5) l1 by (simp add: tm2_def)
    obtain k tm3 where a: "AfterFunc i TimerH (64 * T1) (InviteTransaction_stopTimers ist2 tm2) = (k, tm3)" by fastforce
    have c: "tm_inv {} (if \<not> it_reliable ist2 then startTimerG i (ist2\<lparr>it_timerH := Some k\<rparr>) tm3 else put_tx i (IST (ist2\<lparr>it_timerH := Some k\<rparr>)) tm3)"
      by (rule complete_inv [OF s(1) _ l2 _ s(3,4) _ _ a]) (simp_all add: ist2_def ist1_def)
    have "handleCancelRequest handler ev tr i t tm = (if handler then (put_tx i (IST ist1) tm1, Dispatched i)
        else (if \<not> it_reliable ist2 then startTimerG i (ist2\<lparr>it_timerH := Some k\<rparr>) tm3 else put_tx i (IST (ist2\<lparr>it_timerH := Some k\<rparr>)) tm3, Absorbed))"
      using True a by (simp add: handleCancelRequest_def IST Let_def ist1_def tm1_def res_def tm2_def ist2_def)
    then show ?thesis using put c by simp
  qed
qed

lemma new_server_tx_facts [simp]:
  "tx_branch (new_server_tx ev tr branch reliable) = branch" "tx_ok tm i (new_server_tx ev tr branch reliable)"
  by (simp_all add: new_server_tx_def owned_def)

lemma put_tx_fields [simp]:
  "tm_serverTxs (put_tx i t tm) = tm_serverTxs tm" "tm_timers (put_tx i t tm) = tm_timers tm" "tm_next (put_tx i t tm) = tm_next tm"
  "tm_txs (put_tx i t tm) = fmupd i t (tm_txs tm)" "tm_sent (put_tx i t tm) = tm_sent tm" "tm_cleanups (put_tx i t tm) = tm_cleanups tm"
  by (simp_all add: put_tx_def)

lemma create_tx_inv:
  assumes "tm_inv {} tm"
  shows "tm_inv {} (put_tx (tm_next tm) (new_server_tx ev tr branch reliable) (tm\<lparr>tm_next := Suc (tm_next tm)\<rparr>)
    \<lparr>tm_serverTxs := fmupd branch (tm_next tm) (tm_serverTxs tm)\<rparr>)" (is "tm_inv {} ?tm")
proof (rule tm_invI)
  have fresh: "fmlookup (tm_txs tm) i = Some t \<Longrightarrow> i < tm_next tm" for i t using tm_inv_tx [OF assms] by blast
  fix b i assume "fmlookup (tm_serverTxs ?tm) b = Some i"
  then show "\<exists>t. fmlookup (tm_txs ?tm) i = Some t \<and> tx_branch t = b"
    using assms fresh by (fastforce simp: put_tx_def tm_inv_def split: if_splits)
next
  have own: "owned tm i f \<Longrightarrow> owned ?tm i f" "armed tm i kd f \<Longrightarrow> armed ?tm i kd f" for i f kd
    by (auto simp: owned_def armed_def put_tx_def)
  have ok: "tx_ok tm i t \<Longrightarrow> tx_ok ?tm i t" for i t by (cases t) (auto intro: own)
  fix i t assume "fmlookup (tm_txs ?tm) i = Some t"
  then show "i < tm_next ?tm" and "tx_ok ?tm i t"
    using tm_inv_tx [OF assms, of i t] ok [of i t] by (auto simp: put_tx_def split: if_splits)
next
  fix k t assume "fmlookup (tm_timers ?tm) k = Some t"
  then have k: "fmlookup (tm_timers tm) k = Some t" by (simp add: put_tx_def)
  from tm_inv_timer_tx [OF assms k] obtain x where x: "k < tm_next tm" "fmlookup (tm_txs tm) (tmr_tx t) = Some x"
    "is_IST x \<longleftrightarrow> tmr_kind t \<noteq> TimerJ" by blast
  from tm_inv_tx [OF assms x(2)] x show "k < tm_next ?tm"
    and "\<exists>tx. fmlookup (tm_txs ?tm) (tmr_tx t) = Some tx \<and> (is_IST tx \<longleftrightarrow> tmr_kind t \<noteq> TimerJ)"
    by (auto simp: put_tx_def)
qed

lemma HandleRequest_inv:
  assumes "HandleRequest uni handler ev tr tm = Ok (tm', outcome)" and "tm_inv {} tm"
  shows "tm_inv {} tm'"
  using assms handleCancelRequest_inv [OF assms(2)] create_tx_inv [OF assms(2)]
  by (auto simp: HandleRequest_def and_then_eq_Ok Let_def split: if_splits option.splits) (metis fst_conv)+

lemma HandleACK_inv:
  assumes "HandleACK uni ev tm = Ok tm'" and "tm_inv {} tm"
  shows "tm_inv {} tm'"
  using assms by (auto simp: HandleACK_def and_then_eq_Ok ackReceived_inv split: if_splits option.splits server_tx.splits)

lemma stop_tx_inv:
  assumes "tm_inv {} tm"
  shows "tm_inv {} (stop_tx i tm)"
proof (cases "fmlookup (tm_txs tm) i")
  case None
  then show ?thesis using assms by (simp add: stop_tx_def)
next
  case (Some t)
  have ok: "tx_ok tm i t" using tm_inv_tx [OF assms Some] by simp
  show ?thesis
  proof (cases t)
    case (IST ist)
    let ?t = "IST (ist\<lparr>it_stopped := True\<rparr>)"
    have p: "tm_inv {} (put_tx i ?t tm)" using Some ok IST by (intro tm_inv_put_IST [OF assms]) simp_all
    have own: "owned (put_tx i ?t tm) i (it_timerH ist)" "owned (put_tx i ?t tm) i (it_timerG ist)" "owned (put_tx i ?t tm) i (it_timerI ist)"
      using ok IST by (simp_all add: owned_def put_tx_def)
    note s = IST_stopTimers_inv [OF p own]
    have "tx_ok (InviteTransaction_stopTimers ist (put_tx i ?t tm)) i ?t" using s(2-4) ok IST by auto
    then show ?thesis using tm_inv_keep [OF s(1), of ?t] s(5) Some IST by (simp add: stop_tx_def put_tx_def)
  next
    case (NIST nist)
    let ?n = "nist\<lparr>nt_stopped := True\<rparr>"
    have p: "tm_inv {} (put_tx i (NIST ?n) tm)" using Some ok NIST by (intro tm_inv_put_NIST [OF assms]) simp_all
    have own: "owned (put_tx i (NIST ?n) tm) i (nt_timerJ nist)" using ok NIST by (simp add: owned_def put_tx_def)
    have l: "fmlookup (tm_txs (Timer_Stop (nt_timerJ nist) (put_tx i (NIST ?n) tm))) i = Some (NIST ?n)"
      using Timer_Stop_frame(3) [OF own] by (simp add: put_tx_def)
    have "tm_inv {} (put_tx i (NIST (?n\<lparr>nt_timerJ := None\<rparr>)) (Timer_Stop (nt_timerJ nist) (put_tx i (NIST ?n) tm)))"
      by (rule tm_inv_put_NIST [OF Timer_Stop_inv [OF p own] _ l]) (use ok NIST in \<open>auto simp: owned_def\<close>)
    then show ?thesis using p Some NIST by (simp add: stop_tx_def NonInviteTransaction_stopTimers_def Let_def)
  qed
qed

lemma Stop_inv:
  assumes "tm_inv {} tm"
  shows "tm_inv {} (TransactionManager_Stop tm)"
proof -
  have "tm_inv {} tm \<Longrightarrow> tm_inv {} (fold stop_tx is tm)" for "is" tm
    by (induction "is" arbitrary: tm) (simp_all add: stop_tx_inv)
  from this [OF assms] have "tm_inv {} (tm'\<lparr>tm_serverTxs := fmempty\<rparr>)" if "tm_inv {} tm'" for tm'
    using that by (simp add: tm_inv_def tx_ok_cong [of "tm'\<lparr>tm_serverTxs := _\<rparr>" tm'])
  then show ?thesis using \<open>\<And>tm is. tm_inv {} tm \<Longrightarrow> tm_inv {} (fold stop_tx is tm)\<close> assms
    by (simp add: TransactionManager_Stop_def)
qed

section \<open>Runs\<close>

text \<open>
  The steps of the manager in any order: requests and ACKs from the transports, answers of handlers at any time, timer
  callbacks and their clean-ups, and shutdown.  A timer that was stopped while its callback already waited for
  the lock still runs, so a stopped timer may fire too.
\<close>

inductive tm_step :: "TransactionManager \<Rightarrow> TransactionManager \<Rightarrow> bool" where
  step_request: "HandleRequest uni handler ev tr tm = (Ok (tm', outcome) :: (unit, _) go) \<Longrightarrow> tm_step tm tm'"
| step_ack: "HandleACK uni ev tm = (Ok tm' :: (unit, _) go) \<Longrightarrow> tm_step tm tm'"
| step_respond: "tm_step tm (Respond i res tm)"
| step_timer: "tm_step tm (fire_timer k tm)"
| step_cleanup: "branch \<in> set (tm_cleanups tm) \<Longrightarrow> tm_step tm (run_cleanup branch tm)"
| step_stop: "tm_step tm (TransactionManager_Stop tm)"

inductive tm_run :: "TransactionManager \<Rightarrow> bool" where
  tm_start: "tm_run NewTransactionManager"
| tm_next: "tm_run tm \<Longrightarrow> tm_step tm tm' \<Longrightarrow> tm_run tm'"

lemma tm_step_inv: "tm_step tm tm' \<Longrightarrow> tm_inv {} tm \<Longrightarrow> tm_inv {} tm'"
  by (induction rule: tm_step.induct)
    (auto intro: HandleRequest_inv HandleACK_inv Respond_inv fire_timer_inv Stop_inv tm_inv_forget simp: run_cleanup_def)

lemma tm_inv_new: "tm_inv {} NewTransactionManager"
  by (simp add: NewTransactionManager_def tm_inv_def)

lemma tm_run_inv: "tm_run tm \<Longrightarrow> tm_inv {} tm"
  by (induction rule: tm_run.induct) (auto intro: tm_inv_new tm_step_inv)




section \<open>States only move forward\<close>

fun tx_rank :: "server_tx \<Rightarrow> nat" where
  "tx_rank (IST tx) = (case it_state tx of ISTTrying \<Rightarrow> 0 | ISTProceeding \<Rightarrow> 1 | ISTCompleted \<Rightarrow> 2 | ISTConfirmed \<Rightarrow> 3 | ISTTerminated \<Rightarrow> 4)"
| "tx_rank (NIST tx) = (case nt_state tx of NISTTrying \<Rightarrow> 0 | NISTProceeding \<Rightarrow> 1 | NISTCompleted \<Rightarrow> 2 | NISTTerminated \<Rightarrow> 4)"

definition tx_le :: "server_tx \<Rightarrow> server_tx \<Rightarrow> bool" where
  "tx_le t t' \<longleftrightarrow> tx_branch t = tx_branch t' \<and> is_IST t = is_IST t' \<and> tx_rank t \<le> tx_rank t'"

definition heap_le :: "TransactionManager \<Rightarrow> TransactionManager \<Rightarrow> bool" where
  "heap_le tm tm' \<longleftrightarrow> (\<forall>i t. fmlookup (tm_txs tm) i = Some t \<longrightarrow> (\<exists>t'. fmlookup (tm_txs tm') i = Some t' \<and> tx_le t t'))"

lemma tx_le_refl [simp]: "tx_le t t"
  by (simp add: tx_le_def)

lemma tx_le_trans: "tx_le a b \<Longrightarrow> tx_le b c \<Longrightarrow> tx_le a c"
  by (simp add: tx_le_def)

lemma heap_le_refl: "tm_txs tm' = tm_txs tm \<Longrightarrow> heap_le tm tm'"
  by (simp add: heap_le_def)

lemma heap_le_trans: "heap_le a b \<Longrightarrow> heap_le b c \<Longrightarrow> heap_le a c"
  unfolding heap_le_def by (meson tx_le_trans)

lemma heap_le_upd: "tm_txs tm' = fmupd i t' (tm_txs tm) \<Longrightarrow> (\<And>t. fmlookup (tm_txs tm) i = Some t \<Longrightarrow> tx_le t t') \<Longrightarrow> heap_le tm tm'"
  by (auto simp: heap_le_def)

text \<open>What the primitive operations leave of the heap.\<close>

lemma heap_fields [simp]:
  "tm_txs (forget_branch b tm) = tm_txs tm" "tm_txs (forget_later b tm) = tm_txs tm" "tm_txs (run_cleanup b tm) = tm_txs tm"
  "tm_txs (Timer_Stop f tm) = tm_txs tm" "tm_txs (InviteTransaction_stopTimers tx tm) = tm_txs tm"
  "tm_txs (snd (AfterFunc i kd d tm)) = tm_txs tm" "tm_txs (no_transaction ev tr tm) = tm_txs tm"
  "tm_txs (handleRetransmission t tm) = tm_txs tm"
  by (auto simp: forget_branch_def forget_later_def run_cleanup_def Timer_Stop_def InviteTransaction_stopTimers_def AfterFunc_def
      no_transaction_def handleRetransmission_def split: option.splits server_tx.splits)

lemma AfterFunc_txs: "AfterFunc i kd d tm = (k, tm') \<Longrightarrow> tm_txs tm' = tm_txs tm"
  by (auto simp: AfterFunc_def)

lemma scheduleTimerG_txs: "\<exists>k. tm_txs (scheduleTimerG i tx tm) = fmupd i (IST (tx\<lparr>it_timerG := Some k\<rparr>)) (tm_txs tm)"
  by (auto simp: scheduleTimerG_def AfterFunc_def)

lemma startTimerG_txs: "\<exists>k. tm_txs (startTimerG i tx tm) = fmupd i (IST (tx\<lparr>it_gCount := 0, it_timerG := Some k\<rparr>)) (tm_txs tm)"
  using scheduleTimerG_txs [of i "tx\<lparr>it_gCount := 0\<rparr>" tm] by (simp add: startTimerG_def)

lemma rank_Completed: "it_state tx = ISTTrying \<or> it_state tx = ISTProceeding \<or> it_state tx = ISTCompleted \<Longrightarrow> tx_rank (IST tx) \<le> 2"
  by auto

lemma IST_Respond_le:
  assumes "fmlookup (tm_txs tm) i = Some (IST tx)"
  shows "heap_le tm (InviteTransaction_Respond i tx res tm)"
proof -
  define tx' where "tx' = tx\<lparr>it_lastResp := Some res, it_state := ISTCompleted\<rparr>"
  obtain k tm1 where a: "AfterFunc i TimerH (64 * T1) (send_msg (it_transport tx') (it_target tx') res tm) = (k, tm1)" by fastforce
  have t1: "tm_txs tm1 = tm_txs tm" using AfterFunc_txs [OF a] by simp
  obtain g where g: "tm_txs (startTimerG i (tx'\<lparr>it_timerH := Some k\<rparr>) tm1)
      = fmupd i (IST (tx'\<lparr>it_timerH := Some k, it_gCount := 0, it_timerG := Some g\<rparr>)) (tm_txs tm)"
    using startTimerG_txs [of i "tx'\<lparr>it_timerH := Some k\<rparr>" tm1] t1 by auto
  show ?thesis
  proof (cases "it_state tx")
    case ISTTerminated
    then show ?thesis by (simp add: InviteTransaction_Respond_def heap_le_refl)
  next
    case ISTConfirmed
    then show ?thesis by (simp add: InviteTransaction_Respond_def heap_le_refl)
  next
    case ISTCompleted
    then show ?thesis using assms
      by (auto simp: InviteTransaction_Respond_def Let_def heap_le_def tx_le_def)
  next
    case ISTTrying
    then show ?thesis using assms a t1 g
      by (auto simp: InviteTransaction_Respond_def Let_def heap_le_def tx_le_def tx'_def)
  next
    case ISTProceeding
    then show ?thesis using assms a t1 g
      by (auto simp: InviteTransaction_Respond_def Let_def heap_le_def tx_le_def tx'_def)
  qed
qed

lemma NIST_Respond_le:
  assumes "fmlookup (tm_txs tm) i = Some (NIST tx)"
  shows "heap_le tm (NonInviteTransaction_Respond i tx res tm)"
  using assms by (cases "nt_state tx")
    (auto simp: NonInviteTransaction_Respond_def Let_def AfterFunc_def heap_le_def tx_le_def split: if_splits)

lemma Respond_le: "heap_le tm (Respond i res tm)"
  by (auto simp: Respond_def IST_Respond_le NIST_Respond_le heap_le_refl split: option.splits server_tx.splits)

lemma ackReceived_le:
  assumes "fmlookup (tm_txs tm) i = Some (IST tx)"
  shows "heap_le tm (ackReceived i tx tm)"
  using assms by (auto simp: ackReceived_def Let_def AfterFunc_def heap_le_def tx_le_def)

lemma fire_timer_le: "heap_le tm (fire_timer k tm)"
proof (cases "fmlookup (tm_timers tm) k")
  case (Some t)
  let ?tm = "tm\<lparr>tm_timers := fmdrop k (tm_timers tm)\<rparr>"
  have G: "heap_le tm (fire_G i tx ?tm)" if i: "fmlookup (tm_txs tm) i = Some (IST tx)" for i tx
  proof -
    have "heap_le tm (scheduleTimerG i (tx\<lparr>it_gCount := n\<rparr>) (send_msg tr tgt res ?tm))" for n tr tgt res
      using scheduleTimerG_txs [of i "tx\<lparr>it_gCount := n\<rparr>" "send_msg tr tgt res ?tm"] i
      by (auto intro!: heap_le_upd simp: tx_le_def)
    then show ?thesis by (auto simp: fire_G_def heap_le_refl split: option.splits)
  qed
  have HIJ: "fmlookup (tm_txs tm) i = Some (IST tx) \<Longrightarrow> heap_le tm (fire_H i tx ?tm)"
    "fmlookup (tm_txs tm) i = Some (IST tx) \<Longrightarrow> heap_le tm (fire_I i tx ?tm)"
    "fmlookup (tm_txs tm) i = Some (NIST ntx) \<Longrightarrow> heap_le tm (fire_J i ntx ?tm)" for i tx ntx
    by (auto simp: fire_H_def fire_I_def fire_J_def heap_le_def tx_le_def Let_def split: ISTState.splits NISTState.splits)
  show ?thesis using Some
    by (auto simp: fire_timer_def Let_def G HIJ heap_le_refl split: option.splits server_tx.splits timer_kind.splits)
qed (simp add: fire_timer_def heap_le_refl)

lemma handleCancelRequest_le:
  assumes "fmlookup (tm_txs tm) i = Some t"
  shows "heap_le tm (fst (handleCancelRequest handler ev tr i t tm))"
proof (cases t)
  case (NIST x)
  then show ?thesis by (simp add: handleCancelRequest_def heap_le_refl)
next
  case (IST ist)
  have start: "heap_le tm (startTimerG i x tm')"
    if "tm_txs tm' = tm_txs tm" "it_branch x = it_branch ist" "it_state x = ISTCompleted"
      "it_state ist = ISTTrying \<or> it_state ist = ISTProceeding" for x tm'
    using startTimerG_txs [of i x tm'] that assms IST by (auto intro!: heap_le_upd simp: tx_le_def)
  have put: "heap_le tm (put_tx i (IST x) tm')"
    if "tm_txs tm' = tm_txs tm" "it_branch x = it_branch ist" "it_state x = it_state ist \<or> it_state x = ISTCompleted"
      "it_state ist = ISTTrying \<or> it_state ist = ISTProceeding" for x tm'
    using that assms IST by (intro heap_le_upd [of _ i "IST x"]) (auto simp: tx_le_def)
  show ?thesis
  proof (cases "it_state ist = ISTTrying \<or> it_state ist = ISTProceeding")
    case True
    then show ?thesis using IST
      by (simp add: handleCancelRequest_def Let_def split: prod.splits) (auto intro!: start put dest!: AfterFunc_txs)
  next
    case False
    then show ?thesis using IST by (auto simp: handleCancelRequest_def heap_le_refl split: option.splits)
  qed
qed

lemma HandleRequest_le:
  assumes "HandleRequest uni handler ev tr tm = Ok (tm', outcome)" and "tm_inv {} tm"
  shows "heap_le tm tm'"
proof -
  have fresh: "fmlookup (tm_txs tm) (tm_next tm) = None"
    using tm_inv_tx [OF assms(2), of "tm_next tm"] by (cases "fmlookup (tm_txs tm) (tm_next tm)") auto
  have c: "fmlookup (tm_txs tm) i = Some t \<Longrightarrow> handleCancelRequest handler ev tr i t tm = (tm', outcome) \<Longrightarrow> heap_le tm tm'" for i t ev
    using handleCancelRequest_le [of tm i t handler ev tr] by simp
  have new: "heap_le tm (put_tx (tm_next tm) t (tm\<lparr>tm_next := n\<rparr>)\<lparr>tm_serverTxs := m\<rparr>)" for t n m
    using fresh by (auto simp: heap_le_def)
  show ?thesis using assms c new
    by (auto simp: HandleRequest_def and_then_eq_Ok Let_def heap_le_refl split: if_splits option.splits)
qed

lemma HandleACK_le: "HandleACK uni ev tm = Ok tm' \<Longrightarrow> heap_le tm tm'"
  by (auto simp: HandleACK_def and_then_eq_Ok heap_le_refl ackReceived_le split: if_splits option.splits server_tx.splits)

lemma stop_tx_le: "heap_le tm (stop_tx i tm)"
  by (auto simp: stop_tx_def NonInviteTransaction_stopTimers_def Let_def heap_le_def tx_le_def split: option.splits server_tx.splits)

lemma Stop_le: "heap_le tm (TransactionManager_Stop tm)"
proof -
  have "heap_le tm (fold stop_tx is tm)" for "is" tm
    by (induction "is" arbitrary: tm) (auto simp: heap_le_refl intro: heap_le_trans stop_tx_le)
  then show ?thesis by (simp add: TransactionManager_Stop_def heap_le_def)
qed

lemma tm_step_le: "tm_step tm tm' \<Longrightarrow> tm_inv {} tm \<Longrightarrow> heap_le tm tm'"
  by (induction rule: tm_step.induct)
    (auto intro: HandleRequest_le HandleACK_le Respond_le fire_timer_le Stop_le heap_le_refl)

lemma tm_steps_run: "tm_step\<^sup>*\<^sup>* tm tm' \<Longrightarrow> tm_run tm \<Longrightarrow> tm_run tm'"
  by (induction rule: rtranclp_induct) (auto intro: tm_run.intros)



section \<open>Correctness of the transactions\<close>

lemma tm_steps_le: "tm_step\<^sup>*\<^sup>* tm tm' \<Longrightarrow> tm_run tm \<Longrightarrow> heap_le tm tm'"
proof (induction rule: rtranclp_induct)
  case (step y z)
  then show ?case using tm_step_le [of y z] tm_run_inv [OF tm_steps_run [OF step.hyps(1) step.prems]] by (blast intro: heap_le_trans)
qed (simp add: heap_le_refl)

text \<open>
  C21. Server transactions only move forward.  From any reachable state, whatever requests, ACKs, answers, timers and
  clean-ups follow and in whatever order, a transaction keeps its kind and its branch and its state never goes back in the
  order Trying, Proceeding, Completed, Confirmed, Terminated.
\<close>

theorem tx_state_monotone:
  assumes "tm_run tm" and "tm_step\<^sup>*\<^sup>* tm tm'" and "fmlookup (tm_txs tm) i = Some t"
  shows "\<exists>t'. fmlookup (tm_txs tm') i = Some t' \<and> tx_branch t' = tx_branch t \<and> is_IST t' = is_IST t \<and> tx_rank t \<le> tx_rank t'"
  using tm_steps_le [OF assms(2,1)] assms(3) by (fastforce simp: heap_le_def tx_le_def)

subsection \<open>Clean-up\<close>

fun awaiting_end :: "server_tx \<Rightarrow> bool" where
  "awaiting_end (IST tx) \<longleftrightarrow> (it_state tx = ISTCompleted \<or> it_state tx = ISTConfirmed) \<and> \<not> it_stopped tx"
| "awaiting_end (NIST tx) \<longleftrightarrow> nt_state tx = NISTCompleted \<and> \<not> nt_stopped tx"

fun terminated :: "server_tx \<Rightarrow> bool" where
  "terminated (IST tx) \<longleftrightarrow> it_state tx = ISTTerminated"
| "terminated (NIST tx) \<longleftrightarrow> nt_state tx = NISTTerminated"

lemma Timer_Stop_fields [simp]:
  "tm_serverTxs (Timer_Stop f tm) = tm_serverTxs tm" "tm_cleanups (Timer_Stop f tm) = tm_cleanups tm"
  "tm_sent (Timer_Stop f tm) = tm_sent tm"
  by (simp_all add: Timer_Stop_def split: option.splits)

lemma stopTimers_fields [simp]:
  "tm_serverTxs (InviteTransaction_stopTimers tx tm) = tm_serverTxs tm"
  "tm_cleanups (InviteTransaction_stopTimers tx tm) = tm_cleanups tm" "tm_sent (InviteTransaction_stopTimers tx tm) = tm_sent tm"
  by (simp_all add: InviteTransaction_stopTimers_def)

lemma forget_later_fields [simp]:
  "tm_serverTxs (forget_later b tm) = tm_serverTxs tm" "tm_cleanups (forget_later b tm) = b # tm_cleanups tm"
  "tm_sent (forget_later b tm) = tm_sent tm"
  by (simp_all add: forget_later_def)

lemma final_timer_fires:
  assumes "fmlookup (tm_timers tm) k = Some r" and "fmlookup (tm_txs tm) (tmr_tx r) = Some t" and "awaiting_end t"
    and "is_IST t \<longleftrightarrow> tmr_kind r \<noteq> TimerJ" and "tmr_kind r \<noteq> TimerG"
  shows "\<exists>t'. fmlookup (tm_txs (fire_timer k tm)) (tmr_tx r) = Some t' \<and> terminated t'"
    and "tx_branch t \<in> set (tm_cleanups (fire_timer k tm))" and "tm_sent (fire_timer k tm) = tm_sent tm"
  using assms
  by (cases t; cases "tmr_kind r"; simp add: fire_timer_def fire_H_def fire_I_def fire_J_def Let_def)+

lemma awaiting_end_armed:
  assumes "tm_inv {} tm" and "fmlookup (tm_txs tm) i = Some t" and "awaiting_end t"
  shows "\<exists>k r. fmlookup (tm_timers tm) k = Some r \<and> tmr_tx r = i \<and> tmr_kind r \<noteq> TimerG \<and> (is_IST t \<longleftrightarrow> tmr_kind r \<noteq> TimerJ)
    \<and> \<not> tmr_stopped r \<and> tmr_after r \<le> 64 * T1"
proof -
  have "tx_ok tm i t" using tm_inv_tx [OF assms(1,2)] by simp
  then have "\<exists>kd f. armed tm i kd f \<and> kd \<noteq> TimerG \<and> (is_IST t \<longleftrightarrow> kd \<noteq> TimerJ)" using assms(3) by (cases t) auto
  then show ?thesis unfolding armed_def by blast
qed

text \<open>
  C9. No answered transaction is left behind.  In every reachable state, a transaction that has its final response (an
  INVITE transaction in Completed or Confirmed, another one in Completed) and was not stopped by a shutdown has a
  pending, unstopped timer armed for at most \<open>64 * T1\<close>; its callback sends nothing, makes the transaction terminated and
  its clean-up is then due and takes the branch out of the table.
\<close>

theorem answered_tx_is_removed:
  assumes "tm_run tm" and "fmlookup (tm_txs tm) i = Some t" and "awaiting_end t"
  shows "\<exists>k r. fmlookup (tm_timers tm) k = Some r \<and> tmr_tx r = i \<and> \<not> tmr_stopped r \<and> tmr_after r \<le> 64 * T1
    \<and> (\<exists>t'. fmlookup (tm_txs (fire_timer k tm)) i = Some t' \<and> terminated t')
    \<and> tx_branch t \<in> set (tm_cleanups (fire_timer k tm)) \<and> tm_sent (fire_timer k tm) = tm_sent tm
    \<and> tm_step\<^sup>*\<^sup>* tm (run_cleanup (tx_branch t) (fire_timer k tm))
    \<and> tx_branch t |\<notin>| fmdom (tm_serverTxs (run_cleanup (tx_branch t) (fire_timer k tm)))"
proof -
  obtain k r where k: "fmlookup (tm_timers tm) k = Some r" "tmr_tx r = i" "tmr_kind r \<noteq> TimerG"
    "is_IST t \<longleftrightarrow> tmr_kind r \<noteq> TimerJ" "\<not> tmr_stopped r" "tmr_after r \<le> 64 * T1"
    using awaiting_end_armed [OF tm_run_inv [OF assms(1)] assms(2,3)] by blast
  have t: "fmlookup (tm_txs tm) (tmr_tx r) = Some t" using assms(2) k(2) by simp
  note f = final_timer_fires [OF k(1) t assms(3) k(4,3)]
  have "tm_step (fire_timer k tm) (run_cleanup (tx_branch t) (fire_timer k tm))" using f(2) by (rule step_cleanup)
  then have s: "tm_step\<^sup>*\<^sup>* tm (run_cleanup (tx_branch t) (fire_timer k tm))"
    using step_timer [of tm k] by (meson converse_rtranclp_into_rtranclp r_into_rtranclp)
  show ?thesis using k f s by (intro exI [of _ k] exI [of _ r]) (auto simp: run_cleanup_def forget_branch_def)
qed

subsection \<open>The handler sees a request once\<close>

definition last_final :: "server_tx \<Rightarrow> (transport_kind \<times> Target \<times> SIPMessage) list" where
  "last_final t = (case t of
     IST x \<Rightarrow> (case it_lastResp x of Some res \<Rightarrow> if it_state x = ISTCompleted then [(it_transport x, it_target x, res)] else [] | None \<Rightarrow> [])
   | NIST x \<Rightarrow> (case nt_lastResp x of Some res \<Rightarrow> if nt_state x = NISTCompleted then [(nt_transport x, nt_target x, res)] else [] | None \<Rightarrow> []))"

lemma handleRetransmission_eq: "handleRetransmission t tm = tm\<lparr>tm_sent := tm_sent tm @ last_final t\<rparr>"
  by (auto simp: handleRetransmission_def last_final_def send_msg_def split: server_tx.splits option.splits)

text \<open>
  C35. Requests are dispatched once and their retransmissions are absorbed.  Let a handler be registered and a request
  other than CANCEL arrive with a branch.  If the branch has no transaction, the handler is called with a new one, filed
  under the branch, and nothing is sent.  If it has one, the handler is not called, and all that happens is
  that the final response is sent again when the transaction is in Completed.
\<close>

theorem HandleRequest_absorbs_retransmissions:
  assumes "tm_run tm" and "SIPMessage_ViaBranch (uni_lower uni) (ev_Msg ev) = (Ok (branch, msg) :: (unit, _) go)" "branch \<noteq> []"
    and "SIPMessage_Method msg \<noteq> ''CANCEL''" and "SIPMessage_IsReliableTransport msg = (Ok (reliable, msg') :: (unit, _) go)"
  shows "case fmlookup (tm_serverTxs tm) branch of
      None \<Rightarrow> \<exists>tm'. HandleRequest uni True ev tr tm = (Ok (tm', Dispatched (tm_next tm)) :: (unit, _) go)
        \<and> tm_next tm |\<notin>| fmdom (tm_txs tm) \<and> fmlookup (tm_serverTxs tm') branch = Some (tm_next tm) \<and> tm_sent tm' = tm_sent tm
        \<and> fmlookup (tm_txs tm') (tm_next tm) = Some (new_server_tx (ev\<lparr>ev_Msg := msg'\<rparr>) tr branch reliable)
    | Some i \<Rightarrow> \<exists>t. fmlookup (tm_txs tm) i = Some t \<and> tx_branch t = branch
        \<and> HandleRequest uni True ev tr tm = (Ok (tm\<lparr>tm_sent := tm_sent tm @ last_final t\<rparr>, Absorbed) :: (unit, _) go)"
proof (cases "fmlookup (tm_serverTxs tm) branch")
  case None
  have "fmlookup (tm_txs tm) (tm_next tm) = None"
    using tm_inv_tx [OF tm_run_inv [OF assms(1)], of "tm_next tm"] by (cases "fmlookup (tm_txs tm) (tm_next tm)") auto
  then show ?thesis using assms(2-) None by (simp add: HandleRequest_def Let_def fmdom_notI)
next
  case (Some i)
  then obtain t where t: "fmlookup (tm_txs tm) i = Some t" "tx_branch t = branch"
    using tm_run_inv [OF assms(1)] by (auto simp: tm_inv_def)
  then show ?thesis using assms(2-) Some by (simp add: HandleRequest_def Let_def handleRetransmission_eq)
qed

subsection \<open>The retransmission interval\<close>

lemma backoff_exact: "n \<le> 34 \<Longrightarrow> backoff n = min (T1 * 2 ^ n) T2"
proof -
  assume n: "n \<le> 34"
  then have p: "(2::int) ^ n \<le> 2 ^ 34" by (intro power_increasing) simp_all
  have "push_bit n (word_of_int T1 :: 64 word) = word_of_int (T1 * 2 ^ n)" by (simp add: push_bit_eq_mult)
  moreover have "sint (word_of_int (T1 * 2 ^ n) :: 64 word) = T1 * 2 ^ n"
  proof -
    have "- (2 ^ 63) \<le> T1 * 2 ^ n" by (rule order_trans [of _ 0]) (simp_all add: T1_def)
    moreover have "T1 * 2 ^ n < 2 ^ 63" using p by (simp add: T1_def)
    ultimately show ?thesis by (subst sint_sbintrunc') (simp add: signed_take_bit_int_eq_self del: of_int_mult of_int_power)
  qed
  ultimately have "sint (push_bit n (word_of_int T1 :: 64 word)) = T1 * 2 ^ n" by simp
  then show ?thesis by (simp add: backoff_def Let_def)
qed

lemma backoff_overflows: "backoff 35 < 0"
  by code_simp


section \<open>Concrete runs\<close>

definition sample_branch :: string where "sample_branch = ''z9hG4bK1''"

definition sample_req :: "SIPMethod \<Rightarrow> MessageEvent" where
  "sample_req method = \<lparr>ev_Msg = (NewRequest method ''sip:b'')\<lparr>msg_branch := Some sample_branch, msg_reliable := Some False\<rparr>,
     ev_Target = \<lparr>tgt_Addr = Some (UDPAddr ''192.0.2.1'' 5060), tgt_Conn = None, tgt_FlowID = []\<rparr>\<rparr>"

definition sample_answer_to :: "SIPMethod \<Rightarrow> int \<Rightarrow> SIPMessage" where
  "sample_answer_to method sc = NewResponse (ev_Msg (sample_req method)) sc []"

definition no_unicode :: unicode_tables where "no_unicode = \<lparr>uni_lower = id, uni_upper = id\<rparr>"

definition request_state :: "SIPMethod \<Rightarrow> TransactionManager \<Rightarrow> TransactionManager" where
  "request_state method tm = (case HandleRequest no_unicode True (sample_req method) UDPTransport tm :: (unit, _) go of
     Ok (tm', _) \<Rightarrow> tm' | _ \<Rightarrow> tm)"

lemma sample_req_facts [simp]:
  "SIPMessage_ViaBranch f (ev_Msg (sample_req m)) = Ok (sample_branch, ev_Msg (sample_req m))"
  "SIPMessage_IsReliableTransport (ev_Msg (sample_req m)) = Ok (False, ev_Msg (sample_req m))"
  "SIPMessage_Method (ev_Msg (sample_req m)) = m" "sample_branch \<noteq> []" "(sample_req m)\<lparr>ev_Msg := ev_Msg (sample_req m)\<rparr> = sample_req m"
  "SIPMessage_StatusCode (sample_answer_to m sc) = sc"
  by (simp_all add: SIPMessage_ViaBranch_def SIPMessage_IsReliableTransport_def SIPMessage_Method_def sample_req_def NewRequest_def
      sample_branch_def sample_answer_to_def SIPMessage_StatusCode_def NewResponse_def)

lemma HandleRequest_sample_new:
  "m \<noteq> ''CANCEL'' \<Longrightarrow> fmlookup (tm_serverTxs tm) sample_branch = None \<Longrightarrow>
   HandleRequest no_unicode True (sample_req m) UDPTransport tm = Ok
     ((put_tx (tm_next tm) (new_server_tx (sample_req m) UDPTransport sample_branch False) (tm\<lparr>tm_next := Suc (tm_next tm)\<rparr>))
        \<lparr>tm_serverTxs := fmupd sample_branch (tm_next tm) (tm_serverTxs tm)\<rparr>, Dispatched (tm_next tm))"
  by (simp add: HandleRequest_def Let_def)

lemma request_state_run: "tm_run tm \<Longrightarrow> tm_run (request_state m tm)"
  by (cases "HandleRequest no_unicode True (sample_req m) UDPTransport tm :: (unit, _) go")
    (auto simp: request_state_def intro: tm_run.intros step_request split: prod.splits)

definition sample_options_run :: TransactionManager where
  "sample_options_run = Respond 0 (sample_answer_to ''OPTIONS'' 200) (request_state ''OPTIONS'' NewTransactionManager)"

lemma sample_options_run: "tm_run sample_options_run"
  unfolding sample_options_run_def by (rule tm_next [OF request_state_run [OF tm_start] step_respond])

lemmas tx_eval = HandleRequest_sample_new request_state_def NewTransactionManager_def Respond_def new_server_tx_def
  NonInviteTransaction_Respond_def InviteTransaction_Respond_def startTimerG_def scheduleTimerG_def AfterFunc_def forget_branch_def
  Let_def

definition sample_nist :: NonInviteTransaction where
  "sample_nist = \<lparr>nt_transport = UDPTransport, nt_lastResp = Some (sample_answer_to ''OPTIONS'' 200), nt_timerJ = Some 1,
     nt_target = ev_Target (sample_req ''OPTIONS''), nt_branch = sample_branch, nt_method = ''OPTIONS'', nt_state = NISTCompleted,
     nt_reliable = False, nt_stopped = False\<rparr>"

lemma sample_options_tx:
  "fmlookup (tm_txs sample_options_run) 0 = Some (NIST sample_nist)" "fmlookup (tm_serverTxs sample_options_run) sample_branch = Some 0"
  by (simp_all add: sample_options_run_def tx_eval sample_nist_def)

theorem tx_state_monotone_witness:
  "\<exists>t'. fmlookup (tm_txs (fire_timer 1 sample_options_run)) 0 = Some t' \<and> tx_branch t' = sample_branch \<and> \<not> is_IST t' \<and> 2 \<le> tx_rank t'"
  using tx_state_monotone [OF sample_options_run r_into_rtranclp [of tm_step, OF step_timer] sample_options_tx(1), of 1]
  by (simp add: sample_nist_def)

theorem answered_tx_is_removed_witness:
  "\<exists>k r. fmlookup (tm_timers sample_options_run) k = Some r \<and> tmr_tx r = 0 \<and> tmr_after r \<le> 32000000000
    \<and> sample_branch |\<notin>| fmdom (tm_serverTxs (run_cleanup sample_branch (fire_timer k sample_options_run)))"
  using answered_tx_is_removed [OF sample_options_run sample_options_tx(1)]
  by (simp add: sample_nist_def T1_def) blast

theorem HandleRequest_absorbs_retransmissions_witness:
  "HandleRequest no_unicode True (sample_req ''OPTIONS'') UDPTransport sample_options_run
   = (Ok (sample_options_run\<lparr>tm_sent := tm_sent sample_options_run @ last_final (NIST sample_nist)\<rparr>, Absorbed) :: (unit, _) go)
   \<and> last_final (NIST sample_nist) = [(UDPTransport, ev_Target (sample_req ''OPTIONS''), sample_answer_to ''OPTIONS'' 200)]"
  using HandleRequest_absorbs_retransmissions [OF sample_options_run, of no_unicode "sample_req ''OPTIONS''" sample_branch
      "ev_Msg (sample_req ''OPTIONS'')" False "ev_Msg (sample_req ''OPTIONS'')" UDPTransport]
  by (simp add: sample_options_tx) (simp add: last_final_def sample_nist_def)

text \<open>
  An INVITE refused with 486 and then, by a handler that won a race, accepted with 200: the second answer is sent and removes
  the branch at once, but timer H of the refusal stays armed.
\<close>

definition sample_invite_run :: TransactionManager where
  "sample_invite_run = request_state ''INVITE''
     (Respond 0 (sample_answer_to ''INVITE'' 200) (Respond 0 (sample_answer_to ''INVITE'' 486) (request_state ''INVITE'' NewTransactionManager)))"

lemma sample_invite_run: "tm_run sample_invite_run"
  unfolding sample_invite_run_def
  by (intro request_state_run tm_next [OF tm_next [OF request_state_run [OF tm_start] step_respond] step_respond])

lemma sample_invite_state:
  "fmlookup (tm_serverTxs sample_invite_run) sample_branch = Some 3"
  "fmlookup (tm_txs sample_invite_run) 3 = Some (new_server_tx (sample_req ''INVITE'') UDPTransport sample_branch False)"
  "fmlookup (tm_timers sample_invite_run) 1 = Some \<lparr>tmr_tx = 0, tmr_kind = TimerH, tmr_after = 64 * T1, tmr_stopped = False\<rparr>"
  by (simp_all add: sample_invite_run_def tx_eval)

text \<open>
  C36. A defect: stale timers reach newer transactions.  There is a reachable state in which a branch is filed under a
  transaction that is still Trying, unanswered and without any timer of its own, and in which the callback of a timer
  of another, terminated transaction with the same branch takes the entry out of the table.  The next copy of the INVITE is
  then dispatched to the handler a second time while the first is still unanswered.
\<close>

theorem stale_timer_drops_live_tx:
  "\<exists>tm k. tm_run tm \<and> fmlookup (tm_serverTxs tm) sample_branch = Some 3
     \<and> (\<exists>t. fmlookup (tm_txs tm) 3 = Some t \<and> tx_rank t = 0) \<and> 3 \<notin> tmr_tx ` fmran' (tm_timers tm)
     \<and> (let tm' = run_cleanup sample_branch (fire_timer k tm) in
          tm_step\<^sup>*\<^sup>* tm tm' \<and> (\<exists>t. fmlookup (tm_txs tm') 3 = Some t \<and> tx_rank t = 0)
          \<and> (\<exists>tm'' i. HandleRequest no_unicode True (sample_req ''INVITE'') UDPTransport tm' = (Ok (tm'', Dispatched i) :: (unit, _) go)))"
proof -
  let ?tm = sample_invite_run
  let ?tm' = "run_cleanup sample_branch (fire_timer 1 ?tm)"
  have 0: "\<exists>x. fmlookup (tm_txs ?tm) 0 = Some (IST x) \<and> \<not> it_stopped x \<and> it_branch x = sample_branch"
    by (simp add: sample_invite_run_def tx_eval)
  then have c: "sample_branch \<in> set (tm_cleanups (fire_timer 1 ?tm))"
    and 3: "fmlookup (tm_txs ?tm') 3 = fmlookup (tm_txs ?tm) 3"
    using sample_invite_state(3) by (auto simp: fire_timer_def fire_H_def Let_def)
  have s: "tm_step\<^sup>*\<^sup>* ?tm ?tm'"
    using step_timer [of ?tm 1] step_cleanup [OF c] by (meson converse_rtranclp_into_rtranclp r_into_rtranclp)
  have "fmlookup (tm_serverTxs ?tm') sample_branch = None" by (simp add: run_cleanup_def forget_branch_def)
  then have d: "\<exists>tm'' i. HandleRequest no_unicode True (sample_req ''INVITE'') UDPTransport ?tm' = (Ok (tm'', Dispatched i) :: (unit, _) go)"
    by (simp add: HandleRequest_sample_new)
  have r: "fmlookup (tm_timers ?tm) k = Some r \<Longrightarrow> tmr_tx r \<noteq> 3" for k r
    by (auto simp: sample_invite_run_def tx_eval split: if_splits)
  then have r: "3 \<notin> tmr_tx ` fmran' (tm_timers ?tm)" by (metis fmran'E imageE)
  show ?thesis
    by (rule exI [of _ ?tm], rule exI [of _ 1])
      (use s d r 3 sample_invite_run sample_invite_state in \<open>auto simp: Let_def new_server_tx_def\<close>)
qed


end
