(* ===== verification/Reliable.thy ===== *)
theory Reliable
  imports Transaction
begin

text \<open>
  Reliable provisional responses: \<^verbatim>\<open>internal/sip/reliable.go\<close>.  Pending responses are objects that the table and the
  timer callbacks share, so the manager is a table from Call-ID to object, the objects, and the pending timers.  A callback that
  was stopped too late may still run, as in \<^verbatim>\<open>Transaction\<close>.  The function to call on a timeout is a number that the caller
  interprets.
\<close>

section \<open>Fields\<close>

text \<open>\<^verbatim>\<open>strings.Fields\<close>: the maximal runs without white space.\<close>

function fields_from :: "string \<Rightarrow> string \<Rightarrow> string list" where
  "fields_from cur s = (let word = (if cur = [] then [] else [rev cur]) in
     case s of [] \<Rightarrow> word
     | c # rest \<Rightarrow> (case find (\<lambda>w. w \<noteq> [] \<and> HasPrefix s w) space_encodings of
         Some w \<Rightarrow> word @ fields_from [] (drop (length w) s)
       | None \<Rightarrow> fields_from (c # cur) rest))"
  by pat_completeness auto
termination
  by (relation "measure (\<lambda>(cur, s). length s)") (auto simp: find_Some_iff)

declare fields_from.simps [simp del]

definition Fields :: "string \<Rightarrow> string list" where
  "Fields s = fields_from [] s"

section \<open>State\<close>

record pendingReliable =
  pr_callID :: string
  pr_rseqsSent :: "int fset"
  pr_latestRSeq :: int
  pr_latestResp :: "SIPMessage option"
  pr_timer :: "nat option"
  pr_retxC :: nat
  pr_transport :: "transport_kind option"
  pr_target :: Target
  pr_done :: bool
  pr_onTimeout :: "nat option"
  pr_counter :: int
  pr_cseq :: int
  pr_method :: string

record reliable_timer =
  rt_pr :: nat
  rt_after :: int
  rt_stopped :: bool

record ReliableProvisionalManager =
  pm_pending :: "(string, nat) fmap"
  pm_objects :: "(nat, pendingReliable) fmap"
  pm_timers :: "(nat, reliable_timer) fmap"
  pm_next :: nat

definition NewReliableProvisionalManager :: ReliableProvisionalManager where
  "NewReliableProvisionalManager = \<lparr>pm_pending = fmempty, pm_objects = fmempty, pm_timers = fmempty, pm_next = 0\<rparr>"

definition put_pr :: "nat \<Rightarrow> pendingReliable \<Rightarrow> ReliableProvisionalManager \<Rightarrow> ReliableProvisionalManager" where
  "put_pr i pr m = m\<lparr>pm_objects := fmupd i pr (pm_objects m)\<rparr>"

definition pr_stopTimer :: "nat \<Rightarrow> pendingReliable \<Rightarrow> ReliableProvisionalManager \<Rightarrow> pendingReliable \<times> ReliableProvisionalManager" where
  "pr_stopTimer i pr m = (case pr_timer pr of
     None \<Rightarrow> (pr, m)
   | Some k \<Rightarrow>
       (let pr = pr\<lparr>pr_timer := None\<rparr>; m = put_pr i pr m in
        (pr, case fmlookup (pm_timers m) k of None \<Rightarrow> m
             | Some t \<Rightarrow> m\<lparr>pm_timers := fmupd k (t\<lparr>rt_stopped := True\<rparr>) (pm_timers m)\<rparr>)))"

definition scheduleRetransmit :: "nat \<Rightarrow> pendingReliable \<Rightarrow> ReliableProvisionalManager \<Rightarrow> ReliableProvisionalManager" where
  "scheduleRetransmit i pr m =
     (let k = pm_next m
      in put_pr i (pr\<lparr>pr_timer := Some k\<rparr>) (m\<lparr>pm_timers := fmupd k \<lparr>rt_pr = i, rt_after = backoff (pr_retxC pr), rt_stopped = False\<rparr> (pm_timers m),
        pm_next := Suc k\<rparr>))"

section \<open>Operations\<close>

fun tx_transport :: "server_tx \<Rightarrow> transport_kind" where
  "tx_transport (IST t) = it_transport t"
| "tx_transport (NIST t) = nt_transport t"

fun tx_target :: "server_tx \<Rightarrow> Target" where
  "tx_target (IST t) = it_target t"
| "tx_target (NIST t) = nt_target t"

definition new_pending :: "server_tx \<Rightarrow> SIPMessage \<Rightarrow> string \<Rightarrow> nat option \<Rightarrow> pendingReliable" where
  "new_pending t res callID onTimeout =
     \<lparr>pr_callID = callID, pr_rseqsSent = {||}, pr_latestRSeq = 0, pr_latestResp = None, pr_timer = None, pr_retxC = 0,
      pr_transport = Some (tx_transport t), pr_target = tx_target t, pr_done = False, pr_onTimeout = onTimeout, pr_counter = 0,
      pr_cseq = cseq_Seq (msg_CSeq res), pr_method = cseq_Method (msg_CSeq res)\<rparr>"

definition SendReliable ::
  "nat \<Rightarrow> SIPMessage \<Rightarrow> string \<Rightarrow> nat option \<Rightarrow> ReliableProvisionalManager \<times> TransactionManager
   \<Rightarrow> ('e, ReliableProvisionalManager \<times> TransactionManager) go" where
  "SendReliable tx res callID onTimeout = (\<lambda>(m, tm). case fmlookup (tm_txs tm) tx of
     None \<Rightarrow> Panic
   | Some t \<Rightarrow>
       let (i, pr, m) = (case fmlookup (pm_pending m) callID of
              Some i \<Rightarrow> (i, the (fmlookup (pm_objects m) i), m)
            | None \<Rightarrow> (let i = pm_next m; pr = new_pending t res callID onTimeout
                in (i, pr, put_pr i pr (m\<lparr>pm_pending := fmupd callID i (pm_pending m), pm_next := Suc i\<rparr>))));
           rseq = pr_counter pr + 1;
           hs = SIPHeaders_Add (SIPHeaders_Set (msg_Headers res) ''RSeq'' [Itoa rseq]) ''Require'' ''100rel'';
           res = res\<lparr>msg_Headers := hs\<rparr>;
           pr = pr\<lparr>pr_counter := rseq, pr_rseqsSent := finsert rseq (pr_rseqsSent pr), pr_latestRSeq := rseq, pr_done := False,
             pr_latestResp := Some res\<rparr>;
           tm = Respond tx res tm;
           (pr, m) = pr_stopTimer i pr m
       in Ok (scheduleRetransmit i (pr\<lparr>pr_retxC := 0\<rparr>) m, tm))"

text \<open>The answer to a PRACK and the state after it.\<close>

definition bad_request :: "SIPMessage \<Rightarrow> SIPMessage" where
  "bad_request prack = NewResponse prack 400 ''Bad Request''"

definition no_such_call :: "SIPMessage \<Rightarrow> SIPMessage" where
  "no_such_call prack = NewResponse prack 481 ''Call/Transaction Does Not Exist''"

definition ok_response :: "SIPMessage \<Rightarrow> SIPMessage" where
  "ok_response prack = (let res = NewResponse prack 200 ''OK''
     in res\<lparr>msg_Headers := SIPHeaders_Set (msg_Headers res) ''Content-Length'' [''0'']\<rparr>)"

definition match_prack ::
  "SIPMessage \<Rightarrow> string \<Rightarrow> int \<Rightarrow> int \<Rightarrow> string \<Rightarrow> ReliableProvisionalManager \<Rightarrow> ReliableProvisionalManager \<times> SIPMessage" where
  "match_prack prack callID rseq rackCSeq rackMethod m =
     (case fmlookup (pm_pending m) callID of
        None \<Rightarrow> (m, no_such_call prack)
      | Some i \<Rightarrow>
          let pr = the (fmlookup (pm_objects m) i) in
          if pr_done pr then (m, no_such_call prack)
          else if rseq |\<notin>| pr_rseqsSent pr then (m, no_such_call prack)
          else if rackCSeq \<noteq> pr_cseq pr \<or> \<not> EqualFold rackMethod (pr_method pr) then (m, no_such_call prack)
          else
            let pr = pr\<lparr>pr_rseqsSent := pr_rseqsSent pr |-| {|rseq|}\<rparr>; m = put_pr i pr m
            in (if rseq = pr_latestRSeq pr then snd (pr_stopTimer i pr m) else m, ok_response prack))"

definition prack_answer :: "SIPMessage \<Rightarrow> ReliableProvisionalManager \<Rightarrow> ('e, ReliableProvisionalManager \<times> SIPMessage) go" where
  "prack_answer prack m =
     and_then (SIPHeaders_GetFirst (msg_Headers prack) ''Call-ID'') (\<lambda>callID.
     if callID = [] then Ok (m, bad_request prack)
     else and_then (SIPHeaders_GetFirst (msg_Headers prack) ''RAck'') (\<lambda>rackStr.
       if rackStr = [] then Ok (m, bad_request prack)
       else case Fields rackStr of
         p0 # p1 # rackMethod # _ \<Rightarrow>
           (case Atoi p0 of None \<Rightarrow> Ok (m, bad_request prack)
            | Some rseq \<Rightarrow> (case Atoi p1 of None \<Rightarrow> Ok (m, bad_request prack)
              | Some rackCSeq \<Rightarrow> Ok (match_prack prack callID rseq rackCSeq rackMethod m)))
       | _ \<Rightarrow> Ok (m, bad_request prack)))"

definition Reliable_HandlePRACK ::
  "SIPMessage \<Rightarrow> nat \<Rightarrow> ReliableProvisionalManager \<times> TransactionManager \<Rightarrow> ('e, ReliableProvisionalManager \<times> TransactionManager) go" where
  "Reliable_HandlePRACK prack tx = (\<lambda>(m, tm).
     and_then (prack_answer prack m) (\<lambda>(m, res). Ok (m, Respond tx res tm)))"

definition Reliable_Cancel :: "string \<Rightarrow> ReliableProvisionalManager \<Rightarrow> ReliableProvisionalManager" where
  "Reliable_Cancel callID m = (case fmlookup (pm_pending m) callID of
     None \<Rightarrow> m
   | Some i \<Rightarrow>
       let pr = (the (fmlookup (pm_objects m) i))\<lparr>pr_done := True\<rparr>; (_, m) = pr_stopTimer i pr (put_pr i pr m)
       in m\<lparr>pm_pending := fmdrop callID (pm_pending m)\<rparr>)"

text \<open>The callback of timer \<open>k\<close>: what it sends, and the timeout function it calls.\<close>

definition retransmit ::
  "nat \<Rightarrow> pendingReliable \<Rightarrow> ReliableProvisionalManager
   \<Rightarrow> ReliableProvisionalManager \<times> (transport_kind \<times> Target \<times> SIPMessage) list \<times> nat option" where
  "retransmit i pr m =
     (if pr_done pr then (m, [], None)
      else
        let pr = pr\<lparr>pr_retxC := Suc (pr_retxC pr)\<rparr> in
        if 7 \<le> pr_retxC pr then
          ((put_pr i (pr\<lparr>pr_done := True\<rparr>) m)\<lparr>pm_pending := fmdrop (pr_callID pr) (pm_pending m)\<rparr>, [], pr_onTimeout pr)
        else case pr_transport pr of
          None \<Rightarrow> (put_pr i pr m, [], None)
        | Some tr \<Rightarrow> (scheduleRetransmit i pr m,
            (case pr_latestResp pr of None \<Rightarrow> [] | Some res \<Rightarrow> [(tr, pr_target pr, res)]), None))"

definition fire_reliable ::
  "nat \<Rightarrow> ReliableProvisionalManager \<Rightarrow> ReliableProvisionalManager \<times> (transport_kind \<times> Target \<times> SIPMessage) list \<times> nat option" where
  "fire_reliable k m = (case fmlookup (pm_timers m) k of
     None \<Rightarrow> (m, [], None)
   | Some t \<Rightarrow>
       let m = m\<lparr>pm_timers := fmdrop k (pm_timers m)\<rparr> in
       (case fmlookup (pm_objects m) (rt_pr t) of None \<Rightarrow> (m, [], None) | Some pr \<Rightarrow> retransmit (rt_pr t) pr m))"



section \<open>Acknowledgement\<close>

lemma StatusCode_NewResponse [simp]: "SIPMessage_StatusCode (NewResponse req sc reason) = sc"
  by (simp add: SIPMessage_StatusCode_def NewResponse_def)

lemma StatusCode_update [simp]:
  "SIPMessage_StatusCode (m\<lparr>msg_Headers := hs\<rparr>) = SIPMessage_StatusCode m" "SIPMessage_StatusCode (m\<lparr>msg_Body := b\<rparr>) = SIPMessage_StatusCode m"
  "SIPMessage_StatusCode (m\<lparr>msg_CSeq := c\<rparr>) = SIPMessage_StatusCode m"
  by (simp_all add: SIPMessage_StatusCode_def)

lemma answer_codes [simp]:
  "SIPMessage_StatusCode (bad_request p) = 400" "SIPMessage_StatusCode (no_such_call p) = 481" "SIPMessage_StatusCode (ok_response p) = 200"
  by (simp_all add: bad_request_def no_such_call_def ok_response_def Let_def)

lemma put_pr_fields [simp]:
  "pm_pending (put_pr i pr m) = pm_pending m" "pm_objects (put_pr i pr m) = fmupd i pr (pm_objects m)"
  "pm_timers (put_pr i pr m) = pm_timers m" "pm_next (put_pr i pr m) = pm_next m"
  by (simp_all add: put_pr_def)

lemma pr_stopTimer_fields:
  assumes "pr_stopTimer i pr m = (pr', m')"
  shows "pm_pending m' = pm_pending m" "pr' = pr\<lparr>pr_timer := None\<rparr>" "pm_next m' = pm_next m"
    "fmlookup (pm_objects m) i = Some pr \<Longrightarrow> fmlookup (pm_objects m') i = Some pr'"
  using assms by (auto simp: pr_stopTimer_def Let_def split: option.splits)

lemma match_prack_twice:
  assumes "match_prack prack callID rseq c meth m = (m', res)" and "SIPMessage_StatusCode res = 200"
  shows "match_prack prack callID rseq c meth m' = (m', no_such_call prack)"
proof -
  obtain i where i: "fmlookup (pm_pending m) callID = Some i" using assms by (auto simp: match_prack_def split: option.splits)
  define pr where "pr = (the (fmlookup (pm_objects m) i))\<lparr>pr_rseqsSent := pr_rseqsSent (the (fmlookup (pm_objects m) i)) |-| {|rseq|}\<rparr>"
  have m': "m' = (if rseq = pr_latestRSeq pr then snd (pr_stopTimer i pr (put_pr i pr m)) else put_pr i pr m)"
    using assms i by (auto simp: match_prack_def Let_def pr_def split: if_splits)
  obtain q where q: "fmlookup (pm_objects m') i = Some q" "pr_rseqsSent q = pr_rseqsSent pr" "pm_pending m' = pm_pending m"
  proof (cases "rseq = pr_latestRSeq pr")
    case True
    obtain a b where st: "pr_stopTimer i pr (put_pr i pr m) = (a, b)" by fastforce
    show ?thesis using that pr_stopTimer_fields [OF st] m' True st by simp
  next
    case False
    then show ?thesis using that m' by simp
  qed
  have "rseq |\<notin>| pr_rseqsSent q" by (simp add: q pr_def)
  then show ?thesis using q i by (simp add: match_prack_def Let_def)
qed

text \<open>
  C11. A provisional response is acknowledged once: a PRACK that is answered 200 takes its RSeq out of the set of
  outstanding ones, and the same PRACK, when it comes again, is answered 481 and changes nothing.
\<close>
theorem prack_accepted_once:
  assumes "prack_answer prack m = (Ok (m', res) :: ('e, _) go)" and "SIPMessage_StatusCode res = 200"
  shows "prack_answer prack m' = (Ok (m', no_such_call prack) :: ('e, _) go)"
proof -
  have refused: "SIPMessage_StatusCode r = 400 \<Longrightarrow> Ok (m, r) \<noteq> (Ok (m', res) :: ('e, _) go)" for r using assms(2) by auto
  obtain callID rackStr where h: "SIPHeaders_GetFirst (msg_Headers prack) ''Call-ID'' = (Ok callID :: ('e, _) go)" "callID \<noteq> []"
      "SIPHeaders_GetFirst (msg_Headers prack) ''RAck'' = (Ok rackStr :: ('e, _) go)" "rackStr \<noteq> []"
    using assms(1) refused by (auto simp: prack_answer_def and_then_eq_Ok split: if_splits)
  obtain p0 p1 meth ps where f: "Fields rackStr = p0 # p1 # meth # ps"
    using assms(1) refused h by (auto simp: prack_answer_def split: list.splits)
  obtain rseq c where a: "Atoi p0 = Some rseq" "Atoi p1 = Some c"
    using assms(1) refused h f by (auto simp: prack_answer_def split: option.splits)
  have "match_prack prack callID rseq c meth m = (m', res)" using assms(1) h f a by (simp add: prack_answer_def)
  from match_prack_twice [OF this assms(2)] show ?thesis using h f a by (simp add: prack_answer_def)
qed

section \<open>Retransmission\<close>

text \<open>The timer of an object fires \<open>n\<close> times with nothing else happening: the intervals waited, what is sent, what is called.\<close>

fun wait_out ::
  "nat \<Rightarrow> nat \<Rightarrow> ReliableProvisionalManager
   \<Rightarrow> ReliableProvisionalManager \<times> int list \<times> (transport_kind \<times> Target \<times> SIPMessage) list \<times> nat list" where
  "wait_out 0 i m = (m, [], [], [])"
| "wait_out (Suc n) i m = (case fmlookup (pm_objects m) i of
     None \<Rightarrow> (m, [], [], [])
   | Some pr \<Rightarrow> (case pr_timer pr of
       None \<Rightarrow> (m, [], [], [])
     | Some k \<Rightarrow>
         let (m', sent, call) = fire_reliable k m; (m'', ds, sents, calls) = wait_out n i m'
         in (m'', (case fmlookup (pm_timers m) k of Some t \<Rightarrow> [rt_after t] | None \<Rightarrow> []) @ ds, sent @ sents,
             (case call of Some c \<Rightarrow> [c] | None \<Rightarrow> []) @ calls)))"

definition waiting :: "nat \<Rightarrow> nat \<Rightarrow> pendingReliable \<Rightarrow> ReliableProvisionalManager \<Rightarrow> bool" where
  "waiting i c pr m \<longleftrightarrow> (\<exists>k. fmlookup (pm_objects m) i = Some (pr\<lparr>pr_retxC := c, pr_timer := Some k\<rparr>)
     \<and> fmlookup (pm_timers m) k = Some \<lparr>rt_pr = i, rt_after = backoff c, rt_stopped = False\<rparr>
     \<and> fmlookup (pm_pending m) (pr_callID pr) = Some i)"

lemma waiting_fires:
  assumes "waiting i c pr m" and "\<not> pr_done pr" and "pr_transport pr = Some tr" and "pr_latestResp pr = Some res" and "c < 6"
  shows "\<exists>m'. wait_out (Suc n) i m =
     (let (m'', ds, sents, calls) = wait_out n i m' in (m'', backoff c # ds, (tr, pr_target pr, res) # sents, calls)) \<and>
     waiting i (Suc c) pr m'"
proof -
  obtain k where k: "fmlookup (pm_objects m) i = Some (pr\<lparr>pr_retxC := c, pr_timer := Some k\<rparr>)"
      "fmlookup (pm_timers m) k = Some \<lparr>rt_pr = i, rt_after = backoff c, rt_stopped = False\<rparr>"
      "fmlookup (pm_pending m) (pr_callID pr) = Some i"
    using assms(1) by (auto simp: waiting_def)
  define m0 where "m0 = m\<lparr>pm_timers := fmdrop k (pm_timers m)\<rparr>"
  define m' where "m' = scheduleRetransmit i (pr\<lparr>pr_timer := Some k, pr_retxC := Suc c\<rparr>) m0"
  have "fire_reliable k m = (m', [(tr, pr_target pr, res)], None)"
    using k assms(2-5) by (simp add: fire_reliable_def retransmit_def Let_def m'_def m0_def)
  moreover have "waiting i (Suc c) pr m'"
    using k(3) by (auto simp: waiting_def m'_def scheduleRetransmit_def Let_def m0_def intro!: exI [of _ "pm_next m"])
  ultimately show ?thesis using k by (intro exI [of _ m']) (simp add: Let_def split: prod.splits)
qed

lemma waiting_gives_up:
  assumes "waiting i 6 pr m" and "\<not> pr_done pr"
  shows "\<exists>m'. wait_out (Suc 0) i m = (m', [backoff 6], [], case pr_onTimeout pr of Some c \<Rightarrow> [c] | None \<Rightarrow> []) \<and>
     fmlookup (pm_pending m') (pr_callID pr) = None"
proof -
  obtain k where k: "fmlookup (pm_objects m) i = Some (pr\<lparr>pr_retxC := 6, pr_timer := Some k\<rparr>)"
      "fmlookup (pm_timers m) k = Some \<lparr>rt_pr = i, rt_after = backoff 6, rt_stopped = False\<rparr>"
    using assms(1) by (auto simp: waiting_def)
  let ?m = "(put_pr i (pr\<lparr>pr_timer := Some k, pr_retxC := 7, pr_done := True\<rparr>) (m\<lparr>pm_timers := fmdrop k (pm_timers m)\<rparr>))
    \<lparr>pm_pending := fmdrop (pr_callID pr) (pm_pending m)\<rparr>"
  have "fire_reliable k m = (?m, [], pr_onTimeout pr)" using k assms(2) by (simp add: fire_reliable_def retransmit_def Let_def)
  then show ?thesis using k by (intro exI [of _ ?m]) simp
qed

lemma SendReliable_waiting:
  assumes "SendReliable tx res callID cb (m, tm) = Ok (m1, tm1)" and "fmlookup (pm_pending m) callID = None"
  obtains t pr where "fmlookup (tm_txs tm) tx = Some t" "waiting (pm_next m) 0 pr m1" "\<not> pr_done pr" "pr_transport pr = Some (tx_transport t)"
    "pr_target pr = tx_target t" "pr_onTimeout pr = cb" "pr_callID pr = callID"
    "pr_latestResp pr = Some (res\<lparr>msg_Headers := SIPHeaders_Add (SIPHeaders_Set (msg_Headers res) ''RSeq'' [''1'']) ''Require'' ''100rel''\<rparr>)"
proof -
  obtain t where t: "fmlookup (tm_txs tm) tx = Some t" using assms(1) by (auto simp: SendReliable_def split: option.splits)
  let ?res = "res\<lparr>msg_Headers := SIPHeaders_Add (SIPHeaders_Set (msg_Headers res) ''RSeq'' [''1'']) ''Require'' ''100rel''\<rparr>"
  let ?pr = "(new_pending t res callID cb)\<lparr>pr_counter := 1, pr_rseqsSent := {|1|}, pr_latestRSeq := 1, pr_done := False, pr_latestResp := Some ?res\<rparr>"
  have one: "Itoa 1 = ''1''" by code_simp
  have "waiting (pm_next m) 0 ?pr m1"
    using assms t by (auto simp: SendReliable_def Let_def pr_stopTimer_def new_pending_def waiting_def scheduleRetransmit_def one)
  then show ?thesis using t by (intro that [of t ?pr]) (simp_all add: new_pending_def)
qed

lemma waiting_run:
  assumes "waiting i c pr m" and "\<not> pr_done pr" and "pr_transport pr = Some tr" and "pr_latestResp pr = Some res" and "c + n = 6"
  shows "\<exists>m'. wait_out (Suc n) i m =
     (m', map backoff [c..<7], replicate n (tr, pr_target pr, res), case pr_onTimeout pr of Some c \<Rightarrow> [c] | None \<Rightarrow> []) \<and>
     fmlookup (pm_pending m') (pr_callID pr) = None"
  using assms
proof (induction n arbitrary: c m)
  case 0
  then show ?case using waiting_gives_up [of i pr m] by simp
next
  case (Suc n)
  then obtain m1 where m1: "wait_out (Suc (Suc n)) i m =
     (let (m'', ds, sents, calls) = wait_out (Suc n) i m1 in (m'', backoff c # ds, (tr, pr_target pr, res) # sents, calls))"
     "waiting i (Suc c) pr m1"
    using waiting_fires [of i c pr m tr res "Suc n"] by auto
  have "[c..<7] = c # [Suc c..<7]" using Suc.prems(5) by (simp add: upt_rec)
  then show ?case using Suc.IH [OF m1(2)] Suc.prems m1(1) by auto
qed

text \<open>
  C16. A reliable provisional response that nobody acknowledges: it is sent again six times, after 0.5, 1, 2, 4, 4 and 4 seconds, and
  another 4 seconds later, at 19.5 seconds, the timeout function is called, once, and the call is no longer pending.
\<close>
theorem reliable_gives_up:
  assumes "SendReliable tx res callID (Some cb) (m, tm) = Ok (m1, tm1)" and "fmlookup (pm_pending m) callID = None"
  shows "\<exists>t m2. fmlookup (tm_txs tm) tx = Some t \<and>
     wait_out 7 (pm_next m) m1 =
       (m2, [500000000, 1000000000, 2000000000, 4000000000, 4000000000, 4000000000, 4000000000],
        replicate 6 (tx_transport t, tx_target t,
          res\<lparr>msg_Headers := SIPHeaders_Add (SIPHeaders_Set (msg_Headers res) ''RSeq'' [''1'']) ''Require'' ''100rel''\<rparr>), [cb]) \<and>
     fmlookup (pm_pending m2) callID = None"
proof -
  obtain t pr where t: "fmlookup (tm_txs tm) tx = Some t" and w: "waiting (pm_next m) 0 pr m1" "\<not> pr_done pr" "pr_transport pr = Some (tx_transport t)"
    "pr_target pr = tx_target t" "pr_onTimeout pr = Some cb" "pr_callID pr = callID"
    "pr_latestResp pr = Some (res\<lparr>msg_Headers := SIPHeaders_Add (SIPHeaders_Set (msg_Headers res) ''RSeq'' [''1'']) ''Require'' ''100rel''\<rparr>)"
    using SendReliable_waiting [OF assms] by metis
  have b: "map backoff [0..<7] = [500000000, 1000000000, 2000000000, 4000000000, 4000000000, 4000000000, 4000000000]" by code_simp
  show ?thesis using waiting_run [OF w(1-3,7), of 6] t w(4-6) b by auto
qed



section \<open>Examples\<close>

lemma ascii_spaces: "take 6 space_encodings = [[CHR 0x09], [CHR 0x0A], [CHR 0x0B], [CHR 0x0C], [CHR 0x0D], '' '']"
  by (simp add: space_encodings_def char_of_def bit_0)

lemma fields_graphic: "graphic c \<Longrightarrow> fields_from cur (c # s) = fields_from (c # cur) s"
proof -
  assume "graphic c"
  then have "find (\<lambda>w. w \<noteq> [] \<and> HasPrefix (c # s) w) space_encodings = None"
    using space_encodings_ends by (auto simp: find_None_iff HasPrefix_def list_all_iff neq_Nil_conv)
  then show ?thesis by (subst fields_from.simps) simp
qed

lemma fields_space: "cur \<noteq> [] \<Longrightarrow> fields_from cur (CHR '' '' # s) = rev cur # fields_from [] s"
proof -
  let ?P = "\<lambda>w. w \<noteq> [] \<and> HasPrefix (CHR '' '' # s) w"
  have "find ?P (take 6 space_encodings @ drop 6 space_encodings) = Some '' ''"
    unfolding ascii_spaces by (simp add: HasPrefix_def)
  then show "cur \<noteq> [] \<Longrightarrow> ?thesis" by (subst fields_from.simps) simp
qed

lemma Fields_sample: "Fields ''1 1 INVITE'' = [''1'', ''1'', ''INVITE'']"
  by (simp add: Fields_def fields_graphic fields_space graphic_def) (simp add: fields_from.simps)

definition sample_rel_tm :: TransactionManager where
  "sample_rel_tm = put_tx 3 (new_server_tx (sample_req ''INVITE'') UDPTransport sample_branch False) NewTransactionManager"

definition sample_ringing_response :: SIPMessage where
  "sample_ringing_response = sample_answer_to ''INVITE'' 180"

definition sample_rel_state :: ReliableProvisionalManager where
  "sample_rel_state = (case SendReliable 3 sample_ringing_response ''c1'' (Some 9) (NewReliableProvisionalManager, sample_rel_tm) of
     (Ok (m, _) :: (unit, _) go) \<Rightarrow> m | _ \<Rightarrow> NewReliableProvisionalManager)"

definition sample_prack :: SIPMessage where
  "sample_prack = (NewRequest ''PRACK'' ''sip:a@b'')\<lparr>msg_Headers := SIPHeaders_Add (SIPHeaders_Add fmempty ''Call-ID'' ''c1'') ''RAck'' ''1 1 INVITE''\<rparr>"

lemma sample_rel_send:
  "(SendReliable 3 sample_ringing_response ''c1'' (Some 9) (NewReliableProvisionalManager, sample_rel_tm) :: (unit, _) go)
   = Ok (sample_rel_state, snd (case SendReliable 3 sample_ringing_response ''c1'' (Some 9) (NewReliableProvisionalManager, sample_rel_tm) of
     (Ok r :: (unit, _) go) \<Rightarrow> r | _ \<Rightarrow> undefined))"
  by (simp add: sample_rel_state_def SendReliable_def sample_rel_tm_def put_tx_def Let_def split: prod.splits)

theorem reliable_gives_up_witness:
  "\<exists>m2 ds sents. wait_out 7 0 sample_rel_state = (m2, ds, sents, [9]) \<and> length sents = 6 \<and> sum_list ds = 19500000000"
proof -
  have "fmlookup (pm_pending NewReliableProvisionalManager) ''c1'' = None" by (simp add: NewReliableProvisionalManager_def)
  from reliable_gives_up [OF sample_rel_send this] show ?thesis by (auto simp: NewReliableProvisionalManager_def)
qed

theorem prack_accepted_once_witness:
  "\<exists>m'. (prack_answer sample_prack sample_rel_state :: (unit, _) go) = Ok (m', ok_response sample_prack) \<and>
     (prack_answer sample_prack m' :: (unit, _) go) = Ok (m', no_such_call sample_prack)"
proof -
  have h: "SIPHeaders_GetFirst (msg_Headers sample_prack) ''Call-ID'' = (Ok ''c1'' :: (unit, _) go)"
    "SIPHeaders_GetFirst (msg_Headers sample_prack) ''RAck'' = (Ok ''1 1 INVITE'' :: (unit, _) go)" by code_simp+
  have n: "Atoi ''1'' = Some 1" by code_simp
  have "snd (match_prack sample_prack ''c1'' 1 1 ''INVITE'' sample_rel_state) = ok_response sample_prack" by code_simp
  then have "(case (prack_answer sample_prack sample_rel_state :: (unit, _) go) of Ok (m', r) \<Rightarrow> r = ok_response sample_prack | _ \<Rightarrow> False)"
    by (cases "match_prack sample_prack ''c1'' 1 1 ''INVITE'' sample_rel_state") (simp add: prack_answer_def h n Fields_sample)
  then obtain m' where a: "(prack_answer sample_prack sample_rel_state :: (unit, _) go) = Ok (m', ok_response sample_prack)"
    by (auto split: go.splits prod.splits)
  from prack_accepted_once [OF a] show ?thesis using a by simp
qed


end
