(* ===== verification/Server.thy ===== *)
theory Server
  imports Reliable
begin

text \<open>
  The server: \<^verbatim>\<open>internal/sip/server.go\<close> and \<^verbatim>\<open>keepalive.go\<close>.  The registered handlers are values of the caller's
  choice; \<open>route\<close> does what the server does with a message and returns the call of a handler, if any, that follows.
\<close>

record 'h Server =
  sv_handlers :: "(SIPMethod, 'h) fmap"
  sv_ackCallback :: "'h option"
  sv_responseHandler :: "'h option"
  sv_txMgr :: TransactionManager
  sv_started :: bool

definition NewServer :: "'h Server" where
  "NewServer = \<lparr>sv_handlers = fmempty, sv_ackCallback = None, sv_responseHandler = None, sv_txMgr = NewTransactionManager, sv_started = False\<rparr>"

definition Server_On :: "SIPMethod \<Rightarrow> 'h \<Rightarrow> 'h Server \<Rightarrow> 'h Server" where
  "Server_On method fn s = s\<lparr>sv_handlers := fmupd method fn (sv_handlers s)\<rparr>"

definition OnAck :: "'h \<Rightarrow> 'h Server \<Rightarrow> 'h Server" where
  "OnAck fn s = s\<lparr>sv_ackCallback := Some fn\<rparr>"

definition OnResponse :: "'h \<Rightarrow> 'h Server \<Rightarrow> 'h Server" where
  "OnResponse fn s = s\<lparr>sv_responseHandler := Some fn\<rparr>"

definition AllowMethods :: "'h Server \<Rightarrow> string" where
  "AllowMethods s = Join (sort (sorted_list_of_fset (fmdom (sv_handlers s)) @ [''ACK''])) '', ''"

definition Server_Start :: "'h Server \<Rightarrow> 'h Server" where
  "Server_Start s = (if sv_started s then s else s\<lparr>sv_started := True\<rparr>)"

definition Server_Close :: "'h Server \<Rightarrow> 'h Server" where
  "Server_Close s = (if \<not> sv_started s then s else s\<lparr>sv_started := False, sv_txMgr := TransactionManager_Stop (sv_txMgr s)\<rparr>)"

text \<open>The call that \<open>route\<close> ends with: a callback with the message and its target, or a handler with its transaction.\<close>

datatype 'h server_call =
    NoCall
  | Callback 'h SIPMessage Target
  | Handler 'h SIPMessage nat

definition defaultHandler :: "SIPMessage \<Rightarrow> nat \<Rightarrow> TransactionManager \<Rightarrow> TransactionManager" where
  "defaultHandler req tx tm = Respond tx (NewResponse req 501 ''Not Implemented'') tm"

text \<open>The hop check: \<open>Inl\<close> is the refusal, \<open>Inr\<close> the request to go on with.\<close>

definition check_hops :: "SIPMessage \<Rightarrow> ('e, SIPMessage + SIPMessage) go" where
  "check_hops msg =
     and_then (SIPHeaders_GetFirst (msg_Headers msg) ''Max-Forwards'') (\<lambda>mf.
     if mf = [] then Ok (Inr msg)
     else case Atoi mf of
       None \<Rightarrow> Ok (Inr msg)
     | Some maxFwds \<Rightarrow>
         if maxFwds \<le> 0 then Ok (Inl (NewResponse msg 483 ''Too Many Hops''))
         else Ok (Inr (msg\<lparr>msg_Headers := SIPHeaders_Set (msg_Headers msg) ''Max-Forwards'' [Itoa (maxFwds - 1)]\<rparr>)))"

definition route ::
  "unicode_tables \<Rightarrow> MessageEvent \<Rightarrow> transport_kind \<Rightarrow> 'h Server \<Rightarrow> ('e, 'h Server \<times> 'h server_call) go" where
  "route uni ev transport s =
     (if \<not> SIPMessage_IsRequest (ev_Msg ev) then
        Ok (s, case sv_responseHandler s of None \<Rightarrow> NoCall | Some h \<Rightarrow> Callback h (ev_Msg ev) (ev_Target ev))
      else
        let meth = SIPMessage_Method (ev_Msg ev) in
        if meth = ''ACK'' then
          and_then (HandleACK uni ev (sv_txMgr s)) (\<lambda>tm.
            Ok (s\<lparr>sv_txMgr := tm\<rparr>, case sv_ackCallback s of None \<Rightarrow> NoCall | Some h \<Rightarrow> Callback h (ev_Msg ev) (ev_Target ev)))
        else
          and_then (check_hops (ev_Msg ev)) (\<lambda>hops. case hops of
            Inl refusal \<Rightarrow> Ok (s\<lparr>sv_txMgr := send_msg transport (ev_Target ev) refusal (sv_txMgr s)\<rparr>, NoCall)
          | Inr msg \<Rightarrow>
              let handler = fmlookup (sv_handlers s) meth in
              and_then (HandleRequest uni (handler \<noteq> None \<or> meth \<noteq> ''CANCEL'') (ev\<lparr>ev_Msg := msg\<rparr>) transport (sv_txMgr s))
                (\<lambda>(tm, outcome). case outcome of
                  Absorbed \<Rightarrow> Ok (s\<lparr>sv_txMgr := tm\<rparr>, NoCall)
                | Dispatched tx \<Rightarrow>
                    (case handler of
                       Some h \<Rightarrow> Ok (s\<lparr>sv_txMgr := tm\<rparr>, Handler h msg tx)
                     | None \<Rightarrow> Ok (s\<lparr>sv_txMgr := defaultHandler msg tx tm\<rparr>, NoCall)))))"

section \<open>Keepalives\<close>

record KeepaliveTracker =
  kt_lastActive :: int
  kt_interval :: int

definition NewKeepaliveTracker :: "int \<Rightarrow> int \<Rightarrow> KeepaliveTracker" where
  "NewKeepaliveTracker now interval = \<lparr>kt_lastActive = now, kt_interval = interval\<rparr>"

definition UpdateActivity :: "int \<Rightarrow> KeepaliveTracker \<Rightarrow> KeepaliveTracker" where
  "UpdateActivity now kt = kt\<lparr>kt_lastActive := now\<rparr>"

text \<open>One tick of \<^verbatim>\<open>Run\<close>: what is written, and whether the loop goes on after the outcome of the write.\<close>

definition keepalive_tick :: "int \<Rightarrow> bool \<Rightarrow> KeepaliveTracker \<Rightarrow> string \<times> bool" where
  "keepalive_tick now written kt =
     (if kt_interval kt \<le> now - kt_lastActive kt then ([CR, LF, CR, LF], written) else ([], True))"



section \<open>What the server answers itself\<close>

lemma check_hops_counts:
  assumes "check_hops msg = (Ok (Inr msg') :: ('e, _) go)"
    and "SIPHeaders_GetFirst (msg_Headers msg) ''Max-Forwards'' = (Ok mf :: ('e, _) go)" and "mf \<noteq> []" and "Atoi mf = Some n"
  shows "0 < n \<and> SIPHeaders_GetFirst (msg_Headers msg') ''Max-Forwards'' = (Ok (Itoa (n - 1)) :: ('e, _) go)"
  using assms by (auto simp: check_hops_def SIPHeaders_GetFirst_def SIPHeaders_Set_def index_def split: if_splits)

lemma check_hops_same:
  "check_hops msg = Ok (Inr msg') \<Longrightarrow> SIPMessage_Method msg' = SIPMessage_Method msg"
  by (auto simp: check_hops_def and_then_eq_Ok SIPMessage_Method_def split: if_splits option.splits)

text \<open>
  A request with a method nobody handles, other than ACK, CANCEL and INVITE, on a branch without a transaction and with hops
  left: the server sends exactly one message, the 501, to where the request came from, and calls nobody.
\<close>
theorem unknown_method_501:
  assumes "SIPMessage_IsRequest (ev_Msg ev)" and "SIPMessage_Method (ev_Msg ev) \<notin> {''ACK'', ''CANCEL'', ''INVITE''}"
    and "fmlookup (sv_handlers s) (SIPMessage_Method (ev_Msg ev)) = None"
    and "check_hops (ev_Msg ev) = (Ok (Inr msg) :: ('e, _) go)"
    and "SIPMessage_ViaBranch (uni_lower uni) msg = (Ok (branch, msg1) :: ('e, _) go)" and "branch \<noteq> []"
    and "fmlookup (tm_serverTxs (sv_txMgr s)) branch = None"
    and "SIPMessage_IsReliableTransport msg1 = (Ok (reliable, msg2) :: ('e, _) go)"
    and "SIPMessage_Method msg2 = SIPMessage_Method (ev_Msg ev)" and "SIPMessage_Method msg1 = SIPMessage_Method (ev_Msg ev)"
  shows "\<exists>s'. route uni ev tr s = (Ok (s', NoCall) :: ('e, _) go) \<and>
     tm_sent (sv_txMgr s') = tm_sent (sv_txMgr s) @ [(tr, ev_Target ev, NewResponse msg 501 ''Not Implemented'')]"
proof -
  let ?tm = "sv_txMgr s"
  define tm where "tm = (let tm = put_tx (tm_next ?tm) (new_server_tx (ev\<lparr>ev_Msg := msg2\<rparr>) tr branch reliable) (?tm\<lparr>tm_next := Suc (tm_next ?tm)\<rparr>)
    in tm\<lparr>tm_serverTxs := fmupd branch (tm_next ?tm) (tm_serverTxs tm)\<rparr>)"
  have "HandleRequest uni True (ev\<lparr>ev_Msg := msg\<rparr>) tr ?tm = (Ok (tm, Dispatched (tm_next ?tm)) :: ('e, _) go)"
    using assms by (simp add: HandleRequest_def Let_def tm_def)
  moreover have "tm_sent (defaultHandler msg (tm_next ?tm) tm) = tm_sent ?tm @ [(tr, ev_Target ev, NewResponse msg 501 ''Not Implemented'')]"
    using assms(2,9) by (simp add: defaultHandler_def Respond_def tm_def Let_def put_tx_def new_server_tx_def NonInviteTransaction_Respond_def
        send_msg_def AfterFunc_def forget_branch_def split: if_splits)
  ultimately show ?thesis using assms(1-4) by (simp add: route_def Let_def)
qed



theorem unknown_method_501_witness:
  "\<exists>s'. route no_unicode (sample_req ''INFO'') UDPTransport (NewServer :: nat Server) = (Ok (s', NoCall) :: (unit, _) go) \<and>
     tm_sent (sv_txMgr s') = [(UDPTransport, ev_Target (sample_req ''INFO''), NewResponse (ev_Msg (sample_req ''INFO'')) 501 ''Not Implemented'')]"
proof -
  let ?s = "NewServer :: nat Server" and ?msg = "ev_Msg (sample_req ''INFO'')"
  have "check_hops ?msg = (Ok (Inr ?msg) :: (unit, _) go)" by code_simp
  moreover have "SIPMessage_IsReliableTransport ?msg = (Ok (False, ?msg) :: (unit, _) go)" by code_simp
  ultimately have "\<exists>s'. route no_unicode (sample_req ''INFO'') UDPTransport ?s = (Ok (s', NoCall) :: (unit, _) go) \<and>
     tm_sent (sv_txMgr s') = tm_sent (sv_txMgr ?s) @ [(UDPTransport, ev_Target (sample_req ''INFO''), NewResponse ?msg 501 ''Not Implemented'')]"
    by (intro unknown_method_501 [where branch = sample_branch and ?msg1.0 = ?msg and ?msg2.0 = ?msg and reliable = False])
      (simp_all add: NewServer_def NewTransactionManager_def SIPMessage_IsRequest_def sample_branch_def, simp_all add: sample_req_def NewRequest_def SIPMessage_Method_def)
  then show ?thesis by (simp add: NewServer_def NewTransactionManager_def)
qed


end
