(* ===== verification/Streams.thy ===== *)
theory Streams
  imports Server
begin

text \<open>
  The reading side of the transports: the rest of \<^verbatim>\<open>internal/sip/transport.go\<close>.  A datagram socket is the list of the datagrams
  that arrive until it is closed; a TCP connection is the bytes that arrive until the peer closes it, all of them in time for every
  read deadline.  What a reader puts into the channel of messages is its result.
\<close>

section \<open>Datagrams\<close>

text \<open>The read loop of \<^verbatim>\<open>UDPTransport\<close>; the buffer has 65535 bytes, and what a datagram has beyond them is lost.\<close>

definition readBufSize :: nat where "readBufSize = 65535"

fun udp_readLoop :: "(string \<times> net_addr) list \<Rightarrow> ('e, MessageEvent list) go" where
  "udp_readLoop [] = Ok []"
| "udp_readLoop ((data, addr) # ds) = (case UnmarshalSIPDatagram (take readBufSize data) of
     Panic \<Rightarrow> Panic
   | Fail _ \<Rightarrow> udp_readLoop ds
   | Ok msg \<Rightarrow> and_then (udp_readLoop ds) (\<lambda>evs.
       Ok (\<lparr>ev_Msg = msg, ev_Target = \<lparr>tgt_Addr = Some addr, tgt_Conn = None, tgt_FlowID = []\<rparr>\<rparr> # evs)))"

section \<open>Connections\<close>

text \<open>A message that is read takes at least one byte, so the read loop ends with its input.\<close>

lemma unmarshal_headers_shorter: "ok_all (\<lambda>(h', r'). length r' < length r) (unmarshal_headers r h)"
proof (induction r h rule: unmarshal_headers.induct)
  case (1 r h)
  show ?case
  proof (cases "readContinuedLine r")
    case None
    then show ?thesis by (subst unmarshal_headers.simps) simp
  next
    case (Some p)
    obtain line r' where p: "readContinuedLine r = Some (line, r')" using Some by (cases p) auto
    note s = readContinuedLine_shorter [OF p]
    have "ok_all (\<lambda>(h', r'). length r' < length r) (unmarshal_headers r' h')"
      if "line \<noteq> []" "Cut line '':'' = (k, v, True)" "h' = fmupd (header_key k) (values_at h (header_key k) @ [dropWhile (\<lambda>c. c = CHR '' '') v]) h" for k v h'
    proof -
      have "ok_all (\<lambda>(h', r''). length r'' < length r') (unmarshal_headers r' h')"
        using 1 [OF p refl that(1) that(2) [symmetric] refl _ refl refl] that(3) by simp
      then show ?thesis by (rule ok_all_mono) (use s in auto)
    qed
    then show ?thesis using s by (subst unmarshal_headers.simps) (auto simp: p Let_def split: prod.split)
  qed
qed

lemma unmarshal_body_shorter: "ok_all (\<lambda>(m, r'). length r' \<le> length r) (unmarshal_body r True msg)"
  unfolding unmarshal_body_def Let_def by (auto intro!: ok_all_and_then split: option.split)

lemma UnmarshalSIP_shorter: "ok_all (\<lambda>(m, r'). length r' < length r) (UnmarshalSIP r)"
proof (cases "readLine r")
  case None
  then show ?thesis by (simp add: UnmarshalSIP_def unmarshalSIP_def)
next
  case (Some p)
  then obtain line r1 where p: "readLine r = Some (line, r1)" by (cases p) auto
  note s = readLine_shorter [OF p]
  have b: "ok_all (\<lambda>(m, r'). length r' < length r) (unmarshal_body r2 True msg)" if "length r2 < length r1" for r2 msg
    using ok_all_mono [OF unmarshal_body_shorter [of r2 msg]] s that by force
  show ?thesis
    unfolding UnmarshalSIP_def unmarshalSIP_def p unmarshalHeaders_def option.case prod.case
    by (auto intro!: ok_all_and_then ok_all_bind [OF unmarshal_headers_shorter] b)
qed

lemma drain_length: "drainCRLFKeepalive s eof p = (q, Some s') \<Longrightarrow> length s' \<le> length s"
  by (induction s eof p rule: drainCRLFKeepalive.induct) (auto split: if_splits)

text \<open>
  \<^verbatim>\<open>startReader\<close>, after the flow was registered: the number of pongs written and the events put into the channel, in order, until the
  first error.  The flow is then removed and the connection closed.
\<close>

function tcp_reader :: "net_conn \<Rightarrow> string \<Rightarrow> string \<Rightarrow> nat \<Rightarrow> ('e, nat \<times> MessageEvent list) go" where
  "tcp_reader conn flowID data pongs = (case drainCRLFKeepalive data True pongs of
     (pongs, None) \<Rightarrow> Ok (pongs, [])
   | (pongs, Some data) \<Rightarrow> (case UnmarshalSIP data of
       Panic \<Rightarrow> Panic
     | Fail _ \<Rightarrow> Ok (pongs, [])
     | Ok (msg, rest) \<Rightarrow> and_then (tcp_reader conn flowID rest pongs) (\<lambda>(pongs, evs).
         Ok (pongs, \<lparr>ev_Msg = msg, ev_Target = \<lparr>tgt_Addr = Some (conn_RemoteAddr conn), tgt_Conn = Some conn, tgt_FlowID = flowID\<rparr>\<rparr> # evs))))"
  by pat_completeness auto
termination
  by (relation "measure (\<lambda>(conn, flowID, data, pongs). length data)")
    (use drain_length ok_allD [OF UnmarshalSIP_shorter] in \<open>fastforce dest!: sym [of "(_, Some _)"]\<close>)+

declare tcp_reader.simps [simp del]

section \<open>The listener\<close>

text \<open>
  \<^verbatim>\<open>acceptLoop\<close> and the first lines of \<^verbatim>\<open>handleConnection\<close>: the tokens in the channel \<^verbatim>\<open>connSem\<close>, the connections whose goroutine has
  not run yet, and those that are being served, with their flows.
\<close>

definition tcpMaxConns :: nat where "tcpMaxConns = 1000"

record tcp_listener =
  tl_connSem :: nat
  tl_spawned :: "net_conn list"
  tl_serving :: "net_conn list"
  tl_pool :: FlowPool

definition NewTCPTransport :: tcp_listener where
  "NewTCPTransport = \<lparr>tl_connSem = 0, tl_spawned = [], tl_serving = [], tl_pool = NewFlowPool False\<rparr>"

definition accept_conn :: "net_conn \<Rightarrow> tcp_listener \<Rightarrow> tcp_listener \<times> bool" where
  "accept_conn conn l =
     (if tl_connSem l < tcpMaxConns then (l\<lparr>tl_connSem := Suc (tl_connSem l), tl_spawned := conn # tl_spawned l\<rparr>, True) else (l, False))"

definition handleConnection :: "int \<Rightarrow> net_conn \<Rightarrow> tcp_listener \<Rightarrow> tcp_listener" where
  "handleConnection now conn l =
     (if conn \<notin> set (tl_spawned l) then l
      else l\<lparr>tl_spawned := remove1 conn (tl_spawned l), tl_connSem := tl_connSem l - 1, tl_serving := conn # tl_serving l,
        tl_pool := fst (FlowPool_Register (tl_pool l) now conn)\<rparr>)"

text \<open>The end of a connection: the flow is forgotten, with the report of \<^verbatim>\<open>RemoveDead\<close>.\<close>

definition connection_ends :: "net_conn \<Rightarrow> tcp_listener \<Rightarrow> tcp_listener \<times> bool" where
  "connection_ends conn l =
     (let (pool, reported) = FlowPool_RemoveDead (tl_pool l) (FlowKey_String (FlowKeyFromConn conn))
      in (l\<lparr>tl_serving := remove1 conn (tl_serving l), tl_pool := pool\<rparr>, reported))"

text \<open>
  The limit on connections does not limit them: the token is given back when the goroutine starts, so connections that arrive one
  after the other are all accepted, however many are open.
\<close>

fun accept_all :: "net_conn list \<Rightarrow> tcp_listener \<Rightarrow> tcp_listener" where
  "accept_all [] l = l"
| "accept_all (c # cs) l = accept_all cs (handleConnection 0 c (fst (accept_conn c l)))"

lemma connection_limit_ineffective: "length (tl_serving (accept_all conns NewTCPTransport)) = length conns"
proof -
  have "length (tl_serving (accept_all conns l)) = length conns + length (tl_serving l)" if "tl_connSem l = 0" "tl_spawned l = []" for l
    using that by (induction conns arbitrary: l) (simp_all add: accept_conn_def handleConnection_def tcpMaxConns_def)
  then show ?thesis by (simp add: NewTCPTransport_def)
qed

section \<open>A stream of messages\<close>

lemma wire_first:
  assumes "sip_ok m"
  shows "sip_wire False m \<noteq> [] \<and> hd (sip_wire False m) \<noteq> CR"
proof -
  obtain sl where sl: "msg_startLine m = Some sl" "startLine_ok sl" using assms by (auto simp: sip_ok_def split: option.splits)
  have "startLine_String sl \<noteq> [] \<and> hd (startLine_String sl) \<noteq> CR"
    using sl(2) by (cases "sl_Version sl") (auto simp: startLine_ok_def startLine_String_def sip_methods_def HasPrefix_def SIPIndicator_def split: if_splits)
  then show ?thesis by (simp add: sip_wire_def SIPMessage_StartLine_def sl hd_append)
qed

abbreviation pings :: "nat \<Rightarrow> string" where
  "pings n \<equiv> concat (replicate n keepalive_ping)"

definition tcp_event :: "net_conn \<Rightarrow> string \<Rightarrow> SIPMessage \<Rightarrow> MessageEvent" where
  "tcp_event conn flowID m = \<lparr>ev_Msg = m, ev_Target = \<lparr>tgt_Addr = Some (conn_RemoteAddr conn), tgt_Conn = Some conn, tgt_FlowID = flowID\<rparr>\<rparr>"

lemma drain_last: "drainCRLFKeepalive (pings k) True p = (p + k, None)"
  by (induction k arbitrary: p) (simp_all add: keepalive_ping_def)

lemma tcp_reader_message:
  assumes "sip_ok m"
  shows "tcp_reader conn flowID (pings n @ sip_wire False m @ rest) p
    = and_then (tcp_reader conn flowID rest (p + n)) (\<lambda>(q, evs). Ok (q, tcp_event conn flowID (sip_canon m) # evs))"
proof -
  have d: "drainCRLFKeepalive (pings n @ sip_wire False m @ rest) True p = (p + n, Some (sip_wire False m @ rest))"
    using wire_first [OF assms] by (intro keepalives_drained) (simp_all add: hd_append)
  show ?thesis
    by (subst tcp_reader.simps) (simp add: d UnmarshalSIP_def unmarshalSIP_wire [OF assms] tcp_event_def)
qed

text \<open>
  C12. A TCP connection delivers what was sent on it: on the bytes of any well-formed messages, as this server or any other sender
  of the same format serialises them, with any number of keepalive pings before each and at the end, the reader puts exactly these
  messages into the channel, in order and with the connection as their target, and answers every ping with one pong.
\<close>

theorem tcp_stream_delivers:
  assumes "list_all sip_ok ms" and "map SIPMessage_Marshal ms = map Ok ws" and "length ns = length ws"
  shows "tcp_reader conn flowID (concat (map2 (\<lambda>n w. pings n @ w) ns ws) @ pings k) p
    = (Ok (p + sum_list ns + k, map (\<lambda>m. tcp_event conn flowID (sip_canon m)) ms) :: (unit, _) go)"
  using assms
proof (induction ms arbitrary: ws ns p)
  case Nil
  then show ?case by (subst tcp_reader.simps) (simp add: drain_last)
next
  case (Cons m ms)
  then obtain w ws' n ns' where c: "ws = w # ws'" "ns = n # ns'" "SIPMessage_Marshal m = Ok w" "map SIPMessage_Marshal ms = map Ok ws'"
    "length ns' = length ws'" "sip_ok m" "list_all sip_ok ms" by (cases ws; cases ns) auto
  then have "w = sip_wire False m" using SIPMessage_Marshal_wire(1) [OF c(6)] by simp
  then show ?case using Cons.IH [OF c(7,4,5), of "p + n"] by (simp add: c(1,2) tcp_reader_message [OF c(6)] ac_simps)
qed

theorem tcp_stream_delivers_witness:
  "\<exists>w. SIPMessage_Marshal sample_sip = Ok w \<and>
     tcp_reader \<lparr>conn_id = 1, conn_LocalAddr = TCPAddr ''h'' 5060, conn_RemoteAddr = TCPAddr ''c'' 9\<rparr> ''f'' (keepalive_ping @ w @ w) 0
     = (Ok (1, replicate 2 (tcp_event \<lparr>conn_id = 1, conn_LocalAddr = TCPAddr ''h'' 5060, conn_RemoteAddr = TCPAddr ''c'' 9\<rparr> ''f'' (sip_canon sample_sip))) :: (unit, _) go)"
  using tcp_stream_delivers [of "[sample_sip, sample_sip]" "[sip_wire False sample_sip, sip_wire False sample_sip]" "[1, 0]" _ "''f''" 0 0]
  by (simp add: sample_sip_ok SIPMessage_Marshal_wire(1) [OF sample_sip_ok] numeral_2_eq_2)

end
