(* ===== verification/Go_Float.thy ===== *)
theory Go_Float
  imports Prelude Complex_Main "HOL-Library.Log_Nat"
begin

text \<open>
  The \<^verbatim>\<open>float64\<close> arithmetic the sources use.  A finite number is the rational it denotes; every operation computes
  exactly and rounds the result to 53 significant bits, ties to even, as IEEE 754 prescribes and Go's compiler does on amd64,
  where no multiplication is fused with an addition.  The exponent is not bounded: the values the program computes lie between
  \<open>2 ^ - 100\<close> and \<open>2 ^ 100\<close> in magnitude, or are zero, far from overflow and from the subnormal numbers.
\<close>

definition round_even :: "rat \<Rightarrow> int" where
  "round_even y =
     (let n = \<lfloor>y\<rfloor>; r = y - of_int n in
      if r < 1 / 2 then n else if 1 / 2 < r then n + 1 else if even n then n else n + 1)"

text \<open>The power of two that scales a positive number into the 53-bit integers.\<close>

definition fl_scale :: "rat \<Rightarrow> int" where
  "fl_scale x = (case quotient_of x of (n, d) \<Rightarrow>
     let s = 52 - (bitlen n - bitlen d) in if x * 2 powi s < 2 ^ 52 then s + 1 else s)"

definition round64 :: "rat \<Rightarrow> rat" where
  "round64 x =
     (if x = 0 then 0
      else let s = fl_scale \<bar>x\<bar> in sgn x * of_int (round_even (\<bar>x\<bar> * 2 powi s)) / 2 powi s)"

definition fadd :: "rat \<Rightarrow> rat \<Rightarrow> rat" where "fadd a b = round64 (a + b)"
definition fsub :: "rat \<Rightarrow> rat \<Rightarrow> rat" where "fsub a b = round64 (a - b)"
definition fmul :: "rat \<Rightarrow> rat \<Rightarrow> rat" where "fmul a b = round64 (a * b)"
definition fdiv :: "rat \<Rightarrow> rat \<Rightarrow> rat" where "fdiv a b = round64 (a / b)"

text \<open>Conversion to an integer type discards the fraction.\<close>

definition ftrunc :: "rat \<Rightarrow> int" where
  "ftrunc x = (if x < 0 then - \<lfloor>- x\<rfloor> else \<lfloor>x\<rfloor>)"

section \<open>Rounding\<close>

lemma round_even_le: "y \<le> of_int m \<Longrightarrow> round_even y \<le> m"
  unfolding round_even_def Let_def by (auto simp: floor_le_iff)

lemma round_even_upper: "of_int (round_even y) \<le> y + 1 / 2"
  unfolding round_even_def Let_def by auto linarith+

lemma fl_scale_lower:
  assumes "0 < x"
  shows "2 ^ 52 \<le> x * 2 powi fl_scale x"
proof -
  obtain n d where q: "quotient_of x = (n, d)" by (cases "quotient_of x")
  have d: "0 < d" using quotient_of_denom_pos [OF q] .
  have x: "x = of_int n / of_int d" using quotient_of_div [OF q] .
  have n: "0 < n" using assms d by (simp add: x zero_less_divide_iff)
  define a b where "a = nat (bitlen n - 1)" and "b = nat (bitlen d)"
  have "bitlen n \<ge> 1" "bitlen d \<ge> 1" using n d by (simp_all add: bitlen_ge_iff_power)
  then have e: "bitlen n = int a + 1" "bitlen d = int b" by (simp_all add: a_def b_def)
  have lo: "2 ^ a \<le> n" and hi: "d < 2 ^ b"
    using bitlen_bounds [OF n] bitlen_bounds [OF d] by (simp_all add: a_def b_def)
  have "(2 :: rat) ^ a \<le> of_int n" using lo by (metis of_int_le_iff of_int_numeral of_int_power)
  moreover have "of_int d \<le> (2 :: rat) ^ b" using hi by (metis less_imp_le of_int_le_iff of_int_numeral of_int_power)
  ultimately have "(2 :: rat) ^ a * of_int d \<le> of_int n * 2 ^ b" using d n by (intro mult_mono) simp_all
  then have "2 ^ a / 2 ^ b \<le> x" using d by (simp add: x divide_le_eq mult.commute pos_le_divide_eq)
  then have "2 ^ a / 2 ^ b * 2 powi t \<le> x * 2 powi t" for t by (rule mult_right_mono) simp
  moreover have "2 ^ a / 2 ^ b * (2 :: rat) powi (52 - (int a - int b)) = 2 ^ 52"
    by (simp add: power_int_diff)
  ultimately have "2 ^ 52 \<le> x * 2 powi (52 - (int a - int b))" by metis
  moreover have "52 - (int a - int b) = 52 - (int a + 1 - int b) + 1" by simp
  ultimately have "2 ^ 52 \<le> x * 2 powi (52 - (int a + 1 - int b) + 1)" by simp
  then show ?thesis unfolding fl_scale_def q prod.case Let_def e by (auto simp only: not_less split: if_split)
qed

lemma round64_upper:
  assumes "0 \<le> x"
  shows "round64 x \<le> x * (1 + 1 / 2 ^ 53)"
proof (cases "x = 0")
  case False
  define s where "s = (2 :: rat) powi fl_scale x"
  have s: "0 < s" by (simp add: s_def)
  have "2 ^ 52 \<le> x * s" using fl_scale_lower [of x] False assms by (simp add: s_def)
  then have "of_int (round_even (x * s)) \<le> x * s * (1 + 1 / 2 ^ 53)"
    using round_even_upper [of "x * s"] by (simp add: algebra_simps)
  then show ?thesis using s False assms
    by (simp add: round64_def Let_def s_def [symmetric] divide_le_eq algebra_simps)
qed (simp add: round64_def)

lemma round64_le:
  assumes "0 \<le> x" and "x \<le> of_nat m" and "m < 2 ^ 53"
  shows "round64 x \<le> of_nat m"
proof (cases "x = 0")
  case False
  then have x: "0 < x" using assms by simp
  have s: "0 \<le> fl_scale x"
  proof (rule ccontr)
    assume "\<not> 0 \<le> fl_scale x"
    then have "2 powi fl_scale x \<le> (2 :: rat) powi (- 1)" by (intro power_int_increasing) simp_all
    then have "x * 2 powi fl_scale x \<le> x / 2" using x by (simp add: power_int_minus mult_left_mono [of _ "1 / 2" x, simplified])
    moreover have "x < 2 ^ 53" using assms(2,3) by (metis le_less_trans of_nat_less_iff of_nat_numeral of_nat_power)
    ultimately show False using fl_scale_lower [OF x] by simp
  qed
  define k where "k = nat (fl_scale x)"
  have k: "(2 :: rat) powi fl_scale x = 2 ^ k" using s by (simp add: k_def power_int_def)
  have "x * 2 ^ k \<le> of_int (int m * 2 ^ k)" using assms(2) by (simp add: mult_right_mono)
  from round_even_le [OF this] have "(of_int (round_even (x * 2 ^ k)) :: rat) \<le> of_int (int m * 2 ^ k)"
    by (simp only: of_int_le_iff)
  then show ?thesis using x by (simp add: round64_def Let_def k divide_le_eq)
qed (simp add: round64_def)

text \<open>A number with at most 53 significant bits is not rounded.\<close>

lemma round_even_of_int [simp]: "round_even (of_int n) = n"
  by (simp add: round_even_def)

lemma round64_exact:
  assumes "n < 2 ^ 53"
  shows "round64 (of_nat n / 2 ^ k) = of_nat n / 2 ^ k"
proof (cases "n = 0")
  case False
  define x :: rat where "x = of_nat n / 2 ^ k"
  have x: "0 < x" using False by (simp add: x_def)
  have s: "int k \<le> fl_scale x"
  proof (rule ccontr)
    assume "\<not> int k \<le> fl_scale x"
    then have "(2 :: rat) powi fl_scale x \<le> 2 powi (int k - 1)" by (intro power_int_increasing) simp_all
    then have "x * 2 powi fl_scale x \<le> x * (2 ^ k / 2)" using x by (intro mult_left_mono) (simp_all add: power_int_diff)
    also have "\<dots> = of_nat n / 2" by (simp add: x_def)
    also have "\<dots> < 2 ^ 52"
    proof -
      have "(of_nat n :: rat) < of_nat (2 ^ 53)" using assms by (simp only: of_nat_less_iff)
      then show ?thesis by simp
    qed
    finally show False using fl_scale_lower [OF x] by simp
  qed
  define j where "j = nat (fl_scale x - int k)"
  have j: "fl_scale x = int j + int k" using s by (simp add: j_def)
  have "x * 2 powi fl_scale x = x * (2 ^ j * 2 ^ k)" by (simp add: j power_int_add)
  also have "\<dots> = of_int (int n * 2 ^ j)" by (simp add: x_def)
  finally have e: "x * 2 powi fl_scale x = of_int (int n * 2 ^ j)" .
  have r: "of_int (round_even (x * 2 powi fl_scale x)) = x * 2 powi fl_scale x" by (simp only: e round_even_of_int)
  have "round64 x = x * 2 powi fl_scale x / 2 powi fl_scale x" using x by (simp add: round64_def Let_def r)
  then have "round64 x = x" by simp
  then show ?thesis by (simp add: x_def)
qed (simp add: round64_def)

lemma round_even_nonneg: "0 \<le> y \<Longrightarrow> 0 \<le> round_even y"
  by (auto simp: round_even_def Let_def)

lemma round64_nonneg: "0 \<le> x \<Longrightarrow> 0 \<le> round64 x"
  by (auto simp: round64_def Let_def sgn_if intro!: divide_nonneg_nonneg round_even_nonneg)

end
