(* ===== verification/Media.thy ===== *)
theory Media
  imports RTP SDP Transport Go_Float
begin

text \<open>
  The media side: \<^verbatim>\<open>internal/media/sdp.go\<close>, \<^verbatim>\<open>session.go\<close>, \<^verbatim>\<open>rtpconn.go\<close>, \<^verbatim>\<open>bridge.go\<close>, \<^verbatim>\<open>echo.go\<close>, \<^verbatim>\<open>wav.go\<close> and
  \<^verbatim>\<open>playback.go\<close>.  The loops that forward, echo or play RTP are functions from the packets they read to the datagrams they
  write; sockets, clocks and random numbers are arguments.  The floating-point interpolation of \<^verbatim>\<open>downsample\<close> is computed
  with the rounded arithmetic of the theory \<^verbatim>\<open>Go_Float\<close>.
\<close>

unbundle bit_operations_syntax

section \<open>Session descriptions\<close>

definition PCMU :: int where "PCMU = 0"
definition PCMA :: int where "PCMA = 8"

definition audio_sdp :: "int \<Rightarrow> int \<Rightarrow> byte \<Rightarrow> string \<Rightarrow> SDP" where
  "audio_sdp nanos rtpPort payloadType serverIP = zero_SDP
     \<lparr>s_Version := 0,
      s_Origin := \<lparr>o_Username = ''-'', o_SessionID = Itoa nanos, o_SessionVersion = ''1'', o_NetworkType = ''IN'',
        o_AddressType = ''IP4'', o_Address = serverIP\<rparr>,
      s_SessionName := ''echo'',
      s_Connection := Some \<lparr>c_NetworkType = ''IN'', c_AddressType = ''IP4'', c_Address = serverIP\<rparr>,
      s_Times := [\<lparr>t_Repeats = [], t_Start = 0, t_Stop = 0\<rparr>],
      s_MediaDescs := [\<lparr>m_Connection = None, m_Encryption = None, m_Type = ''audio'', m_Proto = ''RTP/AVP'', m_Title = [],
        m_Fmt = [Itoa (int (unat payloadType))], m_Bandwidths = [],
        m_Attributes = [\<lparr>a_Key = ''rtpmap'', a_Value = Itoa (int (unat payloadType)) @ '' PCMU/8000''\<rparr>],
        m_Port = rtpPort, m_PortCount = 0\<rparr>]\<rparr>"

definition BuildOffer :: "int \<Rightarrow> int \<Rightarrow> byte \<Rightarrow> string \<Rightarrow> SDP" where
  "BuildOffer nanos rtpPort payloadType serverIP = audio_sdp nanos rtpPort payloadType serverIP"

definition BuildAnswer :: "int \<Rightarrow> SDP \<Rightarrow> int \<Rightarrow> byte \<Rightarrow> string \<Rightarrow> SDP" where
  "BuildAnswer nanos sdpOffer rtpPort payloadType serverIP = audio_sdp nanos rtpPort payloadType serverIP"

text \<open>The formats of the audio lines, in order, and the choice among them; a missing offer is a nil pointer.\<close>

definition audio_formats :: "SDP \<Rightarrow> string list" where
  "audio_formats sdp = concat (map (\<lambda>m. if m_Type m = ''audio'' then m_Fmt m else []) (s_MediaDescs sdp))"

fun pick_format :: "string list \<Rightarrow> byte \<Rightarrow> byte" where
  "pick_format [] best = (if best \<noteq> 255 then best else 0)"
| "pick_format (f # fs) best = (case Atoi (TrimSpace f) of
     None \<Rightarrow> pick_format fs best
   | Some pt \<Rightarrow> if pt = PCMU then 0 else pick_format fs (if pt = PCMA then 8 else best))"

definition PickPayloadType :: "SDP option \<Rightarrow> ('e, byte) go" where
  "PickPayloadType sdpOffer = (case sdpOffer of None \<Rightarrow> Panic | Some sdp \<Rightarrow> Ok (pick_format (audio_formats sdp) 255))"

definition ExtractRTPAddr :: "SDP \<Rightarrow> string \<times> int" where
  "ExtractRTPAddr sdp =
     (case s_Connection sdp of Some c \<Rightarrow> if c_Address c \<noteq> [] then c_Address c else ''127.0.0.1'' | None \<Rightarrow> ''127.0.0.1'',
      case find (\<lambda>m. m_Type m = ''audio'') (s_MediaDescs sdp) of Some m \<Rightarrow> m_Port m | None \<Rightarrow> 0)"

section \<open>RTP sockets\<close>

text \<open>\<^verbatim>\<open>ListenUDP\<close> as the set of ports that can be bound, and the port the system assigns, if any.\<close>

definition NewRTPConnRange :: "(int \<Rightarrow> bool) \<Rightarrow> int option \<Rightarrow> int \<Rightarrow> int \<Rightarrow> int option" where
  "NewRTPConnRange free assigned minPort maxPort =
     (if 0 < minPort \<and> 0 < maxPort \<and> minPort \<le> maxPort then find free [minPort..maxPort] else assigned)"

text \<open>A datagram is read into a buffer of 4096 bytes; the socket drops what does not fit.\<close>

definition rtpBufSize :: nat where "rtpBufSize = 4096"

definition ReadRTP :: "byte list \<Rightarrow> RTPPacket \<Rightarrow> (rtp_error, RTPPacket) go" where
  "ReadRTP datagram pooled =
     (case UnmarshalRTPTo (take rtpBufSize datagram) (RTPPacket_Reset pooled) of Ok pkt \<Rightarrow> Ok pkt | Fail (e, _) \<Rightarrow> Fail e | Panic \<Rightarrow> Panic)"

text \<open>What is handed to the socket, from a pooled buffer that may hold old bytes.\<close>

definition write_packet :: "RTPPacket \<Rightarrow> byte list \<Rightarrow> (rtp_error, byte list \<times> byte list) go" where
  "write_packet pkt buf =
     (let sz = RTPPacket_MarshalSize pkt; buf = (if length buf < sz then replicate sz 0 else buf) in
      and_then (RTPPacket_MarshalTo pkt buf) (\<lambda>(buf, n). Ok (take n buf, buf)))"

definition WriteRTP :: "RTPPacket \<Rightarrow> byte list \<Rightarrow> (rtp_error, byte list) go" where
  "WriteRTP pkt pooled = and_then (write_packet pkt pooled) (\<lambda>(datagram, _). Ok datagram)"

section \<open>The loops\<close>

definition samplesPerFrame :: nat where "samplesPerFrame = 160"

record relay_state =
  rl_seq :: u16
  rl_timestamp :: u32
  rl_buf :: "byte list"

definition relay_init :: relay_state where
  "relay_init = \<lparr>rl_seq = 0, rl_timestamp = 0, rl_buf = replicate 1500 0\<rparr>"

definition relay_next :: "byte list \<Rightarrow> relay_state \<Rightarrow> relay_state" where
  "relay_next buf st = \<lparr>rl_seq = rl_seq st + 1, rl_timestamp = rl_timestamp st + of_nat samplesPerFrame, rl_buf = buf\<rparr>"

definition bridge_out :: "u32 \<Rightarrow> relay_state \<Rightarrow> RTPPacket \<Rightarrow> RTPPacket" where
  "bridge_out ssrc st pkt =
     \<lparr>rtp_Payload = rtp_Payload pkt,
      rtp_Header = zero_RTPHeader\<lparr>rtp_Version := 2, rtp_SSRC := ssrc, rtp_Padding := rtp_Padding (rtp_Header pkt),
        rtp_Marker := rtp_Marker (rtp_Header pkt), rtp_PayloadType := rtp_PayloadType (rtp_Header pkt),
        rtp_SequenceNumber := rl_seq st, rtp_Timestamp := rl_timestamp st\<rparr>\<rparr>"

text \<open>
  One round of \<^verbatim>\<open>forward\<close> and the loop, from the datagrams the source socket delivers.  A datagram that does not parse
  is skipped; the loop ends with an error of the serialiser.  The packet object comes from a pool; what it held before does
  not matter (\<open>UnmarshalRTPTo_fresh\<close>).
\<close>

definition forward_packet :: "u32 \<Rightarrow> RTPPacket \<Rightarrow> relay_state \<Rightarrow> (rtp_error, byte list \<times> relay_state) go" where
  "forward_packet ssrc pkt st =
     and_then (write_packet (bridge_out ssrc st pkt) (rl_buf st)) (\<lambda>(datagram, buf). Ok (datagram, relay_next buf st))"

fun forward :: "u32 \<Rightarrow> byte list list \<Rightarrow> relay_state \<Rightarrow> (rtp_error, byte list list) go" where
  "forward ssrc [] st = Ok []"
| "forward ssrc (d # ds) st = (case ReadRTP d zero_RTPPacket of
     Panic \<Rightarrow> Panic
   | Fail _ \<Rightarrow> forward ssrc ds st
   | Ok pkt \<Rightarrow>
       and_then (forward_packet ssrc pkt st) (\<lambda>(out, st).
       and_then (forward ssrc ds st) (\<lambda>outs. Ok (out # outs))))"

definition echo_out :: "u32 \<Rightarrow> byte \<Rightarrow> relay_state \<Rightarrow> RTPPacket \<Rightarrow> RTPPacket" where
  "echo_out ssrc payloadType st pkt =
     \<lparr>rtp_Payload = rtp_Payload pkt,
      rtp_Header = zero_RTPHeader\<lparr>rtp_Version := 2, rtp_SSRC := ssrc, rtp_PayloadType := payloadType,
        rtp_SequenceNumber := rl_seq st, rtp_Timestamp := rl_timestamp st\<rparr>\<rparr>"

text \<open>The echo answers every packet to the address it came from.\<close>

fun RunEcho :: "u32 \<Rightarrow> byte \<Rightarrow> (byte list \<times> net_addr) list \<Rightarrow> relay_state \<Rightarrow> (rtp_error, (byte list \<times> net_addr) list) go" where
  "RunEcho ssrc payloadType [] st = Ok []"
| "RunEcho ssrc payloadType ((d, addr) # ds) st = (case ReadRTP d zero_RTPPacket of
     Panic \<Rightarrow> Panic
   | Fail _ \<Rightarrow> RunEcho ssrc payloadType ds st
   | Ok pkt \<Rightarrow>
       and_then (write_packet (echo_out ssrc payloadType st pkt) (rl_buf st)) (\<lambda>(out, buf).
       and_then (RunEcho ssrc payloadType ds (relay_next buf st)) (\<lambda>outs. Ok ((out, addr) # outs))))"

section \<open>WAV files\<close>

record WavData =
  wav_Data :: "byte list"
  wav_SampleRate :: u32
  wav_BitsPerSample :: u16
  wav_NumChannels :: u16

datatype wav_error =
    WavOpen
  | WavHeader
  | WavNotValid
  | WavChunkHeader
  | WavFmtSmall
  | WavFmtRead
  | WavFormat u16
  | WavDataBeforeFmt
  | WavDataRead
  | WavChunkLarge u32
  | WavSkip
  | WavNoFmt
  | WavNoData

definition bytes_string :: "byte list \<Rightarrow> string" where
  "bytes_string bs = map (\<lambda>b. char_of (unat b)) bs"

definition le16 :: "byte \<Rightarrow> byte \<Rightarrow> u16" where
  "le16 a b = ucast a OR push_bit 8 (ucast b)"

definition le32 :: "byte list \<Rightarrow> u32" where
  "le32 bs = (case bs of a # b # c # d # _ \<Rightarrow> ucast a OR push_bit 8 (ucast b) OR push_bit 16 (ucast c) OR push_bit 24 (ucast d) | _ \<Rightarrow> 0)"

definition le16_at :: "byte list \<Rightarrow> nat \<Rightarrow> ('e, u16) go" where
  "le16_at buf off = and_then (index buf off) (\<lambda>a. and_then (index buf (off + 1)) (\<lambda>b. Ok (le16 a b)))"

definition parse_fmt :: "byte list \<Rightarrow> (wav_error, WavData) go" where
  "parse_fmt buf =
     and_then (le16_at buf 0) (\<lambda>audioFormat.
     if audioFormat \<noteq> 1 then Fail (WavFormat audioFormat)
     else
       and_then (le16_at buf 2) (\<lambda>channels.
       and_then (slice buf 4 8) (\<lambda>rate.
       and_then (le16_at buf 14) (\<lambda>bits.
       Ok \<lparr>wav_Data = [], wav_SampleRate = le32 rate, wav_BitsPerSample = bits, wav_NumChannels = channels\<rparr>))))"

function wav_chunks :: "byte list \<Rightarrow> WavData option \<Rightarrow> byte list option \<Rightarrow> (wav_error, WavData option \<times> byte list option) go" where
  "wav_chunks f w data =
     (if f = [] then Ok (w, data)
      else if length f < 8 then Fail WavChunkHeader
      else
        let chunkID = bytes_string (take 4 f); chunkSize = le32 (drop 4 f); rest = drop 8 f; n = unat chunkSize in
        if chunkID = ''fmt '' then
          (if chunkSize < 16 then Fail WavFmtSmall
           else if length rest < n then Fail WavFmtRead
           else case parse_fmt (take n rest) of Fail e \<Rightarrow> Fail e | Panic \<Rightarrow> Panic | Ok w \<Rightarrow> wav_chunks (drop n rest) (Some w) data)
        else if chunkID = ''data'' then
          (if w = None then Fail WavDataBeforeFmt
           else if length rest < n then Fail WavDataRead
           else wav_chunks (drop n rest) w (Some (take n rest)))
        else if 2 ^ 30 < chunkSize then Fail (WavChunkLarge chunkSize)
        else if length rest < n then Fail WavSkip
        else wav_chunks (drop n rest) w data)"
  by pat_completeness auto
termination by (relation "measure (\<lambda>(f, _, _). length f)") auto

declare wav_chunks.simps [simp del]

definition LoadWav :: "byte list option \<Rightarrow> (wav_error, WavData) go" where
  "LoadWav file = (case file of
     None \<Rightarrow> Fail WavOpen
   | Some f \<Rightarrow>
       if length f < 12 then Fail WavHeader
       else if bytes_string (take 4 f) \<noteq> ''RIFF'' \<or> bytes_string (take 4 (drop 8 f)) \<noteq> ''WAVE'' then Fail WavNotValid
       else and_then (wav_chunks (drop 12 f) None None) (\<lambda>(w, data). case w of
          None \<Rightarrow> Fail WavNoFmt
        | Some w \<Rightarrow> (case data of None \<Rightarrow> Fail WavNoData | Some d \<Rightarrow> Ok (w\<lparr>wav_Data := d\<rparr>))))"

section \<open>Playback\<close>

type_synonym sample = "16 word"

definition uLawClip :: sample where "uLawClip = 0x7F7B"
definition uLawBias :: sample where "uLawBias = 0x84"

definition ulawSegment :: "byte list" where
  "ulawSegment = replicate 2 0 @ replicate 2 1 @ replicate 4 2 @ replicate 8 3 @ replicate 16 4 @ replicate 32 5
     @ replicate 64 6 @ replicate 128 7"

definition muLawEncode :: "sample \<Rightarrow> byte" where
  "muLawEncode s =
     (let frame = s;
          sgn = ucast (signed_drop_bit 8 frame AND 0x80) :: byte;
          frame = (if sgn \<noteq> 0 then (if frame = 0x8000 then 0x7FFF else - frame) else frame);
          frame = (if uLawClip <s frame then uLawClip else frame);
          frame = frame + uLawBias;
          segment = ulawSegment ! unat (signed_drop_bit 7 frame AND 0xFF);
          bottom = signed_drop_bit (unat segment + 3) frame AND 0x0F
      in NOT (sgn OR push_bit 4 segment OR ucast bottom))"

definition convertToMuLaw16 :: "sample list \<Rightarrow> byte list" where
  "convertToMuLaw16 samples = map muLawEncode samples"

definition readPCMSamples :: "WavData \<Rightarrow> sample list" where
  "readPCMSamples w =
     (let bytesPerSample = unat (wav_BitsPerSample w) div 8 in
      if bytesPerSample = 0 then []
      else
        let totalSamples = length (wav_Data w) div bytesPerSample in
        if wav_BitsPerSample w = 8 then map (\<lambda>b. ucast b - 128) (wav_Data w)
        else if wav_BitsPerSample w = 16 then
          map (\<lambda>i. le16 (wav_Data w ! (2 * i)) (wav_Data w ! (2 * i + 1))) [0..<totalSamples]
        else replicate totalSamples 0)"

text \<open>Integer division of Go rounds towards zero.\<close>

definition go_div :: "int \<Rightarrow> int \<Rightarrow> int" where
  "go_div a b = sgn a * sgn b * (abs a div abs b)"

definition mixToMono :: "sample list \<Rightarrow> nat \<Rightarrow> sample list" where
  "mixToMono samples channels =
     (if channels \<le> 1 then samples
      else map (\<lambda>i. word_of_int (go_div (\<Sum>s \<leftarrow> take channels (drop (i * channels) samples). sint s) (int channels)))
        [0..<length samples div channels])"

text \<open>
  Linear interpolation in \<^verbatim>\<open>float64\<close>.  With an input rate of zero the quotient is infinite (or, without samples, not a number);
  its conversion to \<^verbatim>\<open>int\<close> is the smallest integer on amd64, a length that \<^verbatim>\<open>make\<close> refuses with a panic.
\<close>

definition targetSampleRate :: u32 where "targetSampleRate = 8000"

definition sample_ratio :: "u32 \<Rightarrow> rat" where
  "sample_ratio inRate = fdiv (of_int (uint inRate)) (of_int (uint targetSampleRate))"

definition downsample_at :: "sample list \<Rightarrow> rat \<Rightarrow> nat \<Rightarrow> ('e, sample) go" where
  "downsample_at xs ratio i =
     (let srcIdx = fmul (of_nat i) ratio;
          lo = nat (ftrunc srcIdx);
          hi = lo + 1;
          frac = fsub srcIdx (of_nat lo)
      in
      and_then (index xs lo) (\<lambda>a.
      if length xs \<le> hi then Ok a
      else and_then (index xs hi) (\<lambda>b.
        Ok (word_of_int (ftrunc (fadd (fmul (of_int (sint a)) (fsub 1 frac)) (fmul (of_int (sint b)) frac)))))))"

fun go_map :: "('a \<Rightarrow> ('e, 'b) go) \<Rightarrow> 'a list \<Rightarrow> ('e, 'b list) go" where
  "go_map f [] = Ok []"
| "go_map f (x # xs) = and_then (f x) (\<lambda>y. and_then (go_map f xs) (\<lambda>ys. Ok (y # ys)))"

definition downsample :: "sample list \<Rightarrow> u32 \<Rightarrow> ('e, sample list) go" where
  "downsample xs inRate =
     (if inRate = targetSampleRate then Ok xs
      else if inRate = 0 then Panic
      else
        let ratio = sample_ratio inRate;
            outLen = nat \<lceil>fdiv (of_nat (length xs)) ratio\<rceil>
        in go_map (downsample_at xs ratio) [0..<outLen])"

definition play_frame :: "byte list \<Rightarrow> nat \<Rightarrow> byte list" where
  "play_frame muLaw frameIdx =
     (let frame = take samplesPerFrame (drop (frameIdx * samplesPerFrame) muLaw)
      in frame @ replicate (samplesPerFrame - length frame) 0)"

definition play_packet :: "u32 \<Rightarrow> byte \<Rightarrow> byte list \<Rightarrow> nat \<Rightarrow> RTPPacket" where
  "play_packet ssrc payloadType muLaw frameIdx =
     \<lparr>rtp_Payload = play_frame muLaw frameIdx,
      rtp_Header = zero_RTPHeader\<lparr>rtp_Version := 2, rtp_PayloadType := payloadType, rtp_SSRC := ssrc,
        rtp_SequenceNumber := of_nat frameIdx, rtp_Timestamp := of_nat (frameIdx * samplesPerFrame)\<rparr>\<rparr>"

definition playback_audio :: "WavData \<Rightarrow> ('e, byte list) go" where
  "playback_audio wav =
     and_then (downsample (mixToMono (readPCMSamples wav) (unat (wav_NumChannels wav))) (wav_SampleRate wav)) (\<lambda>resampled.
     Ok (convertToMuLaw16 resampled))"

text \<open>The producer ignores an error of the serialiser and sends what it reports as written, nothing.\<close>

fun marshal_frames :: "RTPPacket list \<Rightarrow> (rtp_error, byte list list) go" where
  "marshal_frames [] = Ok []"
| "marshal_frames (p # ps) = (case RTPPacket_Marshal p of
     Panic \<Rightarrow> Panic
   | r \<Rightarrow> and_then (marshal_frames ps) (\<lambda>ds. Ok ((case r of Ok d \<Rightarrow> d | _ \<Rightarrow> []) # ds)))"

text \<open>The datagrams of a playback that is not interrupted.\<close>

definition RunFilePlayback :: "u32 \<Rightarrow> byte \<Rightarrow> WavData \<Rightarrow> (rtp_error, byte list list) go" where
  "RunFilePlayback ssrc payloadType wav =
     (if readPCMSamples wav = [] then Ok []
      else
        and_then (playback_audio wav) (\<lambda>muLaw.
        let frameCount = (length muLaw + samplesPerFrame - 1) div samplesPerFrame
        in marshal_frames (map (play_packet ssrc payloadType muLaw) [0..<frameCount])))"

section \<open>Sessions\<close>

record SessionKey =
  sk_CallID :: string
  sk_LocalTag :: string
  sk_RemoteTag :: string

datatype SessionState = SessionCreated | SessionWaitingAck | SessionActive

datatype SessionKind = SessionKindEcho | SessionKindPlay

text \<open>Sockets and sessions are shared objects, referred to by number; \<open>se_cancelled\<close> is the state of the context.\<close>

record Session =
  se_cancelled :: bool
  se_ServerAddr :: "net_addr option"
  se_RemoteAddr :: "net_addr option"
  se_SipTransport :: "transport_kind option"
  se_WavData :: "WavData option"
  se_RTPConn :: nat
  se_SipTarget :: "Target option"
  se_Key :: SessionKey
  se_TargetURI :: string
  se_CallerContact :: string
  se_CallerURI :: string
  se_State :: SessionState
  se_Kind :: SessionKind
  se_ServerSSRC :: u32
  se_PayloadType :: byte

definition NewSession :: "u32 \<Rightarrow> SessionKey \<Rightarrow> nat \<Rightarrow> byte \<Rightarrow> net_addr option \<Rightarrow> Session" where
  "NewSession ssrc key rtpConn payloadType serverAddr =
     \<lparr>se_cancelled = False, se_ServerAddr = serverAddr, se_RemoteAddr = None, se_SipTransport = None, se_WavData = None, se_RTPConn = rtpConn, se_SipTarget = None,
      se_Key = key, se_TargetURI = [], se_CallerContact = [], se_CallerURI = [], se_State = SessionCreated,
      se_Kind = SessionKindEcho, se_ServerSSRC = ssrc, se_PayloadType = payloadType\<rparr>"

definition Session_SetRemoteAddr :: "net_addr \<Rightarrow> Session \<Rightarrow> Session" where
  "Session_SetRemoteAddr addr s = s\<lparr>se_RemoteAddr := Some addr\<rparr>"

definition Session_SetState :: "SessionState \<Rightarrow> Session \<Rightarrow> Session" where
  "Session_SetState st s = s\<lparr>se_State := st\<rparr>"

definition Session_Cancel :: "Session \<Rightarrow> Session" where
  "Session_Cancel s = s\<lparr>se_cancelled := True\<rparr>"

type_synonym SessionManager = "(SessionKey, nat) fmap"

definition SessionManager_Add :: "SessionKey \<Rightarrow> nat \<Rightarrow> SessionManager \<Rightarrow> SessionManager" where
  "SessionManager_Add key i sm = fmupd key i sm"

definition SessionManager_Get :: "SessionKey \<Rightarrow> SessionManager \<Rightarrow> nat option" where
  "SessionManager_Get key sm = fmlookup sm key"

definition SessionManager_Remove :: "SessionKey \<Rightarrow> SessionManager \<Rightarrow> SessionManager" where
  "SessionManager_Remove key sm = fmdrop key sm"

record Bridge =
  bd_aRemote :: "net_addr option"
  bd_bRemote :: "net_addr option"
  bd_AConn :: nat
  bd_BConn :: nat
  bd_ASToBSS :: u32
  bd_BSToASS :: u32
  bd_started :: bool
  bd_cancelled :: bool

definition NewBridge :: "u32 \<Rightarrow> u32 \<Rightarrow> nat \<Rightarrow> nat \<Rightarrow> Bridge" where
  "NewBridge ssrc1 ssrc2 aConn bConn = \<lparr>bd_aRemote = None, bd_bRemote = None, bd_AConn = aConn, bd_BConn = bConn, bd_ASToBSS = ssrc1, bd_BSToASS = ssrc2,
     bd_started = False, bd_cancelled = False\<rparr>"

definition SetARemote :: "net_addr \<Rightarrow> Bridge \<Rightarrow> Bridge" where "SetARemote addr b = b\<lparr>bd_aRemote := Some addr\<rparr>"
definition SetBRemote :: "net_addr \<Rightarrow> Bridge \<Rightarrow> Bridge" where "SetBRemote addr b = b\<lparr>bd_bRemote := Some addr\<rparr>"

definition Bridge_Start :: "Bridge \<Rightarrow> Bridge" where
  "Bridge_Start b = (if bd_started b then b else if bd_aRemote b = None \<or> bd_bRemote b = None then b else b\<lparr>bd_started := True\<rparr>)"

definition Bridge_Stop :: "Bridge \<Rightarrow> Bridge" where "Bridge_Stop b = b\<lparr>bd_cancelled := True\<rparr>"




section \<open>What the loops send\<close>

lemma UnmarshalRTP_wire: "rtp_ok p \<Longrightarrow> UnmarshalRTP (rtp_wire p) = Ok p"
  by (simp add: UnmarshalRTP_def UnmarshalRTPTo_wire)

lemma ReadRTP_accepted: "ReadRTP d q = Ok pkt \<Longrightarrow> rtp_accepted pkt"
  by (auto simp: ReadRTP_def split: go.splits prod.splits elim: UnmarshalRTPTo_OkE)

text \<open>An unpadded packet is written as its wire form, whatever the pooled buffer held before.\<close>

lemma write_packet_wire:
  assumes "rtp_ok p" and "\<not> rtp_Padding (rtp_Header p)"
  obtains buf' where "write_packet p buf = Ok (rtp_wire p, buf')"
proof -
  define b where "b = (if length buf < RTPPacket_MarshalSize p then replicate (RTPPacket_MarshalSize p) 0 else buf)"
  have "RTPPacket_MarshalSize p \<le> length b" by (simp add: b_def)
  from RTPPacket_MarshalTo_body [OF assms(1) this] have
    "RTPPacket_MarshalTo p b = Ok (rtp_wire p @ drop (length (rtp_wire p)) b, length (rtp_wire p))"
    using assms by (simp add: Let_def rtp_wire_def pad_wire_def rtp_ok_def)
  then show ?thesis
    by (intro that [of "rtp_wire p @ drop (length (rtp_wire p)) b"]) (simp add: write_packet_def b_def [symmetric] Let_def)
qed

text \<open>The packets of a run that the parser accepts, and the counters of the \<open>k\<close>-th packet sent.\<close>

definition accepted :: "(byte list \<times> 'a) list \<Rightarrow> (RTPPacket \<times> 'a) list" where
  "accepted ds = concat (map (\<lambda>(d, a). case ReadRTP d zero_RTPPacket of Ok p \<Rightarrow> [(p, a)] | _ \<Rightarrow> []) ds)"

definition relay_at :: "nat \<Rightarrow> relay_state" where
  "relay_at k = \<lparr>rl_seq = of_nat k, rl_timestamp = of_nat (k * samplesPerFrame), rl_buf = []\<rparr>"

definition clean :: "(RTPPacket \<Rightarrow> bool) \<Rightarrow> byte list \<Rightarrow> bool" where
  "clean P d = (case ReadRTP d zero_RTPPacket of Panic \<Rightarrow> False | Fail _ \<Rightarrow> True | Ok p \<Rightarrow> P p)"

text \<open>
  What the bridge and the echo share: a loop that skips unreadable datagrams and otherwise sends one new packet,
  with its own counters, per packet read.
\<close>

locale rtp_relay =
  fixes out :: "relay_state \<Rightarrow> RTPPacket \<Rightarrow> RTPPacket"
    and relayable :: "RTPPacket \<Rightarrow> bool"
    and run :: "(byte list \<times> 'a) list \<Rightarrow> relay_state \<Rightarrow> (rtp_error, (byte list \<times> 'a) list) go"
  assumes run_nil: "run [] st = Ok []"
    and run_skip: "ReadRTP d zero_RTPPacket = Fail e \<Longrightarrow> run ((d, a) # ds) st = run ds st"
    and run_send: "ReadRTP d zero_RTPPacket = Ok pkt \<Longrightarrow> write_packet (out st pkt) (rl_buf st) = Ok (x, buf) \<Longrightarrow>
        run ((d, a) # ds) st = and_then (run ds (relay_next buf st)) (\<lambda>xs. Ok ((x, a) # xs))"
    and out_ok: "rtp_accepted pkt \<Longrightarrow> relayable pkt \<Longrightarrow> rtp_ok (out st pkt)"
    and out_unpadded: "relayable pkt \<Longrightarrow> \<not> rtp_Padding (rtp_Header (out st pkt))"
    and out_counters: "out st pkt = out (st\<lparr>rl_buf := []\<rparr>) pkt"
begin

lemma relay_from:
  assumes "list_all (\<lambda>(d, a). clean relayable d) ds" and "st\<lparr>rl_buf := []\<rparr> = relay_at k"
  shows "\<exists>outs. run ds st = Ok outs \<and>
     map (\<lambda>(x, a). (UnmarshalRTP x, a)) outs = map (\<lambda>(k, p, a). (Ok (out (relay_at k) p), a)) (List.enumerate k (accepted ds))"
  using assms
proof (induction ds arbitrary: st k)
  case Nil
  then show ?case by (simp add: run_nil accepted_def)
next
  case (Cons x ds)
  obtain d a where x: "x = (d, a)" by (cases x)
  have c: "clean relayable d" and cs: "list_all (\<lambda>(d, a). clean relayable d) ds" using Cons.prems by (simp_all add: x)
  show ?case
  proof (cases "ReadRTP d zero_RTPPacket")
    case Panic
    then show ?thesis using c by (simp add: clean_def)
  next
    case (Fail e)
    then show ?thesis using Cons.IH [OF cs Cons.prems(2)] by (simp add: x run_skip accepted_def)
  next
    case (Ok pkt)
    have r: "relayable pkt" using c Ok by (simp add: clean_def)
    have ok: "rtp_ok (out st pkt)" "\<not> rtp_Padding (rtp_Header (out st pkt))"
      by (rule out_ok [OF ReadRTP_accepted [OF Ok] r], rule out_unpadded [OF r])
    obtain buf where w: "write_packet (out st pkt) (rl_buf st) = Ok (rtp_wire (out st pkt), buf)"
      using write_packet_wire [OF ok, of "rl_buf st"] .
    have "(relay_next buf st)\<lparr>rl_buf := []\<rparr> = relay_at (Suc k)"
      using Cons.prems(2) by (cases st) (simp add: relay_next_def relay_at_def algebra_simps)
    from Cons.IH [OF cs this] obtain outs where
      "run ds (relay_next buf st) = Ok outs"
      "map (\<lambda>(x, a). (UnmarshalRTP x, a)) outs = map (\<lambda>(k, p, a). (Ok (out (relay_at k) p), a)) (List.enumerate (Suc k) (accepted ds))"
      by blast
    then show ?thesis
      using out_counters [of st pkt] Cons.prems(2) UnmarshalRTP_wire [OF ok(1)]
      by (simp add: x run_send [OF Ok w] accepted_def Ok)
  qed
qed

lemma relay_all:
  assumes "list_all (\<lambda>(d, a). clean relayable d) ds"
  shows "\<exists>outs. run ds relay_init = Ok outs \<and>
     map (\<lambda>(x, a). (UnmarshalRTP x, a)) outs = map (\<lambda>(k, p, a). (Ok (out (relay_at k) p), a)) (List.enumerate 0 (accepted ds))"
  by (rule relay_from [OF assms]) (simp add: relay_init_def relay_at_def)

end

lemma zero_exts_ok [simp]: "exts_ok zero_RTPHeader"
  by (simp add: exts_ok_def zero_RTPHeader_def)

lemma rtp_ok_fresh:
  "rtp_ok \<lparr>rtp_Payload = d, rtp_Header = zero_RTPHeader\<lparr>rtp_Version := 2, rtp_SSRC := s, rtp_PayloadType := t,
     rtp_SequenceNumber := q, rtp_Timestamp := ts\<rparr>\<rparr> \<longleftrightarrow> t < 128"
  by (simp add: rtp_ok_def exts_ok_def zero_RTPHeader_def)

interpretation bridge: rtp_relay "bridge_out ssrc" "\<lambda>pkt. \<not> rtp_Padding (rtp_Header pkt)"
  "\<lambda>ds st. and_then (forward ssrc (map fst ds) st) (\<lambda>outs. Ok (map (\<lambda>x. (x, ())) outs))" for ssrc
proof unfold_locales
  fix st pkt assume "rtp_accepted pkt" "\<not> rtp_Padding (rtp_Header pkt)"
  then show "rtp_ok (bridge_out ssrc st pkt)"
    by (simp add: rtp_ok_def exts_ok_def zero_RTPHeader_def bridge_out_def rtp_accepted_def Let_def)
qed (auto simp: bridge_out_def forward_packet_def and_then_assoc)

interpretation echo: rtp_relay "echo_out ssrc payloadType" "\<lambda>_. payloadType < 128" "RunEcho ssrc payloadType" for ssrc payloadType
  by unfold_locales (simp_all add: echo_out_def zero_RTPHeader_def rtp_ok_def exts_ok_def)

lemma enumerate_map: "List.enumerate n (map f xs) = map (\<lambda>(k, x). (k, f x)) (List.enumerate n xs)"
  by (induction xs arbitrary: n) auto

text \<open>The packets a loop reads from the datagrams that reach it.\<close>

definition received :: "byte list list \<Rightarrow> RTPPacket list" where
  "received ds = concat (map (\<lambda>d. case ReadRTP d zero_RTPPacket of Ok p \<Rightarrow> [p] | _ \<Rightarrow> []) ds)"

lemma accepted_received: "map fst (accepted (map (\<lambda>d. (d, ())) ds)) = received ds"
  by (induction ds) (simp_all add: accepted_def received_def split: go.split)

lemma bridge_relays:
  assumes "list_all (clean (\<lambda>pkt. \<not> rtp_Padding (rtp_Header pkt))) ds"
  shows "\<exists>outs. forward ssrc ds relay_init = Ok outs \<and>
     map UnmarshalRTP outs = map (\<lambda>(k, p). Ok (bridge_out ssrc (relay_at k) p)) (List.enumerate 0 (received ds))"
proof -
  have "list_all (\<lambda>(d, a). clean (\<lambda>pkt. \<not> rtp_Padding (rtp_Header pkt)) d) (map (\<lambda>d. (d, ())) ds)"
    using assms by (simp add: list_all_iff)
  from bridge.relay_all [OF this, of ssrc] obtain outs where
    f: "forward ssrc ds relay_init = Ok outs" and
    m: "map (\<lambda>(x, a). (UnmarshalRTP x, a)) (map (\<lambda>x. (x, ())) outs) =
       map (\<lambda>(k, p, a). (Ok (bridge_out ssrc (relay_at k) p), a)) (List.enumerate 0 (accepted (map (\<lambda>d. (d, ())) ds)))"
    by (auto simp: and_then_eq_Ok comp_def)
  show ?thesis using f arg_cong [OF m, of "map fst"]
    by (simp add: comp_def case_prod_beta enumerate_map flip: accepted_received)
qed

lemma map_enumerate_snd: "map (\<lambda>(k, p). f p) (List.enumerate n xs) = map f xs"
  by (induction xs arbitrary: n) auto

lemma map_enumerate_fst: "map (\<lambda>(k, p). f k) (List.enumerate n xs) = map f [n..<n + length xs]"
  by (rule nth_equalityI) (simp_all add: nth_enumerate_eq)

text \<open>
  C24. The bridge relays: of datagrams that do not crash the parser and carry no padding, each one that parses is sent on, in
  order, as a packet that parses: payload, marker and payload type are those of the original, the sequence numbers are
  \<open>0, 1, ...\<close> and the time stamps \<open>0, 160, ...\<close> at their widths, and version, source, padding flag and lists of sources and
  extensions are those of a fresh packet of the bridge.
\<close>
theorem bridge_forwards:
  assumes "list_all (clean (\<lambda>pkt. \<not> rtp_Padding (rtp_Header pkt))) ds"
  shows "\<exists>outs qs. forward ssrc ds relay_init = Ok outs \<and> map UnmarshalRTP outs = map Ok qs \<and>
     map rtp_Payload qs = map rtp_Payload (received ds) \<and>
     map (\<lambda>q. rtp_Marker (rtp_Header q)) qs = map (\<lambda>p. rtp_Marker (rtp_Header p)) (received ds) \<and>
     map (\<lambda>q. rtp_PayloadType (rtp_Header q)) qs = map (\<lambda>p. rtp_PayloadType (rtp_Header p)) (received ds) \<and>
     map (\<lambda>q. rtp_SequenceNumber (rtp_Header q)) qs = map of_nat [0..<length qs] \<and>
     map (\<lambda>q. rtp_Timestamp (rtp_Header q)) qs = map (\<lambda>k. of_nat (160 * k)) [0..<length qs] \<and>
     list_all (\<lambda>q. rtp_Version (rtp_Header q) = 2 \<and> rtp_SSRC (rtp_Header q) = ssrc \<and> \<not> rtp_Padding (rtp_Header q) \<and>
       rtp_CSRC (rtp_Header q) = [] \<and> rtp_Extensions (rtp_Header q) = []) qs"
proof -
  define qs where "qs = map (\<lambda>(k, p). bridge_out ssrc (relay_at k) p) (List.enumerate 0 (received ds))"
  obtain outs where f: "forward ssrc ds relay_init = Ok outs" and
    m: "map UnmarshalRTP outs = map (\<lambda>(k, p). Ok (bridge_out ssrc (relay_at k) p)) (List.enumerate 0 (received ds))"
    using bridge_relays [OF assms, of ssrc] by blast
  have m: "map UnmarshalRTP outs = map Ok qs" unfolding m qs_def by (simp add: comp_def case_prod_beta)
  have unpadded: "\<not> rtp_Padding (rtp_Header p)" if "p \<in> set (received ds)" for p
    using assms that by (auto simp: received_def clean_def list_all_iff split: go.splits)
  have field: "map g qs = map (\<lambda>(k, p). g (bridge_out ssrc (relay_at k) p)) (List.enumerate 0 (received ds))" for g :: "RTPPacket \<Rightarrow> 'x"
    by (simp add: qs_def comp_def case_prod_beta)
  have "list_all (\<lambda>q. rtp_Version (rtp_Header q) = 2 \<and> rtp_SSRC (rtp_Header q) = ssrc \<and> \<not> rtp_Padding (rtp_Header q) \<and>
       rtp_CSRC (rtp_Header q) = [] \<and> rtp_Extensions (rtp_Header q) = []) qs"
    by (auto simp: qs_def list_all_iff bridge_out_def zero_RTPHeader_def in_set_enumerate_eq unpadded)
  moreover have "length qs = length (received ds)" by (simp add: qs_def)
  ultimately show ?thesis using f m
    by (intro exI [of _ outs] exI [of _ qs])
      (simp add: field bridge_out_def zero_RTPHeader_def relay_at_def samplesPerFrame_def mult.commute
        map_enumerate_snd map_enumerate_fst)
qed

text \<open>A datagram of that size with the padding flag and a last byte of zero is refused.\<close>

lemma UnmarshalRTP_zero_padding:
  assumes "12 < length d" and "d ! 0 = 0xA0" and "d ! (length d - 1) = 0"
  shows "UnmarshalRTP d = Fail RtpPaddingZero"
proof -
  have "d \<noteq> []" using assms(1) by auto
  then show ?thesis
    using assms unfolding UnmarshalRTP_def UnmarshalRTPTo_def
    by (simp add: rtpFixedHeaderLen_def rtpVersion_def index_def get_u16_def get_u32_def Let_def
        unmarshal_rtp_extension_def unmarshal_rtp_payload_def)
qed

lemma MarshalSize_bridge_out: "RTPPacket_MarshalSize (bridge_out ssrc st pkt) = 12 + length (rtp_Payload pkt)"
  by (simp add: length_rtp_wire [symmetric] rtp_wire_def length_rtp_head bridge_out_def zero_RTPHeader_def pad_wire_def)

text \<open>
  What becomes of a padded packet: the bridge copies the padding flag but not the count, writes the packet at the start of
  its 1500-byte buffer and a count of zero into the last byte of that buffer, and sends all of it.  The datagram is refused by
  every conforming receiver, this program's own parser included.
\<close>
theorem bridge_breaks_padding:
  assumes "ReadRTP d zero_RTPPacket = Ok pkt" and "rtp_Padding (rtp_Header pkt)" and "length (rtp_Payload pkt) \<le> 1488"
  shows "\<exists>out. forward ssrc [d] relay_init = Ok [out] \<and> length out = 1500 \<and> UnmarshalRTP out = Fail RtpPaddingZero"
proof -
  let ?p = "bridge_out ssrc relay_init pkt" and ?buf = "rl_buf relay_init"
  define out where "out = rtp_head_wire (rtp_Header ?p) @ rtp_Payload ?p"
  have p: "exts_ok (rtp_Header ?p)" "\<not> 15 < length (rtp_CSRC (rtp_Header ?p))" "rtp_Padding (rtp_Header ?p)" "rtp_PaddingSize (rtp_Header ?p) = 0"
    using assms(2) by (simp_all add: bridge_out_def zero_RTPHeader_def exts_ok_def)
  have lo: "length out = 12 + length (rtp_Payload pkt)"
    by (simp add: out_def length_rtp_head bridge_out_def zero_RTPHeader_def)
  have sz: "RTPPacket_MarshalSize ?p \<le> length ?buf"
    using assms(3) by (simp add: MarshalSize_bridge_out relay_init_def)
  have hd: "out ! 0 = 0xA0"
    using assms(2) by (simp add: out_def rtp_head_wire_def rtp_byte0_def bridge_out_def zero_RTPHeader_def)
  let ?x = "(out @ drop (length out) ?buf)[1499 := 0]"
  have lx: "length ?x = 1500" using lo assms(3) by (simp add: relay_init_def)
  have "RTPPacket_MarshalTo ?p ?buf = Ok (?x, 1500)"
    using RTPPacket_MarshalTo_writes [OF p(1,2) sz] p(3,4) by (simp add: Let_def out_def relay_init_def)
  then have "forward ssrc [d] relay_init = Ok [?x]"
    using sz lx by (simp add: assms(1) forward_packet_def write_packet_def Let_def)
  moreover have "?x ! (length ?x - 1) = 0" using lx by simp
  moreover have "?x ! 0 = 0xA0" using hd lo by (simp add: nth_append)
  ultimately show ?thesis using lx UnmarshalRTP_zero_padding [of ?x] by auto
qed




definition plain_datagram :: "byte list" where "plain_datagram = [0x80, 0x80, 0, 9, 0, 0, 0, 8, 0, 0, 0, 7, 42, 43]"
definition padded_datagram :: "byte list" where "padded_datagram = [0xA0, 0, 0, 9, 0, 0, 0, 8, 0, 0, 0, 7, 42, 1]"

theorem bridge_forwards_witness:
  "\<exists>outs qs. forward 5 [plain_datagram, [1, 2], plain_datagram] relay_init = Ok outs \<and> map UnmarshalRTP outs = map Ok qs \<and>
     map rtp_Payload qs = [[42, 43], [42, 43]]"
proof -
  have "list_all (clean (\<lambda>pkt. \<not> rtp_Padding (rtp_Header pkt))) [plain_datagram, [1, 2], plain_datagram]" by code_simp
  moreover have "map rtp_Payload (received [plain_datagram, [1, 2], plain_datagram]) = [[42, 43], [42, 43]]" by code_simp
  ultimately show ?thesis using bridge_forwards [of "[plain_datagram, [1, 2], plain_datagram]" 5] by metis
qed

theorem bridge_breaks_padding_witness:
  "\<exists>out. forward 5 [padded_datagram] relay_init = Ok [out] \<and> length out = 1500 \<and> UnmarshalRTP out = Fail RtpPaddingZero"
proof -
  let ?p = "zero_RTPPacket\<lparr>rtp_Payload := [42], rtp_Header := zero_RTPHeader\<lparr>rtp_Version := 2, rtp_Padding := True, rtp_PaddingSize := 1,
    rtp_SequenceNumber := 9, rtp_Timestamp := 8, rtp_SSRC := 7\<rparr>\<rparr>"
  have "ReadRTP padded_datagram zero_RTPPacket = Ok ?p" by code_simp
  then show ?thesis by (rule bridge_breaks_padding) (simp_all add: zero_RTPHeader_def)
qed

section \<open>Playback\<close>

lemma play_packet_ok: "payloadType < 128 \<Longrightarrow> rtp_ok (play_packet ssrc payloadType m k)"
  by (simp add: play_packet_def rtp_ok_def exts_ok_def zero_RTPHeader_def)

lemma marshal_frames_wire: "list_all rtp_ok ps \<Longrightarrow> marshal_frames ps = Ok (map rtp_wire ps)"
  by (induction ps) (simp_all add: RTPPacket_Marshal_wire)

lemma length_play_frame: "length (play_frame m k) = samplesPerFrame"
  by (simp add: play_frame_def Let_def)

lemma full_frames:
  "n * samplesPerFrame \<le> length m \<Longrightarrow> concat (map (play_frame m) [0..<n]) = take (n * samplesPerFrame) m"
proof (induction n)
  case (Suc n)
  have "play_frame m n = take samplesPerFrame (drop (n * samplesPerFrame) m)"
    using Suc.prems by (simp add: play_frame_def Let_def)
  then show ?case using Suc by (simp add: take_add [symmetric] add.commute)
qed simp

text \<open>All frames together are the audio, filled up with zero bytes to whole frames.\<close>

lemma frame_count:
  assumes "r < 160" shows "(160 * q + r + 160 - 1) div 160 = (if r = 0 then q else Suc (q :: nat))"
proof -
  have "(160 * q + r + 160 - 1) div 160 = q + (r + 159) div 160" using div_mult_self4 [of 160 "r + 159" q] by (simp add: add.assoc)
  moreover have "(r + 159) div 160 = (if r = 0 then 0 else 1)" using assms by (simp add: div_nat_eqI)
  ultimately show ?thesis by simp
qed

lemma all_frames:
  defines "count \<equiv> \<lambda>m. (length m + samplesPerFrame - 1) div samplesPerFrame"
  shows "concat (map (play_frame m) [0..<count m]) = m @ replicate (count m * samplesPerFrame - length m) 0 \<and>
     count m * samplesPerFrame < length m + samplesPerFrame"
proof -
  define q r where "q = length m div 160" and "r = length m mod 160"
  have s: "samplesPerFrame = 160" and len: "length m = 160 * q + r" and r: "r < 160"
    by (simp_all add: samplesPerFrame_def q_def r_def)
  have c: "count m = (if r = 0 then q else Suc q)" unfolding count_def s len by (rule frame_count [OF r])
  have full: "concat (map (play_frame m) [0..<q]) = take (160 * q) m"
    using full_frames [of q m] len by (simp add: s mult.commute)
  have last: "play_frame m q = drop (160 * q) m @ replicate (160 - r) 0" if "r \<noteq> 0"
    using len r by (simp add: play_frame_def Let_def s mult.commute)
  show ?thesis
  proof (cases "r = 0")
    case True
    then show ?thesis using full by (simp add: c len s)
  next
    case False
    then show ?thesis using full last [OF False] r by (simp add: c len s append_assoc [symmetric] del: append_assoc)
  qed
qed

subsection \<open>Resampling\<close>

text \<open>
  The rates for which the rounded ratio is not below the exact one: all multiples of 125, where it is exact, and the family
  of 44100.
\<close>

definition rate_ok :: "u32 \<Rightarrow> bool" where
  "rate_ok R \<longleftrightarrow> 0 < R \<and> of_int (uint R) / 8000 \<le> sample_ratio R"

lemma rate_ok_common: "list_all rate_ok [8000, 11025, 12000, 16000, 22050, 24000, 32000, 44100, 48000, 88200, 96000, 192000]"
  by code_simp

lemma rate_ok_exact:
  assumes "125 dvd uint R" and "R \<noteq> 0"
  shows "rate_ok R"
proof -
  obtain m where m: "uint R = 125 * m" using assms(1) by blast
  have "0 < uint R" using assms(2) by (metis order_le_less uint_0_iff unsigned_greater_eq)
  moreover have "uint R < 2 ^ 32" using unsigned_less [of R, where ?'a = int] by simp
  ultimately have n: "0 < m" "m < 2 ^ 53" using m by simp_all
  have e: "(of_int (uint R) / 8000 :: rat) = of_nat (nat m) / 2 ^ 6" using n(1) by (simp add: m)
  have "round64 (of_nat (nat m) / 2 ^ 6) = of_nat (nat m) / 2 ^ 6" using n by (intro round64_exact) (simp add: nat_less_iff)
  then have "sample_ratio R = of_int (uint R) / 8000" using e by (simp add: sample_ratio_def fdiv_def targetSampleRate_def)
  then show ?thesis using assms(2) by (simp add: rate_ok_def word_gt_0)
qed

lemma go_map_ok: "(\<And>x. x \<in> set xs \<Longrightarrow> \<exists>y. f x = Ok y) \<Longrightarrow> \<exists>ys. go_map f xs = Ok ys \<and> length ys = length xs"
proof (induction xs)
  case (Cons x xs)
  then obtain y ys where "f x = Ok y" "go_map f xs = Ok ys" "length ys = length xs" by (meson list.set_intros)
  then show ?case by simp
qed simp

lemma go_map_Panic: "(\<And>x e. f x \<noteq> Fail e) \<Longrightarrow> x \<in> set xs \<Longrightarrow> f x = Panic \<Longrightarrow> go_map f xs = Panic"
proof (induction xs)
  case (Cons y xs)
  then show ?case by (cases "f y") auto
qed simp

lemma downsample_at_Ok: "nat (ftrunc (fmul (of_nat i) ratio)) < length xs \<Longrightarrow> \<exists>y. downsample_at xs ratio i = Ok y"
  by (simp add: downsample_at_def Let_def index_def)

text \<open>The source position of every output sample lies inside the input.\<close>

lemma source_index_less:
  assumes R: "rate_ok R" and L: "L < 2 ^ 32" and i: "int i < \<lceil>fdiv (of_nat L) (sample_ratio R)\<rceil>"
  shows "nat (ftrunc (fmul (of_nat i) (sample_ratio R))) < L"
proof -
  define r where "r = sample_ratio R"
  define q :: rat where "q = of_int (uint R) / 8000"
  have "1 \<le> uint R" using R by (simp add: rate_ok_def word_less_def)
  then have "(of_int 1 :: rat) \<le> of_int (uint R)" by (simp only: of_int_le_iff)
  then have q: "1 / 8000 \<le> q" by (simp add: q_def)
  have r: "q \<le> r" "r \<le> q * (1 + 1 / 2 ^ 53)"
    using R q round64_upper [of q] by (simp_all add: rate_ok_def r_def sample_ratio_def fdiv_def q_def targetSampleRate_def)
  have r0: "0 < r" "1 / 8000 \<le> r" using q r(1) by linarith+
  have up: "fdiv (of_nat L) r \<le> of_nat m" if "of_nat L / r \<le> of_nat m" "m < 2 ^ 53" for m
    unfolding fdiv_def using that r0 by (intro round64_le) simp_all
  have "of_nat L / r \<le> of_nat (8000 * L)"
    using r0 mult_left_mono [OF r0(2), of "8000 * of_nat L"] by (simp add: divide_le_eq algebra_simps)
  then have "fdiv (of_nat L) r \<le> of_nat (8000 * L)" using L by (intro up) simp_all
  then have "\<lceil>fdiv (of_nat L) r\<rceil> \<le> int (8000 * L)" by (simp add: ceiling_le_iff)
  then have ib: "i < 2 ^ 53" using i L by (simp add: r_def [symmetric])
  have "of_nat i < of_nat L / r"
  proof (rule ccontr)
    assume "\<not> of_nat i < of_nat L / r"
    then have "fdiv (of_nat L) r \<le> of_nat i" by (intro up [OF _ ib]) simp
    then show False using i by (simp add: r_def [symmetric] less_ceiling_iff)
  qed
  then have ir: "of_nat i * r < of_nat L" using r0 by (simp add: less_divide_eq)
  then have "of_nat i * q < of_nat L" using mult_left_mono [OF r(1), of "of_nat i"] by simp
  then have "(of_int (int i * uint R) :: rat) < of_int (8000 * int L)" by (simp add: q_def)
  then have "int i * uint R + 1 \<le> 8000 * int L" by (simp only: of_int_less_iff)
  then have "(of_int (int i * uint R + 1) :: rat) \<le> of_int (8000 * int L)" by (simp only: of_int_le_iff)
  then have iq: "of_nat i * q \<le> of_nat L - 1 / 8000" by (simp add: q_def field_simps)
  define e :: rat where "e = 1 + 1 / 2 ^ 53"
  have e: "0 < e" by (simp add: e_def)
  have "fmul (of_nat i) r \<le> of_nat i * r * e"
    using round64_upper [of "of_nat i * r"] r0 by (simp add: fmul_def e_def)
  also have "\<dots> \<le> of_nat i * (q * e) * e"
    using r(2) e by (intro mult_right_mono mult_left_mono) (simp_all add: e_def)
  also have "\<dots> = of_nat i * q * (e * e)" by simp
  also have "\<dots> \<le> (of_nat L - 1 / 8000) * (e * e)" using iq e by (intro mult_right_mono) simp_all
  also have "\<dots> < of_nat L"
  proof -
    have "(of_nat L :: rat) < of_nat (2 ^ 32)" using L by (simp only: of_nat_less_iff)
    then show ?thesis by (simp add: e_def algebra_simps)
  qed
  finally have "fmul (of_nat i) r < of_nat L" .
  moreover have "0 \<le> fmul (of_nat i) r" using r0 by (simp add: fmul_def round64_nonneg)
  ultimately show ?thesis by (simp add: ftrunc_def r_def [symmetric] nat_less_iff floor_less_iff)
qed

lemma downsample_total:
  assumes "rate_ok R" and "length xs < 2 ^ 32"
  shows "\<exists>ys. downsample xs R = Ok ys"
proof (cases "R = targetSampleRate")
  case False
  have "\<exists>y. downsample_at xs (sample_ratio R) i = Ok y" if "i \<in> set [0..<nat \<lceil>fdiv (of_nat (length xs)) (sample_ratio R)\<rceil>]" for i
    using that by (intro downsample_at_Ok source_index_less [OF assms]) simp
  then have "\<exists>ys. go_map (downsample_at xs (sample_ratio R)) [0..<nat \<lceil>fdiv (of_nat (length xs)) (sample_ratio R)\<rceil>] = Ok ys"
    using go_map_ok by blast
  then show ?thesis using False assms(1) by (auto simp: downsample_def Let_def rate_ok_def)
qed (simp add: downsample_def)

lemma length_mono: "length (mixToMono (readPCMSamples wav) c) \<le> length (wav_Data wav)"
proof -
  have "length (readPCMSamples wav) \<le> length (wav_Data wav)" by (auto simp: readPCMSamples_def Let_def)
  moreover have "length (mixToMono xs c) \<le> length xs" for xs by (simp add: mixToMono_def)
  ultimately show ?thesis using le_trans by blast
qed

text \<open>A chunk of a file is shorter than \<open>2 ^ 32\<close> bytes.\<close>

lemma wav_chunks_length:
  "wav_chunks f w data = Ok (w', Some d) \<Longrightarrow> (\<And>d. data = Some d \<Longrightarrow> length d < 2 ^ 32) \<Longrightarrow> length d < 2 ^ 32"
proof (induction f w data rule: wav_chunks.induct)
  case (1 f w data)
  have short: "unat (c :: u32) < 2 ^ 32" for c using unsigned_less [of c, where ?'a = nat] by simp
  show ?case using 1 short
    by (simp add: wav_chunks.simps [of f w data] Let_def split: if_split_asm go.split_asm)
qed

lemma LoadWav_length: "LoadWav file = Ok wav \<Longrightarrow> length (wav_Data wav) < 2 ^ 32"
proof -
  assume "LoadWav file = Ok wav"
  then obtain f w d where "wav_chunks (drop 12 f) None None = Ok (Some w, Some d)" and "wav = w\<lparr>wav_Data := d\<rparr>"
    by (simp add: LoadWav_def and_then_eq_Ok case_prod_beta split: option.split_asm if_split_asm) (metis prod.collapse)
  then show ?thesis using wav_chunks_length by fastforce
qed

text \<open>
  C39. Playback sends the whole recording: of a file that was loaded, with a sampling rate whose ratio to 8000 is not rounded
  down, the resampler returns, the datagrams parse as RTP packets with sequence numbers \<open>0, 1, ...\<close>, time stamps
  \<open>0, 160, ...\<close> and 160 bytes each, and their payloads in order are the mu-law audio followed by fewer than 160 zero bytes.
  At 8000 Hz the audio is the encoding of the mono samples themselves.
\<close>
theorem playback_complete:
  assumes "LoadWav file = Ok wav" and "rate_ok (wav_SampleRate wav)" and "payloadType < 128"
  shows "\<exists>audio ds ps. (playback_audio wav :: (rtp_error, byte list) go) = Ok audio \<and>
     RunFilePlayback ssrc payloadType wav = Ok ds \<and> map UnmarshalRTP ds = map Ok ps \<and>
     (\<exists>n < 160. concat (map rtp_Payload ps) = audio @ replicate n 0) \<and>
     map (\<lambda>p. length (rtp_Payload p)) ps = replicate (length ps) 160 \<and>
     map (\<lambda>p. rtp_SequenceNumber (rtp_Header p)) ps = map of_nat [0..<length ps] \<and>
     map (\<lambda>p. rtp_Timestamp (rtp_Header p)) ps = map (\<lambda>k. of_nat (160 * k)) [0..<length ps] \<and>
     (wav_SampleRate wav = 8000 \<longrightarrow>
        audio = map muLawEncode (mixToMono (readPCMSamples wav) (unat (wav_NumChannels wav))))"
proof -
  let ?mono = "mixToMono (readPCMSamples wav) (unat (wav_NumChannels wav))"
  have "length ?mono < 2 ^ 32" using length_mono LoadWav_length [OF assms(1)] le_less_trans by blast
  from downsample_total [OF assms(2) this] obtain ys where ys: "(downsample ?mono (wav_SampleRate wav) :: (rtp_error, _) go) = Ok ys" ..
  define m where "m = convertToMuLaw16 ys"
  have audio: "(playback_audio wav :: (rtp_error, byte list) go) = Ok m" by (simp add: playback_audio_def ys m_def)
  define c where "c = (length m + samplesPerFrame - 1) div samplesPerFrame"
  define ps where "ps = map (play_packet ssrc payloadType m) [0..<c]"
  have ok: "list_all rtp_ok ps" using play_packet_ok [OF assms(3)] by (auto simp: ps_def list_all_iff)
  have "RunFilePlayback ssrc payloadType wav = Ok (map rtp_wire ps)"
  proof (cases "readPCMSamples wav = []")
    case True
    then have "ys = []" using ys
      by (auto simp: downsample_def mixToMono_def Let_def fdiv_def round64_def split: if_splits)
    then show ?thesis using True by (simp add: RunFilePlayback_def ps_def c_def m_def convertToMuLaw16_def samplesPerFrame_def)
  next
    case False
    then show ?thesis using marshal_frames_wire [OF ok] by (simp add: RunFilePlayback_def Let_def audio c_def ps_def)
  qed
  moreover have "map UnmarshalRTP (map rtp_wire ps) = map Ok ps"
    using ok by (auto simp: list_all_iff UnmarshalRTP_wire)
  moreover have "concat (map rtp_Payload ps) = m @ replicate (c * samplesPerFrame - length m) 0"
    using all_frames [of m] by (simp add: ps_def play_packet_def comp_def c_def)
  moreover have "c * samplesPerFrame - length m < 160"
    using all_frames [of m] by (simp add: c_def samplesPerFrame_def)
  moreover have "map (\<lambda>p. length (rtp_Payload p)) ps = replicate (length ps) 160"
    by (simp add: ps_def play_packet_def comp_def length_play_frame samplesPerFrame_def map_replicate_const)
  moreover have "map (\<lambda>p. rtp_SequenceNumber (rtp_Header p)) ps = map of_nat [0..<length ps]"
    by (simp add: ps_def play_packet_def comp_def)
  moreover have "map (\<lambda>p. rtp_Timestamp (rtp_Header p)) ps = map (\<lambda>k. of_nat (160 * k)) [0..<length ps]"
    by (simp add: ps_def play_packet_def comp_def samplesPerFrame_def mult.commute)
  moreover have "wav_SampleRate wav = 8000 \<longrightarrow> m = map muLawEncode ?mono"
    using ys by (auto simp: m_def convertToMuLaw16_def downsample_def targetSampleRate_def)
  ultimately show ?thesis using audio by blast
qed

text \<open>
  A file as \<^verbatim>\<open>LoadWav\<close> reads it: mono PCM with the given low bytes of the sampling rate, bits per sample and data of fewer
  than 256 bytes.
\<close>

definition wav_file :: "byte \<Rightarrow> byte \<Rightarrow> byte \<Rightarrow> byte list \<Rightarrow> byte list" where
  "wav_file rate0 rate1 bits data =
     map (\<lambda>c. of_nat (of_char c)) ''RIFF'' @ [0, 0, 0, 0] @ map (\<lambda>c. of_nat (of_char c)) ''WAVEfmt '' @ [16, 0, 0, 0] @
     [1, 0, 1, 0, rate0, rate1, 0, 0, 0, 0, 0, 0, 1, 0, bits, 0] @
     map (\<lambda>c. of_nat (of_char c)) ''data'' @ [of_nat (length data), 0, 0, 0] @ data"

definition sample_wav :: WavData where
  "sample_wav = \<lparr>wav_Data = [1, 0, 2, 0, 3, 0], wav_SampleRate = 11025, wav_BitsPerSample = 16, wav_NumChannels = 1\<rparr>"

theorem playback_complete_witness:
  "\<exists>audio ds ps n. LoadWav (Some (wav_file 0x11 0x2B 16 [1, 0, 2, 0, 3, 0])) = Ok sample_wav \<and>
     (playback_audio sample_wav :: (rtp_error, byte list) go) = Ok audio \<and> RunFilePlayback 5 0 sample_wav = Ok ds \<and>
     map UnmarshalRTP ds = map Ok ps \<and> n < 160 \<and> concat (map rtp_Payload ps) = audio @ replicate n 0"
proof -
  have w: "LoadWav (Some (wav_file 0x11 0x2B 16 [1, 0, 2, 0, 3, 0])) = Ok sample_wav" by code_simp
  moreover have "rate_ok (wav_SampleRate sample_wav)" by code_simp
  ultimately show ?thesis using playback_complete [OF w, of 0 5] by auto
qed

lemma downsample_at_no_Fail: "downsample_at xs ratio i \<noteq> Fail e"
  by (auto simp: downsample_at_def Let_def index_def)

lemma downsample_overruns:
  assumes "R \<noteq> targetSampleRate" and "int i < \<lceil>fdiv (of_nat (length xs)) (sample_ratio R)\<rceil>"
    and "length xs \<le> nat (ftrunc (fmul (of_nat i) (sample_ratio R)))"
  shows "downsample xs R = Panic"
proof -
  have "downsample_at xs (sample_ratio R) i = Panic" using assms(3) by (simp add: downsample_at_def Let_def index_def)
  moreover have "i \<in> set [0..<nat \<lceil>fdiv (of_nat (length xs)) (sample_ratio R)\<rceil>]" using assms(2) by simp
  ultimately show ?thesis using assms(1) by (auto simp: downsample_def Let_def downsample_at_no_Fail intro: go_map_Panic)
qed

text \<open>
  Other rates crash the program, since the goroutine that plays does not recover.  A sampling rate of zero, which
  \<^verbatim>\<open>LoadWav\<close> does not refuse, asks for a slice of no possible length; and at 37800 Hz the ratio 4.725 is rounded down, so that
  567 samples give a quotient just above 120, 121 output samples, and a source position of 567 for the last one.
\<close>

theorem playback_panics:
  assumes "wav_BitsPerSample wav = 8" and "wav_NumChannels wav = 1"
    and "wav_SampleRate wav = 0 \<and> wav_Data wav \<noteq> [] \<or> wav_SampleRate wav = 37800 \<and> length (wav_Data wav) = 567"
  shows "RunFilePlayback ssrc payloadType wav = Panic"
proof -
  have pcm: "readPCMSamples wav = map (\<lambda>b. ucast b - 128) (wav_Data wav)" using assms(1) by (simp add: readPCMSamples_def Let_def)
  have mono: "mixToMono (readPCMSamples wav) (unat (wav_NumChannels wav)) = readPCMSamples wav" using assms(2) by (simp add: mixToMono_def)
  have "(downsample xs 0 :: (rtp_error, _) go) = Panic" for xs by (simp add: downsample_def targetSampleRate_def)
  moreover have "(downsample xs 37800 :: (rtp_error, _) go) = Panic" if "length xs = 567" for xs
  proof (rule downsample_overruns [where i = 120])
    show "(37800 :: u32) \<noteq> targetSampleRate" by (simp add: targetSampleRate_def)
    have "120 < fdiv 567 (sample_ratio 37800)" by code_simp
    then show "int 120 < \<lceil>fdiv (of_nat (length xs)) (sample_ratio 37800)\<rceil>" by (simp add: that less_ceiling_iff)
    have "567 \<le> ftrunc (fmul 120 (sample_ratio 37800))" by code_simp
    then show "length xs \<le> nat (ftrunc (fmul (of_nat 120) (sample_ratio 37800)))" using that by (simp add: le_nat_iff)
  qed
  moreover have "length (readPCMSamples wav) = length (wav_Data wav)" by (simp add: pcm)
  ultimately have "(playback_audio wav :: (rtp_error, _) go) = Panic"
    using assms(3) by (auto simp: playback_audio_def mono)
  moreover have "readPCMSamples wav \<noteq> []" using assms(3) by (auto simp: pcm)
  ultimately show ?thesis by (simp add: RunFilePlayback_def)
qed

theorem playback_panics_witness:
  "\<exists>wav. LoadWav (Some (wav_file 0 0 8 [1])) = Ok wav \<and> RunFilePlayback 5 0 wav = Panic"
proof -
  let ?wav = "\<lparr>wav_Data = [1], wav_SampleRate = 0, wav_BitsPerSample = 8, wav_NumChannels = 1\<rparr>"
  have "LoadWav (Some (wav_file 0 0 8 [1])) = Ok ?wav" by code_simp
  then show ?thesis using playback_panics [of ?wav 5 0] by auto
qed

section \<open>The mu-law encoder\<close>

text \<open>The decoder of the standard (ITU-T G.711), and the clipping of the encoder, as the specification.\<close>

definition ulaw_decode :: "byte \<Rightarrow> int" where
  "ulaw_decode b =
     (let c = NOT b; seg = unat (drop_bit 4 c AND 7); low = int (unat (c AND 15)); t = (8 * low + 132) * 2 ^ seg - 132
      in if c AND 0x80 \<noteq> 0 then - t else t)"

definition ulaw_clip :: "int \<Rightarrow> int" where
  "ulaw_clip x = max (- 32635) (min x 32635)"

lemma ulawSegment_nth: "i < 256 \<Longrightarrow> ulawSegment ! i =
   (if i < 2 then 0 else if i < 4 then 1 else if i < 8 then 2 else if i < 16 then 3 else if i < 32 then 4
    else if i < 64 then 5 else if i < 128 then 6 else 7)"
proof -
  assume "i < 256"
  then consider "i < 2" | "2 \<le> i" "i < 4" | "4 \<le> i" "i < 8" | "8 \<le> i" "i < 16" | "16 \<le> i" "i < 32" | "32 \<le> i" "i < 64"
    | "64 \<le> i" "i < 128" | "128 \<le> i" "i < 256" by linarith
  then show ?thesis by cases (simp_all add: ulawSegment_def nth_append less_diff_conv2)
qed

text \<open>The table is the binary logarithm.\<close>

lemma ulaw_table:
  "0 < i \<Longrightarrow> i < 256 \<Longrightarrow> unat (ulawSegment ! i) \<le> 7 \<and> 2 ^ unat (ulawSegment ! i) \<le> i \<and> i < 2 * 2 ^ unat (ulawSegment ! i)"
  by (simp add: ulawSegment_nth)

lemma ulaw_fields:
  assumes "s \<in> {0, 0x80 :: byte}" and "seg \<le> (7 :: byte)" and "low \<le> (15 :: byte)"
  shows "drop_bit 4 (s OR push_bit 4 seg OR low) AND 7 = seg" "(s OR push_bit 4 seg OR low) AND 15 = low"
    "(s OR push_bit 4 seg OR low) AND 0x80 = s"
proof -
  have all: "list_all (\<lambda>s. list_all (\<lambda>seg :: byte. list_all (\<lambda>low :: byte.
      drop_bit 4 (s OR push_bit 4 seg OR low) AND 7 = seg \<and> (s OR push_bit 4 seg OR low) AND 15 = low \<and> (s OR push_bit 4 seg OR low) AND 0x80 = s)
      (map word_of_nat [0..<16])) (map word_of_nat [0..<8])) [0, 0x80 :: byte]"
    by code_simp
  have "seg \<in> set (map word_of_nat [0..<8])" "low \<in> set (map word_of_nat [0..<16])"
    using assms(2,3) by (auto simp: word_le_nat_alt intro: image_eqI [where x = "unat seg"] image_eqI [where x = "unat low"])
  with all assms(1) show "drop_bit 4 (s OR push_bit 4 seg OR low) AND 7 = seg" "(s OR push_bit 4 seg OR low) AND 15 = low"
    "(s OR push_bit 4 seg OR low) AND 0x80 = s"
    by (fastforce simp only: list_all_iff list.set insert_iff empty_iff)+
qed

lemma signed_shift: "signed_drop_bit n (w :: sample) = word_of_int (sint w div 2 ^ n)"
  using arg_cong [OF sint_signed_drop_bit_eq [of n w], of "word_of_int :: int \<Rightarrow> sample"] by (simp add: drop_bit_eq_div)

lemma ulaw_sign: "(ucast (signed_drop_bit 8 s AND 0x80) :: byte) = (if sint (s :: sample) < 0 then 0x80 else 0)"
proof -
  have p: "(0x80 :: sample) = 2 ^ 7" "(0x80 :: byte) = 2 ^ 7" by simp_all
  have b: "bit (0x80 :: sample) n \<longleftrightarrow> n = 7" "bit (0x80 :: byte) n \<longleftrightarrow> n = 7" for n
    unfolding p bit_exp_iff by auto
  have "bit (ucast (signed_drop_bit 8 s AND 0x80) :: byte) n = bit (if sint s < 0 then 0x80 else 0 :: byte) n" if "n < 8" for n
    using that by (cases "n = 7") (simp_all only: bit_unsigned_iff bit_and_iff b if_distrib [of "\<lambda>w. bit w n"] bit_0_eq, simp_all add: bit_signed_drop_bit_iff bit_last_iff [symmetric])
  then show ?thesis by (intro bit_word_eqI) simp
qed

lemma sint_of_small: "0 \<le> a \<Longrightarrow> a < 32768 \<Longrightarrow> sint (word_of_int a :: sample) = a"
  by (simp add: int_word_sint)

lemma ulaw_magnitude:
  fixes s :: sample
  defines "f \<equiv> if sint s < 0 then (if s = 0x8000 then 0x7FFF else - s) else s"
  shows "(if uLawClip <s f then uLawClip else f) + uLawBias = word_of_int (abs (ulaw_clip (sint s)) + 132)"
proof -
  have rng: "- 32768 \<le> sint s" "sint s < 32768" using sint_ge [of s] sint_lt [of s] by simp_all
  have f: "f = word_of_int (min (abs (sint s)) 32767)"
  proof (cases "sint s < 0")
    case True
    show ?thesis
    proof (cases "s = 0x8000")
      case True
      then show ?thesis by (simp add: f_def)
    next
      case False
      have "s = - 32768" if "sint s = - 32768" using arg_cong [OF that, of "word_of_int :: int \<Rightarrow> sample"] by simp
      then have "sint s \<noteq> - 32768" using False by auto
      then show ?thesis using True False rng by (simp add: f_def)
    qed
  next
    case False
    then show ?thesis using rng by (simp add: f_def)
  qed
  have sf: "sint f = min (abs (sint s)) 32767" unfolding f by (rule sint_of_small) auto
  have c: "uLawClip <s f \<longleftrightarrow> 32635 < min (abs (sint s)) 32767"
    unfolding word_sless_alt sf by (simp add: uLawClip_def)
  show ?thesis unfolding c using rng
    by (auto simp: f uLawClip_def uLawBias_def ulaw_clip_def min_def max_def)
qed

lemma unat_word_of_int_small: "0 \<le> k \<Longrightarrow> k < 32768 \<Longrightarrow> unat (word_of_int k :: sample) = nat k"
  by (simp add: unat_eq_nat_uint uint_word_of_int)

lemma low_bits: "0 \<le> k \<Longrightarrow> k < 32768 \<Longrightarrow> unat ((word_of_int k :: sample) AND mask n) = nat (k mod 2 ^ n)"
proof -
  assume k: "0 \<le> k" "k < 32768"
  have "unat ((word_of_int k :: sample) AND mask n) = take_bit n (nat k)"
    by (simp add: take_bit_eq_mask [symmetric] unsigned_take_bit_eq unat_word_of_int_small [OF k])
  then show ?thesis using k(1) by (simp add: take_bit_eq_mod nat_mod_distrib nat_power_eq)
qed

lemma sub_mod: "16 \<le> k \<Longrightarrow> k < 32 \<Longrightarrow> k mod 16 = k - (16 :: int)"
  by presburger

text \<open>The segment and the four bits below it, of a magnitude with the bias added.\<close>

lemma ulaw_segment:
  fixes y :: int
  assumes "132 \<le> y" and "y < 32768"
  defines "seg \<equiv> ulawSegment ! unat (signed_drop_bit 7 (word_of_int y :: sample) AND 0xFF)"
  shows "seg \<le> 7" and "(ucast (signed_drop_bit (unat seg + 3) (word_of_int y :: sample) AND 0x0F) :: byte) \<le> 15"
    and "y div 2 ^ (unat seg + 3) = 16 + int (unat (ucast (signed_drop_bit (unat seg + 3) (word_of_int y :: sample) AND 0x0F) :: byte))"
    and "2 ^ (unat seg + 7) \<le> y"
proof -
  have sy: "sint (word_of_int y :: sample) = y" using assms(1,2) by (intro sint_of_small) simp_all
  have i: "0 < nat (y div 128)" "nat (y div 128) < 256" using assms(1,2) by (auto simp: nat_less_iff)
  have "seg = ulawSegment ! nat (y div 128)"
    unfolding seg_def signed_shift sy using low_bits [of "y div 2 ^ 7" 8] assms(1,2) i by (simp add: mask_eq_exp_minus_1)
  then have t: "unat seg \<le> 7" "2 ^ unat seg \<le> nat (y div 128)" "nat (y div 128) < 2 * 2 ^ unat seg"
    using ulaw_table [OF i] by simp_all
  show "seg \<le> 7" using t(1) by (simp add: word_le_nat_alt)
  define q :: int where "q = 2 ^ unat seg"
  have q: "q \<le> y div 128" "y div 128 < 2 * q" "0 < q"
    using t(2,3) i(1) by (simp_all add: q_def le_nat_iff nat_less_iff nat_eq_iff)
  then have b: "128 * q \<le> y" "y < 256 * q" by auto
  then show "2 ^ (unat seg + 7) \<le> y" by (simp add: q_def power_add mult.commute)
  have p: "2 ^ (unat seg + 3) = 8 * q" by (simp add: q_def power_add)
  have d: "16 \<le> y div (8 * q)" "y div (8 * q) < 32"
  proof -
    define d where "d = y div (8 * q)"
    have "y = 8 * (q * d) + y mod (8 * q)" "0 \<le> y mod (8 * q)" "y mod (8 * q) < 8 * q"
      using q(3) by (simp_all add: d_def mult.assoc [symmetric])
    then have "q * 16 < q * (d + 1)" "q * d < q * 32" using b unfolding distrib_left by linarith+
    then show "16 \<le> y div (8 * q)" "y div (8 * q) < 32" using q(3) by (simp_all add: d_def mult_less_cancel_left_pos)
  qed
  let ?l = "ucast (signed_drop_bit (unat seg + 3) (word_of_int y :: sample) AND 0x0F) :: byte"
  have "unat (signed_drop_bit (unat seg + 3) (word_of_int y :: sample) AND 0x0F) = nat (y div (8 * q) mod 16)"
    unfolding signed_shift sy p using low_bits [of "y div (8 * q)" 4] d by (simp add: mask_eq_exp_minus_1)
  moreover have "y div (8 * q) mod 16 = y div (8 * q) - 16" using d sub_mod by blast
  ultimately have "unat ?l = nat (y div (8 * q) - 16)" using d by (simp add: unsigned_ucast_eq take_bit_nat_eq_self)
  then show "?l \<le> 15" "y div 2 ^ (unat seg + 3) = 16 + int (unat ?l)"
    using d unfolding p by (simp_all add: word_le_nat_alt)
qed

lemma ulaw_decode_encode:
  assumes "seg \<le> 7" and "low \<le> 15" and "s \<in> {0, 0x80}"
  shows "ulaw_decode (NOT (s OR push_bit 4 seg OR low)) =
    (let t = (8 * int (unat low) + 132) * 2 ^ unat seg - 132 in if s \<noteq> 0 then - t else t)"
  unfolding ulaw_decode_def Let_def bit.double_compl ulaw_fields [OF assms(3,1,2)] ..

text \<open>
  C40. The mu-law encoder against the decoder of the standard: for every 16-bit sample, clipped to 32635 as the standard says,
  the decoded value is within a thirty-second of the biased magnitude, that is of the clipped magnitude plus 132.
\<close>
theorem muLaw_quantisation:
  "32 * abs (ulaw_decode (muLawEncode s) - ulaw_clip (sint s)) \<le> abs (ulaw_clip (sint s)) + 132"
proof -
  define y where "y = abs (ulaw_clip (sint s)) + 132"
  have y: "132 \<le> y" "y < 32768" by (auto simp: y_def ulaw_clip_def)
  define seg where "seg = ulawSegment ! unat (signed_drop_bit 7 (word_of_int y :: sample) AND 0xFF)"
  define low where "low = (ucast (signed_drop_bit (unat seg + 3) (word_of_int y :: sample) AND 0x0F) :: byte)"
  define sg where "sg = (if sint s < 0 then 0x80 else 0 :: byte)"
  note seg = ulaw_segment [OF y, folded seg_def, folded low_def]
  have "sg \<noteq> 0 \<longleftrightarrow> sint s < 0" by (simp add: sg_def)
  then have "muLawEncode s = NOT (sg OR push_bit 4 seg OR low)"
    unfolding muLawEncode_def Let_def ulaw_sign sg_def [symmetric]
    by (simp only: ulaw_magnitude y_def [symmetric] seg_def [symmetric] low_def [symmetric])
  then have d: "ulaw_decode (muLawEncode s) = (let t = (8 * int (unat low) + 132) * 2 ^ unat seg - 132 in if sint s < 0 then - t else t)"
    using ulaw_decode_encode [OF seg(1,2), of sg] by (simp add: sg_def)
  define q :: int where "q = 2 ^ unat seg"
  have q: "0 < q" by (simp add: q_def)
  have div: "y div (8 * q) = 16 + int (unat low)" and big: "128 * q \<le> y"
    using seg(3,4) by (simp_all add: q_def power_add mult.commute)
  have "y = 8 * q * (16 + int (unat low)) + y mod (8 * q)" using div by (metis mult_div_mod_eq)
  moreover have "0 \<le> y mod (8 * q)" "y mod (8 * q) < 8 * q" using q by simp_all
  moreover have "ulaw_clip (sint s) = (if sint s < 0 then - (y - 132) else y - 132)" by (auto simp: y_def ulaw_clip_def)
  ultimately show ?thesis using big unfolding d Let_def q_def [symmetric] y_def [symmetric]
    by (auto simp: algebra_simps abs_if)
qed


end
