(* ===== verification/UAC.thy ===== *)
theory UAC
  imports Transaction
begin

text \<open>
  Client transactions: \<^verbatim>\<open>internal/sip/uac.go\<close>.  A transaction carries its pending timer callbacks with it, so its
  operations are functions on the transaction alone; what they do outside (messages handed to the transport, the
  deregistration of the branch that follows once the lock is released) is returned as a list of effects.  Whether
  \<^verbatim>\<open>Transport.Send\<close> reported success is an argument, since the code branches on it.  The two channels are lists with the
  capacities of the code; a send on a full channel is dropped, as the code does.
\<close>

section \<open>Transactions\<close>

definition GenerateBranch :: "string option \<Rightarrow> string" where
  "GenerateBranch rnd = (case rnd of None \<Rightarrow> ''z9hG4bKtrec00000000'' | Some b \<Rightarrow> ''z9hG4bK'' @ hex_EncodeToString b)"

definition GenerateCallID :: "string option \<Rightarrow> string" where
  "GenerateCallID rnd = (case rnd of None \<Rightarrow> ''trec-default-call-id'' | Some b \<Rightarrow> hex_EncodeToString b)"

datatype UACState = UACStateCalling | UACStateProceeding | UACStateCompleted | UACStateTerminated

fun UACState_String :: "UACState \<Rightarrow> string" where
  "UACState_String UACStateCalling = ''Calling''"
| "UACState_String UACStateProceeding = ''Proceeding''"
| "UACState_String UACStateCompleted = ''Completed''"
| "UACState_String UACStateTerminated = ''Terminated''"

datatype uac_timer_kind = TimerA | TimerB | TimerD

record uac_timer =
  ck_kind :: uac_timer_kind
  ck_after :: int
  ck_stopped :: bool

record TimeoutError =
  te_Method :: SIPMethod

definition TimeoutError_Error :: "TimeoutError \<Rightarrow> string" where
  "TimeoutError_Error e = te_Method e @ '' transaction timed out''"

record UACTransaction =
  ut_transport :: transport_kind
  ut_cancelled :: bool
  ut_timerD :: "nat option"
  ut_Errors :: "TimeoutError list"
  ut_request :: "SIPMessage option"
  ut_Responses :: "SIPMessage list"
  ut_target :: Target
  ut_timerA :: "nat option"
  ut_timerB :: "nat option"
  ut_Branch :: string
  ut_Method :: SIPMethod
  ut_retxCount :: nat
  ut_state :: UACState
  ut_reliable :: bool
  ut_stopped :: bool
  ut_t1Override :: int
  ut_clock :: "(nat, uac_timer) fmap"
  ut_next :: nat

datatype uac_effect =
    USend transport_kind Target SIPMessage
  | UDeregister string

datatype uac_error =
    USendFailed
  | UNotSent
  | UWrongState UACState

definition isReliableTransport :: "transport_kind \<Rightarrow> bool" where
  "isReliableTransport t = (t = TCPTransport)"

definition newUACTransaction :: "string option \<Rightarrow> SIPMethod \<Rightarrow> transport_kind \<Rightarrow> Target \<Rightarrow> UACTransaction" where
  "newUACTransaction rnd method transport target =
     \<lparr>ut_transport = transport, ut_cancelled = False, ut_timerD = None, ut_Errors = [], ut_request = None, ut_Responses = [],
      ut_target = target, ut_timerA = None, ut_timerB = None, ut_Branch = GenerateBranch rnd, ut_Method = method, ut_retxCount = 0,
      ut_state = UACStateCalling, ut_reliable = False, ut_stopped = False, ut_t1Override = 0, ut_clock = fmempty, ut_next = 0\<rparr>"

text \<open>\<^verbatim>\<open>select { case ch <- x: default: }\<close> on the two buffered channels.\<close>

definition offer :: "nat \<Rightarrow> 'a \<Rightarrow> 'a list \<Rightarrow> 'a list" where
  "offer capacity x ch = (if length ch < capacity then ch @ [x] else ch)"

definition arm :: "uac_timer_kind \<Rightarrow> int \<Rightarrow> UACTransaction \<Rightarrow> nat \<times> UACTransaction" where
  "arm kind d u = (ut_next u, u\<lparr>ut_clock := fmupd (ut_next u) \<lparr>ck_kind = kind, ck_after = d, ck_stopped = False\<rparr> (ut_clock u),
     ut_next := Suc (ut_next u)\<rparr>)"

definition disarm :: "nat option \<Rightarrow> UACTransaction \<Rightarrow> UACTransaction" where
  "disarm k u = (case k of None \<Rightarrow> u
     | Some k \<Rightarrow> u\<lparr>ut_clock := fmmap_keys (\<lambda>k' t. if k' = k then t\<lparr>ck_stopped := True\<rparr> else t) (ut_clock u)\<rparr>)"

definition stop_timerA :: "UACTransaction \<Rightarrow> UACTransaction" where
  "stop_timerA u = (disarm (ut_timerA u) u)\<lparr>ut_timerA := None\<rparr>"

definition stop_timerB :: "UACTransaction \<Rightarrow> UACTransaction" where
  "stop_timerB u = (disarm (ut_timerB u) u)\<lparr>ut_timerB := None\<rparr>"

definition stop_timerD :: "UACTransaction \<Rightarrow> UACTransaction" where
  "stop_timerD u = (disarm (ut_timerD u) u)\<lparr>ut_timerD := None\<rparr>"

definition effective_T1 :: "UACTransaction \<Rightarrow> int" where
  "effective_T1 u = (if ut_t1Override u = 0 then T1 else ut_t1Override u)"

definition uac_backoff :: "int \<Rightarrow> nat \<Rightarrow> int" where
  "uac_backoff t1 n = (let interval = sint (push_bit n (word_of_int t1 :: 64 word)) in if interval > T2 then T2 else interval)"

definition scheduleTimerA :: "UACTransaction \<Rightarrow> UACTransaction" where
  "scheduleTimerA u = (let (k, u) = arm TimerA (uac_backoff (effective_T1 u) (ut_retxCount u)) u in u\<lparr>ut_timerA := Some k\<rparr>)"

definition startTimerA :: "UACTransaction \<Rightarrow> UACTransaction" where
  "startTimerA u = scheduleTimerA (u\<lparr>ut_retxCount := 0\<rparr>)"

definition startTimerB :: "UACTransaction \<Rightarrow> UACTransaction" where
  "startTimerB u = (let (k, u) = arm TimerB (64 * effective_T1 u) u in u\<lparr>ut_timerB := Some k\<rparr>)"

definition transitionToCompleted :: "UACTransaction \<Rightarrow> UACTransaction" where
  "transitionToCompleted u =
     (let u = stop_timerB (stop_timerA (u\<lparr>ut_state := UACStateCompleted\<rparr>));
          (k, u) = arm TimerD (if \<not> ut_reliable u then 32000000000 else 0) u
      in u\<lparr>ut_timerD := Some k\<rparr>)"

text \<open>
  \<^verbatim>\<open>Send\<close> is one step: its short lock sections (the request, then each timer) are taken together, so that a response that
  arrives before the timers are armed is one that arrives after \<^verbatim>\<open>Send\<close>.
\<close>

definition UACTransaction_Send ::
  "bool \<Rightarrow> SIPMessage \<Rightarrow> UACTransaction \<Rightarrow> ('e, UACTransaction \<times> uac_effect list \<times> uac_error option) go" where
  "UACTransaction_Send sent req u =
     (let u = u\<lparr>ut_request := Some req\<rparr> in
      and_then (SIPHeaders_GetFirst (msg_Headers req) ''Call-ID'') (\<lambda>_.
      let effects = [USend (ut_transport u) (ut_target u) req] in
      if \<not> sent then Ok (u, effects, Some USendFailed)
      else let u = (if \<not> ut_reliable u then startTimerA u else u) in Ok (startTimerB u, effects, None)))"

text \<open>The requests that belong to a transaction: ACK for a refused INVITE, and CANCEL.\<close>

definition add_first :: "SIPHeaders \<Rightarrow> string \<Rightarrow> SIPHeaders \<Rightarrow> SIPHeaders" where
  "add_first src k hs = (case values_at src k of [] \<Rightarrow> hs | v # _ \<Rightarrow> SIPHeaders_Add hs k v)"

definition uac_via :: "UACTransaction \<Rightarrow> SIPMessage \<Rightarrow> ('e, string) go" where
  "uac_via u req = and_then (SIPMessage_ViaSentBy req) (\<lambda>sentBy.
     Ok (''SIP/2.0/'' @ TransportName (ut_transport u) @ '' '' @ sentBy @ '';branch='' @ ut_Branch u))"

definition sendACK :: "SIPMessage \<Rightarrow> UACTransaction \<Rightarrow> ('e, uac_effect list) go" where
  "sendACK resp u = (case ut_request u of
     None \<Rightarrow> Panic
   | Some req \<Rightarrow>
       and_then (SIPHeaders_GetFirst (msg_Headers resp) ''Contact'') (\<lambda>contact.
       and_then (uac_via u req) (\<lambda>via.
       and_then (SIPHeaders_GetFirst (msg_Headers req) ''Call-ID'') (\<lambda>callID.
       let ackURI = (if contact \<noteq> [] then StripBrackets contact else SIPMessage_RequestURI req);
           hs = SIPHeaders_Add fmempty ''Via'' via;
           hs = add_first (msg_Headers req) ''From'' hs;
           hs = add_first (msg_Headers req) ''To'' hs;
           hs = SIPHeaders_Add hs ''Call-ID'' callID;
           hs = SIPHeaders_Add (SIPHeaders_Add hs ''Max-Forwards'' ''70'') ''Content-Length'' ''0'';
           ack = (NewRequest ''ACK'' ackURI)\<lparr>msg_Headers := hs,
             msg_CSeq := \<lparr>cseq_Method = ''ACK'', cseq_Seq = cseq_Seq (msg_CSeq req)\<rparr>\<rparr>
       in Ok [USend (ut_transport u) (ut_target u) ack]))))"

definition UACTransaction_HandleResponse ::
  "SIPMessage \<Rightarrow> UACTransaction \<Rightarrow> ('e, UACTransaction \<times> uac_effect list) go" where
  "UACTransaction_HandleResponse msg u =
     (if cseq_Method (msg_CSeq msg) \<noteq> ut_Method u then Ok (u, [])
      else if ut_state u = UACStateTerminated then Ok (u, [])
      else
        let sc = SIPMessage_StatusCode msg; active = (ut_state u = UACStateCalling \<or> ut_state u = UACStateProceeding) in
        if 100 \<le> sc \<and> sc < 200 then
          (let u = (if ut_state u = UACStateCalling then stop_timerA (u\<lparr>ut_state := UACStateProceeding\<rparr>) else u)
           in Ok (u\<lparr>ut_Responses := offer 4 msg (ut_Responses u)\<rparr>, []))
        else if 200 \<le> sc \<and> sc < 300 then
          (let u = (if active then transitionToCompleted u else u) in Ok (u\<lparr>ut_Responses := offer 4 msg (ut_Responses u)\<rparr>, []))
        else if 300 \<le> sc then
          (if active then
             let u = transitionToCompleted u in
             and_then (if ut_Method u = ''INVITE'' then sendACK msg u else Ok []) (\<lambda>effects.
               Ok (u\<lparr>ut_Responses := offer 4 msg (ut_Responses u)\<rparr>, effects))
           else Ok (u\<lparr>ut_Responses := offer 4 msg (ut_Responses u)\<rparr>, []))
        else Ok (u, []))"

section \<open>Timer callbacks\<close>

definition fire_A :: "bool \<Rightarrow> UACTransaction \<Rightarrow> ('e, UACTransaction \<times> uac_effect list) go" where
  "fire_A sent u =
     (if ut_stopped u \<or> ut_state u \<noteq> UACStateCalling then Ok (u, [])
      else case ut_request u of
        None \<Rightarrow> Panic
      | Some req \<Rightarrow>
          let effects = [USend (ut_transport u) (ut_target u) req] in
          if \<not> sent then Ok (u, effects)
          else Ok (scheduleTimerA (u\<lparr>ut_retxCount := Suc (ut_retxCount u)\<rparr>), effects))"

definition fire_B :: "UACTransaction \<Rightarrow> UACTransaction \<times> uac_effect list" where
  "fire_B u =
     (if ut_stopped u then (u, [])
      else
        let u = stop_timerA (u\<lparr>ut_state := UACStateTerminated\<rparr>) in
        (u\<lparr>ut_Errors := offer 1 \<lparr>te_Method = ut_Method u\<rparr> (ut_Errors u)\<rparr>, [UDeregister (ut_Branch u)]))"

definition fire_D :: "UACTransaction \<Rightarrow> UACTransaction \<times> uac_effect list" where
  "fire_D u = (if ut_stopped u then (u, []) else (u\<lparr>ut_state := UACStateTerminated\<rparr>, [UDeregister (ut_Branch u)]))"

definition uac_fire :: "bool \<Rightarrow> nat \<Rightarrow> UACTransaction \<Rightarrow> ('e, UACTransaction \<times> uac_effect list) go" where
  "uac_fire sent k u = (case fmlookup (ut_clock u) k of
     None \<Rightarrow> Ok (u, [])
   | Some t \<Rightarrow>
       let u = u\<lparr>ut_clock := fmdrop k (ut_clock u)\<rparr> in
       (case ck_kind t of TimerA \<Rightarrow> fire_A sent u | TimerB \<Rightarrow> Ok (fire_B u) | TimerD \<Rightarrow> Ok (fire_D u)))"

section \<open>Cancelling\<close>

definition StopTimers :: "UACTransaction \<Rightarrow> UACTransaction" where
  "StopTimers u = stop_timerD (stop_timerB (stop_timerA (u\<lparr>ut_stopped := True\<rparr>)))"

definition UACTransaction_Cancel :: "UACTransaction \<Rightarrow> UACTransaction \<times> uac_effect list" where
  "UACTransaction_Cancel u =
     ((StopTimers u)\<lparr>ut_state := UACStateTerminated, ut_cancelled := True\<rparr>, [UDeregister (ut_Branch u)])"

definition SendCancel :: "bool \<Rightarrow> UACTransaction \<Rightarrow> ('e, uac_effect list \<times> uac_error option) go" where
  "SendCancel sent u = (case ut_request u of
     None \<Rightarrow> Ok ([], Some UNotSent)
   | Some req \<Rightarrow>
       if ut_state u \<noteq> UACStateCalling \<and> ut_state u \<noteq> UACStateProceeding then Ok ([], Some (UWrongState (ut_state u)))
       else
         and_then (uac_via u req) (\<lambda>via.
         and_then (SIPHeaders_GetFirst (msg_Headers req) ''Call-ID'') (\<lambda>callID.
         let hs = SIPHeaders_Add fmempty ''Via'' via;
             hs = add_first (msg_Headers req) ''From'' hs;
             hs = add_first (msg_Headers req) ''To'' hs;
             hs = SIPHeaders_Add hs ''Call-ID'' callID;
             hs = SIPHeaders_Add hs ''Max-Forwards'' ''70'';
             routeVals = values_at (msg_Headers req) ''Route'';
             hs = (if routeVals \<noteq> [] then fmupd ''Route'' routeVals hs else hs);
             hs = SIPHeaders_Add hs ''Content-Length'' ''0'';
             cancel = (NewRequest ''CANCEL'' (SIPMessage_RequestURI req))\<lparr>msg_Headers := hs,
               msg_CSeq := \<lparr>cseq_Method = ''CANCEL'', cseq_Seq = cseq_Seq (msg_CSeq req)\<rparr>\<rparr>
         in Ok ([USend (ut_transport u) (ut_target u) cancel], if sent then None else Some USendFailed))))"

section \<open>The manager\<close>

record UACManager =
  um_pending :: "(string, nat) fmap"
  um_txs :: "(nat, UACTransaction) fmap"
  um_fresh :: nat
  um_effects :: "uac_effect list"

definition NewUACManager :: UACManager where
  "NewUACManager = \<lparr>um_pending = fmempty, um_txs = fmempty, um_fresh = 0, um_effects = []\<rparr>"

definition UACManager_Register :: "string \<Rightarrow> nat \<Rightarrow> UACManager \<Rightarrow> UACManager" where
  "UACManager_Register branch i m = m\<lparr>um_pending := fmupd branch i (um_pending m)\<rparr>"

definition Deregister :: "string \<Rightarrow> UACManager \<Rightarrow> UACManager" where
  "Deregister branch m = m\<lparr>um_pending := fmdrop branch (um_pending m)\<rparr>"

definition UACManager_Get :: "string \<Rightarrow> UACManager \<Rightarrow> nat option" where
  "UACManager_Get branch m = fmlookup (um_pending m) branch"

definition NewTransaction :: "string option \<Rightarrow> SIPMethod \<Rightarrow> transport_kind \<Rightarrow> Target \<Rightarrow> UACManager \<Rightarrow> nat \<times> UACManager" where
  "NewTransaction rnd method transport target m =
     (let tx = (newUACTransaction rnd method transport target)\<lparr>ut_reliable := isReliableTransport transport\<rparr>; i = um_fresh m;
          m = m\<lparr>um_txs := fmupd i tx (um_txs m), um_fresh := Suc i\<rparr>
      in (i, UACManager_Register (ut_Branch tx) i m))"

text \<open>A changed transaction is written back and its effects are carried out.\<close>

fun perform :: "uac_effect \<Rightarrow> UACManager \<Rightarrow> UACManager" where
  "perform (USend tr target msg) m = m\<lparr>um_effects := um_effects m @ [USend tr target msg]\<rparr>"
| "perform (UDeregister branch) m = Deregister branch m"

definition commit :: "nat \<Rightarrow> UACTransaction \<times> uac_effect list \<Rightarrow> UACManager \<Rightarrow> UACManager" where
  "commit i r m = fold perform (snd r) (m\<lparr>um_txs := fmupd i (fst r) (um_txs m)\<rparr>)"

definition UACManager_HandleResponse :: "unicode_tables \<Rightarrow> SIPMessage \<Rightarrow> UACManager \<Rightarrow> ('e, UACManager) go" where
  "UACManager_HandleResponse uni msg m =
     and_then (SIPMessage_ViaBranch (uni_lower uni) msg) (\<lambda>(branch, msg).
     if branch = [] then Ok m
     else and_then (SIPHeaders_GetFirst (msg_Headers msg) ''Call-ID'') (\<lambda>_.
       case fmlookup (um_pending m) branch of
         None \<Rightarrow> Ok m
       | Some i \<Rightarrow> (case fmlookup (um_txs m) i of
           None \<Rightarrow> Panic
         | Some u \<Rightarrow> and_then (UACTransaction_HandleResponse msg u) (\<lambda>r. Ok (commit i r m)))))"

definition cancel_tx :: "nat \<Rightarrow> UACManager \<Rightarrow> UACManager" where
  "cancel_tx i m = (case fmlookup (um_txs m) i of None \<Rightarrow> m | Some u \<Rightarrow> commit i (UACTransaction_Cancel u) m)"

definition UACManager_Stop :: "UACManager \<Rightarrow> UACManager" where
  "UACManager_Stop m =
     fold cancel_tx (map (\<lambda>b. the (fmlookup (um_pending m) b)) (sorted_list_of_fset (fmdom (um_pending m))))
       (m\<lparr>um_pending := fmempty\<rparr>)"



section \<open>The invariant of a client transaction\<close>

lemma uac_backoff_T1: "uac_backoff T1 n = backoff n"
  by (simp add: uac_backoff_def backoff_def)

text \<open>No timer of a transaction runs longer than this.\<close>

definition uac_deadline :: "UACTransaction \<Rightarrow> int" where
  "uac_deadline u = max 32000000000 (64 * effective_T1 u)"

definition running :: "uac_timer_kind \<Rightarrow> nat option \<Rightarrow> UACTransaction \<Rightarrow> bool" where
  "running kind f u \<longleftrightarrow> (case f of None \<Rightarrow> False | Some k \<Rightarrow> (case fmlookup (ut_clock u) k of None \<Rightarrow> False
     | Some t \<Rightarrow> ck_kind t = kind \<and> \<not> ck_stopped t \<and> ck_after t \<le> uac_deadline u))"

definition timer_field :: "uac_timer_kind \<Rightarrow> nat option \<Rightarrow> UACTransaction \<Rightarrow> bool" where
  "timer_field kind f u \<longleftrightarrow> (case f of None \<Rightarrow> True | Some k \<Rightarrow> k < ut_next u
     \<and> (case fmlookup (ut_clock u) k of None \<Rightarrow> True | Some t \<Rightarrow> ck_kind t = kind))"

definition clock_ok :: "UACTransaction \<Rightarrow> bool" where
  "clock_ok u \<longleftrightarrow> (\<forall>k \<in> fset (fmdom (ut_clock u)). k < ut_next u)"

definition uac_ok :: "UACTransaction \<Rightarrow> bool" where
  "uac_ok u \<longleftrightarrow>
     clock_ok u \<and> timer_field TimerA (ut_timerA u) u \<and> timer_field TimerB (ut_timerB u) u \<and> timer_field TimerD (ut_timerD u) u
     \<and> (ut_stopped u \<longrightarrow> ut_state u = UACStateTerminated)
     \<and> (ut_timerB u \<noteq> None \<longrightarrow> ut_state u = UACStateCalling \<or> ut_state u = UACStateProceeding \<longrightarrow> running TimerB (ut_timerB u) u)
     \<and> (ut_state u = UACStateCompleted \<longrightarrow> running TimerD (ut_timerD u) u)
     \<and> length (ut_Responses u) \<le> 4 \<and> length (ut_Errors u) \<le> 1
     \<and> (\<forall>r \<in> set (ut_Responses u). cseq_Method (msg_CSeq r) = ut_Method u \<and> 100 \<le> SIPMessage_StatusCode r)"


lemma disarm_lookup:
  "fmlookup (ut_clock (disarm f u)) k = map_option (\<lambda>t. if f = Some k then t\<lparr>ck_stopped := True\<rparr> else t) (fmlookup (ut_clock u) k)"
  by (cases f; cases "fmlookup (ut_clock u) k") (simp_all add: disarm_def)

lemma disarm_fields [simp]:
  "ut_next (disarm f u) = ut_next u" "ut_state (disarm f u) = ut_state u" "ut_timerA (disarm f u) = ut_timerA u"
  "ut_timerB (disarm f u) = ut_timerB u" "ut_timerD (disarm f u) = ut_timerD u" "ut_stopped (disarm f u) = ut_stopped u"
  "ut_Responses (disarm f u) = ut_Responses u" "ut_Errors (disarm f u) = ut_Errors u" "ut_Method (disarm f u) = ut_Method u"
  "ut_t1Override (disarm f u) = ut_t1Override u" "ut_Branch (disarm f u) = ut_Branch u" "ut_request (disarm f u) = ut_request u"
  "ut_transport (disarm f u) = ut_transport u" "ut_target (disarm f u) = ut_target u" "ut_reliable (disarm f u) = ut_reliable u"
  by (simp_all add: disarm_def split: option.splits)

lemma disarm_timer_field [simp]: "timer_field kind g (disarm f u) = timer_field kind g u"
  by (simp add: timer_field_def disarm_lookup split: option.split)

lemma disarm_clock_ok [simp]: "clock_ok (disarm f u) = clock_ok u"
  by (simp add: clock_ok_def disarm_def split: option.split)

lemma disarm_deadline [simp]: "uac_deadline (disarm f u) = uac_deadline u"
  by (simp add: uac_deadline_def effective_T1_def)

lemma disarm_running: "timer_field kind f u \<Longrightarrow> kd \<noteq> kind \<Longrightarrow> running kd g (disarm f u) = running kd g u"
  by (auto simp: timer_field_def running_def disarm_lookup split: option.splits)

text \<open>Only the clock, the counter and the override matter to the predicates.\<close>

lemma clock_upd [simp]:
  "timer_field kd g (u\<lparr>ut_timerA := xa\<rparr>) = timer_field kd g u" "timer_field kd g (u\<lparr>ut_timerB := xb\<rparr>) = timer_field kd g u"
  "timer_field kd g (u\<lparr>ut_timerD := xc\<rparr>) = timer_field kd g u" "timer_field kd g (u\<lparr>ut_state := xd\<rparr>) = timer_field kd g u"
  "timer_field kd g (u\<lparr>ut_Responses := xe\<rparr>) = timer_field kd g u" "timer_field kd g (u\<lparr>ut_Errors := xf\<rparr>) = timer_field kd g u"
  "timer_field kd g (u\<lparr>ut_stopped := xg\<rparr>) = timer_field kd g u" "timer_field kd g (u\<lparr>ut_request := xh\<rparr>) = timer_field kd g u"
  "timer_field kd g (u\<lparr>ut_retxCount := xi\<rparr>) = timer_field kd g u" "timer_field kd g (u\<lparr>ut_cancelled := xj\<rparr>) = timer_field kd g u"
  "running kd g (u\<lparr>ut_timerA := xa\<rparr>) = running kd g u" "running kd g (u\<lparr>ut_timerB := xb\<rparr>) = running kd g u"
  "running kd g (u\<lparr>ut_timerD := xc\<rparr>) = running kd g u" "running kd g (u\<lparr>ut_state := xd\<rparr>) = running kd g u"
  "running kd g (u\<lparr>ut_Responses := xe\<rparr>) = running kd g u" "running kd g (u\<lparr>ut_Errors := xf\<rparr>) = running kd g u"
  "running kd g (u\<lparr>ut_stopped := xg\<rparr>) = running kd g u" "running kd g (u\<lparr>ut_request := xh\<rparr>) = running kd g u"
  "running kd g (u\<lparr>ut_retxCount := xi\<rparr>) = running kd g u" "running kd g (u\<lparr>ut_cancelled := xj\<rparr>) = running kd g u"
  "clock_ok (u\<lparr>ut_timerA := xa\<rparr>) = clock_ok u" "clock_ok (u\<lparr>ut_timerB := xb\<rparr>) = clock_ok u"
  "clock_ok (u\<lparr>ut_timerD := xc\<rparr>) = clock_ok u" "clock_ok (u\<lparr>ut_state := xd\<rparr>) = clock_ok u"
  "clock_ok (u\<lparr>ut_Responses := xe\<rparr>) = clock_ok u" "clock_ok (u\<lparr>ut_Errors := xf\<rparr>) = clock_ok u"
  "clock_ok (u\<lparr>ut_stopped := xg\<rparr>) = clock_ok u" "clock_ok (u\<lparr>ut_request := xh\<rparr>) = clock_ok u"
  "clock_ok (u\<lparr>ut_retxCount := xi\<rparr>) = clock_ok u" "clock_ok (u\<lparr>ut_cancelled := xj\<rparr>) = clock_ok u"
  by (simp_all add: timer_field_def running_def clock_ok_def uac_deadline_def effective_T1_def cong: option.case_cong)

lemmas stop_timer_defs = stop_timerA_def stop_timerB_def stop_timerD_def

lemma arm_facts:
  assumes "arm kind d u = (k, u')" and "clock_ok u"
  shows "timer_field kd g u \<Longrightarrow> timer_field kd g u'" "running kd g u \<Longrightarrow> running kd g u'" "timer_field kind (Some k) u'"
    "d \<le> uac_deadline u \<Longrightarrow> running kind (Some k) u'" "clock_ok u'"
proof -
  have n: "fmlookup (ut_clock u) (ut_next u) = None"
    using assms(2) fmdom_notD by (fastforce simp: clock_ok_def)
  show "timer_field kd g u \<Longrightarrow> timer_field kd g u'" "running kd g u \<Longrightarrow> running kd g u'" "timer_field kind (Some k) u'"
    "d \<le> uac_deadline u \<Longrightarrow> running kind (Some k) u'" "clock_ok u'"
    using assms n
    by (auto simp: arm_def timer_field_def running_def clock_ok_def uac_deadline_def effective_T1_def less_Suc_eq split: option.splits if_splits)
qed

text \<open>What every operation leaves of a transaction.\<close>

definition same_tx :: "UACTransaction \<Rightarrow> UACTransaction \<Rightarrow> bool" where
  "same_tx u u' \<longleftrightarrow> ut_Branch u' = ut_Branch u \<and> ut_Method u' = ut_Method u \<and> ut_transport u' = ut_transport u
     \<and> ut_target u' = ut_target u \<and> ut_reliable u' = ut_reliable u \<and> ut_t1Override u' = ut_t1Override u"

fun uac_rank :: "UACState \<Rightarrow> nat" where
  "uac_rank UACStateCalling = 0"
| "uac_rank UACStateProceeding = 1"
| "uac_rank UACStateCompleted = 2"
| "uac_rank UACStateTerminated = 3"

lemma stop_timerA_running [simp]:
  "timer_field TimerA (ut_timerA u) u \<Longrightarrow> kd \<noteq> TimerA \<Longrightarrow> running kd g (stop_timerA u) = running kd g u"
  by (simp add: stop_timerA_def disarm_running)

lemma stop_timer_field [simp]:
  "timer_field kd g (stop_timerA u) = timer_field kd g u" "timer_field kd g (stop_timerB u) = timer_field kd g u"
  "timer_field kd g (stop_timerD u) = timer_field kd g u"
  by (simp_all add: stop_timer_defs)

lemma stop_timer_clock [simp]:
  "clock_ok (stop_timerA u) = clock_ok u" "clock_ok (stop_timerB u) = clock_ok u" "clock_ok (stop_timerD u) = clock_ok u"
  by (simp_all add: stop_timer_defs)

lemma stop_timer_fields [simp]:
  "ut_next (stop_timerA u) = ut_next u" "ut_next (stop_timerB u) = ut_next u" "ut_next (stop_timerD u) = ut_next u"
  "ut_state (stop_timerA u) = ut_state u" "ut_state (stop_timerB u) = ut_state u" "ut_state (stop_timerD u) = ut_state u"
  "ut_timerA (stop_timerA u) = None" "ut_timerA (stop_timerB u) = ut_timerA u" "ut_timerA (stop_timerD u) = ut_timerA u"
  "ut_timerB (stop_timerA u) = ut_timerB u" "ut_timerB (stop_timerB u) = None" "ut_timerB (stop_timerD u) = ut_timerB u"
  "ut_timerD (stop_timerA u) = ut_timerD u" "ut_timerD (stop_timerB u) = ut_timerD u" "ut_timerD (stop_timerD u) = None"
  "ut_stopped (stop_timerA u) = ut_stopped u" "ut_stopped (stop_timerB u) = ut_stopped u" "ut_stopped (stop_timerD u) = ut_stopped u"
  "ut_Responses (stop_timerA u) = ut_Responses u" "ut_Responses (stop_timerB u) = ut_Responses u" "ut_Responses (stop_timerD u) = ut_Responses u"
  "ut_Errors (stop_timerA u) = ut_Errors u" "ut_Errors (stop_timerB u) = ut_Errors u" "ut_Errors (stop_timerD u) = ut_Errors u"
  "ut_Method (stop_timerA u) = ut_Method u" "ut_Method (stop_timerB u) = ut_Method u" "ut_Method (stop_timerD u) = ut_Method u"
  "ut_request (stop_timerA u) = ut_request u" "ut_request (stop_timerB u) = ut_request u" "ut_request (stop_timerD u) = ut_request u"
  "ut_reliable (stop_timerA u) = ut_reliable u" "ut_reliable (stop_timerB u) = ut_reliable u" "ut_reliable (stop_timerD u) = ut_reliable u"
  "ut_t1Override (stop_timerA u) = ut_t1Override u" "ut_t1Override (stop_timerB u) = ut_t1Override u" "ut_t1Override (stop_timerD u) = ut_t1Override u"
  "ut_Branch (stop_timerA u) = ut_Branch u" "ut_Branch (stop_timerB u) = ut_Branch u" "ut_Branch (stop_timerD u) = ut_Branch u"
  "ut_transport (stop_timerA u) = ut_transport u" "ut_transport (stop_timerB u) = ut_transport u" "ut_transport (stop_timerD u) = ut_transport u"
  "ut_target (stop_timerA u) = ut_target u" "ut_target (stop_timerB u) = ut_target u" "ut_target (stop_timerD u) = ut_target u"
  by (simp_all add: stop_timer_defs)

lemma timer_field_None [simp]: "timer_field kd None u"
  by (simp add: timer_field_def)


lemma arm_fields:
  "arm kind d u = (k, u') \<Longrightarrow> ut_state u' = ut_state u \<and> ut_timerA u' = ut_timerA u \<and> ut_timerB u' = ut_timerB u
     \<and> ut_timerD u' = ut_timerD u \<and> ut_stopped u' = ut_stopped u \<and> ut_Responses u' = ut_Responses u \<and> ut_Errors u' = ut_Errors u
     \<and> ut_request u' = ut_request u \<and> same_tx u u'"
  by (auto simp: arm_def same_tx_def)

lemma same_tx_refl [simp]: "same_tx u u"
  by (simp add: same_tx_def)

lemma same_tx_trans: "same_tx a b \<Longrightarrow> same_tx b c \<Longrightarrow> same_tx a c"
  by (simp add: same_tx_def)

lemma deadline_bounds [simp]: "32000000000 \<le> uac_deadline u" "0 \<le> uac_deadline u" "64 * effective_T1 u \<le> uac_deadline u"
  by (simp_all add: uac_deadline_def)

text \<open>A step of a transaction: the invariant holds after it, its identity is kept and its state does not go back.\<close>

definition uac_good :: "UACTransaction \<Rightarrow> UACTransaction \<Rightarrow> bool" where
  "uac_good u u' \<longleftrightarrow> (uac_ok u \<longrightarrow> uac_ok u') \<and> same_tx u u' \<and> uac_rank (ut_state u) \<le> uac_rank (ut_state u')"

lemma uac_good_refl [simp]: "uac_good u u"
  by (simp add: uac_good_def)

lemma uac_good_trans: "uac_good a b \<Longrightarrow> uac_good b c \<Longrightarrow> uac_good a c"
  unfolding uac_good_def using same_tx_trans by auto

lemma deliver_good:
  "cseq_Method (msg_CSeq msg) = ut_Method u \<Longrightarrow> 100 \<le> SIPMessage_StatusCode msg \<Longrightarrow>
     uac_good u (u\<lparr>ut_Responses := offer 4 msg (ut_Responses u)\<rparr>)"
  by (auto simp: uac_good_def uac_ok_def offer_def same_tx_def)

lemma request_good: "uac_good u (u\<lparr>ut_request := Some req\<rparr>)"
  by (simp add: uac_good_def uac_ok_def same_tx_def)

lemma scheduleTimerA_good: "uac_good u (scheduleTimerA (u\<lparr>ut_retxCount := n\<rparr>))"
proof -
  let ?u = "u\<lparr>ut_retxCount := n\<rparr>"
  obtain k u' where a: "arm TimerA (uac_backoff (effective_T1 ?u) (ut_retxCount ?u)) ?u = (k, u')" by fastforce
  have "uac_ok u' \<and> timer_field TimerA (Some k) u'" if "uac_ok u"
    using that arm_fields [OF a] arm_facts [OF a] by (auto simp: uac_ok_def same_tx_def)
  then show ?thesis using a arm_fields [OF a] by (auto simp: uac_good_def scheduleTimerA_def uac_ok_def same_tx_def)
qed

lemma startTimerB_good: "uac_good u (startTimerB u)"
proof -
  obtain k u' where a: "arm TimerB (64 * effective_T1 u) u = (k, u')" by fastforce
  have "uac_ok u' \<and> timer_field TimerB (Some k) u' \<and> running TimerB (Some k) u'" if "uac_ok u"
    using that arm_fields [OF a] arm_facts [OF a] by (auto simp: uac_ok_def same_tx_def)
  then show ?thesis using a arm_fields [OF a] by (auto simp: uac_good_def startTimerB_def uac_ok_def same_tx_def)
qed

lemma transitionToCompleted_good:
  assumes "ut_state u = UACStateCalling \<or> ut_state u = UACStateProceeding"
  shows "uac_good u (transitionToCompleted u)" and "ut_state (transitionToCompleted u) = UACStateCompleted"
    and "ut_request (transitionToCompleted u) = ut_request u"
proof -
  let ?u = "stop_timerB (stop_timerA (u\<lparr>ut_state := UACStateCompleted\<rparr>))"
  obtain k u' where a: "arm TimerD (if \<not> ut_reliable ?u then 32000000000 else 0) ?u = (k, u')" by fastforce
  have "clock_ok u' \<and> timer_field TimerD (Some k) u' \<and> running TimerD (Some k) u'" if "uac_ok u"
    using that arm_facts [OF a] by (auto simp: uac_ok_def)
  then show "uac_good u (transitionToCompleted u)" using a arm_fields [OF a] assms
    by (auto simp: uac_good_def transitionToCompleted_def uac_ok_def same_tx_def Let_def)
  show "ut_state (transitionToCompleted u) = UACStateCompleted" "ut_request (transitionToCompleted u) = ut_request u"
    using a arm_fields [OF a] by (simp_all add: transitionToCompleted_def Let_def)
qed

lemma Send_good: "UACTransaction_Send sent req u = Ok (u', effects, err) \<Longrightarrow> uac_good u u'"
proof -
  have "uac_good u (startTimerB (startTimerA (u\<lparr>ut_request := Some req\<rparr>)))" "uac_good u (startTimerB (u\<lparr>ut_request := Some req\<rparr>))"
    unfolding startTimerA_def
    by (blast intro: uac_good_trans request_good scheduleTimerA_good startTimerB_good)+
  then show "UACTransaction_Send sent req u = Ok (u', effects, err) \<Longrightarrow> uac_good u u'"
    using request_good by (auto simp: UACTransaction_Send_def Let_def and_then_eq_Ok split: if_splits)
qed

lemma proceed_good:
  assumes "ut_state u = UACStateCalling"
  shows "uac_good u (stop_timerA (u\<lparr>ut_state := UACStateProceeding\<rparr>))"
  using assms by (auto simp: uac_good_def uac_ok_def same_tx_def)

lemma same_tx_Method: "uac_good u u' \<Longrightarrow> ut_Method u' = ut_Method u"
  by (simp add: uac_good_def same_tx_def)

lemma HandleResponse_good:
  assumes "UACTransaction_HandleResponse msg u = Ok (u', effects)"
  shows "uac_good u u'"
proof -
  have d: "uac_good u u1 \<Longrightarrow> cseq_Method (msg_CSeq msg) = ut_Method u \<Longrightarrow> 100 \<le> SIPMessage_StatusCode msg \<Longrightarrow>
      uac_good u (u1\<lparr>ut_Responses := offer 4 msg (ut_Responses u1)\<rparr>)" for u1
    using deliver_good [of msg u1] uac_good_trans same_tx_Method by metis
  show ?thesis using assms d [OF proceed_good, simplified]
    by (auto simp: UACTransaction_HandleResponse_def Let_def and_then_eq_Ok proceed_good transitionToCompleted_good(1)
        intro!: d split: if_splits)
qed

lemma fire_good:
  assumes "uac_fire sent k u = Ok (u', effects)"
  shows "uac_good u u'"
proof (cases "fmlookup (ut_clock u) k")
  case None
  then show ?thesis using assms by (simp add: uac_fire_def)
next
  case (Some t)
  define v where "v = u\<lparr>ut_clock := fmdrop k (ut_clock u)\<rparr>"
  have f: "timer_field kd g u \<Longrightarrow> timer_field kd g v" "clock_ok u \<Longrightarrow> clock_ok v" for kd g
    by (auto simp: v_def timer_field_def clock_ok_def split: option.splits)
  have r: "running kd g u \<Longrightarrow> kd \<noteq> ck_kind t \<Longrightarrow> running kd g v" for kd g
    using Some by (auto simp: v_def running_def uac_deadline_def effective_T1_def split: option.splits)
  have fields: "ut_state v = ut_state u" "same_tx u v" "ut_stopped v = ut_stopped u" "ut_timerA v = ut_timerA u"
    "ut_timerB v = ut_timerB u" "ut_timerD v = ut_timerD u" "ut_Responses v = ut_Responses u" "ut_Errors v = ut_Errors u"
    by (simp_all add: v_def same_tx_def)
  have stop: "uac_good u v" if "ut_stopped u" using that f fields by (auto simp: uac_good_def uac_ok_def same_tx_def)
  have A: "uac_good u v" if "ck_kind t = TimerA"
    using that f r fields by (auto simp: uac_good_def uac_ok_def same_tx_def)
  have A': "uac_good u (scheduleTimerA (v\<lparr>ut_retxCount := n\<rparr>))" if "ck_kind t = TimerA" for n
    using A [OF that] scheduleTimerA_good uac_good_trans by blast
  have B: "uac_good u (fst (fire_B v))"
  proof (cases "ut_stopped u")
    case False
    then show ?thesis using f fields
      by (cases "ut_state u") (auto simp: uac_good_def uac_ok_def same_tx_def fire_B_def Let_def offer_def)
  qed (simp add: fire_B_def fields stop)
  have D: "uac_good u (fst (fire_D v))"
  proof (cases "ut_stopped u")
    case False
    then show ?thesis using f fields
      by (cases "ut_state u") (auto simp: uac_good_def uac_ok_def same_tx_def fire_D_def)
  qed (simp add: fire_D_def fields stop)
  show ?thesis
  proof (cases "ck_kind t")
    case TimerA
    then show ?thesis using assms Some A A'
      by (auto simp: uac_fire_def Let_def v_def [symmetric] fire_A_def split: if_splits option.splits)
  next
    case TimerB
    then show ?thesis using assms Some B by (cases "fire_B v") (simp add: uac_fire_def Let_def v_def [symmetric])
  next
    case TimerD
    then show ?thesis using assms Some D by (cases "fire_D v") (simp add: uac_fire_def Let_def v_def [symmetric])
  qed
qed

lemma Cancel_good: "uac_good u (fst (UACTransaction_Cancel u))"
  by (cases "ut_state u") (auto simp: uac_good_def uac_ok_def same_tx_def UACTransaction_Cancel_def StopTimers_def)

lemma new_ok: "uac_ok ((newUACTransaction rnd method transport target)\<lparr>ut_reliable := r\<rparr>)"
  by (simp add: uac_ok_def newUACTransaction_def clock_ok_def)



section \<open>Runs of the manager\<close>

text \<open>
  The steps of the client side in any order: transactions are created, sent, answered, cancelled and read by their
  owners, timers fire (also stopped ones, whose callback may already be waiting for the lock), and the manager is stopped.
\<close>

inductive um_step :: "UACManager \<Rightarrow> UACManager \<Rightarrow> bool" where
  um_create: "NewTransaction rnd method transport target m = (i, m') \<Longrightarrow> um_step m m'"
| um_send: "fmlookup (um_txs m) i = Some u \<Longrightarrow> UACTransaction_Send sent req u = (Ok (u', effects, err) :: (unit, _) go) \<Longrightarrow>
    um_step m (commit i (u', effects) m)"
| um_response: "UACManager_HandleResponse uni msg m = (Ok m' :: (unit, _) go) \<Longrightarrow> um_step m m'"
| um_timer: "fmlookup (um_txs m) i = Some u \<Longrightarrow> uac_fire sent k u = (Ok r :: (unit, _) go) \<Longrightarrow> um_step m (commit i r m)"
| um_read: "fmlookup (um_txs m) i = Some u \<Longrightarrow> ut_Responses u = r # rs \<Longrightarrow>
    um_step m (commit i (u\<lparr>ut_Responses := rs\<rparr>, []) m)"
| um_cancel: "um_step m (cancel_tx i m)"
| um_send_cancel: "fmlookup (um_txs m) i = Some u \<Longrightarrow> SendCancel sent u = (Ok (effects, err) :: (unit, _) go) \<Longrightarrow>
    um_step m (commit i (u, effects) m)"
| um_stop: "um_step m (UACManager_Stop m)"

inductive um_run :: "UACManager \<Rightarrow> bool" where
  um_run_new: "um_run NewUACManager"
| um_run_step: "um_run m \<Longrightarrow> um_step m m' \<Longrightarrow> um_run m'"

definition um_inv :: "UACManager \<Rightarrow> bool" where
  "um_inv m \<longleftrightarrow> (\<forall>i u. fmlookup (um_txs m) i = Some u \<longrightarrow> i < um_fresh m \<and> uac_ok u)
     \<and> (\<forall>b i. fmlookup (um_pending m) b = Some i \<longrightarrow> (\<exists>u. fmlookup (um_txs m) i = Some u \<and> ut_Branch u = b))"

definition um_le :: "UACManager \<Rightarrow> UACManager \<Rightarrow> bool" where
  "um_le m m' \<longleftrightarrow> um_inv m' \<and> (\<forall>i u. fmlookup (um_txs m) i = Some u \<longrightarrow>
     (\<exists>u'. fmlookup (um_txs m') i = Some u' \<and> same_tx u u' \<and> uac_rank (ut_state u) \<le> uac_rank (ut_state u')))"

lemma perform_fields [simp]: "um_txs (perform e m) = um_txs m" "um_fresh (perform e m) = um_fresh m"
  by (cases e; simp add: Deregister_def)+

lemma perform_pending: "fmlookup (um_pending (perform e m)) b = Some i \<Longrightarrow> fmlookup (um_pending m) b = Some i"
  by (cases e) (auto simp: Deregister_def split: if_splits)

lemma performs_fields [simp]: "um_txs (fold perform es m) = um_txs m" "um_fresh (fold perform es m) = um_fresh m"
  by (induction es arbitrary: m) simp_all

lemma performs_pending: "fmlookup (um_pending (fold perform es m)) b = Some i \<Longrightarrow> fmlookup (um_pending m) b = Some i"
  by (induction es arbitrary: m) (auto dest: perform_pending)

lemma um_le_refl: "um_inv m \<Longrightarrow> um_le m m"
  by (simp add: um_le_def)

lemma um_le_trans: "um_le a b \<Longrightarrow> um_le b c \<Longrightarrow> um_le a c"
  unfolding um_le_def by (meson order_trans same_tx_trans)

lemma um_inv_pending:
  "um_inv m \<Longrightarrow> fmlookup (um_pending m) b = Some i \<Longrightarrow> \<exists>u. fmlookup (um_txs m) i = Some u \<and> ut_Branch u = b"
  unfolding um_inv_def by blast

lemma commit_le:
  assumes "um_inv m" and "fmlookup (um_txs m) i = Some u" and "uac_good u (fst r)"
  shows "um_le m (commit i r m)"
proof -
  have p: "fmlookup (um_pending (commit i r m)) b = Some j \<Longrightarrow> fmlookup (um_pending m) b = Some j" for b j
    unfolding commit_def by (drule performs_pending) simp
  have "um_inv (commit i r m)" unfolding um_inv_def
  proof (intro conjI allI impI)
    fix b j assume "fmlookup (um_pending (commit i r m)) b = Some j"
    from p [OF this] obtain v where "fmlookup (um_txs m) j = Some v" "ut_Branch v = b" using um_inv_pending [OF assms(1)] by blast
    then show "\<exists>v. fmlookup (um_txs (commit i r m)) j = Some v \<and> ut_Branch v = b"
      using assms(2,3) by (auto simp: commit_def uac_good_def same_tx_def)
  qed (use assms in \<open>auto simp: um_inv_def commit_def uac_good_def split: if_splits\<close>)
  then show ?thesis using assms by (auto simp: um_le_def commit_def uac_good_def)
qed

lemma cancel_tx_le: "um_inv m \<Longrightarrow> um_le m (cancel_tx i m)"
  by (auto simp: cancel_tx_def um_le_refl commit_le Cancel_good split: option.splits)

lemma um_le_inv: "um_le m m' \<Longrightarrow> um_inv m'"
  by (simp add: um_le_def)

lemma cancel_txs_le: "um_inv m \<Longrightarrow> um_le m (fold cancel_tx is m)"
proof (induction "is" arbitrary: m)
  case (Cons i "is")
  note c = cancel_tx_le [OF Cons.prems, of i]
  from um_le_trans [OF c Cons.IH [OF um_le_inv [OF c]]] show ?case by simp
qed (simp add: um_le_refl)

lemma Stop_um_le:
  assumes "um_inv m"
  shows "um_le m (UACManager_Stop m)"
proof -
  have "um_le m (m\<lparr>um_pending := fmempty\<rparr>)" using assms by (simp add: um_le_def um_inv_def)
  from um_le_trans [OF this cancel_txs_le [OF um_le_inv [OF this]]] show ?thesis by (simp add: UACManager_Stop_def)
qed

lemma new_tx_le:
  assumes "um_inv m" and "NewTransaction rnd method transport target m = (i, m')"
  shows "um_le m m'"
proof -
  have n: "fmlookup (um_txs m) (um_fresh m) = None"
    using assms(1) by (cases "fmlookup (um_txs m) (um_fresh m)") (auto simp: um_inv_def)
  have p: "fmlookup (um_pending m) b \<noteq> Some (um_fresh m)" for b
    using um_inv_pending [OF assms(1), of b] n by auto
  have "um_inv m'" unfolding um_inv_def
    using assms new_ok n p by (auto simp: um_inv_def NewTransaction_def Let_def UACManager_Register_def less_Suc_eq split: if_splits)
  then show ?thesis using assms n by (auto simp: um_le_def NewTransaction_def Let_def UACManager_Register_def)
qed

lemma read_good: "ut_Responses u = r # rs \<Longrightarrow> uac_good u (u\<lparr>ut_Responses := rs\<rparr>)"
  by (simp add: uac_good_def uac_ok_def same_tx_def)

lemma um_HandleResponse_le:
  assumes "um_inv m" and "UACManager_HandleResponse uni msg m = Ok m'"
  shows "um_le m m'"
  using assms
  by (auto simp: UACManager_HandleResponse_def and_then_eq_Ok um_le_refl HandleResponse_good split: if_splits option.splits
      intro!: commit_le)

lemma um_step_le: "um_step m m' \<Longrightarrow> um_inv m \<Longrightarrow> um_le m m'"
proof (induction rule: um_step.induct)
  case (um_timer m i u sent k r)
  from fire_good [of sent k u "fst r" "snd r"] um_timer.hyps(2) have "uac_good u (fst r)" by simp
  with um_timer.prems um_timer.hyps(1) show ?case by (rule commit_le)
qed (auto intro: new_tx_le um_HandleResponse_le cancel_tx_le Stop_um_le read_good intro!: commit_le dest: Send_good)

lemma um_run_inv: "um_run m \<Longrightarrow> um_inv m"
proof (induction rule: um_run.induct)
  case um_run_new
  then show ?case by (simp add: um_inv_def NewUACManager_def)
next
  case (um_run_step m m')
  then show ?case using um_step_le by (simp add: um_le_def)
qed

section \<open>Correctness of client transactions\<close>

text \<open>The timer that ends a transaction, once its request was sent.\<close>

definition ending_timer :: "UACTransaction \<Rightarrow> nat option" where
  "ending_timer u = (if ut_state u = UACStateCompleted then ut_timerD u else ut_timerB u)"

lemma ending_timer_runs:
  assumes "uac_ok u" and "ut_state u \<noteq> UACStateTerminated" and "ut_state u = UACStateCompleted \<or> ut_timerB u \<noteq> None"
  obtains k t where "ending_timer u = Some k" "fmlookup (ut_clock u) k = Some t" "\<not> ck_stopped t" "ck_after t \<le> uac_deadline u"
    "ck_kind t = (if ut_state u = UACStateCompleted then TimerD else TimerB)" "\<not> ut_stopped u"
proof -
  have "running (if ut_state u = UACStateCompleted then TimerD else TimerB) (ending_timer u) u"
    using assms by (cases "ut_state u") (auto simp: uac_ok_def ending_timer_def)
  moreover have "\<not> ut_stopped u" using assms by (auto simp: uac_ok_def)
  ultimately show thesis using that by (auto simp: running_def split: option.splits)
qed

text \<open>
  C15. Client transactions end.  In every reachable state, a registered transaction that was sent (or has its final response)
  and is not terminated has a pending, unstopped timer armed for at most 32 seconds or \<open>64 * T1\<close>; its callback makes
  the transaction terminated and takes the branch out of the table of pending transactions, and reports a
  timeout exactly when no final response had come.
\<close>

theorem uac_transaction_ends:
  assumes "um_run m" and "fmlookup (um_txs m) i = Some u" and "ut_state u \<noteq> UACStateTerminated"
    and "ut_state u = UACStateCompleted \<or> ut_timerB u \<noteq> None"
  shows "\<exists>k t u'. fmlookup (ut_clock u) k = Some t \<and> \<not> ck_stopped t \<and> ck_after t \<le> max 32000000000 (64 * effective_T1 u)
     \<and> uac_fire sent k u = (Ok (u', [UDeregister (ut_Branch u)]) :: (unit, _) go) \<and> ut_state u' = UACStateTerminated
     \<and> ut_Errors u' = (if ut_state u = UACStateCompleted then ut_Errors u else offer 1 \<lparr>te_Method = ut_Method u\<rparr> (ut_Errors u))
     \<and> um_step m (commit i (u', [UDeregister (ut_Branch u)]) m)
     \<and> UACManager_Get (ut_Branch u) (commit i (u', [UDeregister (ut_Branch u)]) m) = None"
proof -
  have "uac_ok u" using um_run_inv [OF assms(1)] assms(2) by (simp add: um_inv_def)
  then obtain k t where t: "ending_timer u = Some k" "fmlookup (ut_clock u) k = Some t" "\<not> ck_stopped t"
    "ck_after t \<le> uac_deadline u" "ck_kind t = (if ut_state u = UACStateCompleted then TimerD else TimerB)" "\<not> ut_stopped u"
    using ending_timer_runs [OF _ assms(3,4)] by metis
  then obtain u' where u': "uac_fire sent k u = (Ok (u', [UDeregister (ut_Branch u)]) :: (unit, _) go)" "ut_state u' = UACStateTerminated"
    "ut_Errors u' = (if ut_state u = UACStateCompleted then ut_Errors u else offer 1 \<lparr>te_Method = ut_Method u\<rparr> (ut_Errors u))"
    by (cases "ut_state u = UACStateCompleted") (simp_all add: uac_fire_def fire_B_def fire_D_def Let_def)
  then show ?thesis using t um_timer [OF assms(2) u'(1)]
    by (intro exI [of _ k] exI [of _ t] exI [of _ u'])
      (simp add: uac_deadline_def commit_def UACManager_Get_def Deregister_def)
qed

text \<open>
  Client transactions only move forward.  Whatever happens, the registered transactions keep branch, method,
  transport and target, and their state never goes back in the order Calling, Proceeding, Completed, Terminated.
\<close>

theorem uac_state_monotone:
  assumes "um_run m" and "um_step\<^sup>*\<^sup>* m m'" and "fmlookup (um_txs m) i = Some u"
  shows "\<exists>u'. fmlookup (um_txs m') i = Some u' \<and> same_tx u u' \<and> uac_rank (ut_state u) \<le> uac_rank (ut_state u')"
proof -
  have "um_le m m' \<and> um_run m'" using assms(2,1)
  proof (induction rule: rtranclp_induct)
    case (step y z)
    then show ?case using um_step_le [of y z] um_run_inv [of y] um_le_trans um_run_step by blast
  qed (simp add: um_le_refl um_run_inv)
  then show ?thesis using assms(3) by (simp add: um_le_def)
qed



subsection \<open>Acknowledgements\<close>

text \<open>A transaction fed with a sequence of responses, and the messages it sends.\<close>

fun uac_feed :: "SIPMessage list \<Rightarrow> UACTransaction \<Rightarrow> ('e, UACTransaction \<times> uac_effect list) go" where
  "uac_feed [] u = Ok (u, [])"
| "uac_feed (msg # msgs) u = and_then (UACTransaction_HandleResponse msg u) (\<lambda>(u, es).
     and_then (uac_feed msgs u) (\<lambda>(u, es'). Ok (u, es @ es')))"

definition final_for :: "UACTransaction \<Rightarrow> SIPMessage \<Rightarrow> bool" where
  "final_for u msg \<longleftrightarrow> cseq_Method (msg_CSeq msg) = ut_Method u \<and> 200 \<le> SIPMessage_StatusCode msg"

text \<open>The ACK that belongs to the request of a transaction.\<close>

definition ack_for :: "UACTransaction \<Rightarrow> SIPMessage \<Rightarrow> SIPMessage \<Rightarrow> bool" where
  "ack_for u req ack \<longleftrightarrow> SIPMessage_Method ack = ''ACK'' \<and> msg_CSeq ack = \<lparr>cseq_Method = ''ACK'', cseq_Seq = cseq_Seq (msg_CSeq req)\<rparr>
     \<and> (\<exists>sentBy. values_at (msg_Headers ack) ''Via'' = [''SIP/2.0/'' @ TransportName (ut_transport u) @ '' '' @ sentBy @ '';branch='' @ ut_Branch u])"

lemma keys_canonical:
  "canonicalHeaderKey ''Via'' = ''Via''" "canonicalHeaderKey ''From'' = ''From''" "canonicalHeaderKey ''To'' = ''To''"
  "canonicalHeaderKey ''Call-ID'' = ''Call-ID''" "canonicalHeaderKey ''Max-Forwards'' = ''Max-Forwards''"
  "canonicalHeaderKey ''Content-Length'' = ''Content-Length''" "canonicalHeaderKey ''Contact'' = ''Contact''"
  by code_simp+

lemma values_at_Add: "values_at (SIPHeaders_Add h k v) k' = (if k' = canonicalHeaderKey k then values_at h k' @ [v] else values_at h k')"
  by (simp add: SIPHeaders_Add_def values_at_def Let_def)

lemma values_at_add_first: "k' \<noteq> canonicalHeaderKey k \<Longrightarrow> values_at (add_first src k h) k' = values_at h k'"
  by (simp add: add_first_def values_at_Add split: list.splits)

lemma sendACK_ack:
  assumes "sendACK resp u = Ok es" and "ut_request u = Some req"
  shows "\<exists>ack. es = [USend (ut_transport u) (ut_target u) ack] \<and> ack_for u req ack"
  using assms
  by (auto simp: sendACK_def Let_def and_then_eq_Ok ack_for_def SIPMessage_Method_def NewRequest_def uac_via_def
      values_at_Add values_at_add_first keys_canonical) (simp_all add: values_at_def)

lemma completed_silent:
  "ut_state u = UACStateCompleted \<or> ut_state u = UACStateTerminated \<Longrightarrow> UACTransaction_HandleResponse msg u = Ok (u', es) \<Longrightarrow>
     es = [] \<and> ut_state u' = ut_state u"
  by (auto simp: UACTransaction_HandleResponse_def Let_def split: if_splits)

lemma feed_completed_silent:
  "ut_state u = UACStateCompleted \<or> ut_state u = UACStateTerminated \<Longrightarrow> uac_feed msgs u = (Ok (u', es) :: ('e, _) go) \<Longrightarrow> es = []"
proof (induction msgs arbitrary: u es)
  case (Cons msg msgs)
  then obtain u1 e1 e2 where 1: "UACTransaction_HandleResponse msg u = (Ok (u1, e1) :: ('e, _) go)"
    "uac_feed msgs u1 = (Ok (u', e2) :: ('e, _) go)" "es = e1 @ e2"
    by (auto simp: and_then_eq_Ok)
  from completed_silent [OF Cons.prems(1) 1(1)] Cons.prems(1) Cons.IH [OF _ 1(2)] 1(3) show ?case by auto
qed simp

text \<open>One response to an INVITE transaction that has no final response yet.\<close>

lemma HandleResponse_active:
  assumes "UACTransaction_HandleResponse msg u = (Ok (u', es) :: ('e, _) go)" and "ut_Method u = ''INVITE''" and "ut_request u = Some req"
    and "ut_state u = UACStateCalling \<or> ut_state u = UACStateProceeding"
  shows "\<not> final_for u msg \<Longrightarrow> es = [] \<and> ut_request u' = Some req \<and> (ut_state u' = UACStateCalling \<or> ut_state u' = UACStateProceeding)"
    and "final_for u msg \<Longrightarrow> ut_state u' = UACStateCompleted"
    and "final_for u msg \<Longrightarrow> SIPMessage_StatusCode msg < 300 \<Longrightarrow> es = []"
    and "final_for u msg \<Longrightarrow> 300 \<le> SIPMessage_StatusCode msg \<Longrightarrow>
      \<exists>ack. es = [USend (ut_transport u) (ut_target u) ack] \<and> ack_for u req ack"
proof -
  have same: "ut_transport (transitionToCompleted u) = ut_transport u" "ut_target (transitionToCompleted u) = ut_target u"
    "ut_Branch (transitionToCompleted u) = ut_Branch u" "ut_Method (transitionToCompleted u) = ut_Method u"
    using transitionToCompleted_good(1) [OF assms(4)] by (simp_all add: uac_good_def same_tx_def)
  note tc = transitionToCompleted_good(2,3) [OF assms(4)]
  show "\<not> final_for u msg \<Longrightarrow> es = [] \<and> ut_request u' = Some req \<and> (ut_state u' = UACStateCalling \<or> ut_state u' = UACStateProceeding)"
    using assms by (auto simp: UACTransaction_HandleResponse_def Let_def final_for_def split: if_splits)
  show "final_for u msg \<Longrightarrow> ut_state u' = UACStateCompleted" "final_for u msg \<Longrightarrow> SIPMessage_StatusCode msg < 300 \<Longrightarrow> es = []"
    using assms tc by (auto simp: UACTransaction_HandleResponse_def Let_def final_for_def and_then_eq_Ok split: if_splits)
  show "\<exists>ack. es = [USend (ut_transport u) (ut_target u) ack] \<and> ack_for u req ack"
    if "final_for u msg" "300 \<le> SIPMessage_StatusCode msg"
  proof -
    have "sendACK msg (transitionToCompleted u) = (Ok es :: ('e, _) go)"
      using that assms same by (auto simp: UACTransaction_HandleResponse_def Let_def final_for_def and_then_eq_Ok)
    from sendACK_ack [OF this] tc assms(3) same show ?thesis by (simp add: ack_for_def)
  qed
qed

text \<open>
  C13. A refused INVITE is acknowledged exactly once.  Feed any sequence of responses to an INVITE client transaction that was sent
  and has no final response yet.  If the first final response for it is 300 or above, the transaction sends exactly one
  message, an ACK with the branch of the transaction and the CSeq number of the INVITE; if it is a 2xx, or there is none, it
  sends nothing.  (So a retransmitted refusal is not acknowledged again.)
\<close>

theorem refused_invite_acked_once:
  assumes "uac_feed msgs u = (Ok (u', es) :: (unit, _) go)" and "ut_Method u = ''INVITE''" and "ut_request u = Some req"
    and "ut_state u = UACStateCalling \<or> ut_state u = UACStateProceeding"
  shows "case find (final_for u) msgs of
      Some msg \<Rightarrow> if 300 \<le> SIPMessage_StatusCode msg then \<exists>ack. es = [USend (ut_transport u) (ut_target u) ack] \<and> ack_for u req ack else es = []
    | None \<Rightarrow> es = []"
  using assms
proof (induction msgs arbitrary: u es)
  case (Cons msg msgs)
  then obtain u1 e1 e2 where 1: "UACTransaction_HandleResponse msg u = (Ok (u1, e1) :: (unit, _) go)"
    "uac_feed msgs u1 = (Ok (u', e2) :: (unit, _) go)" "es = e1 @ e2"
    by (auto simp: and_then_eq_Ok)
  note h = HandleResponse_active [OF 1(1) Cons.prems(2-4)]
  show ?case
  proof (cases "final_for u msg")
    case True
    have "e2 = []" using feed_completed_silent [OF _ 1(2)] h(2) [OF True] by simp
    then show ?thesis using True h(3,4) 1(3) by auto
  next
    case False
    have s: "same_tx u u1" using HandleResponse_good [OF 1(1)] by (simp add: uac_good_def)
    then have f: "final_for u1 = final_for u" "ack_for u1 = ack_for u" by (auto simp: fun_eq_iff final_for_def ack_for_def same_tx_def)
    have "ut_Method u1 = ''INVITE''" using s Cons.prems(2) by (simp add: same_tx_def)
    from Cons.IH [OF 1(2) this] h(1) [OF False] show ?thesis using f s 1(3) False
      by (simp add: same_tx_def split: option.splits if_splits)
  qed
qed simp


section \<open>Concrete runs\<close>

definition sample_uac_target :: Target where
  "sample_uac_target = \<lparr>tgt_Addr = Some (UDPAddr ''192.0.2.9'' 5060), tgt_Conn = None, tgt_FlowID = []\<rparr>"

definition sample_uac_invite :: SIPMessage where
  "sample_uac_invite = (NewRequest ''INVITE'' ''sip:b'')\<lparr>msg_Headers := fmupd ''Call-ID'' [''c''] (fmupd ''Via'' [''SIP/2.0/UDP h;branch=z9hG4bK41''] fmempty)\<rparr>"

definition sample_uac_response :: "int \<Rightarrow> SIPMessage" where
  "sample_uac_response sc = (NewResponse sample_uac_invite sc [])\<lparr>msg_branch := Some ''z9hG4bK41''\<rparr>"

definition sample_uac :: UACTransaction where
  "sample_uac = startTimerB (startTimerA ((newUACTransaction (Some ''A'') ''INVITE'' UDPTransport sample_uac_target)\<lparr>ut_request := Some sample_uac_invite\<rparr>))"

definition sample_uac_manager :: UACManager where
  "sample_uac_manager = commit 0 (sample_uac, [USend UDPTransport sample_uac_target sample_uac_invite])
     (snd (NewTransaction (Some ''A'') ''INVITE'' UDPTransport sample_uac_target NewUACManager))"

lemma sample_GetFirst:
  "SIPHeaders_GetFirst (msg_Headers sample_uac_invite) ''Call-ID'' = Ok ''c''"
  "SIPHeaders_GetFirst (msg_Headers sample_uac_invite) ''Via'' = Ok ''SIP/2.0/UDP h;branch=z9hG4bK41''"
  by (simp_all add: SIPHeaders_GetFirst_def keys_canonical sample_uac_invite_def index_def)

lemma sample_uac_fields:
  "ut_Method sample_uac = ''INVITE''" "ut_request sample_uac = Some sample_uac_invite" "ut_state sample_uac = UACStateCalling"
  "ut_timerB sample_uac = Some 1" "ut_Responses sample_uac = []" "ut_Errors sample_uac = []" "ut_t1Override sample_uac = 0"
  "ut_stopped sample_uac = False" "ut_timerA sample_uac = Some 0"
  "fmlookup (ut_clock sample_uac) 1 = Some \<lparr>ck_kind = TimerB, ck_after = 64 * T1, ck_stopped = False\<rparr>"
  "ut_transport sample_uac = UDPTransport" "ut_target sample_uac = sample_uac_target"
  by (simp_all add: sample_uac_def startTimerB_def startTimerA_def scheduleTimerA_def arm_def newUACTransaction_def effective_T1_def)

lemma sample_uac_branch: "ut_Branch sample_uac = ''z9hG4bK41''"
  by (simp add: sample_uac_def startTimerB_def startTimerA_def scheduleTimerA_def arm_def newUACTransaction_def) code_simp

lemma sample_uac_run: "um_run sample_uac_manager"
proof -
  let ?new = "newUACTransaction (Some ''A'') ''INVITE'' UDPTransport sample_uac_target"
  obtain m where m: "NewTransaction (Some ''A'') ''INVITE'' UDPTransport sample_uac_target NewUACManager = (0, m)"
    "fmlookup (um_txs m) 0 = Some ?new"
    by (simp add: NewTransaction_def Let_def NewUACManager_def UACManager_Register_def isReliableTransport_def newUACTransaction_def)
  have s: "UACTransaction_Send True sample_uac_invite ?new
      = (Ok (sample_uac, [USend UDPTransport sample_uac_target sample_uac_invite], None) :: (unit, _) go)"
    by (simp add: UACTransaction_Send_def sample_uac_def Let_def newUACTransaction_def sample_GetFirst)
  from um_run_step [OF um_run_step [OF um_run_new um_create [OF m(1)]] um_send [OF m(2) s]] m(1)
  show ?thesis by (simp add: sample_uac_manager_def)
qed

lemma sample_uac_lookup: "fmlookup (um_txs sample_uac_manager) 0 = Some sample_uac"
  by (simp add: sample_uac_manager_def commit_def)

theorem uac_transaction_ends_witness:
  "\<exists>k t u'. fmlookup (ut_clock sample_uac) k = Some t \<and> ck_after t \<le> 32000000000
     \<and> uac_fire True k sample_uac = (Ok (u', [UDeregister ''z9hG4bK41'']) :: (unit, _) go) \<and> ut_Errors u' = [\<lparr>te_Method = ''INVITE''\<rparr>]"
  using uac_transaction_ends [OF sample_uac_run sample_uac_lookup, of True]
  by (fastforce simp: sample_uac_fields sample_uac_branch offer_def effective_T1_def T1_def)

theorem uac_state_monotone_witness:
  "\<exists>u'. fmlookup (um_txs (cancel_tx 0 sample_uac_manager)) 0 = Some u' \<and> same_tx sample_uac u' \<and> 0 \<le> uac_rank (ut_state u')"
  using uac_state_monotone [OF sample_uac_run r_into_rtranclp [of um_step, OF um_cancel] sample_uac_lookup] by fastforce

lemma sample_ViaSentBy: "SIPMessage_ViaSentBy sample_uac_invite = (Ok ''h'' :: (unit, _) go)"
proof -
  have "unmarshalViaSentBy ''SIP/2.0/UDP h;branch=z9hG4bK41'' = ''h''"
  proof -
    have i: "Index ''SIP/2.0/UDP h;branch=z9hG4bK41'' '' '' = Some 11" "IndexByte ''h;branch=z9hG4bK41'' (CHR '';'') = Some 1" by code_simp+
    have t: "TrimSpace ''h;branch=z9hG4bK41'' = ''h;branch=z9hG4bK41''" by (rule TrimSpace_id) (simp add: graphic_def)
    have d: "drop (11 + 1) ''SIP/2.0/UDP h;branch=z9hG4bK41'' = ''h;branch=z9hG4bK41''" by simp
    show ?thesis unfolding unmarshalViaSentBy_def i option.case Let_def d t by simp
  qed
  then show ?thesis by (simp add: SIPMessage_ViaSentBy_def sample_GetFirst)
qed

lemma sample_response_facts:
  "SIPMessage_StatusCode (sample_uac_response sc) = sc" "cseq_Method (msg_CSeq (sample_uac_response sc)) = ''INVITE''"
  "SIPHeaders_GetFirst (msg_Headers (sample_uac_response sc)) ''Contact'' = Ok []"
  by (simp_all add: sample_uac_response_def NewResponse_def SIPMessage_StatusCode_def sample_uac_invite_def NewRequest_def
      SIPHeaders_GetFirst_def keys_canonical copied_headers_def values_at_def)


lemma sample_sendACK:
  "ut_request u = Some sample_uac_invite \<Longrightarrow> \<exists>es. sendACK (sample_uac_response sc) u = (Ok es :: (unit, _) go)"
  by (simp add: sendACK_def sample_response_facts uac_via_def sample_ViaSentBy sample_GetFirst)

lemma sample_feed: "\<exists>u' es. uac_feed [sample_uac_response 486, sample_uac_response 486] sample_uac = (Ok (u', es) :: (unit, _) go)"
proof -
  have st: "ut_state sample_uac = UACStateCalling \<or> ut_state sample_uac = UACStateProceeding" by (simp add: sample_uac_fields)
  let ?t = "transitionToCompleted sample_uac"
  have t: "ut_Method ?t = ''INVITE''" "ut_request ?t = Some sample_uac_invite" "ut_state ?t = UACStateCompleted"
    using transitionToCompleted_good [OF st] sample_uac_fields by (simp_all add: uac_good_def same_tx_def)
  obtain es where "sendACK (sample_uac_response 486) ?t = (Ok es :: (unit, _) go)" using sample_sendACK [OF t(2)] by blast
  then show ?thesis
    using t by (simp add: UACTransaction_HandleResponse_def sample_response_facts sample_uac_fields Let_def)
qed

theorem refused_invite_acked_once_witness:
  "\<exists>u' ack. uac_feed [sample_uac_response 486, sample_uac_response 486] sample_uac
     = (Ok (u', [USend UDPTransport sample_uac_target ack]) :: (unit, _) go) \<and> ack_for sample_uac sample_uac_invite ack"
proof -
  obtain u' es where f: "uac_feed [sample_uac_response 486, sample_uac_response 486] sample_uac = (Ok (u', es) :: (unit, _) go)"
    using sample_feed by blast
  from refused_invite_acked_once [OF f sample_uac_fields(1,2)] f show ?thesis
    by (auto simp: sample_uac_fields final_for_def sample_response_facts)
qed

text \<open>The state after a 180 Ringing.\<close>

definition sample_ringing :: UACTransaction where
  "sample_ringing = (stop_timerA (sample_uac\<lparr>ut_state := UACStateProceeding\<rparr>))\<lparr>ut_Responses := [sample_uac_response 180]\<rparr>"

lemma sample_ringing_step:
  "UACManager_HandleResponse no_unicode (sample_uac_response 180) sample_uac_manager
   = (Ok (commit 0 (sample_ringing, []) sample_uac_manager) :: (unit, _) go)"
proof -
  have p: "fmlookup (um_pending sample_uac_manager) ''z9hG4bK41'' = Some 0"
    using sample_uac_branch
    by (simp add: sample_uac_manager_def commit_def NewTransaction_def Let_def UACManager_Register_def NewUACManager_def
        sample_uac_def startTimerB_def startTimerA_def scheduleTimerA_def arm_def newUACTransaction_def)
  have "SIPMessage_ViaBranch f (sample_uac_response 180) = (Ok (''z9hG4bK41'', sample_uac_response 180) :: (unit, _) go)" for f
    by (simp add: SIPMessage_ViaBranch_def sample_uac_response_def)
  moreover have "SIPHeaders_GetFirst (msg_Headers (sample_uac_response 180)) ''Call-ID'' = (Ok ''c'' :: (unit, _) go)"
    by (simp add: sample_uac_response_def NewResponse_def SIPHeaders_GetFirst_def keys_canonical copied_headers_def values_at_def
        sample_uac_invite_def index_def)
  moreover have "UACTransaction_HandleResponse (sample_uac_response 180) sample_uac = (Ok (sample_ringing, []) :: (unit, _) go)"
    by (simp add: UACTransaction_HandleResponse_def sample_response_facts sample_uac_fields Let_def sample_ringing_def offer_def)
  ultimately show ?thesis using p by (simp add: UACManager_HandleResponse_def sample_uac_lookup)
qed

text \<open>
  C37. A defect: a call that rings for 32 seconds is lost.  Timer B is not stopped by a provisional response and its callback does
  not look at the state.  There is a reachable state in which an INVITE transaction is in Proceeding with a 180 received,
  and in which the callback of timer B, armed for \<open>64 * T1\<close>, terminates it and reports a timeout; a 200 OK that
  then arrives is ignored.
\<close>

theorem ringing_call_times_out:
  "\<exists>m u k t u'. um_run m \<and> fmlookup (um_txs m) 0 = Some u \<and> ut_state u = UACStateProceeding \<and> ut_Responses u = [sample_uac_response 180]
     \<and> fmlookup (ut_clock u) k = Some t \<and> ck_after t = 64 * T1 \<and> \<not> ck_stopped t
     \<and> uac_fire True k u = (Ok (u', [UDeregister ''z9hG4bK41'']) :: (unit, _) go)
     \<and> ut_state u' = UACStateTerminated \<and> ut_Errors u' = [\<lparr>te_Method = ''INVITE''\<rparr>]
     \<and> UACTransaction_HandleResponse (sample_uac_response 200) u' = (Ok (u', []) :: (unit, _) go)
     \<and> UACManager_Get ''z9hG4bK41'' (commit 0 (u', [UDeregister ''z9hG4bK41'']) m) = None"
proof -
  let ?m = "commit 0 (sample_ringing, []) sample_uac_manager"
  have run: "um_run ?m" using um_run_step [OF sample_uac_run um_response [OF sample_ringing_step]] .
  have t: "fmlookup (ut_clock sample_ringing) 1 = Some \<lparr>ck_kind = TimerB, ck_after = 64 * T1, ck_stopped = False\<rparr>"
    by (simp add: sample_ringing_def stop_timerA_def disarm_lookup disarm_def sample_uac_fields sample_uac_fields(10) [simplified])
  obtain u' where u': "uac_fire True 1 sample_ringing = (Ok (u', [UDeregister ''z9hG4bK41'']) :: (unit, _) go)"
    "ut_state u' = UACStateTerminated" "ut_Errors u' = [\<lparr>te_Method = ''INVITE''\<rparr>]"
    using t by (simp add: uac_fire_def fire_B_def Let_def sample_ringing_def sample_uac_fields sample_uac_branch offer_def)
  have "UACTransaction_HandleResponse (sample_uac_response 200) u' = (Ok (u', []) :: (unit, _) go)"
    using u'(2) by (simp add: UACTransaction_HandleResponse_def)
  then show ?thesis using run t u'
    by (intro exI [of _ ?m] exI [of _ sample_ringing] exI [of _ 1] exI [of _ "\<lparr>ck_kind = TimerB, ck_after = 64 * T1, ck_stopped = False\<rparr>"] exI [of _ u'])
      (simp add: commit_def UACManager_Get_def Deregister_def, simp add: sample_ringing_def)
qed

text \<open>
  The channel of responses holds four: once four provisional responses are unread, the final response completes the
  transaction, which stops timer B, and is dropped.
\<close>

lemma final_response_dropped:
  assumes "length (ut_Responses u) = 4" and "ut_state u = UACStateProceeding" and "cseq_Method (msg_CSeq msg) = ut_Method u"
    and "200 \<le> SIPMessage_StatusCode msg" "SIPMessage_StatusCode msg < 300"
  shows "\<exists>u'. UACTransaction_HandleResponse msg u = Ok (u', []) \<and> ut_Responses u' = ut_Responses u \<and> ut_state u' = UACStateCompleted
    \<and> ut_timerB u' = None"
  using assms by (simp add: UACTransaction_HandleResponse_def Let_def offer_def transitionToCompleted_def arm_def)


end
