(* ===== verification/Calls.thy ===== *)
theory Calls
  imports Media UAC
begin

text \<open>
  Dialogs and the table of calls: \<^verbatim>\<open>internal/sip/dialog.go\<close> and \<^verbatim>\<open>internal/b2bua/call.go\<close>.  Sessions, sockets and client
  transactions are shared objects and appear as numbers; the dialogs and the bridge belong to their call.
\<close>

section \<open>Dialogs\<close>

datatype DialogState = DialogStateEarly | DialogStateConfirmed | DialogStateTerminated

fun DialogState_String :: "DialogState \<Rightarrow> string" where
  "DialogState_String DialogStateEarly = ''Early''"
| "DialogState_String DialogStateConfirmed = ''Confirmed''"
| "DialogState_String DialogStateTerminated = ''Terminated''"

record DialogID =
  di_CallID :: string
  di_LocalTag :: string
  di_RemoteTag :: string

record Dialog =
  dg_CreatedAt :: int
  dg_ID :: DialogID
  dg_LocalURI :: string
  dg_RemoteURI :: string
  dg_RemoteTarget :: string
  dg_RouteSet :: "string list"
  dg_LocalSeq :: int
  dg_RemoteSeq :: int
  dg_state :: DialogState
  dg_Secure :: bool

definition NewDialog :: "int \<Rightarrow> DialogID \<Rightarrow> string \<Rightarrow> string \<Rightarrow> string \<Rightarrow> Dialog" where
  "NewDialog now did localURI remoteURI remoteTarget =
     \<lparr>dg_CreatedAt = now, dg_ID = did, dg_LocalURI = localURI, dg_RemoteURI = remoteURI, dg_RemoteTarget = remoteTarget, dg_RouteSet = [],
      dg_LocalSeq = 0, dg_RemoteSeq = 0, dg_state = DialogStateEarly, dg_Secure = False\<rparr>"

definition Dialog_SetState :: "DialogState \<Rightarrow> Dialog \<Rightarrow> Dialog" where
  "Dialog_SetState st d = d\<lparr>dg_state := st\<rparr>"

definition IncrementLocalSeq :: "Dialog \<Rightarrow> int \<times> Dialog" where
  "IncrementLocalSeq d = (dg_LocalSeq d + 1, d\<lparr>dg_LocalSeq := dg_LocalSeq d + 1\<rparr>)"

definition SetRemoteSeq :: "int \<Rightarrow> Dialog \<Rightarrow> Dialog" where
  "SetRemoteSeq seq d = d\<lparr>dg_RemoteSeq := seq\<rparr>"

definition SetRemoteTarget :: "string \<Rightarrow> Dialog \<Rightarrow> Dialog" where
  "SetRemoteTarget target d = d\<lparr>dg_RemoteTarget := target\<rparr>"

definition IsTerminated :: "Dialog \<Rightarrow> bool" where
  "IsTerminated d \<longleftrightarrow> dg_state d = DialogStateTerminated"

section \<open>Calls\<close>

record Call =
  ca_AliceTransport :: transport_kind
  ca_BobTransport :: transport_kind
  ca_BobRTPAddr :: net_addr
  ca_BobTarget :: Target
  ca_BobSess :: nat
  ca_AliceSess :: nat
  ca_BobDialog :: Dialog
  ca_AliceDialog :: Dialog
  ca_Bridge :: Bridge
  ca_AliceTarget :: Target
  ca_BobCalleeTag :: string
  ca_BobRemoteTag :: string
  ca_AliceFromTag :: string
  ca_AliceServerTag :: string
  ca_AliceContactURI :: string
  ca_AliceCallID :: string
  ca_BobContactURI :: string
  ca_BobCallID :: string
  ca_BridgeReady :: bool
  ca_TrunkName :: string

record EarlyCall =
  ec_AliceCallID :: string
  ec_BobCallID :: string
  ec_AliceServerTag :: string
  ec_BobTx :: nat
  ec_RTPConnA :: nat
  ec_RTPConnB :: nat
  ec_loop :: nat

record Store =
  st_calls :: "(string, Call) fmap"
  st_bobToAlice :: "(string, string) fmap"
  st_early :: "(string, EarlyCall) fmap"

definition NewStore :: Store where
  "NewStore = \<lparr>st_calls = fmempty, st_bobToAlice = fmempty, st_early = fmempty\<rparr>"

definition Store_Store :: "Call \<Rightarrow> Store \<Rightarrow> Store" where
  "Store_Store call s = s\<lparr>st_calls := fmupd (ca_AliceCallID call) call (st_calls s),
     st_bobToAlice := fmupd (ca_BobCallID call) (ca_AliceCallID call) (st_bobToAlice s)\<rparr>"

definition Store_Get :: "string \<Rightarrow> Store \<Rightarrow> Call option" where
  "Store_Get callID s = (case fmlookup (st_calls s) callID of
     Some c \<Rightarrow> Some c
   | None \<Rightarrow> (case fmlookup (st_bobToAlice s) callID of
       Some aid \<Rightarrow> if aid \<noteq> [] then fmlookup (st_calls s) aid else None
     | None \<Rightarrow> None))"

text \<open>The field \<^verbatim>\<open>BobConn\<close>, which \<^verbatim>\<open>Remove\<close> closes when it is set, is left out: nothing in the program sets it.\<close>

definition Store_Remove :: "string \<Rightarrow> Store \<Rightarrow> Store" where
  "Store_Remove aliceCID s = (case fmlookup (st_calls s) aliceCID of
     None \<Rightarrow> s
   | Some call \<Rightarrow> s\<lparr>st_bobToAlice := fmdrop (ca_BobCallID call) (st_bobToAlice s), st_calls := fmdrop aliceCID (st_calls s)\<rparr>)"

definition StoreEarly :: "EarlyCall \<Rightarrow> Store \<Rightarrow> Store" where
  "StoreEarly ec s = s\<lparr>st_early := fmupd (ec_AliceCallID ec) ec (st_early s)\<rparr>"

definition GetEarly :: "string \<Rightarrow> Store \<Rightarrow> EarlyCall option" where
  "GetEarly callID s = fmlookup (st_early s) callID"

definition RemoveEarly :: "string \<Rightarrow> Store \<Rightarrow> Store" where
  "RemoveEarly aliceCID s = s\<lparr>st_early := fmdrop aliceCID (st_early s)\<rparr>"

text \<open>A call that is changed in place.\<close>

definition put_call :: "Call \<Rightarrow> Store \<Rightarrow> Store" where
  "put_call call s = s\<lparr>st_calls := fmupd (ca_AliceCallID call) call (st_calls s)\<rparr>"



section \<open>The table of calls\<close>

text \<open>
  What the handlers rely on: a stored call is found under the Call-ID of either leg, and under neither once it is removed.
  \<open>fresh\<close> says that neither identifier is in use.
\<close>

locale call_index =
  fixes ok :: "'s \<Rightarrow> bool"
    and get :: "string \<Rightarrow> 's \<Rightarrow> 'c option"
    and put :: "'c \<Rightarrow> 's \<Rightarrow> 's"
    and remove :: "string \<Rightarrow> 's \<Rightarrow> 's"
    and alice :: "'c \<Rightarrow> string"
    and bob :: "'c \<Rightarrow> string"
    and fresh :: "'c \<Rightarrow> 's \<Rightarrow> bool"
  assumes put_ok: "ok s \<Longrightarrow> fresh c s \<Longrightarrow> ok (put c s)"
    and get_put_alice: "ok s \<Longrightarrow> fresh c s \<Longrightarrow> get (alice c) (put c s) = Some c"
    and get_put_bob: "ok s \<Longrightarrow> fresh c s \<Longrightarrow> get (bob c) (put c s) = Some c"
    and get_put_other: "ok s \<Longrightarrow> fresh c s \<Longrightarrow> k \<noteq> alice c \<Longrightarrow> k \<noteq> bob c \<Longrightarrow> get k (put c s) = get k s"
    and get_keys: "ok s \<Longrightarrow> get k s = Some c \<Longrightarrow> k = alice c \<or> k = bob c"
    and get_fresh: "fresh c s \<Longrightarrow> get (alice c) s = None \<and> get (bob c) s = None"
    and remove_ok: "ok s \<Longrightarrow> get k s = Some c \<Longrightarrow> ok (remove (alice c) s)"
    and get_remove: "ok s \<Longrightarrow> get k s = Some c \<Longrightarrow> get j (remove (alice c) s) = (if j = alice c \<or> j = bob c then None else get j s)"
begin

text \<open>A call that is stored and then ended through either of its identifiers leaves no trace.\<close>

lemma store_remove_undone:
  assumes "ok s" and "fresh c s" and "k = alice c \<or> k = bob c"
  shows "get k (put c s) = Some c \<and> get j (remove (alice c) (put c s)) = get j s"
proof -
  have g: "get k (put c s) = Some c" using assms get_put_alice get_put_bob by auto
  have "get j (remove (alice c) (put c s)) = (if j = alice c \<or> j = bob c then None else get j (put c s))"
    by (rule get_remove [OF put_ok [OF assms(1,2)] g])
  then show ?thesis using g get_fresh [OF assms(2)] get_put_other [OF assms(1,2), of j] by auto
qed

end

definition store_ok :: "Store \<Rightarrow> bool" where
  "store_ok s \<longleftrightarrow>
     (\<forall>a c. fmlookup (st_calls s) a = Some c \<longrightarrow> a = ca_AliceCallID c \<and> a \<noteq> [] \<and> fmlookup (st_bobToAlice s) (ca_BobCallID c) = Some a
        \<and> fmlookup (st_calls s) (ca_BobCallID c) = None) \<and>
     (\<forall>b a. fmlookup (st_bobToAlice s) b = Some a \<longrightarrow> (\<exists>c. fmlookup (st_calls s) a = Some c \<and> ca_BobCallID c = b))"

definition fresh_call :: "Call \<Rightarrow> Store \<Rightarrow> bool" where
  "fresh_call c s \<longleftrightarrow> ca_AliceCallID c \<noteq> [] \<and> ca_AliceCallID c \<noteq> ca_BobCallID c
     \<and> (\<forall>k \<in> {ca_AliceCallID c, ca_BobCallID c}. fmlookup (st_calls s) k = None \<and> fmlookup (st_bobToAlice s) k = None)"

lemma store_ok_call:
  assumes "store_ok s" and "fmlookup (st_calls s) a = Some c"
  shows "a = ca_AliceCallID c" "a \<noteq> []" "fmlookup (st_bobToAlice s) (ca_BobCallID c) = Some a" "fmlookup (st_calls s) (ca_BobCallID c) = None"
  using assms unfolding store_ok_def by blast+

lemma store_ok_bob:
  assumes "store_ok s" and "fmlookup (st_bobToAlice s) b = Some a"
  obtains c where "fmlookup (st_calls s) a = Some c" "ca_BobCallID c = b" "a \<noteq> []"
  using assms unfolding store_ok_def by blast

lemma Store_Get_cases:
  assumes "store_ok s" and "Store_Get k s = Some c"
  shows "fmlookup (st_calls s) (ca_AliceCallID c) = Some c" and "k = ca_AliceCallID c \<or> k = ca_BobCallID c"
proof -
  consider (a) "fmlookup (st_calls s) k = Some c"
    | (b) a where "fmlookup (st_calls s) k = None" "fmlookup (st_bobToAlice s) k = Some a" "fmlookup (st_calls s) a = Some c"
    using assms(2) by (auto simp: Store_Get_def split: option.splits if_splits)
  then have "fmlookup (st_calls s) (ca_AliceCallID c) = Some c \<and> (k = ca_AliceCallID c \<or> k = ca_BobCallID c)"
  proof cases
    case a
    then show ?thesis using store_ok_call [OF assms(1) a] by simp
  next
    case (b a)
    then show ?thesis using store_ok_call(1) [OF assms(1) b(3)] by (auto elim: store_ok_bob [OF assms(1)])
  qed
  then show "fmlookup (st_calls s) (ca_AliceCallID c) = Some c" "k = ca_AliceCallID c \<or> k = ca_BobCallID c" by blast+
qed

lemma Store_Remove_eq:
  "fmlookup (st_calls s) a = Some c \<Longrightarrow> Store_Remove a s = s\<lparr>st_bobToAlice := fmdrop (ca_BobCallID c) (st_bobToAlice s), st_calls := fmdrop a (st_calls s)\<rparr>"
  by (simp add: Store_Remove_def)

lemma store_okI:
  assumes "\<And>a c. fmlookup (st_calls s) a = Some c \<Longrightarrow> a = ca_AliceCallID c \<and> a \<noteq> [] \<and> fmlookup (st_bobToAlice s) (ca_BobCallID c) = Some a
      \<and> fmlookup (st_calls s) (ca_BobCallID c) = None"
    and "\<And>b a. fmlookup (st_bobToAlice s) b = Some a \<Longrightarrow> \<exists>c. fmlookup (st_calls s) a = Some c \<and> ca_BobCallID c = b"
  shows "store_ok s"
  using assms unfolding store_ok_def by blast

lemma store_ok_put:
  assumes ok: "store_ok s" and fr: "fresh_call c s"
  shows "store_ok (Store_Store c s)"
proof (rule store_okI)
  let ?a = "ca_AliceCallID c" and ?b = "ca_BobCallID c"
  have f: "?a \<noteq> []" "?a \<noteq> ?b" "fmlookup (st_calls s) ?a = None" "fmlookup (st_calls s) ?b = None"
    "fmlookup (st_bobToAlice s) ?a = None" "fmlookup (st_bobToAlice s) ?b = None"
    using fr by (simp_all add: fresh_call_def)
  fix a c' assume l: "fmlookup (st_calls (Store_Store c s)) a = Some c'"
  show "a = ca_AliceCallID c' \<and> a \<noteq> [] \<and> fmlookup (st_bobToAlice (Store_Store c s)) (ca_BobCallID c') = Some a
      \<and> fmlookup (st_calls (Store_Store c s)) (ca_BobCallID c') = None"
  proof (cases "a = ?a")
    case True
    then show ?thesis using l f by (simp add: Store_Store_def)
  next
    case False
    then have l': "fmlookup (st_calls s) a = Some c'" using l by (simp add: Store_Store_def)
    note c' = store_ok_call [OF ok l']
    have "ca_BobCallID c' \<noteq> ?a" "ca_BobCallID c' \<noteq> ?b" using c' f by auto
    then show ?thesis using c' by (simp add: Store_Store_def)
  qed
next
  fix b a assume l: "fmlookup (st_bobToAlice (Store_Store c s)) b = Some a"
  show "\<exists>c'. fmlookup (st_calls (Store_Store c s)) a = Some c' \<and> ca_BobCallID c' = b"
  proof (cases "b = ca_BobCallID c")
    case True
    then show ?thesis using l by (simp add: Store_Store_def)
  next
    case False
    then have "fmlookup (st_bobToAlice s) b = Some a" using l by (simp add: Store_Store_def)
    then obtain c' where "fmlookup (st_calls s) a = Some c'" "ca_BobCallID c' = b" by (rule store_ok_bob [OF ok])
    moreover from this have "a \<noteq> ca_AliceCallID c" using fr by (auto simp: fresh_call_def)
    ultimately show ?thesis by (simp add: Store_Store_def)
  qed
qed

lemma bob_ids_differ:
  assumes "store_ok s" "fmlookup (st_calls s) a = Some c" "fmlookup (st_calls s) a' = Some c'" "a' \<noteq> a"
  shows "ca_BobCallID c' \<noteq> ca_BobCallID c"
  using store_ok_call(3) [OF assms(1,2)] store_ok_call(3) [OF assms(1,3)] assms(4) by auto

lemma store_ok_remove:
  assumes ok: "store_ok s" and a: "fmlookup (st_calls s) a = Some c"
  shows "store_ok (Store_Remove a s)"
proof (rule store_okI)
  fix a' c' assume l: "fmlookup (st_calls (Store_Remove a s)) a' = Some c'"
  then have l': "fmlookup (st_calls s) a' = Some c'" "a' \<noteq> a" by (auto simp: Store_Remove_eq [OF a] split: if_splits)
  then show "a' = ca_AliceCallID c' \<and> a' \<noteq> [] \<and> fmlookup (st_bobToAlice (Store_Remove a s)) (ca_BobCallID c') = Some a'
      \<and> fmlookup (st_calls (Store_Remove a s)) (ca_BobCallID c') = None"
    using store_ok_call [OF ok l'(1)] bob_ids_differ [OF ok a l'] by (simp add: Store_Remove_eq [OF a])
next
  fix b a' assume "fmlookup (st_bobToAlice (Store_Remove a s)) b = Some a'"
  then have l: "fmlookup (st_bobToAlice s) b = Some a'" "b \<noteq> ca_BobCallID c" by (auto simp: Store_Remove_eq [OF a] split: if_splits)
  then obtain c' where "fmlookup (st_calls s) a' = Some c'" "ca_BobCallID c' = b" by (auto elim: store_ok_bob [OF ok])
  then show "\<exists>c'. fmlookup (st_calls (Store_Remove a s)) a' = Some c' \<and> ca_BobCallID c' = b"
    using l(2) a by (auto simp: Store_Remove_eq [OF a])
qed

lemma Store_Get_removed:
  assumes ok: "store_ok s" and a: "fmlookup (st_calls s) (ca_AliceCallID c) = Some c"
  shows "Store_Get j (Store_Remove (ca_AliceCallID c) s) = (if j = ca_AliceCallID c \<or> j = ca_BobCallID c then None else Store_Get j s)"
proof -
  note c = store_ok_call [OF ok a]
  have nb: "fmlookup (st_bobToAlice s) (ca_AliceCallID c) = None"
  proof (rule ccontr)
    assume "fmlookup (st_bobToAlice s) (ca_AliceCallID c) \<noteq> None"
    then obtain x where "fmlookup (st_bobToAlice s) (ca_AliceCallID c) = Some x" by blast
    then obtain c' where "fmlookup (st_calls s) x = Some c'" "ca_BobCallID c' = ca_AliceCallID c" by (rule store_ok_bob [OF ok])
    then show False using store_ok_call(4) [OF ok] a by force
  qed
  have "fmlookup (st_bobToAlice s) j = Some (ca_AliceCallID c) \<Longrightarrow> j = ca_BobCallID c"
    using a by (auto elim: store_ok_bob [OF ok])
  then show ?thesis
    using c nb by (cases "fmlookup (st_bobToAlice s) j") (auto simp: Store_Remove_eq [OF a] Store_Get_def split: option.splits)
qed

interpretation calls: call_index store_ok Store_Get Store_Store Store_Remove ca_AliceCallID ca_BobCallID fresh_call
proof unfold_locales
  fix s c k j assume ok: "store_ok s"
  show "fresh_call c s \<Longrightarrow> store_ok (Store_Store c s)" by (rule store_ok_put [OF ok])
  show "fresh_call c s \<Longrightarrow> Store_Get (ca_AliceCallID c) (Store_Store c s) = Some c"
    by (simp add: Store_Get_def Store_Store_def)
  show "fresh_call c s \<Longrightarrow> Store_Get (ca_BobCallID c) (Store_Store c s) = Some c"
    by (auto simp: Store_Get_def Store_Store_def fresh_call_def split: option.splits)
  show "fresh_call c s \<Longrightarrow> k \<noteq> ca_AliceCallID c \<Longrightarrow> k \<noteq> ca_BobCallID c \<Longrightarrow> Store_Get k (Store_Store c s) = Store_Get k s"
    using ok by (auto simp: Store_Get_def Store_Store_def fresh_call_def split: option.splits elim!: store_ok_bob)
  assume g: "Store_Get k s = Some c"
  show "k = ca_AliceCallID c \<or> k = ca_BobCallID c" by (rule Store_Get_cases [OF ok g])
  note in_calls = Store_Get_cases(1) [OF ok g]
  show "store_ok (Store_Remove (ca_AliceCallID c) s)" by (rule store_ok_remove [OF ok in_calls])
  show "Store_Get j (Store_Remove (ca_AliceCallID c) s) = (if j = ca_AliceCallID c \<or> j = ca_BobCallID c then None else Store_Get j s)"
    by (rule Store_Get_removed [OF ok in_calls])
next
  show "fresh_call c s \<Longrightarrow> Store_Get (ca_AliceCallID c) s = None \<and> Store_Get (ca_BobCallID c) s = None" for c s
    by (simp add: fresh_call_def Store_Get_def)
qed



text \<open>
  C10. A call is found under the Call-IDs of both legs from the moment it is stored, and after its removal the table answers every
  lookup as it did before the call.  This needs that neither Call-ID is in use, which the handler does not check for the caller's.
\<close>
theorem call_table_two_keys:
  assumes "store_ok s" and "fresh_call c s" and "k = ca_AliceCallID c \<or> k = ca_BobCallID c"
  shows "store_ok (Store_Store c s) \<and> Store_Get k (Store_Store c s) = Some c \<and>
     Store_Get j (Store_Remove (ca_AliceCallID c) (Store_Store c s)) = Store_Get j s"
  using calls.put_ok [OF assms(1,2)] calls.store_remove_undone [OF assms] by blast

definition sample_dialog :: Dialog where
  "sample_dialog = NewDialog 0 \<lparr>di_CallID = ''a1'', di_LocalTag = ''t1'', di_RemoteTag = ''t2''\<rparr> ''sip:trec@192.0.2.9'' ''sip:a@192.0.2.1'' ''<sip:a@192.0.2.1>''"

definition sample_call_target :: Target where
  "sample_call_target = \<lparr>tgt_Addr = Some (UDPAddr ''192.0.2.1'' 5060), tgt_Conn = None, tgt_FlowID = []\<rparr>"

definition sample_call :: "string \<Rightarrow> string \<Rightarrow> string \<Rightarrow> Call" where
  "sample_call alice bob trunk =
     \<lparr>ca_AliceTransport = UDPTransport, ca_BobTransport = UDPTransport, ca_BobRTPAddr = UDPAddr ''192.0.2.2'' 4000, ca_BobTarget = sample_call_target,
      ca_BobSess = 1, ca_AliceSess = 0, ca_BobDialog = sample_dialog, ca_AliceDialog = sample_dialog, ca_Bridge = NewBridge 1 2 0 1,
      ca_AliceTarget = sample_call_target, ca_BobCalleeTag = ''ct'', ca_BobRemoteTag = ''bt'', ca_AliceFromTag = ''t2'', ca_AliceServerTag = ''t1'',
      ca_AliceContactURI = ''<sip:a@192.0.2.1>'', ca_AliceCallID = alice, ca_BobContactURI = ''sip:b@192.0.2.2'', ca_BobCallID = bob,
      ca_BridgeReady = True, ca_TrunkName = trunk\<rparr>"

theorem call_table_two_keys_witness:
  "Store_Get ''b1'' (Store_Store (sample_call ''a1'' ''b1'' []) NewStore) = Some (sample_call ''a1'' ''b1'' [])"
proof -
  have "store_ok NewStore" "fresh_call (sample_call ''a1'' ''b1'' []) NewStore"
    by (simp_all add: store_ok_def fresh_call_def NewStore_def sample_call_def)
  from call_table_two_keys [OF this, of "''b1''"] show ?thesis by (simp add: sample_call_def)
qed

text \<open>
  A second call with the Call-ID of a stored one, which every INVITE inside a dialog has, takes its place: the first call is no
  longer found under its own second identifier, which now leads to the new call.
\<close>
lemma same_call_id_replaces:
  "Store_Get ''b1'' (Store_Store (sample_call ''a1'' ''b2'' []) (Store_Store (sample_call ''a1'' ''b1'' []) NewStore))
   = Some (sample_call ''a1'' ''b2'' [])"
  by (simp add: Store_Get_def Store_Store_def NewStore_def sample_call_def)


end
