(* ===== verification/Expiring_Store.thy ===== *)
theory Expiring_Store
  imports "HOL-Library.Finite_Map"
begin

text \<open>
  The contract of the three stores that are swept periodically (nonces, failed-authentication counters,
  registration bindings): a sweep removes the expired entries and nothing else.  Time is an integer number
  of nanoseconds and is passed explicitly.
\<close>

locale expiring_store =
  fixes lookup :: "'s \<Rightarrow> 'k \<Rightarrow> 'v option"
    and sweep :: "'s \<Rightarrow> int \<Rightarrow> 's"
    and expires :: "'v \<Rightarrow> int"
    and live :: "int \<Rightarrow> int \<Rightarrow> bool"
  assumes lookup_sweep:
    "lookup (sweep s now) k = (case lookup s k of Some v \<Rightarrow> if live now (expires v) then Some v else None | None \<Rightarrow> None)"
    and live_antimono: "now \<le> now' \<Longrightarrow> live now' t \<Longrightarrow> live now t"
begin

lemma sweep_keeps: "lookup s k = Some v \<Longrightarrow> live now (expires v) \<Longrightarrow> lookup (sweep s now) k = Some v"
  by (simp add: lookup_sweep)

lemma sweep_removes: "lookup (sweep s now) k = Some v \<Longrightarrow> lookup s k = Some v \<and> live now (expires v)"
  by (auto simp: lookup_sweep split: option.splits if_splits)

lemma sweep_sweep: "now \<le> now' \<Longrightarrow> lookup (sweep (sweep s now) now') k = lookup (sweep s now') k"
  using live_antimono by (auto simp: lookup_sweep split: option.splits)

end

text \<open>The sweeping loop over a Go map.\<close>

definition keep_live :: "('v \<Rightarrow> bool) \<Rightarrow> ('k, 'v) fmap \<Rightarrow> ('k, 'v) fmap" where
  "keep_live P m = fmfilter (\<lambda>k. case fmlookup m k of Some v \<Rightarrow> P v | None \<Rightarrow> False) m"

lemma fmlookup_keep_live:
  "fmlookup (keep_live P m) k = (case fmlookup m k of Some v \<Rightarrow> if P v then Some v else None | None \<Rightarrow> None)"
  by (auto simp: keep_live_def split: option.splits)

end
