(* ===== verification/Auth.thy ===== *)
theory Auth
  imports Transport Expiring_Store
begin

text \<open>
  Digest authentication: \<^verbatim>\<open>internal/sip/nonce.go\<close>, \<^verbatim>\<open>auth.go\<close> and the password store of \<^verbatim>\<open>password.go\<close>.  The
  mutexes make every operation atomic, so an operation is a function on the store; the clock
  (\<open>now\<close>, in nanoseconds), the random bytes of a nonce and the hash functions are arguments.
\<close>

type_synonym nonce = string
type_synonym realm = string
type_synonym algorithm = string
type_synonym uri = string
type_synonym hexdigest = string

section \<open>Nonces\<close>

record nonceEntry =
  ne_expires :: int
  ne_maxNC :: u64

record NonceManager =
  nm_entries :: "(string, nonceEntry) fmap"
  nm_ttl :: int

definition NewNonceManager :: "int \<Rightarrow> NonceManager" where
  "NewNonceManager ttl = \<lparr>nm_entries = fmempty, nm_ttl = ttl\<rparr>"

definition NewNonce :: "NonceManager \<Rightarrow> int \<Rightarrow> string \<Rightarrow> NonceManager \<times> string" where
  "NewNonce nm now rnd =
     (let nonce = hex_EncodeToString rnd in
      (nm\<lparr>nm_entries := fmupd nonce \<lparr>ne_expires = now + nm_ttl nm, ne_maxNC = 0\<rparr> (nm_entries nm)\<rparr>, nonce))"

definition Nonce_Verify :: "NonceManager \<Rightarrow> int \<Rightarrow> string \<Rightarrow> u64 \<Rightarrow> NonceManager \<times> bool \<times> bool" where
  "Nonce_Verify nm now nonce nc = (case fmlookup (nm_entries nm) nonce of
     None \<Rightarrow> (nm, False, False)
   | Some entry \<Rightarrow>
       if now > ne_expires entry then (nm\<lparr>nm_entries := fmdrop nonce (nm_entries nm)\<rparr>, True, False)
       else if nc \<le> ne_maxNC entry then (nm, True, False)
       else (nm\<lparr>nm_entries := fmupd nonce (entry\<lparr>ne_maxNC := nc\<rparr>) (nm_entries nm)\<rparr>, True, True))"

definition Nonce_Sweep :: "NonceManager \<Rightarrow> int \<Rightarrow> NonceManager" where
  "Nonce_Sweep nm now = nm\<lparr>nm_entries := keep_live (\<lambda>e. \<not> now > ne_expires e) (nm_entries nm)\<rparr>"

section \<open>Counting failed attempts\<close>

record authAttemptEntry =
  ae_count :: int
  ae_expires :: int

record AuthAttemptTracker =
  at_entries :: "(string, authAttemptEntry) fmap"
  at_ttl :: int

definition NewAuthAttemptTracker :: "int \<Rightarrow> AuthAttemptTracker" where
  "NewAuthAttemptTracker ttl = \<lparr>at_entries = fmempty, at_ttl = ttl\<rparr>"

definition ClampMaxFailedAuthAttempts :: "int \<Rightarrow> int" where
  "ClampMaxFailedAuthAttempts n = (if n < 1 then 1 else if n > 10 then 10 else n)"

definition Attempts_Record :: "AuthAttemptTracker \<Rightarrow> int \<Rightarrow> string \<Rightarrow> AuthAttemptTracker \<times> int" where
  "Attempts_Record at now key =
     (let e = (case fmlookup (at_entries at) key of Some e \<Rightarrow> e | None \<Rightarrow> \<lparr>ae_count = 0, ae_expires = 0\<rparr>);
          e = e\<lparr>ae_count := ae_count e + 1, ae_expires := now + at_ttl at\<rparr>
      in (at\<lparr>at_entries := fmupd key e (at_entries at)\<rparr>, ae_count e))"

definition Attempts_Count :: "AuthAttemptTracker \<Rightarrow> int \<Rightarrow> string \<Rightarrow> int" where
  "Attempts_Count at now key = (case fmlookup (at_entries at) key of
     None \<Rightarrow> 0 | Some e \<Rightarrow> if now > ae_expires e then 0 else ae_count e)"

definition Attempts_Reset :: "AuthAttemptTracker \<Rightarrow> string \<Rightarrow> AuthAttemptTracker" where
  "Attempts_Reset at key = at\<lparr>at_entries := fmdrop key (at_entries at)\<rparr>"

definition Attempts_Sweep :: "AuthAttemptTracker \<Rightarrow> int \<Rightarrow> AuthAttemptTracker" where
  "Attempts_Sweep at now = at\<lparr>at_entries := keep_live (\<lambda>e. \<not> now > ae_expires e) (at_entries at)\<rparr>"

text \<open>What a handler sees of its transaction: its target and its transport.\<close>

record tx_info =
  tx_Target :: Target
  tx_Transport :: "transport_kind option"

definition AuthAttemptKey :: "tx_info \<Rightarrow> string \<Rightarrow> string" where
  "AuthAttemptKey tx callID =
     (let target = tx_Target tx;
          remote = (case tgt_Addr target of Some a \<Rightarrow> net_addr_String a
            | None \<Rightarrow> (case tgt_Conn target of Some c \<Rightarrow> net_addr_String (conn_RemoteAddr c) | None \<Rightarrow> ''unknown''));
          transport = (case tx_Transport tx of Some t \<Rightarrow> TransportName t | None \<Rightarrow> ''?'')
      in transport @ '':'' @ remote @ ''|'' @ callID)"

section \<open>Digest credentials\<close>

record DigestCredentials =
  dc_Username :: string
  dc_Realm :: string
  dc_Nonce :: string
  dc_URI :: string
  dc_Response :: string
  dc_Algorithm :: string
  dc_CNonce :: string
  dc_QOP :: string
  dc_NC :: u64
  dc_Opaque :: string

datatype auth_error =
    AuthNotDigest
  | AuthUnterminatedQuote
  | AuthInvalidNC string
  | AuthMissingField

definition zero_credentials :: DigestCredentials where
  "zero_credentials = \<lparr>dc_Username = '''', dc_Realm = '''', dc_Nonce = '''', dc_URI = '''', dc_Response = '''',
     dc_Algorithm = ''MD5'', dc_CNonce = '''', dc_QOP = '''', dc_NC = 0, dc_Opaque = ''''\<rparr>"

definition set_digest_field ::
  "unicode_tables \<Rightarrow> string \<Rightarrow> string \<Rightarrow> DigestCredentials \<Rightarrow> (auth_error, DigestCredentials) go" where
  "set_digest_field uni key value creds =
     (let k = ToLower (uni_lower uni) key in
      if k = ''username'' then Ok (creds\<lparr>dc_Username := value\<rparr>)
      else if k = ''realm'' then Ok (creds\<lparr>dc_Realm := value\<rparr>)
      else if k = ''nonce'' then Ok (creds\<lparr>dc_Nonce := value\<rparr>)
      else if k = ''uri'' then Ok (creds\<lparr>dc_URI := value\<rparr>)
      else if k = ''response'' then Ok (creds\<lparr>dc_Response := value\<rparr>)
      else if k = ''algorithm'' then Ok (creds\<lparr>dc_Algorithm := ToUpper (uni_upper uni) value\<rparr>)
      else if k = ''cnonce'' then Ok (creds\<lparr>dc_CNonce := value\<rparr>)
      else if k = ''qop'' then Ok (creds\<lparr>dc_QOP := value\<rparr>)
      else if k = ''nc'' then
        (case ParseUint16_64 value of Some n \<Rightarrow> Ok (creds\<lparr>dc_NC := n\<rparr>) | None \<Rightarrow> Fail (AuthInvalidNC value))
      else if k = ''opaque'' then Ok (creds\<lparr>dc_Opaque := value\<rparr>)
      else Ok creds)"

text \<open>The value after \<^verbatim>\<open>=\<close>, quoted or up to the next comma, and what follows the comma.\<close>

definition digest_value :: "string \<Rightarrow> (auth_error, string \<times> string) go" where
  "digest_value rest =
     (if HasPrefix rest [CHR 0x22] then
        (case IndexByte (drop 1 rest) (CHR 0x22) of
           None \<Rightarrow> Fail AuthUnterminatedQuote
         | Some e \<Rightarrow>
             let rest' = drop (1 + e + 1) rest in
             Ok (take e (drop 1 rest), case IndexByte rest' (CHR '','') of Some idx \<Rightarrow> drop (idx + 1) rest' | None \<Rightarrow> ''''))
      else
        (case IndexByte rest (CHR '','') of
           Some idx \<Rightarrow> Ok (TrimSpace (take idx rest), drop (idx + 1) rest)
         | None \<Rightarrow> Ok (TrimSpace rest, '''')))"

lemma trim_front_le: "length (trim_front seqs s) \<le> length s"
proof (induction seqs s rule: trim_front.induct)
  case (1 seqs s)
  then show ?case by (subst trim_front.simps) (force split: option.split)
qed

lemma TrimSpace_le: "length (TrimSpace s) \<le> length s"
  unfolding TrimSpace_def length_rev
  by (rule order_trans [OF trim_front_le]) (simp add: trim_front_le)

lemma digest_value_le: "digest_value rest = Ok (v, r) \<Longrightarrow> length r \<le> length rest"
  by (auto simp: digest_value_def Let_def split: if_splits option.splits)

lemma digest_rest_shorter:
  assumes "Cut (TrimSpace raw) ''='' = (key, rest, True)" and "digest_value (TrimSpace rest) = Ok (v, rest')"
  shows "length rest' < length raw"
proof -
  from assms(1) have "TrimSpace raw \<noteq> []" by (auto simp: Cut_def)
  from this assms(1) have "length rest < length (TrimSpace raw)" by (rule Cut_shorter)
  moreover have "length rest' \<le> length (TrimSpace rest)" using assms(2) by (rule digest_value_le)
  ultimately show ?thesis using TrimSpace_le [of rest] TrimSpace_le [of raw] by linarith
qed

function parse_digest_fields ::
  "unicode_tables \<Rightarrow> string \<Rightarrow> DigestCredentials \<Rightarrow> (auth_error, DigestCredentials) go" where
  "parse_digest_fields uni raw creds =
     (if raw = [] then Ok creds
      else case Cut (TrimSpace raw) ''='' of (key, rest, found) \<Rightarrow>
        if \<not> found then Ok creds
        else case digest_value (TrimSpace rest) of
          Fail e \<Rightarrow> Fail e | Panic \<Rightarrow> Panic
        | Ok (value, rest') \<Rightarrow>
            (case set_digest_field uni (TrimSpace key) value creds of
               Fail e \<Rightarrow> Fail e | Panic \<Rightarrow> Panic
             | Ok creds' \<Rightarrow> parse_digest_fields uni rest' creds'))"
  by pat_completeness auto
termination
proof (relation "measure (\<lambda>(_, raw, _). length raw)", force)
  fix uni :: unicode_tables and raw creds key y rest found x vl rest' creds'
  assume "raw \<noteq> []" and y: "(key, y) = Cut (TrimSpace raw) ''=''" "(rest, found) = y" "\<not> \<not> found"
    and x: "digest_value (TrimSpace rest) = Ok x" "(vl, rest') = x"
  have "length rest' < length raw"
    by (rule digest_rest_shorter [of _ key rest vl]) (simp_all only: y(1) [symmetric] y(2) [symmetric] x simp_thms y(3) [simplified])
  then show "((uni, rest', creds'), uni, raw, creds) \<in> measure (\<lambda>(_, raw, _). length raw)" by simp
qed

declare parse_digest_fields.simps [simp del]

definition ParseDigest :: "unicode_tables \<Rightarrow> string \<Rightarrow> (auth_error, DigestCredentials) go" where
  "ParseDigest uni raw =
     (let raw = TrimSpace raw in
      if length raw < 6 \<or> \<not> EqualFold (take 6 raw) ''Digest'' then Fail AuthNotDigest
      else let raw = TrimSpace (drop 6 raw) in
        if raw = [] then Fail AuthNotDigest
        else and_then (parse_digest_fields uni raw zero_credentials) (\<lambda>creds.
          if dc_Username creds = [] \<or> dc_Realm creds = [] \<or> dc_Nonce creds = [] \<or> dc_URI creds = []
             \<or> dc_Response creds = [] then Fail AuthMissingField
          else Ok creds))"

definition ParseAuthorization :: "unicode_tables \<Rightarrow> string \<Rightarrow> (auth_error, DigestCredentials) go" where
  "ParseAuthorization uni raw = ParseDigest uni raw"

definition ParseProxyAuthorization :: "unicode_tables \<Rightarrow> string \<Rightarrow> (auth_error, DigestCredentials) go" where
  "ParseProxyAuthorization uni raw = ParseDigest uni raw"

definition dq :: string where "dq = [CHR 0x22]"

definition BuildDigestChallenge :: "realm \<Rightarrow> nonce \<Rightarrow> algorithm \<Rightarrow> bool \<Rightarrow> string" where
  "BuildDigestChallenge realm nonce algorithm stale =
     ''Digest realm='' @ dq @ realm @ dq @ '', nonce='' @ dq @ nonce @ dq @ '', algorithm='' @ algorithm
     @ '', qop='' @ dq @ ''auth'' @ dq @ (if stale then '', stale=TRUE'' else '''')"

definition BuildWWWAuthenticate :: "realm \<Rightarrow> nonce \<Rightarrow> algorithm \<Rightarrow> bool \<Rightarrow> string" where
  "BuildWWWAuthenticate realm nonce algorithm stale = BuildDigestChallenge realm nonce algorithm stale"

definition BuildProxyAuthenticate :: "realm \<Rightarrow> nonce \<Rightarrow> algorithm \<Rightarrow> bool \<Rightarrow> string" where
  "BuildProxyAuthenticate realm nonce algorithm stale = BuildDigestChallenge realm nonce algorithm stale"

section \<open>Digests\<close>

text \<open>
  The three hash functions of the standard library, on byte strings.  Nothing below depends on what they
  compute: every statement holds for all of them.
\<close>

record hashes =
  md5_Sum :: "string \<Rightarrow> string"
  sha256_Sum256 :: "string \<Rightarrow> string"
  sha512_Sum512_256 :: "string \<Rightarrow> string"

definition ComputeHA1 :: "hashes \<Rightarrow> string \<Rightarrow> realm \<Rightarrow> string \<Rightarrow> algorithm \<Rightarrow> hexdigest" where
  "ComputeHA1 H username realm password algorithm =
     (let data = username @ '':'' @ realm @ '':'' @ password in
      if algorithm = ''MD5'' then hex_EncodeToString (md5_Sum H data)
      else if algorithm = ''SHA-256'' then hex_EncodeToString (sha256_Sum256 H data)
      else if algorithm = ''SHA-512-256'' then hex_EncodeToString (sha512_Sum512_256 H data)
      else hex_EncodeToString (md5_Sum H data))"

definition hash_bytes :: "hashes \<Rightarrow> string \<Rightarrow> string \<Rightarrow> string" where
  "hash_bytes H algorithm data =
     (if algorithm = ''MD5'' then md5_Sum H data
      else if algorithm = ''SHA-256'' then sha256_Sum256 H data
      else if algorithm = ''SHA-512-256'' then sha512_Sum512_256 H data
      else md5_Sum H data)"

definition hexHash :: "hashes \<Rightarrow> string \<Rightarrow> string \<Rightarrow> string" where
  "hexHash H algorithm data = hex_EncodeToString (hash_bytes H algorithm data)"

definition ComputeDigestResponse ::
  "hashes \<Rightarrow> hexdigest \<Rightarrow> nonce \<Rightarrow> string \<Rightarrow> string \<Rightarrow> string \<Rightarrow> SIPMethod \<Rightarrow> uri \<Rightarrow> algorithm \<Rightarrow> hexdigest" where
  "ComputeDigestResponse H ha1 nonce nc cnonce qop method uri algorithm =
     (let ha2 = hexHash H algorithm (method @ '':'' @ uri);
          respData = (if qop = ''auth'' \<or> qop = ''auth-int''
            then ha1 @ '':'' @ nonce @ '':'' @ nc @ '':'' @ cnonce @ '':'' @ qop @ '':'' @ ha2
            else ha1 @ '':'' @ nonce @ '':'' @ ha2)
      in hexHash H algorithm respData)"

definition VerifyDigest :: "hashes \<Rightarrow> DigestCredentials \<Rightarrow> string \<Rightarrow> string \<Rightarrow> bool" where
  "VerifyDigest H creds ha1 method =
     (let nc = (if dc_QOP creds \<noteq> [] then sprintf_08x (dc_NC creds) else '''');
          expected = ComputeDigestResponse H ha1 (dc_Nonce creds) nc (dc_CNonce creds) (dc_QOP creds) method
            (dc_URI creds) (dc_Algorithm creds)
      in expected = dc_Response creds)"

section \<open>Password stores\<close>

record PasswordStore =
  ps_Realm :: string
  ps_Algorithm :: string
  ps_HA1 :: "string \<Rightarrow> string option"
  ps_AORs :: "string \<Rightarrow> string list option"

record jsonUserEntry =
  ju_HA1 :: string
  ju_AORs :: "string list"

record jsonPasswordConfig =
  jp_Realm :: string
  jp_Algorithm :: string
  jp_Users :: "(string, jsonUserEntry) fmap"

datatype password_error =
    PwReading
  | PwParsing
  | PwRealmRequired
  | PwUnsupportedAlgorithm string
  | PwInvalidUsers

definition aor_valid :: "string \<Rightarrow> bool" where
  "aor_valid aor \<longleftrightarrow> \<not> (aor = [] \<or> \<not> HasPrefix aor ''sip:'')"

definition user_valid :: "jsonUserEntry \<Rightarrow> bool" where
  "user_valid u \<longleftrightarrow> ju_HA1 u \<noteq> [] \<and> ju_AORs u \<noteq> [] \<and> list_all aor_valid (ju_AORs u)"

text \<open>
  \<^verbatim>\<open>NewJSONPasswordStore\<close>: the result of reading the file and the JSON decoder are arguments.  The loop over
  the users stops at the first invalid one; which one that is depends on the map order, so the three
  messages are one error.
\<close>

definition NewJSONPasswordStore ::
  "(string \<Rightarrow> jsonPasswordConfig option) \<Rightarrow> string option \<Rightarrow> (password_error, jsonPasswordConfig) go" where
  "NewJSONPasswordStore json_Unmarshal file = (case file of None \<Rightarrow> Fail PwReading
     | Some raw \<Rightarrow> (case json_Unmarshal raw of None \<Rightarrow> Fail PwParsing
     | Some cfg \<Rightarrow>
         if jp_Realm cfg = [] then Fail PwRealmRequired
         else let cfg = (if jp_Algorithm cfg = [] then cfg\<lparr>jp_Algorithm := ''SHA-256''\<rparr> else cfg) in
           if jp_Algorithm cfg \<notin> {''MD5'', ''SHA-256'', ''SHA-512-256''}
           then Fail (PwUnsupportedAlgorithm (jp_Algorithm cfg))
           else if \<not> fmpred (\<lambda>_ u. user_valid u) (jp_Users cfg) then Fail PwInvalidUsers
           else Ok cfg))"

definition JSONPasswordStore :: "jsonPasswordConfig \<Rightarrow> PasswordStore" where
  "JSONPasswordStore s = \<lparr>ps_Realm = jp_Realm s, ps_Algorithm = jp_Algorithm s,
     ps_HA1 = (\<lambda>username. map_option ju_HA1 (fmlookup (jp_Users s) username)),
     ps_AORs = (\<lambda>username. map_option ju_AORs (fmlookup (jp_Users s) username))\<rparr>"

fun AORAllowed :: "string list \<Rightarrow> string \<Rightarrow> bool" where
  "AORAllowed [] aor = False"
| "AORAllowed (a # allowed) aor =
     (if NormalizeAOR a = NormalizeAOR (StripURIParams aor) then True else AORAllowed allowed aor)"

section \<open>Authenticating a request\<close>

text \<open>
  The state that a digest check works on, and the answers it sends with \<^verbatim>\<open>tx.Respond\<close>, in order.  One value of
  the clock and one nonce's worth of random bytes are drawn per request.
\<close>

record auth_state =
  as_nonces :: NonceManager
  as_attempts :: AuthAttemptTracker

record auth_params =
  ap_authHeaderKey :: string
  ap_respChallengeKey :: string
  ap_challengeStatus :: int
  ap_statusText :: string
  ap_method :: string
  ap_maxAttempts :: int

record environment =
  env_now :: int
  env_rnd :: string

definition challenge_response ::
  "PasswordStore \<Rightarrow> auth_params \<Rightarrow> SIPMessage \<Rightarrow> bool \<Rightarrow> string \<Rightarrow> SIPMessage" where
  "challenge_response passwd ap req stale nonce =
     (let challenge = BuildDigestChallenge (ps_Realm passwd) nonce (ps_Algorithm passwd) stale;
          res = NewResponse req (ap_challengeStatus ap) (ap_statusText ap)
      in res\<lparr>msg_Headers := SIPHeaders_Add (msg_Headers res) (ap_respChallengeKey ap) challenge\<rparr>)"

definition sendAuthFailureResponse ::
  "environment \<Rightarrow> PasswordStore \<Rightarrow> auth_params \<Rightarrow> SIPMessage \<Rightarrow> string \<Rightarrow> bool \<Rightarrow> auth_state \<Rightarrow> auth_state \<times> SIPMessage list" where
  "sendAuthFailureResponse env passwd ap req key stale st =
     (let maxAttempts = (if ap_maxAttempts ap < 1 then 1 else ap_maxAttempts ap);
          (tracker, count) = Attempts_Record (as_attempts st) (env_now env) key
      in if count < maxAttempts then
           (let (nonces, nonce) = NewNonce (as_nonces st) (env_now env) (env_rnd env)
            in (st\<lparr>as_attempts := tracker, as_nonces := nonces\<rparr>, [challenge_response passwd ap req stale nonce]))
         else (st\<lparr>as_attempts := Attempts_Reset tracker key\<rparr>, [NewResponse req 403 ''Forbidden'']))"

text \<open>
  The checks on a request that carries credentials, up to its outcome: \<open>Inl stale\<close> is a call of
  \<^verbatim>\<open>sendAuthFailureResponse\<close> with that flag, \<open>Inr\<close> are the verified credentials.
\<close>

definition verify_credentials ::
  "unicode_tables \<Rightarrow> hashes \<Rightarrow> environment \<Rightarrow> PasswordStore \<Rightarrow> auth_params \<Rightarrow> SIPMessage \<Rightarrow> string \<Rightarrow> auth_state
   \<Rightarrow> ('e, auth_state \<times> (bool + DigestCredentials)) go" where
  "verify_credentials uni H env passwd ap req authHeader st =
     (case ParseDigest uni authHeader of
        Panic \<Rightarrow> Panic
      | Fail _ \<Rightarrow> Ok (st, Inl False)
      | Ok creds \<Rightarrow>
          if dc_Username creds = [] then Ok (st, Inl False)
          else if dc_URI creds \<noteq> SIPMessage_RequestURI req then Ok (st, Inl False)
          else if dc_Realm creds \<noteq> ps_Realm passwd then Ok (st, Inl False)
          else case Nonce_Verify (as_nonces st) (env_now env) (dc_Nonce creds) (dc_NC creds) of (nonces, known, valid) \<Rightarrow>
            if \<not> valid then Ok (st\<lparr>as_nonces := nonces\<rparr>, Inl known)
            else
              let (ha1, userExists) = (case ps_HA1 passwd (dc_Username creds) of
                     Some ha1 \<Rightarrow> (ha1, True) | None \<Rightarrow> (replicate 64 (CHR ''0''), False))
              in if \<not> VerifyDigest H creds ha1 (ap_method ap) \<or> \<not> userExists
                 then Ok (st\<lparr>as_nonces := nonces\<rparr>, Inl False)
                 else Ok (st\<lparr>as_nonces := nonces\<rparr>, Inr creds))"

definition VerifyDigestRequest ::
  "unicode_tables \<Rightarrow> hashes \<Rightarrow> environment \<Rightarrow> PasswordStore \<Rightarrow> auth_params \<Rightarrow> SIPMessage \<Rightarrow> tx_info \<Rightarrow> auth_state
   \<Rightarrow> ('e, auth_state \<times> SIPMessage list \<times> DigestCredentials option) go" where
  "VerifyDigestRequest uni H env passwd ap req tx st =
     and_then (SIPHeaders_GetFirst (msg_Headers req) (ap_authHeaderKey ap)) (\<lambda>authHeader.
     if authHeader = [] then
       (let (nonces, nonce) = NewNonce (as_nonces st) (env_now env) (env_rnd env)
        in Ok (st\<lparr>as_nonces := nonces\<rparr>, [challenge_response passwd ap req False nonce], None))
     else and_then (SIPHeaders_GetFirst (msg_Headers req) ''Call-ID'') (\<lambda>callID.
       let key = AuthAttemptKey tx callID in
       and_then (verify_credentials uni H env passwd ap req authHeader st) (\<lambda>(st, outcome).
         case outcome of
           Inl stale \<Rightarrow> (let (st, out) = sendAuthFailureResponse env passwd ap req key stale st in Ok (st, out, None))
         | Inr creds \<Rightarrow> Ok (st, [], Some creds))))"

text \<open>The header a client answers a challenge with, as \<^verbatim>\<open>buildDigestAuthRequest\<close> writes it.\<close>

definition digest_answer ::
  "string \<Rightarrow> realm \<Rightarrow> nonce \<Rightarrow> uri \<Rightarrow> hexdigest \<Rightarrow> algorithm \<Rightarrow> string \<Rightarrow> string \<Rightarrow> string \<Rightarrow> string" where
  "digest_answer username realm nonce uri digestResponse algorithm cnonce nc qop =
     ''Digest username='' @ dq @ username @ dq @ '', realm='' @ dq @ realm @ dq @ '', nonce='' @ dq @ nonce @ dq
     @ '', uri='' @ dq @ uri @ dq @ '', response='' @ dq @ digestResponse @ dq @ '', algorithm='' @ algorithm
     @ '', cnonce='' @ dq @ cnonce @ dq @ '', nc='' @ nc @ '', qop='' @ qop"



section \<open>Sweeping\<close>

interpretation nonce_store: expiring_store
  "\<lambda>nm. fmlookup (nm_entries nm)" Nonce_Sweep ne_expires "\<lambda>now t. \<not> now > t"
  by unfold_locales (auto simp: Nonce_Sweep_def fmlookup_keep_live split: option.splits)

interpretation attempt_store: expiring_store
  "\<lambda>at. fmlookup (at_entries at)" Attempts_Sweep ae_expires "\<lambda>now t. \<not> now > t"
  by unfold_locales (auto simp: Attempts_Sweep_def fmlookup_keep_live split: option.splits)

text \<open>The third component of \<^verbatim>\<open>Verify\<close>'s result, whether the nonce count is accepted.\<close>

lemma Nonce_Verify_valid:
  "snd (snd (Nonce_Verify nm now nonce nc)) \<longleftrightarrow>
     (\<exists>e. fmlookup (nm_entries nm) nonce = Some e \<and> now \<le> ne_expires e \<and> ne_maxNC e < nc)"
  by (auto simp: Nonce_Verify_def split: option.splits if_splits)

lemma Nonce_Verify_lookup:
  "Nonce_Verify nm now nonce nc = (nm', known, True) \<longleftrightarrow>
     (\<exists>e. fmlookup (nm_entries nm) nonce = Some e \<and> now \<le> ne_expires e \<and> ne_maxNC e < nc \<and> known
        \<and> nm' = nm\<lparr>nm_entries := fmupd nonce (e\<lparr>ne_maxNC := nc\<rparr>) (nm_entries nm)\<rparr>)"
  by (auto simp: Nonce_Verify_def split: option.splits if_splits)

section \<open>Replay protection\<close>

text \<open>
  A history of the nonce store: the calls of any number of requests and sweeps in the order in which they take
  the lock.  \<open>accepted_ncs\<close> lists the pairs of nonce and nonce count that were accepted.
\<close>

datatype nonce_op =
    OpNewNonce int string
  | OpVerify int string u64
  | OpSweep int

fun issued :: "nonce_op list \<Rightarrow> string list" where
  "issued [] = []"
| "issued (OpNewNonce now rnd # ops) = hex_EncodeToString rnd # issued ops"
| "issued (_ # ops) = issued ops"

fun accepted_ncs :: "NonceManager \<Rightarrow> nonce_op list \<Rightarrow> (string \<times> u64) list" where
  "accepted_ncs nm [] = []"
| "accepted_ncs nm (OpNewNonce now rnd # ops) = accepted_ncs (fst (NewNonce nm now rnd)) ops"
| "accepted_ncs nm (OpSweep now # ops) = accepted_ncs (Nonce_Sweep nm now) ops"
| "accepted_ncs nm (OpVerify now nonce nc # ops) = (case Nonce_Verify nm now nonce nc of
     (nm', _, valid) \<Rightarrow> (if valid then [(nonce, nc)] else []) @ accepted_ncs nm' ops)"

definition ncs_of :: "string \<Rightarrow> (string \<times> u64) list \<Rightarrow> u64 list" where
  "ncs_of nonce acc = map snd (filter (\<lambda>p. fst p = nonce) acc)"

lemma ncs_of_simps [simp]:
  "ncs_of n [] = []"
  "ncs_of n ((m, nc) # acc) = (if m = n then nc # ncs_of n acc else ncs_of n acc)"
  by (simp_all add: ncs_of_def)

text \<open>What can still be accepted for a nonce: only larger counts, and nothing once its entry is gone.\<close>

definition ahead :: "NonceManager \<Rightarrow> nonce_op list \<Rightarrow> string \<Rightarrow> u64 list \<Rightarrow> bool" where
  "ahead nm ops n ncs \<longleftrightarrow> sorted_wrt (<) ncs
     \<and> (case fmlookup (nm_entries nm) n of
          Some e \<Rightarrow> \<forall>nc\<in>set ncs. ne_maxNC e < nc
        | None \<Rightarrow> n \<in> set (issued ops) \<or> ncs = [])"

lemma ahead_weaken:
  assumes "ahead nm' ops' n ncs"
    and "fmlookup (nm_entries nm') n = fmlookup (nm_entries nm) n \<or> fmlookup (nm_entries nm') n = None"
    and "fmlookup (nm_entries nm) n \<noteq> None \<Longrightarrow> n \<notin> set (issued ops')"
    and "set (issued ops') \<subseteq> set (issued ops)"
  shows "ahead nm ops n ncs"
  using assms by (auto simp: ahead_def split: option.splits)

lemma accepted_ahead:
  assumes "distinct (issued ops)" and "\<And>m. m \<in> set (issued ops) \<Longrightarrow> fmlookup (nm_entries nm) m = None"
  shows "ahead nm ops n (ncs_of n (accepted_ncs nm ops))"
  using assms
proof (induction ops arbitrary: nm)
  case Nil
  then show ?case by (simp add: ahead_def split: option.splits)
next
  case (Cons op ops)
  show ?case
  proof (cases op)
    case (OpNewNonce now rnd)
    have "ahead (fst (NewNonce nm now rnd)) ops n (ncs_of n (accepted_ncs (fst (NewNonce nm now rnd)) ops))"
      using Cons.prems OpNewNonce by (intro Cons.IH) (auto simp: NewNonce_def Let_def)
    then show ?thesis
      using Cons.prems(2) [of n] OpNewNonce by (auto simp: ahead_def NewNonce_def Let_def split: option.splits if_splits)
  next
    case (OpSweep now)
    have "ahead (Nonce_Sweep nm now) ops n (ncs_of n (accepted_ncs (Nonce_Sweep nm now) ops))"
      using Cons.prems OpSweep by (intro Cons.IH) (auto simp: nonce_store.lookup_sweep)
    then have "ahead nm (op # ops) n (ncs_of n (accepted_ncs (Nonce_Sweep nm now) ops))"
      by (rule ahead_weaken) (use Cons.prems OpSweep in \<open>auto simp: nonce_store.lookup_sweep split: option.splits\<close>)
    then show ?thesis using OpSweep by simp
  next
    case (OpVerify now m nc)
    obtain nm' known valid where v: "Nonce_Verify nm now m nc = (nm', known, valid)"
      by (cases "Nonce_Verify nm now m nc") auto
    have lk: "fmlookup (nm_entries nm) k = None \<Longrightarrow> fmlookup (nm_entries nm') k = None" for k
      using v by (auto simp: Nonce_Verify_def split: option.splits if_splits)
    have IH: "ahead nm' ops n (ncs_of n (accepted_ncs nm' ops))"
      using Cons.prems OpVerify lk by (intro Cons.IH) auto
    show ?thesis
    proof (cases valid)
      case False
      have "ahead nm (op # ops) n (ncs_of n (accepted_ncs nm' ops))"
        using IH by (rule ahead_weaken)
          (use v False Cons.prems OpVerify in \<open>auto simp: Nonce_Verify_def split: option.splits if_splits\<close>)
      then show ?thesis using OpVerify v False by simp
    next
      case True
      with v obtain e where e: "fmlookup (nm_entries nm) m = Some e" "ne_maxNC e < nc"
        "nm' = nm\<lparr>nm_entries := fmupd m (e\<lparr>ne_maxNC := nc\<rparr>) (nm_entries nm)\<rparr>"
        by (auto simp: Nonce_Verify_lookup)
      show ?thesis
      proof (cases "m = n")
        case True
        then show ?thesis using IH e OpVerify v \<open>valid\<close> by (auto simp: ahead_def)
      next
        case False
        then show ?thesis using IH e OpVerify v \<open>valid\<close>
            by (cases "fmlookup (nm_entries nm) n") (simp_all add: ahead_def)
      qed
    qed
  qed
qed

lemma distinct_accepted: "(\<And>n. sorted_wrt (<) (ncs_of n acc)) \<Longrightarrow> distinct acc"
proof (induction acc)
  case (Cons p acc)
  have "sorted_wrt (<) (ncs_of n acc)" for n
    using Cons.prems [of n] by (cases p) (auto split: if_splits)
  moreover have "p \<notin> set acc"
  proof
    assume "p \<in> set acc"
    then have "snd p \<in> set (ncs_of (fst p) acc)" by (force simp: ncs_of_def)
    then show False using Cons.prems [of "fst p"] by (cases p) auto
  qed
  ultimately show ?case using Cons.IH by simp
qed simp

text \<open>
  C6. The nonce count of a nonce only grows: over any interleaving of challenges, checks and sweeps in which the
  random generator does not repeat itself, the counts accepted for one nonce are strictly increasing, so no
  pair of nonce and count is ever accepted twice.
\<close>

theorem nonce_no_replay:
  assumes "distinct (issued ops)"
  shows "sorted_wrt (<) (ncs_of nonce (accepted_ncs (NewNonceManager ttl) ops))
    \<and> distinct (accepted_ncs (NewNonceManager ttl) ops)"
proof -
  have "sorted_wrt (<) (ncs_of n (accepted_ncs (NewNonceManager ttl) ops))" for n
    using accepted_ahead [OF assms, of "NewNonceManager ttl" n] by (simp add: ahead_def NewNonceManager_def)
  then show ?thesis by (simp add: distinct_accepted)
qed

definition sample_nonce_ops :: "nonce_op list" where
  "sample_nonce_ops = [OpNewNonce 0 ''A'', OpVerify 1 ''41'' 1, OpVerify 2 ''41'' 1, OpVerify 3 ''41'' 2,
     OpNewNonce 4 ''B'', OpVerify 5 ''42'' 1, OpSweep 12, OpVerify 12 ''41'' 3, OpVerify 12 ''42'' 7]"

lemma sample_hex: "hex_EncodeToString ''A'' = ''41''" "hex_EncodeToString ''B'' = ''42''"
  by code_simp+

theorem nonce_no_replay_witness:
  "accepted_ncs (NewNonceManager 10) sample_nonce_ops = [(''41'', 1), (''41'', 2), (''42'', 1), (''42'', 7)]
   \<and> sorted_wrt (<) (ncs_of ''42'' (accepted_ncs (NewNonceManager 10) sample_nonce_ops))"
proof -
  have acc: "accepted_ncs (NewNonceManager 10) sample_nonce_ops = [(''41'', 1), (''41'', 2), (''42'', 1), (''42'', 7)]"
    by (simp add: sample_nonce_ops_def sample_hex NewNonceManager_def NewNonce_def Nonce_Verify_def Nonce_Sweep_def
        fmlookup_keep_live Let_def word_le_nat_alt)
  have "distinct (issued sample_nonce_ops)" by (simp add: sample_nonce_ops_def sample_hex)
  from nonce_no_replay [OF this, of "''42''" 10] show ?thesis by (simp only: acc simp_thms)
qed

section \<open>Requests\<close>

lemma challenge_out:
  "fst (NewNonce nm now rnd) = nm\<lparr>nm_entries := fmupd (hex_EncodeToString rnd) \<lparr>ne_expires = now + nm_ttl nm, ne_maxNC = 0\<rparr> (nm_entries nm)\<rparr>"
  "snd (NewNonce nm now rnd) = hex_EncodeToString rnd"
  by (simp_all add: NewNonce_def Let_def)

lemma sendAuthFailureResponse_eq:
  "sendAuthFailureResponse env passwd ap req key stale st =
     (let (tracker, count) = Attempts_Record (as_attempts st) (env_now env) key in
      if count < max 1 (ap_maxAttempts ap) then
        (st\<lparr>as_attempts := tracker, as_nonces := fst (NewNonce (as_nonces st) (env_now env) (env_rnd env))\<rparr>,
         [challenge_response passwd ap req stale (hex_EncodeToString (env_rnd env))])
      else (st\<lparr>as_attempts := Attempts_Reset tracker key\<rparr>, [NewResponse req 403 ''Forbidden'']))"
  by (cases "Attempts_Record (as_attempts st) (env_now env) key")
    (simp add: sendAuthFailureResponse_def NewNonce_def Let_def max_def)

lemma verify_credentials_Inr:
  "verify_credentials uni H env passwd ap req authHeader st = Ok (st', Inr creds) \<longleftrightarrow>
    (\<exists>e ha1. ParseDigest uni authHeader = Ok creds \<and> dc_Username creds \<noteq> []
    \<and> dc_URI creds = SIPMessage_RequestURI req \<and> dc_Realm creds = ps_Realm passwd
    \<and> fmlookup (nm_entries (as_nonces st)) (dc_Nonce creds) = Some e
    \<and> env_now env \<le> ne_expires e \<and> ne_maxNC e < dc_NC creds
    \<and> ps_HA1 passwd (dc_Username creds) = Some ha1 \<and> VerifyDigest H creds ha1 (ap_method ap)
    \<and> st' = st\<lparr>as_nonces := as_nonces st
        \<lparr>nm_entries := fmupd (dc_Nonce creds) (e\<lparr>ne_maxNC := dc_NC creds\<rparr>) (nm_entries (as_nonces st))\<rparr>\<rparr>)"
proof (cases "ParseDigest uni authHeader")
  case (Ok c)
  then show ?thesis
    by (cases "fmlookup (nm_entries (as_nonces st)) (dc_Nonce c)"; cases "ps_HA1 passwd (dc_Username c)")
      (auto simp: verify_credentials_def Nonce_Verify_def not_le not_less)
qed (auto simp: verify_credentials_def)

lemma verify_credentials_attempts:
  "verify_credentials uni H env passwd ap req authHeader st = Ok (st', r) \<Longrightarrow>
     as_attempts st' = as_attempts st \<and> nm_ttl (as_nonces st') = nm_ttl (as_nonces st)"
  by (auto simp: verify_credentials_def Nonce_Verify_def Let_def split: go.splits if_splits option.splits)

text \<open>The three ways in which the check of a request ends.\<close>

lemma VerifyDigestRequest_cases:
  assumes "VerifyDigestRequest uni H env passwd ap req tx st = (Ok (st', out, r) :: ('e, _) go)"
  obtains
    (initial) "SIPHeaders_GetFirst (msg_Headers req) (ap_authHeaderKey ap) = (Ok [] :: ('e, string) go)"
      "out = [challenge_response passwd ap req False (hex_EncodeToString (env_rnd env))]" "r = None"
      "st' = st\<lparr>as_nonces := fst (NewNonce (as_nonces st) (env_now env) (env_rnd env))\<rparr>"
  | (failed) authHeader callID st1 stale where
      "SIPHeaders_GetFirst (msg_Headers req) (ap_authHeaderKey ap) = (Ok authHeader :: ('e, string) go)" "authHeader \<noteq> []"
      "SIPHeaders_GetFirst (msg_Headers req) ''Call-ID'' = (Ok callID :: ('e, string) go)" "r = None"
      "verify_credentials uni H env passwd ap req authHeader st = (Ok (st1, Inl stale) :: ('e, _) go)"
      "sendAuthFailureResponse env passwd ap req (AuthAttemptKey tx callID) stale st1 = (st', out)"
  | (verified) authHeader callID creds where
      "SIPHeaders_GetFirst (msg_Headers req) (ap_authHeaderKey ap) = (Ok authHeader :: ('e, string) go)" "authHeader \<noteq> []"
      "SIPHeaders_GetFirst (msg_Headers req) ''Call-ID'' = (Ok callID :: ('e, string) go)" "r = Some creds"
      "verify_credentials uni H env passwd ap req authHeader st = (Ok (st', Inr creds) :: ('e, _) go)" "out = []"
proof -
  from assms obtain h where h: "SIPHeaders_GetFirst (msg_Headers req) (ap_authHeaderKey ap) = (Ok h :: ('e, string) go)"
    by (auto simp: VerifyDigestRequest_def and_then_eq_Ok)
  show thesis
  proof (cases "h = []")
    case True
    then show thesis using assms h by (intro initial) (auto simp: VerifyDigestRequest_def NewNonce_def Let_def)
  next
    case False
    from assms h False obtain c s1 out1 where
      c: "SIPHeaders_GetFirst (msg_Headers req) ''Call-ID'' = (Ok c :: ('e, string) go)"
      "verify_credentials uni H env passwd ap req h st = (Ok (s1, out1) :: ('e, _) go)"
      by (auto simp: VerifyDigestRequest_def and_then_eq_Ok)
    show thesis
      using assms h False c failed [OF h False c(1)] verified [OF h False c(1)]
      by (cases out1) (auto simp: VerifyDigestRequest_def Let_def split: prod.splits)
  qed
qed

text \<open>
  C14. A request is authenticated only if its header parses to credentials for this Request-URI and this realm, on a
  nonce that was issued, has not expired and was not used with this count or a larger one, and their response
  is the digest of an existing user's secret; nothing is sent and the nonce is marked as used up to this count.
\<close>

theorem VerifyDigestRequest_sound:
  assumes "VerifyDigestRequest uni H env passwd ap req tx st = (Ok (st', out, Some creds) :: ('e, _) go)"
  shows "\<exists>authHeader e ha1.
    SIPHeaders_GetFirst (msg_Headers req) (ap_authHeaderKey ap) = (Ok authHeader :: ('e, string) go)
    \<and> ParseDigest uni authHeader = Ok creds
    \<and> dc_URI creds = SIPMessage_RequestURI req \<and> dc_Realm creds = ps_Realm passwd
    \<and> fmlookup (nm_entries (as_nonces st)) (dc_Nonce creds) = Some e
    \<and> env_now env \<le> ne_expires e \<and> ne_maxNC e < dc_NC creds
    \<and> ps_HA1 passwd (dc_Username creds) = Some ha1
    \<and> dc_Response creds = ComputeDigestResponse H ha1 (dc_Nonce creds)
         (if dc_QOP creds \<noteq> [] then sprintf_08x (dc_NC creds) else []) (dc_CNonce creds) (dc_QOP creds)
         (ap_method ap) (dc_URI creds) (dc_Algorithm creds)
    \<and> out = []
    \<and> nm_entries (as_nonces st') = fmupd (dc_Nonce creds) (e\<lparr>ne_maxNC := dc_NC creds\<rparr>) (nm_entries (as_nonces st))"
  using assms
proof (cases rule: VerifyDigestRequest_cases)
  case (verified authHeader callID creds')
  then show ?thesis by (auto simp: verify_credentials_Inr VerifyDigest_def Let_def)
qed simp_all

text \<open>
  The comment on \<^verbatim>\<open>VerifyDigestRequest\<close> promises that a success resets the failure counter of the session.  The function
  does not: the counters stay as they are, and the two callers reset the counter themselves.
\<close>

lemma VerifyDigestRequest_keeps_counters:
  assumes "VerifyDigestRequest uni H env passwd ap req tx st = (Ok (st', out, Some creds) :: ('e, _) go)"
  shows "as_attempts st' = as_attempts st"
  using assms
proof (cases rule: VerifyDigestRequest_cases)
  case (verified authHeader callID creds')
  then show ?thesis by (auto simp: verify_credentials_Inr Let_def)
qed simp_all


text \<open>
  A request that is not authenticated is answered exactly once: with a challenge for a new nonce, which is then
  stored unused until its lifetime has passed, or, when the failures of its session have reached the limit,
  with 403; the counter of the session is then cleared.
\<close>

theorem VerifyDigestRequest_refuses:
  assumes "VerifyDigestRequest uni H env passwd ap req tx st = (Ok (st', out, None) :: ('e, _) go)"
    and "SIPHeaders_GetFirst (msg_Headers req) ''Call-ID'' = (Ok callID :: ('e, string) go)"
  shows "(\<exists>stale. out = [challenge_response passwd ap req stale (hex_EncodeToString (env_rnd env))]
      \<and> fmlookup (nm_entries (as_nonces st')) (hex_EncodeToString (env_rnd env))
          = Some \<lparr>ne_expires = env_now env + nm_ttl (as_nonces st), ne_maxNC = 0\<rparr>)
    \<or> (out = [NewResponse req 403 ''Forbidden'']
      \<and> fmlookup (at_entries (as_attempts st')) (AuthAttemptKey tx callID) = None
      \<and> max 1 (ap_maxAttempts ap) \<le> snd (Attempts_Record (as_attempts st) (env_now env) (AuthAttemptKey tx callID)))"
  using assms(1)
proof (cases rule: VerifyDigestRequest_cases)
  case initial
  then show ?thesis by (auto simp: challenge_out)
next
  case (failed authHeader callID' st1 stale)
  then show ?thesis using assms(2) verify_credentials_attempts [OF failed(5)]
    by (auto simp: sendAuthFailureResponse_eq challenge_out Attempts_Reset_def not_less
        split: prod.splits if_splits)
qed simp

text \<open>A run of consecutive failures of one session: the answers, with the clock, random bytes and flag of each.\<close>

fun failure_run ::
  "PasswordStore \<Rightarrow> auth_params \<Rightarrow> SIPMessage \<Rightarrow> string \<Rightarrow> (environment \<times> bool) list \<Rightarrow> auth_state \<Rightarrow> SIPMessage list" where
  "failure_run passwd ap req key [] st = []"
| "failure_run passwd ap req key ((env, stale) # fs) st =
     (case sendAuthFailureResponse env passwd ap req key stale st of
        (st', out) \<Rightarrow> out @ failure_run passwd ap req key fs st')"

definition failure_count :: "auth_state \<Rightarrow> string \<Rightarrow> int" where
  "failure_count st key = (case fmlookup (at_entries (as_attempts st)) key of Some e \<Rightarrow> ae_count e | None \<Rightarrow> 0)"

lemma authAttemptEntry_overwrite:
  "(e :: authAttemptEntry)\<lparr>ae_count := n, ae_expires := t\<rparr> = \<lparr>ae_count = n, ae_expires = t\<rparr>"
  by (cases e) simp

lemma failure_step:
  assumes "failure_count st key = int k mod max 1 (ap_maxAttempts ap)"
  shows "\<exists>st'. sendAuthFailureResponse env passwd ap req key stale st = (st',
       [if (int k + 1) mod max 1 (ap_maxAttempts ap) = 0 then NewResponse req 403 ''Forbidden''
        else challenge_response passwd ap req stale (hex_EncodeToString (env_rnd env))])
     \<and> failure_count st' key = int (Suc k) mod max 1 (ap_maxAttempts ap)"
proof -
  let ?m = "max 1 (ap_maxAttempts ap)"
  have m: "0 < ?m" by simp
  have bound: "int k mod ?m + 1 \<le> ?m" "0 \<le> int k mod ?m"
    using pos_mod_bound [OF m, of "int k"] pos_mod_sign [OF m, of "int k"] by linarith+
  have "(int k + 1) mod ?m = (int k mod ?m + 1) mod ?m" by (simp add: mod_add_left_eq)
  then have succ: "(int k + 1) mod ?m = (if int k mod ?m + 1 = ?m then 0 else int k mod ?m + 1)"
    using bound by (simp add: mod_pos_pos_trivial)
  have "int k mod ?m + 1 \<noteq> 0" using bound by linarith
  moreover have rec: "Attempts_Record (as_attempts st) (env_now env) key =
     (as_attempts st\<lparr>at_entries := fmupd key \<lparr>ae_count = int k mod ?m + 1, ae_expires = env_now env + at_ttl (as_attempts st)\<rparr>
        (at_entries (as_attempts st))\<rparr>, int k mod ?m + 1)"
    using assms by (auto simp: Attempts_Record_def failure_count_def Let_def authAttemptEntry_overwrite split: option.splits)
  ultimately show ?thesis using succ bound(1)
    by (auto simp: sendAuthFailureResponse_eq rec failure_count_def Attempts_Reset_def add.commute)
qed

lemma failure_run_nth:
  "failure_count st key = int k mod max 1 (ap_maxAttempts ap) \<Longrightarrow> i < length fs \<Longrightarrow>
   failure_run passwd ap req key fs st ! i =
     (if (int k + int i + 1) mod max 1 (ap_maxAttempts ap) = 0 then NewResponse req 403 ''Forbidden''
      else challenge_response passwd ap req (snd (fs ! i)) (hex_EncodeToString (env_rnd (fst (fs ! i)))))"
proof (induction fs arbitrary: st k i)
  case (Cons f fs)
  obtain env stale where f: "f = (env, stale)" by (cases f)
  from failure_step [OF Cons.prems(1), of env passwd req stale] obtain st' where
    st': "sendAuthFailureResponse env passwd ap req key stale st = (st',
       [if (int k + 1) mod max 1 (ap_maxAttempts ap) = 0 then NewResponse req 403 ''Forbidden''
        else challenge_response passwd ap req stale (hex_EncodeToString (env_rnd env))])"
    "failure_count st' key = int (Suc k) mod max 1 (ap_maxAttempts ap)" by blast
  show ?case
  proof (cases i)
    case 0
    then show ?thesis using st'(1) f by simp
  next
    case (Suc j)
    then show ?thesis using st' f Cons.IH [OF st'(2), of j] Cons.prems(2) by (simp add: add.commute add.left_commute)
  qed
qed simp

text \<open>
  The failure budget of a session: in a run of consecutive failures every \<open>maxAttempts\<close>-th one, and no
  other, is answered with 403; all others get a challenge with a nonce of their own.  The 403 clears the counter, so
  the failure after it is challenged again.
\<close>

theorem auth_failure_budget:
  assumes "fmlookup (at_entries (as_attempts st)) key = None" and "i < length fs"
  shows "failure_run passwd ap req key fs st ! i =
    (if (int i + 1) mod max 1 (ap_maxAttempts ap) = 0 then NewResponse req 403 ''Forbidden''
     else challenge_response passwd ap req (snd (fs ! i)) (hex_EncodeToString (env_rnd (fst (fs ! i)))))"
  using failure_run_nth [of st key 0 ap i fs passwd req] assms by (simp add: failure_count_def)

section \<open>Answering a challenge\<close>

lemma hex_digit_val: "d < 16 \<Longrightarrow> hex_val (hex_digit d) = Some d"
  by (auto simp: hex_val_def hex_digit_def is_digit_def)

lemma hex_digits_val:
  "foldl (\<lambda>n c. 16 * n + the (hex_val c)) 0 (hex_digits n) = n \<and> list_all (\<lambda>c. hex_val c \<noteq> None) (hex_digits n)
   \<and> hex_digits n \<noteq> []"
proof (induction n rule: hex_digits.induct)
  case (1 n)
  show ?case
  proof (cases "n < 16")
    case True
    then have "hex_digits n = [hex_digit n]" by (simp add: hex_digits.simps)
    with True show ?thesis by (simp add: hex_digit_val)
  next
    case False
    then have "hex_digits n = hex_digits (n div 16) @ [hex_digit (n mod 16)]" by (subst hex_digits.simps) simp
    with 1 [OF False] show ?thesis by (simp add: hex_digit_val)
  qed
qed

lemma ParseUint16_sprintf: "ParseUint16_64 (sprintf_08x n) = Some n"
proof -
  have zero: "hex_val (CHR ''0'') = Some 0" by code_simp
  have "foldl (\<lambda>n c. 16 * n + the (hex_val c)) 0 (replicate k (CHR ''0'')) = 0" for k
    by (induction k) (auto simp: zero)
  then show ?thesis using hex_digits_val [of "unat n"] unsigned_less [of n]
    by (auto simp: ParseUint16_64_def sprintf_08x_def Let_def list_all_iff zero)
qed

lemma sprintf_08x_chars: "c \<in> set (sprintf_08x n) \<Longrightarrow> hex_val c \<noteq> None"
proof -
  have "hex_val (CHR ''0'') = Some 0" by code_simp
  then show "c \<in> set (sprintf_08x n) \<Longrightarrow> hex_val c \<noteq> None"
    using hex_digits_val [of "unat n"] by (auto simp: sprintf_08x_def Let_def list_all_iff)
qed

lemma sprintf_08x_ne: "sprintf_08x n \<noteq> []"
  using hex_digits_val [of "unat n"] by (simp add: sprintf_08x_def Let_def)

lemma hex_val_graphic: "hex_val c \<noteq> None \<Longrightarrow> graphic c \<and> c \<noteq> CHR '','' \<and> c \<noteq> CHR 0x22"
  by (auto simp: hex_val_def graphic_def is_digit_def split: if_splits)

lemma find_skip: "list_all (\<lambda>x. \<not> P x) ys \<Longrightarrow> P x \<Longrightarrow> find P (ys @ x # zs) = Some x"
  by (induction ys) auto

lemma blank_nth: "5 < length space_encodings" "space_encodings ! 5 = '' ''"
  "list_all (\<lambda>w. w \<noteq> [] \<and> hd w \<noteq> CHR '' '') (take 5 space_encodings)"
  by (simp_all add: space_encodings_def char_of_def bit_Suc_0_iff)

lemma find_blank: "find (\<lambda>w. w \<noteq> [] \<and> HasPrefix (CHR '' '' # s) w) space_encodings = Some '' ''"
proof -
  have "list_all (\<lambda>w. \<not> (w \<noteq> [] \<and> HasPrefix (CHR '' '' # s) w)) (take 5 space_encodings)"
    using blank_nth(3) by (rule list.pred_mono_strong) (auto simp: HasPrefix_def take_Cons', metis list.sel(1))
  from find_skip [OF this, of "'' ''" "drop (Suc 5) space_encodings"] show ?thesis
    using id_take_nth_drop [OF blank_nth(1)] by (simp add: blank_nth(2) HasPrefix_def)
qed

lemma TrimSpace_blank:
  assumes "s \<noteq> []" and "graphic (hd s)" and "graphic (last s)"
  shows "TrimSpace (CHR '' '' # s) = s"
proof -
  have "trim_front space_encodings (CHR '' '' # s) = trim_front space_encodings s"
    by (subst trim_front.simps) (simp add: find_blank)
  then have "TrimSpace (CHR '' '' # s) = TrimSpace s" by (simp add: TrimSpace_def)
  then show ?thesis using assms by (simp add: TrimSpace_id)
qed

text \<open>One field of the header, after the optional blank that follows the comma.\<close>

definition padded :: "string \<Rightarrow> string \<Rightarrow> bool" where
  "padded s raw \<longleftrightarrow> raw = s \<or> raw = CHR '' '' # s"

lemma TrimSpace_padded:
  "padded s raw \<Longrightarrow> s \<noteq> [] \<Longrightarrow> graphic (hd s) \<Longrightarrow> graphic (last s) \<Longrightarrow> TrimSpace raw = s"
  by (auto simp: padded_def TrimSpace_blank TrimSpace_id)

definition key_token :: "string \<Rightarrow> bool" where
  "key_token key \<longleftrightarrow> key \<noteq> [] \<and> graphic (hd key) \<and> graphic (last key) \<and> CHR ''='' \<notin> set key"

lemma parse_field:
  assumes "padded (key @ CHR ''='' # body) raw" and "key_token key" and "body \<noteq> []" "graphic (hd body)" "graphic (last body)"
    and "digest_value body = Ok (v, rest)"
  shows "parse_digest_fields uni raw creds =
    and_then (set_digest_field uni key v creds) (parse_digest_fields uni rest)"
proof -
  have "raw \<noteq> []" using assms(1) by (auto simp: padded_def)
  moreover have "TrimSpace raw = key @ CHR ''='' # body"
    using assms by (intro TrimSpace_padded) (auto simp: key_token_def)
  moreover have "TrimSpace body = body" "TrimSpace key = key"
    using assms by (auto simp: key_token_def TrimSpace_id)
  ultimately show ?thesis using assms(2, 6)
    by (subst parse_digest_fields.simps)
      (cases "set_digest_field uni key v creds"; simp add: Cut_byte key_token_def)
qed

lemma digest_value_quoted:
  "CHR 0x22 \<notin> set v \<Longrightarrow> digest_value (dq @ v @ dq @ CHR '','' # rest) = Ok (v, rest)"
  by (simp add: digest_value_def dq_def HasPrefix_def IndexByte_eq Index_byte Let_def drop_Cons')

lemma digest_value_token:
  "v \<noteq> [] \<Longrightarrow> CHR '','' \<notin> set v \<Longrightarrow> graphic (hd v) \<Longrightarrow> graphic (last v) \<Longrightarrow> hd v \<noteq> CHR 0x22 \<Longrightarrow>
   digest_value (v @ CHR '','' # rest) = Ok (v, rest)"
  by (cases v) (auto simp: digest_value_def HasPrefix_def IndexByte_eq Index_byte TrimSpace_id)

lemma digest_value_last:
  "v \<noteq> [] \<Longrightarrow> CHR '','' \<notin> set v \<Longrightarrow> graphic (hd v) \<Longrightarrow> graphic (last v) \<Longrightarrow> hd v \<noteq> CHR 0x22 \<Longrightarrow>
   digest_value v = Ok (v, [])"
  by (cases v) (auto simp: digest_value_def HasPrefix_def TrimSpace_id split: option.splits dest!: iffD2 [OF IndexByte_None])

lemma set_digest_field_keys:
  "set_digest_field uni ''username'' v c = Ok (c\<lparr>dc_Username := v\<rparr>)"
  "set_digest_field uni ''realm'' v c = Ok (c\<lparr>dc_Realm := v\<rparr>)"
  "set_digest_field uni ''nonce'' v c = Ok (c\<lparr>dc_Nonce := v\<rparr>)"
  "set_digest_field uni ''uri'' v c = Ok (c\<lparr>dc_URI := v\<rparr>)"
  "set_digest_field uni ''response'' v c = Ok (c\<lparr>dc_Response := v\<rparr>)"
  "set_digest_field uni ''algorithm'' v c = Ok (c\<lparr>dc_Algorithm := ToUpper (uni_upper uni) v\<rparr>)"
  "set_digest_field uni ''cnonce'' v c = Ok (c\<lparr>dc_CNonce := v\<rparr>)"
  "set_digest_field uni ''nc'' (sprintf_08x n) c = Ok (c\<lparr>dc_NC := n\<rparr>)"
  "set_digest_field uni ''qop'' v c = Ok (c\<lparr>dc_QOP := v\<rparr>)"
  by (simp_all add: set_digest_field_def ToLower_def ascii_string_def lower_char_def ParseUint16_sprintf)



definition no_dq :: "string \<Rightarrow> bool" where "no_dq s \<longleftrightarrow> CHR 0x22 \<notin> set s"

definition answer_credentials ::
  "string \<Rightarrow> realm \<Rightarrow> nonce \<Rightarrow> uri \<Rightarrow> hexdigest \<Rightarrow> algorithm \<Rightarrow> string \<Rightarrow> u64 \<Rightarrow> DigestCredentials" where
  "answer_credentials username realm nonce uri digestResponse algorithm cnonce nc =
     \<lparr>dc_Username = username, dc_Realm = realm, dc_Nonce = nonce, dc_URI = uri, dc_Response = digestResponse,
      dc_Algorithm = algorithm, dc_CNonce = cnonce, dc_QOP = ''auth'', dc_NC = nc, dc_Opaque = ''''\<rparr>"

lemma no_dq_hex: "no_dq (hex_EncodeToString s)"
proof -
  have nd: "CHR 0x22 \<noteq> hex_digit d" if "d < 16" for d
    using hex_val_graphic [of "hex_digit d"] that by (auto simp: hex_digit_val)
  have "code c div 16 < 16" for c :: char using nat_of_char_less_256 [of c] by (simp add: less_mult_imp_div_less)
  then show ?thesis by (simp add: no_dq_def hex_EncodeToString_def nd)
qed

lemma hex_ne: "s \<noteq> [] \<Longrightarrow> hex_EncodeToString s \<noteq> []"
  by (cases s) (auto simp: hex_EncodeToString_def)

lemma key_tokens:
  "key_token ''username''" "key_token ''realm''" "key_token ''nonce''" "key_token ''uri''" "key_token ''response''"
  "key_token ''algorithm''" "key_token ''cnonce''" "key_token ''nc''" "key_token ''qop''"
  by (simp_all add: key_token_def graphic_def)

definition supported_algorithm :: "string \<Rightarrow> bool" where
  "supported_algorithm a \<longleftrightarrow> a = ''MD5'' \<or> a = ''SHA-256'' \<or> a = ''SHA-512-256''"

lemma supported_algorithm_token:
  "supported_algorithm a \<Longrightarrow> a \<noteq> [] \<and> CHR '','' \<notin> set a \<and> graphic (hd a) \<and> graphic (last a) \<and> hd a \<noteq> CHR 0x22
     \<and> ToUpper tbl a = a"
  by (auto simp: supported_algorithm_def graphic_def ToUpper_def ascii_string_def upper_char_def)

lemma parse_quoted_field:
  assumes "padded (key @ CHR ''='' # dq @ v @ dq @ CHR '','' # rest) raw" and "key_token key" and "no_dq v"
    and "rest \<noteq> []" "graphic (last rest)"
  shows "parse_digest_fields uni raw creds = and_then (set_digest_field uni key v creds) (parse_digest_fields uni rest)"
  using assms by (intro parse_field [of key "dq @ v @ dq @ CHR '','' # rest"])
    (simp_all add: digest_value_quoted no_dq_def, simp_all add: dq_def graphic_def)

lemma parse_token_field:
  assumes "padded (key @ CHR ''='' # v @ CHR '','' # rest) raw" and "key_token key"
    and "v \<noteq> []" "CHR '','' \<notin> set v" "graphic (hd v)" "graphic (last v)" "hd v \<noteq> CHR 0x22"
    and "rest \<noteq> []" "graphic (last rest)"
  shows "parse_digest_fields uni raw creds = and_then (set_digest_field uni key v creds) (parse_digest_fields uni rest)"
  using assms by (intro parse_field [of key "v @ CHR '','' # rest"]) (simp_all add: digest_value_token)

lemma ParseDigest_answer:
  assumes "no_dq username" "no_dq realm" "no_dq nonce" "no_dq uri" "no_dq resp" "no_dq cnonce"
    and "username \<noteq> []" "realm \<noteq> []" "nonce \<noteq> []" "uri \<noteq> []" "resp \<noteq> []" and "supported_algorithm algorithm"
  shows "ParseDigest uni (digest_answer username realm nonce uri resp algorithm cnonce (sprintf_08x nc) ''auth'')
    = Ok (answer_credentials username realm nonce uri resp algorithm cnonce nc)"
proof -
  let ?nc = "sprintf_08x nc"
  define f9 where "f9 = '' qop=auth''"
  define f8 where "f8 = '' nc='' @ ?nc @ CHR '','' # f9"
  define f7 where "f7 = '' cnonce='' @ dq @ cnonce @ dq @ CHR '','' # f8"
  define f6 where "f6 = '' algorithm='' @ algorithm @ CHR '','' # f7"
  define f5 where "f5 = '' response='' @ dq @ resp @ dq @ CHR '','' # f6"
  define f4 where "f4 = '' uri='' @ dq @ uri @ dq @ CHR '','' # f5"
  define f3 where "f3 = '' nonce='' @ dq @ nonce @ dq @ CHR '','' # f4"
  define f2 where "f2 = '' realm='' @ dq @ realm @ dq @ CHR '','' # f3"
  define f1 where "f1 = ''username='' @ dq @ username @ dq @ CHR '','' # f2"
  have ends: "f9 \<noteq> [] \<and> graphic (last f9)" "f8 \<noteq> [] \<and> graphic (last f8)" "f7 \<noteq> [] \<and> graphic (last f7)"
    "f6 \<noteq> [] \<and> graphic (last f6)" "f5 \<noteq> [] \<and> graphic (last f5)" "f4 \<noteq> [] \<and> graphic (last f4)"
    "f3 \<noteq> [] \<and> graphic (last f3)" "f2 \<noteq> [] \<and> graphic (last f2)" "f1 \<noteq> [] \<and> graphic (last f1)"
    by (simp_all add: f9_def f8_def f7_def f6_def f5_def f4_def f3_def f2_def f1_def graphic_def)
  have nc: "?nc \<noteq> [] \<and> CHR '','' \<notin> set ?nc \<and> graphic (hd ?nc) \<and> graphic (last ?nc) \<and> hd ?nc \<noteq> CHR 0x22"
    using hex_val_graphic [OF sprintf_08x_chars, of _ nc] sprintf_08x_ne [of nc]
      hd_in_set [OF sprintf_08x_ne [of nc]] last_in_set [OF sprintf_08x_ne [of nc]] by blast
  note parse = parse_quoted_field parse_token_field
  have p9: "parse_digest_fields uni f9 c = Ok (c\<lparr>dc_QOP := ''auth''\<rparr>)" for c
    by (subst parse_field [of "''qop''" "''auth''" _ "''auth''" "[]"])
      (simp_all add: f9_def padded_def key_tokens digest_value_last graphic_def set_digest_field_keys
        parse_digest_fields.simps)
  have p8: "parse_digest_fields uni f8 c = parse_digest_fields uni f9 (c\<lparr>dc_NC := nc\<rparr>)" for c
    using nc ends by (subst parse_token_field [of "''nc''" ?nc f9]) (simp_all add: f8_def padded_def key_tokens set_digest_field_keys)
  have p7: "parse_digest_fields uni f7 c = parse_digest_fields uni f8 (c\<lparr>dc_CNonce := cnonce\<rparr>)" for c
    using assms ends by (subst parse_quoted_field [of "''cnonce''" cnonce f8]) (simp_all add: f7_def padded_def key_tokens set_digest_field_keys)
  have p6: "parse_digest_fields uni f6 c = parse_digest_fields uni f7 (c\<lparr>dc_Algorithm := algorithm\<rparr>)" for c
    using supported_algorithm_token [OF assms(12)] ends
    by (subst parse_token_field [of "''algorithm''" algorithm f7]) (simp_all add: f6_def padded_def key_tokens set_digest_field_keys)
  have p5: "parse_digest_fields uni f5 c = parse_digest_fields uni f6 (c\<lparr>dc_Response := resp\<rparr>)" for c
    using assms ends by (subst parse_quoted_field [of "''response''" resp f6]) (simp_all add: f5_def padded_def key_tokens set_digest_field_keys)
  have p4: "parse_digest_fields uni f4 c = parse_digest_fields uni f5 (c\<lparr>dc_URI := uri\<rparr>)" for c
    using assms ends by (subst parse_quoted_field [of "''uri''" uri f5]) (simp_all add: f4_def padded_def key_tokens set_digest_field_keys)
  have p3: "parse_digest_fields uni f3 c = parse_digest_fields uni f4 (c\<lparr>dc_Nonce := nonce\<rparr>)" for c
    using assms ends by (subst parse_quoted_field [of "''nonce''" nonce f4]) (simp_all add: f3_def padded_def key_tokens set_digest_field_keys)
  have p2: "parse_digest_fields uni f2 c = parse_digest_fields uni f3 (c\<lparr>dc_Realm := realm\<rparr>)" for c
    using assms ends by (subst parse_quoted_field [of "''realm''" realm f3]) (simp_all add: f2_def padded_def key_tokens set_digest_field_keys)
  have p1: "parse_digest_fields uni f1 c = parse_digest_fields uni f2 (c\<lparr>dc_Username := username\<rparr>)" for c
    using assms ends by (subst parse_quoted_field [of "''username''" username f2]) (simp_all add: f1_def padded_def key_tokens set_digest_field_keys)
  have eq: "digest_answer username realm nonce uri resp algorithm cnonce ?nc ''auth'' = ''Digest '' @ f1"
    by (simp add: digest_answer_def f9_def f8_def f7_def f6_def f5_def f4_def f3_def f2_def f1_def)
  have f1: "hd f1 = CHR ''u''" by (simp add: f1_def)
  have "TrimSpace (''Digest '' @ f1) = ''Digest '' @ f1" using ends by (intro TrimSpace_id) (auto simp: graphic_def)
  moreover have "TrimSpace (CHR '' '' # f1) = f1" using ends f1 by (intro TrimSpace_blank) (auto simp: graphic_def)
  ultimately show ?thesis using assms ends
    by (simp add: ParseDigest_def eq p1 p2 p3 p4 p5 p6 p7 p8 p9 answer_credentials_def zero_credentials_def)
qed


definition used_nonce :: "auth_state \<Rightarrow> string \<Rightarrow> u64 \<Rightarrow> nonceEntry \<Rightarrow> auth_state" where
  "used_nonce st nonce nc e =
     st\<lparr>as_nonces := as_nonces st\<lparr>nm_entries := fmupd nonce (e\<lparr>ne_maxNC := nc\<rparr>) (nm_entries (as_nonces st))\<rparr>\<rparr>"

lemma verify_answer:
  assumes "ps_HA1 passwd username = Some ha1"
    and "fmlookup (nm_entries (as_nonces st)) nonce = Some e" "env_now env \<le> ne_expires e" "ne_maxNC e < nc"
    and "resp = ComputeDigestResponse H ha1 nonce (sprintf_08x nc) cnonce ''auth'' (ap_method ap)
        (SIPMessage_RequestURI req) algorithm"
    and "no_dq username" "no_dq (ps_Realm passwd)" "no_dq nonce" "no_dq (SIPMessage_RequestURI req)" "no_dq cnonce"
    and "username \<noteq> []" "ps_Realm passwd \<noteq> []" "nonce \<noteq> []" "SIPMessage_RequestURI req \<noteq> []"
    and "supported_algorithm algorithm" and "\<And>data. hash_bytes H algorithm data \<noteq> []"
  shows "verify_credentials uni H env passwd ap req (digest_answer username (ps_Realm passwd) nonce
      (SIPMessage_RequestURI req) resp algorithm cnonce (sprintf_08x nc) ''auth'') st
    = Ok (used_nonce st nonce nc e,
        Inr (answer_credentials username (ps_Realm passwd) nonce (SIPMessage_RequestURI req) resp algorithm cnonce nc))"
proof -
  let ?creds = "answer_credentials username (ps_Realm passwd) nonce (SIPMessage_RequestURI req) resp algorithm cnonce nc"
  have resp: "no_dq resp" "resp \<noteq> []"
    using assms(5,16) by (simp_all add: ComputeDigestResponse_def Let_def hexHash_def no_dq_hex hex_ne)
  have p: "ParseDigest uni (digest_answer username (ps_Realm passwd) nonce (SIPMessage_RequestURI req) resp algorithm
      cnonce (sprintf_08x nc) ''auth'') = Ok ?creds"
    using assms resp by (intro ParseDigest_answer) auto
  have "VerifyDigest H ?creds ha1 (ap_method ap)" using assms(5) by (simp add: VerifyDigest_def answer_credentials_def)
  with p assms show ?thesis by (auto simp: verify_credentials_Inr answer_credentials_def used_nonce_def)
qed

lemma VerifyDigestRequest_verified:
  assumes "SIPHeaders_GetFirst (msg_Headers req) ''Call-ID'' = (Ok callID :: ('e, string) go)"
    and "SIPHeaders_GetFirst (msg_Headers req) (ap_authHeaderKey ap) = (Ok hdr :: ('e, string) go)" "hdr \<noteq> []"
    and "verify_credentials uni H env passwd ap req hdr st = (Ok (st', Inr creds) :: ('e, _) go)"
  shows "VerifyDigestRequest uni H env passwd ap req tx st = (Ok (st', [], Some creds) :: ('e, _) go)"
  using assms by (simp add: VerifyDigestRequest_def Let_def)

lemma digest_answer_ne: "digest_answer username realm nonce uri resp algorithm cnonce nc qop \<noteq> []"
  by (simp add: digest_answer_def)

text \<open>
  C33. A client that knows a user's secret is let in: the header it builds from a stored, unexpired nonce with a fresh
  nonce count is parsed, its digest agrees with the one the server computes, and the request is accepted as
  that user's; the nonce is then used up to that count.
\<close>

theorem VerifyDigestRequest_complete:
  assumes "SIPHeaders_GetFirst (msg_Headers req) ''Call-ID'' = (Ok callID :: ('e, string) go)"
    and "ps_HA1 passwd username = Some ha1"
    and "fmlookup (nm_entries (as_nonces st)) nonce = Some e" "env_now env \<le> ne_expires e" "ne_maxNC e < nc"
    and "resp = ComputeDigestResponse H ha1 nonce (sprintf_08x nc) cnonce ''auth'' (ap_method ap)
        (SIPMessage_RequestURI req) algorithm"
    and "SIPHeaders_GetFirst (msg_Headers req) (ap_authHeaderKey ap) = (Ok (digest_answer username (ps_Realm passwd) nonce
        (SIPMessage_RequestURI req) resp algorithm cnonce (sprintf_08x nc) ''auth'') :: ('e, string) go)"
    and "no_dq username" "no_dq (ps_Realm passwd)" "no_dq nonce" "no_dq (SIPMessage_RequestURI req)" "no_dq cnonce"
    and "username \<noteq> []" "ps_Realm passwd \<noteq> []" "nonce \<noteq> []" "SIPMessage_RequestURI req \<noteq> []"
    and "supported_algorithm algorithm" and "\<And>data. hash_bytes H algorithm data \<noteq> []"
  shows "VerifyDigestRequest uni H env passwd ap req tx st = (Ok (used_nonce st nonce nc e, [], Some
    (answer_credentials username (ps_Realm passwd) nonce (SIPMessage_RequestURI req) resp algorithm cnonce nc)) :: ('e, _) go)"
  using assms by (intro VerifyDigestRequest_verified [OF assms(1, 7) digest_answer_ne] verify_answer)

section \<open>A worked session\<close>

text \<open>A registrar with one user, a REGISTER request and its answer to the challenge for nonce \<open>41\<close>.\<close>

definition sample_uni :: unicode_tables where "sample_uni = \<lparr>uni_lower = id, uni_upper = id\<rparr>"

definition sample_hashes :: hashes where
  "sample_hashes = \<lparr>md5_Sum = (\<lambda>_. ''m''), sha256_Sum256 = (\<lambda>_. ''s''), sha512_Sum512_256 = (\<lambda>_. ''t'')\<rparr>"

definition sample_passwd :: PasswordStore where
  "sample_passwd = \<lparr>ps_Realm = ''r'', ps_Algorithm = ''MD5'', ps_HA1 = (\<lambda>u. if u = ''u'' then Some ''h'' else None),
     ps_AORs = (\<lambda>u. if u = ''u'' then Some [''sip:u@d''] else None)\<rparr>"

definition sample_ap :: auth_params where
  "sample_ap = \<lparr>ap_authHeaderKey = ''Authorization'', ap_respChallengeKey = ''WWW-Authenticate'',
     ap_challengeStatus = 401, ap_statusText = ''Unauthorized'', ap_method = ''REGISTER'', ap_maxAttempts = 3\<rparr>"

definition sample_tx :: tx_info where
  "sample_tx = \<lparr>tx_Target = \<lparr>tgt_Addr = Some (UDPAddr ''192.0.2.1'' 5060), tgt_Conn = None, tgt_FlowID = []\<rparr>,
     tx_Transport = Some UDPTransport\<rparr>"

definition sample_auth_state :: auth_state where
  "sample_auth_state = \<lparr>as_nonces = \<lparr>nm_entries = fmupd ''41'' \<lparr>ne_expires = 10, ne_maxNC = 0\<rparr> fmempty, nm_ttl = 10\<rparr>,
     as_attempts = NewAuthAttemptTracker 10\<rparr>"

definition sample_env :: environment where "sample_env = \<lparr>env_now = 5, env_rnd = ''B''\<rparr>"

definition sample_register :: SIPMessage where
  "sample_register = (NewRequest ''REGISTER'' ''sip:d'')\<lparr>msg_Headers := fmupd ''Call-ID'' [''c''] fmempty\<rparr>"

definition sample_response :: string where
  "sample_response = ComputeDigestResponse sample_hashes ''h'' ''41'' (sprintf_08x 1) ''x'' ''auth'' ''REGISTER'' ''sip:d'' ''MD5''"

definition sample_answer :: string where
  "sample_answer = digest_answer ''u'' ''r'' ''41'' ''sip:d'' sample_response ''MD5'' ''x'' (sprintf_08x 1) ''auth''"

definition sample_register_auth :: SIPMessage where
  "sample_register_auth = sample_register\<lparr>msg_Headers := fmupd ''Authorization'' [sample_answer] (msg_Headers sample_register)\<rparr>"

lemma sample_keys:
  "canonicalHeaderKey ''Authorization'' = ''Authorization''" "canonicalHeaderKey ''Call-ID'' = ''Call-ID''"
  by code_simp+

lemma sample_headers:
  "SIPHeaders_GetFirst (msg_Headers sample_register) ''Authorization'' = Ok []"
  "SIPHeaders_GetFirst (msg_Headers sample_register) ''Call-ID'' = Ok ''c''"
  "SIPHeaders_GetFirst (msg_Headers sample_register_auth) ''Authorization'' = Ok sample_answer"
  "SIPHeaders_GetFirst (msg_Headers sample_register_auth) ''Call-ID'' = Ok ''c''"
  "SIPMessage_RequestURI sample_register_auth = ''sip:d''"
  by (simp_all add: SIPHeaders_GetFirst_def sample_keys sample_register_def sample_register_auth_def index_def
      NewRequest_def SIPMessage_RequestURI_def)

lemma sample_hash_ne: "hash_bytes sample_hashes alg data \<noteq> []"
  by (simp add: hash_bytes_def sample_hashes_def)

definition sample_credentials :: DigestCredentials where
  "sample_credentials = answer_credentials ''u'' ''r'' ''41'' ''sip:d'' sample_response ''MD5'' ''x'' 1"

lemmas sample_defs = sample_passwd_def sample_auth_state_def sample_env_def sample_ap_def no_dq_def
  supported_algorithm_def sample_hash_ne sample_headers

theorem VerifyDigestRequest_complete_witness:
  "VerifyDigestRequest sample_uni sample_hashes sample_env sample_passwd sample_ap sample_register_auth
      sample_tx sample_auth_state = (Ok (used_nonce sample_auth_state ''41'' 1 \<lparr>ne_expires = 10, ne_maxNC = 0\<rparr>, [],
        Some sample_credentials) :: (unit, _) go)"
  using VerifyDigestRequest_complete [of sample_register_auth "''c''" sample_passwd "''u''" "''h''" sample_auth_state
      "''41''" "\<lparr>ne_expires = 10, ne_maxNC = 0\<rparr>" sample_env 1 sample_response sample_hashes "''x''" sample_ap "''MD5''"]
  by (simp add: sample_defs sample_answer_def sample_response_def sample_credentials_def)

lemma sample_verified:
  "VerifyDigestRequest sample_uni sample_hashes sample_env sample_passwd sample_ap sample_register_auth
      sample_tx sample_auth_state = (Ok (used_nonce sample_auth_state ''41'' 1 \<lparr>ne_expires = 10, ne_maxNC = 0\<rparr>, [],
        Some sample_credentials) :: (unit, _) go)"
proof -
  have "verify_credentials sample_uni sample_hashes sample_env sample_passwd sample_ap sample_register_auth sample_answer
      sample_auth_state = (Ok (used_nonce sample_auth_state ''41'' 1 \<lparr>ne_expires = 10, ne_maxNC = 0\<rparr>,
        Inr sample_credentials) :: (unit, _) go)"
    using verify_answer [of sample_passwd "''u''" "''h''" sample_auth_state "''41''" "\<lparr>ne_expires = 10, ne_maxNC = 0\<rparr>"
      sample_env 1 sample_response sample_hashes "''x''" sample_ap sample_register_auth "''MD5''"]
    by (simp add: sample_defs sample_answer_def sample_response_def sample_credentials_def)
  then show ?thesis
    by (intro VerifyDigestRequest_verified) (simp_all add: sample_defs sample_answer_def digest_answer_ne)
qed

lemma sample_challenged:
  "VerifyDigestRequest sample_uni sample_hashes sample_env sample_passwd sample_ap sample_register sample_tx
      sample_auth_state = (Ok (sample_auth_state\<lparr>as_nonces := fst (NewNonce (as_nonces sample_auth_state) 5 ''B'')\<rparr>,
        [challenge_response sample_passwd sample_ap sample_register False (hex_EncodeToString ''B'')], None) :: (unit, _) go)"
  by (simp add: VerifyDigestRequest_def sample_headers sample_ap_def sample_env_def NewNonce_def Let_def)

theorem VerifyDigestRequest_sound_witness:
  "\<exists>e ha1. fmlookup (nm_entries (as_nonces sample_auth_state)) (dc_Nonce sample_credentials) = Some e
    \<and> ne_maxNC e < dc_NC sample_credentials
    \<and> ps_HA1 sample_passwd (dc_Username sample_credentials) = Some ha1
    \<and> dc_Response sample_credentials = ComputeDigestResponse sample_hashes ha1 ''41'' (sprintf_08x 1) ''x'' ''auth''
        ''REGISTER'' ''sip:d'' ''MD5''"
  using VerifyDigestRequest_sound [OF sample_verified]
  by (auto simp: sample_credentials_def answer_credentials_def sample_ap_def)

theorem VerifyDigestRequest_refuses_witness:
  "\<exists>stale. [challenge_response sample_passwd sample_ap sample_register False (hex_EncodeToString ''B'')]
      = [challenge_response sample_passwd sample_ap sample_register stale (hex_EncodeToString (env_rnd sample_env))]"
  using VerifyDigestRequest_refuses [OF sample_challenged, where callID = "''c''"]
  by (auto simp: sample_headers sample_env_def)

theorem auth_failure_budget_witness:
  "failure_run sample_passwd sample_ap sample_register ''k'' (replicate 4 (sample_env, False)) sample_auth_state ! 2
     = NewResponse sample_register 403 ''Forbidden''
   \<and> failure_run sample_passwd sample_ap sample_register ''k'' (replicate 4 (sample_env, False)) sample_auth_state ! 3
     = challenge_response sample_passwd sample_ap sample_register False (hex_EncodeToString ''B'')"
  using auth_failure_budget [of sample_auth_state "''k''" 2 "replicate 4 (sample_env, False)" sample_passwd sample_ap sample_register]
    auth_failure_budget [of sample_auth_state "''k''" 3 "replicate 4 (sample_env, False)" sample_passwd sample_ap sample_register]
  by (simp add: sample_auth_state_def NewAuthAttemptTracker_def sample_ap_def sample_env_def)

section \<open>Sweeping does not change decisions\<close>

text \<open>
  The periodic sweeps are invisible: for any later clock value, a swept nonce store accepts the same nonce
  counts and a swept attempt store reports the same failure counts as an unswept one.
\<close>

theorem sweeps_invisible:
  assumes "now \<le> now'"
  shows "snd (snd (Nonce_Verify (Nonce_Sweep nm now) now' nonce nc)) = snd (snd (Nonce_Verify nm now' nonce nc))
    \<and> Attempts_Count (Attempts_Sweep at now) now' key = Attempts_Count at now' key"
  using assms nonce_store.lookup_sweep [of nm now nonce] attempt_store.lookup_sweep [of at now key]
  by (auto simp: Nonce_Verify_valid Attempts_Count_def split: option.splits if_splits)

theorem sweeps_invisible_witness:
  "snd (snd (Nonce_Verify (Nonce_Sweep (as_nonces sample_auth_state) 5) 6 ''41'' 1))"
  using sweeps_invisible [of 5 6 "as_nonces sample_auth_state" "''41''" 1]
  by (simp add: Nonce_Verify_valid sample_auth_state_def)


end
