(* ===== verification/Registrar.thy ===== *)
theory Registrar
  imports Auth
begin

text \<open>
  The registrar of \<^verbatim>\<open>internal/sip/registrar.go\<close>: contact headers, bindings, the REGISTER handler and the reaper.
  A time is the number of nanoseconds since 1970 in UTC.  The lock is held over each change of the bindings, so
  a handler is a function on the registrar.
\<close>

section \<open>Times\<close>

text \<open>\<^verbatim>\<open>time.Duration(n) * time.Second\<close> is a product of 64-bit integers.\<close>

definition seconds :: "int \<Rightarrow> int" where
  "seconds n = sint (word_of_int (n * 1000000000) :: 64 word)"

text \<open>\<^verbatim>\<open>time.Until\<close>: the difference, saturated to 64 bits.\<close>

definition time_Until :: "int \<Rightarrow> int \<Rightarrow> int" where
  "time_Until now t = max (- (2 ^ 63)) (min (2 ^ 63 - 1) (t - now))"

text \<open>
  \<^verbatim>\<open>int(math.Ceil(d.Seconds()))\<close> for a positive duration.  \<^verbatim>\<open>Seconds\<close> adds the whole seconds and the fraction as
  floating-point numbers: both the quotient by 1e9 and the sum are rounded to 53 bits, half to even.  Numbers
  are scaled by \<open>2 ^ 83\<close>, which makes every such number of at least a nanosecond an integer.
\<close>

function log2_floor :: "int \<Rightarrow> nat" where
  "log2_floor n = (if n < 2 then 0 else Suc (log2_floor (n div 2)))"
  by pat_completeness auto
termination by (relation "measure nat") auto

declare log2_floor.simps [simp del]

definition round53 :: "int \<Rightarrow> int \<Rightarrow> int" where
  "round53 num den =
     (let u = 2 ^ (log2_floor (num div den) - 52);
          q = num div (den * u); r = num mod (den * u);
          q = (if 2 * r < den * u \<or> 2 * r = den * u \<and> even q then q else q + 1)
      in q * u)"

definition ceil_Seconds :: "int \<Rightarrow> int" where
  "ceil_Seconds d =
     (let sec = d div 1000000000; nsec = d mod 1000000000;
          frac = (if nsec = 0 then 0 else round53 (nsec * 2 ^ 83) 1000000000);
          sum = round53 (sec * 2 ^ 83 + frac) 1
      in (sum + 2 ^ 83 - 1) div 2 ^ 83)"

text \<open>\<^verbatim>\<open>t.UTC().Format(time.RFC1123)\<close>: the civil date of a day number and the fixed layout.\<close>

definition civil_date :: "int \<Rightarrow> int \<times> int \<times> int" where
  "civil_date days =
     (let z = days + 719468; era = z div 146097; doe = z mod 146097;
          yoe = (doe - doe div 1460 + doe div 36524 - doe div 146096) div 365;
          doy = doe - (365 * yoe + yoe div 4 - yoe div 100);
          mp = (5 * doy + 2) div 153;
          d = doy - (153 * mp + 2) div 5 + 1;
          m = (if mp < 10 then mp + 3 else mp - 9);
          y = yoe + era * 400 + (if m \<le> 2 then 1 else 0)
      in (y, m, d))"

definition pad_int :: "nat \<Rightarrow> int \<Rightarrow> string" where
  "pad_int w n = replicate (w - length (Itoa n)) (CHR ''0'') @ Itoa n"

definition format_RFC1123 :: "int \<Rightarrow> string" where
  "format_RFC1123 now =
     (let sec = now div 1000000000; days = sec div 86400; tod = sec mod 86400; (y, m, d) = civil_date days
      in [''Sun'', ''Mon'', ''Tue'', ''Wed'', ''Thu'', ''Fri'', ''Sat''] ! nat ((days + 4) mod 7) @ '', ''
         @ pad_int 2 d @ '' '' @ [''Jan'', ''Feb'', ''Mar'', ''Apr'', ''May'', ''Jun'', ''Jul'', ''Aug'', ''Sep'', ''Oct'',
              ''Nov'', ''Dec''] ! nat (m - 1) @ '' '' @ pad_int 4 y
         @ '' '' @ pad_int 2 (tod div 3600) @ '':'' @ pad_int 2 (tod div 60 mod 60) @ '':'' @ pad_int 2 (tod mod 60) @ '' UTC'')"

section \<open>Contact headers\<close>

record parsedContact =
  pc_uri :: string
  pc_sipInstance :: string
  pc_expires :: int
  pc_regID :: int
  pc_ob :: bool

definition nonneg_Atoi :: "string \<Rightarrow> int \<Rightarrow> int" where
  "nonneg_Atoi v old = (case Atoi v of Some n \<Rightarrow> if 0 \<le> n then n else old | None \<Rightarrow> old)"

definition addHeaderParam :: "parsedContact \<Rightarrow> string \<Rightarrow> parsedContact" where
  "addHeaderParam pc param =
     (let param = TrimSpace param in
      if EqualFold param ''ob'' then pc\<lparr>pc_ob := True\<rparr>
      else case Cut param ''='' of (k, v, ok) \<Rightarrow>
        if \<not> ok then pc
        else if EqualFold k ''reg-id'' then pc\<lparr>pc_regID := nonneg_Atoi v (pc_regID pc)\<rparr>
        else if EqualFold k ''expires'' then pc\<lparr>pc_expires := nonneg_Atoi v (pc_expires pc)\<rparr>
        else if EqualFold k ''+sip.instance'' then pc\<lparr>pc_sipInstance := v\<rparr>
        else pc)"

text \<open>
  \<^verbatim>\<open>splitContactValues\<close> cuts at the commas outside angle brackets; \<open>part\<close> is what was read since the last cut,
  in reverse.
\<close>

fun split_contact_values :: "nat \<Rightarrow> string \<Rightarrow> string \<Rightarrow> string list" where
  "split_contact_values depth part [] = (if part = [] then [] else [rev part])"
| "split_contact_values depth part (c # raw) =
     (if c = CHR ''<'' then split_contact_values (depth + 1) (c # part) raw
      else if c = CHR ''>'' then split_contact_values (depth - 1) (c # part) raw
      else if c = CHR '','' \<and> depth = 0 then rev part # split_contact_values depth [] raw
      else split_contact_values depth (c # part) raw)"

definition splitContactValues :: "string \<Rightarrow> string list" where
  "splitContactValues raw = split_contact_values 0 [] raw"

fun strip_expires :: "string list \<Rightarrow> int \<Rightarrow> string list \<times> int" where
  "strip_expires (p # q # ps) expires = (case Cut (TrimSpace p) ''='' of (k, v, ok) \<Rightarrow>
     if ok \<and> EqualFold k ''expires'' then strip_expires (q # ps) (nonneg_Atoi v expires) else (p # q # ps, expires))"
| "strip_expires ps expires = (ps, expires)"

definition splitAddrSpecContact :: "string \<Rightarrow> string \<times> int" where
  "splitAddrSpecContact raw =
     (let (ps, expires) = strip_expires (rev (Split raw (CHR '';''))) (- 1)
      in (TrimRight (Join (rev ps) '';'') '';'', expires))"

datatype contact_error =
    InvalidContact string
  | UnmatchedBracket string
  | EmptyContactURI string

definition uri_has_ob :: "string \<Rightarrow> bool" where
  "uri_has_ob cp = (case IndexByte cp (CHR '';'') of
     None \<Rightarrow> False
   | Some semi \<Rightarrow> list_ex (\<lambda>p. EqualFold (TrimSpace p) ''ob'') (Split (drop (semi + 1) cp) (CHR '';'')))"

definition parseContactURI :: "string \<Rightarrow> (contact_error, parsedContact) go" where
  "parseContactURI raw =
     (let raw = TrimSpace raw in
      if raw = [] \<or> raw = ''*'' then Fail (InvalidContact raw)
      else
        let c = \<lparr>pc_uri = [], pc_sipInstance = [], pc_expires = - 1, pc_regID = - 1, pc_ob = False\<rparr> in
        and_then (case IndexByte raw (CHR ''<'') of
            Some left \<Rightarrow>
              (case IndexByte (drop (left + 1) raw) (CHR ''>'') of
                 None \<Rightarrow> Fail (UnmatchedBracket raw)
               | Some n \<Rightarrow>
                   let closeIdx = n + left + 1;
                       c = c\<lparr>pc_uri := TrimSpace (take n (drop (left + 1) raw))\<rparr>;
                       rest = TrimSpace (drop (closeIdx + 1) raw);
                       c = (if rest \<noteq> [] then foldl addHeaderParam c (Split rest (CHR '';'')) else c)
                   in Ok (if \<not> pc_ob c \<and> uri_has_ob (pc_uri c) then c\<lparr>pc_ob := True\<rparr> else c))
          | None \<Rightarrow>
              (let (uri, expires) = splitAddrSpecContact raw;
                   c = c\<lparr>pc_uri := uri\<rparr>
               in Ok (if 0 \<le> expires then c\<lparr>pc_expires := expires\<rparr> else c)))
          (\<lambda>c. if pc_uri c = [] then Fail (EmptyContactURI raw) else Ok c))"

fun extract_parts :: "string list \<Rightarrow> parsedContact list \<times> bool \<Rightarrow> parsedContact list \<times> bool" where
  "extract_parts [] acc = acc"
| "extract_parts (part # parts) (contacts, hasStar) =
     (let part = TrimSpace part in
      if part = [] then extract_parts parts (contacts, hasStar)
      else if part = ''*'' then extract_parts parts (contacts, True)
      else case parseContactURI part of
          Ok c \<Rightarrow> extract_parts parts (contacts @ [c], hasStar)
        | _ \<Rightarrow> extract_parts parts (contacts, hasStar))"

fun extract_contacts :: "string list \<Rightarrow> parsedContact list \<times> bool \<Rightarrow> parsedContact list \<times> bool" where
  "extract_contacts [] acc = acc"
| "extract_contacts (v # raw) (contacts, hasStar) =
     (let v = TrimSpace v in
      if v = ''*'' then extract_contacts raw (contacts, True)
      else extract_contacts raw (extract_parts (splitContactValues v) (contacts, hasStar)))"

definition extractContacts :: "string list \<Rightarrow> parsedContact list \<times> bool" where
  "extractContacts raw = extract_contacts raw ([], False)"

section \<open>Bindings\<close>

record Binding =
  bd_Expires :: int
  bd_LastUpdate :: int
  bd_ContactURI :: string
  bd_CallID :: string
  bd_FlowID :: string
  bd_SIPInstance :: string
  bd_CSeq :: int
  bd_RegID :: int
  bd_OB :: bool

fun removeBinding :: "Binding list \<Rightarrow> string \<Rightarrow> Binding list" where
  "removeBinding [] contactURI = []"
| "removeBinding (b # bindings) contactURI =
     (if bd_ContactURI b = contactURI then bindings else b # removeBinding bindings contactURI)"

fun upsertBinding ::
  "int \<Rightarrow> Binding list \<Rightarrow> uri \<Rightarrow> string \<Rightarrow> int \<Rightarrow> int \<Rightarrow> string \<Rightarrow> bool \<Rightarrow> int \<Rightarrow> string \<Rightarrow> Binding list" where
  "upsertBinding now [] contactURI callID cseq expiresSec flowID ob regID sipInstance =
     [\<lparr>bd_Expires = now + seconds expiresSec, bd_LastUpdate = now, bd_ContactURI = contactURI, bd_CallID = callID,
       bd_FlowID = flowID, bd_SIPInstance = sipInstance, bd_CSeq = cseq, bd_RegID = regID, bd_OB = ob\<rparr>]"
| "upsertBinding now (b # bindings) contactURI callID cseq expiresSec flowID ob regID sipInstance =
     (if bd_ContactURI b = contactURI then
        b\<lparr>bd_CallID := callID, bd_CSeq := cseq, bd_Expires := now + seconds expiresSec, bd_LastUpdate := now,
          bd_FlowID := flowID, bd_OB := ob, bd_RegID := (if 0 \<le> regID then regID else bd_RegID b),
          bd_SIPInstance := (if sipInstance \<noteq> [] then sipInstance else bd_SIPInstance b)\<rparr> # bindings
      else b # upsertBinding now bindings contactURI callID cseq expiresSec flowID ob regID sipInstance)"

record Registrar =
  reg_bindings :: "(string, Binding list) fmap"
  reg_lastCSeq :: "(string, int) fmap"
  reg_passwd :: "PasswordStore option"
  reg_auth :: auth_state
  reg_maxFailedAttempts :: int

definition DefaultMaxFailedAuthAttempts :: int where "DefaultMaxFailedAuthAttempts = 3"

definition NewRegistrar :: Registrar where
  "NewRegistrar = \<lparr>reg_bindings = fmempty, reg_lastCSeq = fmempty, reg_passwd = None,
     reg_auth = \<lparr>as_nonces = NewNonceManager (seconds 300), as_attempts = NewAuthAttemptTracker (seconds 300)\<rparr>,
     reg_maxFailedAttempts = DefaultMaxFailedAuthAttempts\<rparr>"

definition SetPasswordStore :: "Registrar \<Rightarrow> PasswordStore \<Rightarrow> Registrar" where
  "SetPasswordStore r store = r\<lparr>reg_passwd := Some store\<rparr>"

definition SetMaxFailedAuthAttempts :: "Registrar \<Rightarrow> int \<Rightarrow> Registrar" where
  "SetMaxFailedAuthAttempts r n = r\<lparr>reg_maxFailedAttempts := ClampMaxFailedAuthAttempts n\<rparr>"

definition bindings_of :: "Registrar \<Rightarrow> string \<Rightarrow> Binding list" where
  "bindings_of r aor = (case fmlookup (reg_bindings r) aor of Some bs \<Rightarrow> bs | None \<Rightarrow> [])"

definition GetBindings :: "Registrar \<Rightarrow> string \<Rightarrow> Binding list" where
  "GetBindings r aor = bindings_of r aor"

text \<open>The loop of \<^verbatim>\<open>sweep\<close> and \<^verbatim>\<open>RemoveBindingsByFlowID\<close>: every list is filtered and an empty one removed.\<close>

definition filter_bindings :: "(Binding \<Rightarrow> bool) \<Rightarrow> Registrar \<Rightarrow> Registrar" where
  "filter_bindings P r = r\<lparr>reg_bindings := keep_live (\<lambda>bs. bs \<noteq> []) (fmmap (filter P) (reg_bindings r))\<rparr>"

definition RemoveBindingsByFlowID :: "Registrar \<Rightarrow> string \<Rightarrow> Registrar" where
  "RemoveBindingsByFlowID r flowID = filter_bindings (\<lambda>b. bd_FlowID b \<noteq> flowID) r"

definition Registrar_sweep :: "Registrar \<Rightarrow> int \<Rightarrow> Registrar" where
  "Registrar_sweep r now = filter_bindings (\<lambda>b. bd_Expires b > now) r"

text \<open>One tick of the reaper \<^verbatim>\<open>Start\<close>.\<close>

definition Registrar_tick :: "Registrar \<Rightarrow> int \<Rightarrow> Registrar" where
  "Registrar_tick r now = (Registrar_sweep r now)\<lparr>reg_auth :=
     (reg_auth r)\<lparr>as_nonces := Nonce_Sweep (as_nonces (reg_auth r)) now,
       as_attempts := Attempts_Sweep (as_attempts (reg_auth r)) now\<rparr>\<rparr>"

section \<open>Handling REGISTER\<close>

definition containsIgnoreCase :: "unicode_tables \<Rightarrow> string \<Rightarrow> string \<Rightarrow> bool" where
  "containsIgnoreCase uni s substr =
     list_ex (\<lambda>part. TrimSpace part = ToLower (uni_lower uni) substr) (Split (ToLower (uni_lower uni) s) (CHR '',''))"

definition contact_value :: "Binding \<Rightarrow> int \<Rightarrow> string" where
  "contact_value b secs =
     ''<'' @ bd_ContactURI b @ ''>;expires='' @ Itoa secs
     @ (if bd_OB b then '';ob'' else [])
     @ (if bd_RegID b > 0 then '';reg-id='' @ Itoa (bd_RegID b) else [])
     @ (if bd_SIPInstance b \<noteq> [] then '';+sip.instance='' @ bd_SIPInstance b else [])"

fun add_contacts :: "int \<Rightarrow> Binding list \<Rightarrow> SIPHeaders \<Rightarrow> int \<Rightarrow> SIPHeaders \<times> int" where
  "add_contacts now [] h minExpires = (h, minExpires)"
| "add_contacts now (b # bindings) h minExpires =
     (let remaining = time_Until now (bd_Expires b) in
      if remaining \<le> 0 then add_contacts now bindings h minExpires
      else let secs = ceil_Seconds remaining in
        add_contacts now bindings (SIPHeaders_Add h ''Contact'' (contact_value b secs))
          (if minExpires < 0 \<or> secs < minExpires then secs else minExpires))"

definition defaultFlowTimer :: int where "defaultFlowTimer = 120"

definition sendRegisterResponse ::
  "unicode_tables \<Rightarrow> environment \<Rightarrow> SIPMessage \<Rightarrow> Binding list \<Rightarrow> ('e, SIPMessage) go" where
  "sendRegisterResponse uni env req bindings =
     (let res = NewResponse req 200 ''OK'';
          h = SIPHeaders_Add (msg_Headers res) ''Date'' (format_RFC1123 (env_now env));
          (h, minExpires) = add_contacts (env_now env) bindings h (- 1);
          h = (if 0 \<le> minExpires then SIPHeaders_Add h ''Expires'' (Itoa minExpires) else h)
      in and_then (SIPHeaders_GetFirst (msg_Headers req) ''Supported'') (\<lambda>supported.
         if containsIgnoreCase uni supported ''outbound'' then
           (let h = SIPHeaders_Add h ''Require'' ''outbound'' in
            and_then (SIPMessage_IsReliableTransport req) (\<lambda>(reliable, _).
              Ok (res\<lparr>msg_Headers := if reliable then SIPHeaders_Add h ''Flow-Timer'' (Itoa defaultFlowTimer) else h\<rparr>)))
         else Ok (res\<lparr>msg_Headers := h\<rparr>)))"

definition register_ap :: "int \<Rightarrow> auth_params" where
  "register_ap maxAttempts = \<lparr>ap_authHeaderKey = ''Authorization'', ap_respChallengeKey = ''WWW-Authenticate'',
     ap_challengeStatus = 401, ap_statusText = ''Unauthorized'', ap_method = ''REGISTER'', ap_maxAttempts = maxAttempts\<rparr>"

text \<open>The authentication step: \<open>Some\<close> answers end the handler, \<open>None\<close> lets it go on.\<close>

definition authorize_register ::
  "unicode_tables \<Rightarrow> hashes \<Rightarrow> environment \<Rightarrow> Registrar \<Rightarrow> SIPMessage \<Rightarrow> tx_info \<Rightarrow> string \<Rightarrow> string
   \<Rightarrow> ('e, Registrar \<times> SIPMessage list option) go" where
  "authorize_register uni H env r req tx aor callID = (case reg_passwd r of
     None \<Rightarrow> Ok (r, None)
   | Some passwd \<Rightarrow>
       let ap = register_ap (reg_maxFailedAttempts r) in
       and_then (VerifyDigestRequest uni H env passwd ap req tx (reg_auth r)) (\<lambda>(st, out, creds).
         case creds of None \<Rightarrow> Ok (r\<lparr>reg_auth := st\<rparr>, Some out)
         | Some creds \<Rightarrow>
             let allowedAORs = (case ps_AORs passwd (dc_Username creds) of Some l \<Rightarrow> l | None \<Rightarrow> []);
                 key = AuthAttemptKey tx callID
             in if \<not> AORAllowed allowedAORs aor then
                  (let (st, out) = sendAuthFailureResponse env passwd ap req key False st
                   in Ok (r\<lparr>reg_auth := st\<rparr>, Some out))
                else Ok (r\<lparr>reg_auth := st\<lparr>as_attempts := Attempts_Reset (as_attempts st) key\<rparr>\<rparr>, None)))"

fun apply_contacts ::
  "int \<Rightarrow> int \<Rightarrow> string \<Rightarrow> int \<Rightarrow> string \<Rightarrow> parsedContact list \<Rightarrow> Binding list \<Rightarrow> Binding list" where
  "apply_contacts now defaultExpires callID cseq flowID [] bindings = bindings"
| "apply_contacts now defaultExpires callID cseq flowID (c # contacts) bindings =
     (let expires = (if 0 \<le> pc_expires c then pc_expires c else defaultExpires) in
      apply_contacts now defaultExpires callID cseq flowID contacts
        (if expires = 0 then removeBinding bindings (pc_uri c)
         else upsertBinding now bindings (pc_uri c) callID cseq expires flowID (pc_ob c) (pc_regID c) (pc_sipInstance c)))"

text \<open>The part under the lock: the new registrar, and the bindings to answer with or \<open>None\<close> for 400.\<close>

definition update_bindings ::
  "environment \<Rightarrow> Registrar \<Rightarrow> string \<Rightarrow> string \<Rightarrow> int \<Rightarrow> int \<Rightarrow> string list \<Rightarrow> string \<Rightarrow> Registrar \<times> Binding list option" where
  "update_bindings env r aor callID cseq defaultExpires rawContacts flowID =
     (let (contacts, hasStar) = extractContacts rawContacts in
      if (case fmlookup (reg_lastCSeq r) callID of Some lastSeq \<Rightarrow> cseq \<le> lastSeq | None \<Rightarrow> False) then (r, None)
      else if hasStar then
        (if defaultExpires \<noteq> 0 then (r, None)
         else (r\<lparr>reg_bindings := fmdrop aor (reg_bindings r), reg_lastCSeq := fmupd callID cseq (reg_lastCSeq r)\<rparr>, Some []))
      else if rawContacts = [] \<or> length rawContacts = 1 \<and> TrimSpace (hd rawContacts) = [] then
        (r, Some (bindings_of r aor))
      else
        let bindings = apply_contacts (env_now env) defaultExpires callID cseq flowID contacts (bindings_of r aor) in
        (r\<lparr>reg_bindings := (if bindings = [] then fmdrop aor (reg_bindings r) else fmupd aor bindings (reg_bindings r)),
           reg_lastCSeq := fmupd callID cseq (reg_lastCSeq r)\<rparr>, Some bindings))"

definition default_expires :: "string \<Rightarrow> int" where
  "default_expires expStr = (if expStr \<noteq> [] then nonneg_Atoi (TrimSpace expStr) 3600 else 3600)"

definition register_flowID :: "tx_info \<Rightarrow> string" where
  "register_flowID tx = (case tgt_Conn (tx_Target tx) of Some conn \<Rightarrow> FlowKey_String (FlowKeyFromConn conn) | None \<Rightarrow> [])"

definition HandleRegister ::
  "unicode_tables \<Rightarrow> hashes \<Rightarrow> environment \<Rightarrow> Registrar \<Rightarrow> SIPMessage \<Rightarrow> tx_info \<Rightarrow> ('e, Registrar \<times> SIPMessage list) go" where
  "HandleRegister uni H env r req tx =
     (let h = msg_Headers req; badRequest = [NewResponse req 400 ''Bad Request''] in
      and_then (SIPHeaders_GetFirst h ''Contact'') (\<lambda>_.
      and_then (SIPHeaders_GetFirst h ''Expires'') (\<lambda>expStr.
      and_then (SIPHeaders_GetFirst h ''Require'') (\<lambda>_.
      and_then (SIPHeaders_GetFirst h ''Supported'') (\<lambda>_.
      case SIPMessage_To req of
        Panic \<Rightarrow> Panic
      | Fail _ \<Rightarrow> Ok (r, badRequest)
      | Ok to \<Rightarrow>
          let aor = addr_URI to; reqURI = SIPMessage_RequestURI req in
          if reqURI \<noteq> [] \<and> uriHostname reqURI \<noteq> uriHostname aor then Ok (r, badRequest)
          else and_then (SIPHeaders_GetFirst h ''Call-ID'') (\<lambda>callID.
            if callID = [] then Ok (r, badRequest)
            else and_then (authorize_register uni H env r req tx aor callID) (\<lambda>(r, answered).
              case answered of Some out \<Rightarrow> Ok (r, out)
              | None \<Rightarrow>
                  let (r, bindings) = update_bindings env r aor callID (cseq_Seq (msg_CSeq req)) (default_expires expStr)
                        (SIPHeaders_Get h ''Contact'') (register_flowID tx)
                  in case bindings of None \<Rightarrow> Ok (r, badRequest)
                     | Some bs \<Rightarrow> and_then (sendRegisterResponse uni env req bs) (\<lambda>res. Ok (r, [res])))))))))"



section \<open>Bindings as a map from contact to binding\<close>

definition binding_map :: "Binding list \<Rightarrow> string \<Rightarrow> Binding option" where
  "binding_map bs uri = find (\<lambda>b. bd_ContactURI b = uri) bs"

definition contact_uris :: "Binding list \<Rightarrow> string list" where
  "contact_uris bs = map bd_ContactURI bs"

lemma binding_map_simps [simp]:
  "binding_map [] uri = None"
  "binding_map (b # bs) uri = (if bd_ContactURI b = uri then Some b else binding_map bs uri)"
  by (simp_all add: binding_map_def)

lemma binding_map_None: "uri \<notin> set (contact_uris bs) \<Longrightarrow> binding_map bs uri = None"
  by (auto simp: binding_map_def find_None_iff contact_uris_def)

lemma set_contact_uris_remove: "set (contact_uris (removeBinding bs uri)) \<subseteq> set (contact_uris bs)"
  by (induction bs) (auto simp: contact_uris_def)

lemma distinct_remove: "distinct (contact_uris bs) \<Longrightarrow> distinct (contact_uris (removeBinding bs uri))"
  using set_contact_uris_remove by (induction bs) (auto simp: contact_uris_def)

lemma binding_map_remove:
  "distinct (contact_uris bs) \<Longrightarrow> binding_map (removeBinding bs uri) = (binding_map bs)(uri := None)"
  by (induction bs) (auto simp: contact_uris_def fun_eq_iff binding_map_None)

text \<open>The binding that a contact creates, or makes of an existing one.\<close>

definition renewed :: "int \<Rightarrow> string \<Rightarrow> int \<Rightarrow> int \<Rightarrow> string \<Rightarrow> parsedContact \<Rightarrow> Binding option \<Rightarrow> Binding" where
  "renewed now callID cseq expires flowID c old =
     \<lparr>bd_Expires = now + seconds expires, bd_LastUpdate = now, bd_ContactURI = pc_uri c, bd_CallID = callID,
      bd_FlowID = flowID,
      bd_SIPInstance = (case old of Some b \<Rightarrow> if pc_sipInstance c \<noteq> [] then pc_sipInstance c else bd_SIPInstance b
         | None \<Rightarrow> pc_sipInstance c),
      bd_CSeq = cseq,
      bd_RegID = (case old of Some b \<Rightarrow> if 0 \<le> pc_regID c then pc_regID c else bd_RegID b | None \<Rightarrow> pc_regID c),
      bd_OB = pc_ob c\<rparr>"

definition upsert_contact :: "int \<Rightarrow> string \<Rightarrow> int \<Rightarrow> int \<Rightarrow> string \<Rightarrow> parsedContact \<Rightarrow> Binding list \<Rightarrow> Binding list" where
  "upsert_contact now callID cseq expires flowID c bs =
     upsertBinding now bs (pc_uri c) callID cseq expires flowID (pc_ob c) (pc_regID c) (pc_sipInstance c)"

lemma upsert_contact_simps:
  "upsert_contact now callID cseq expires flowID c [] = [renewed now callID cseq expires flowID c None]"
  "upsert_contact now callID cseq expires flowID c (b # bs) =
     (if bd_ContactURI b = pc_uri c then renewed now callID cseq expires flowID c (Some b) # bs
      else b # upsert_contact now callID cseq expires flowID c bs)"
  by (auto simp: upsert_contact_def renewed_def intro!: Binding.equality)

lemma renewed_uri [simp]: "bd_ContactURI (renewed now callID cseq expires flowID c old) = pc_uri c"
  by (simp add: renewed_def)

lemma set_contact_uris_upsert:
  "set (contact_uris (upsert_contact now callID cseq expires flowID c bs)) = insert (pc_uri c) (set (contact_uris bs))"
  by (induction bs) (auto simp: contact_uris_def upsert_contact_simps)

lemma distinct_upsert:
  "distinct (contact_uris bs) \<Longrightarrow> distinct (contact_uris (upsert_contact now callID cseq expires flowID c bs))"
proof (induction bs)
  case (Cons b bs)
  then show ?case using set_contact_uris_upsert [of now callID cseq expires flowID c bs]
    by (auto simp: contact_uris_def upsert_contact_simps)
qed (simp add: contact_uris_def upsert_contact_simps)

lemma binding_map_upsert:
  "binding_map (upsert_contact now callID cseq expires flowID c bs) =
     (binding_map bs)(pc_uri c \<mapsto> renewed now callID cseq expires flowID c (binding_map bs (pc_uri c)))"
  by (induction bs) (auto simp: upsert_contact_simps fun_eq_iff)

text \<open>The abstract effect of a list of contacts on the map.\<close>

definition contact_effect ::
  "int \<Rightarrow> int \<Rightarrow> string \<Rightarrow> int \<Rightarrow> string \<Rightarrow> parsedContact \<Rightarrow> (string \<rightharpoonup> Binding) \<Rightarrow> (string \<rightharpoonup> Binding)" where
  "contact_effect now defaultExpires callID cseq flowID c m =
     (let expires = (if 0 \<le> pc_expires c then pc_expires c else defaultExpires) in
      if expires = 0 then m(pc_uri c := None)
      else m(pc_uri c \<mapsto> renewed now callID cseq expires flowID c (m (pc_uri c))))"

lemma apply_contacts_simp:
  "apply_contacts now dflt callID cseq flowID (c # cs) bs =
     apply_contacts now dflt callID cseq flowID cs
       (let expires = (if 0 \<le> pc_expires c then pc_expires c else dflt) in
        if expires = 0 then removeBinding bs (pc_uri c) else upsert_contact now callID cseq expires flowID c bs)"
  by (simp add: upsert_contact_def Let_def)

declare apply_contacts.simps(2) [simp del]

lemma distinct_apply_contacts:
  "distinct (contact_uris bs) \<Longrightarrow> distinct (contact_uris (apply_contacts now dflt callID cseq flowID cs bs))"
  by (induction cs arbitrary: bs) (simp_all add: apply_contacts_simp Let_def distinct_remove distinct_upsert)

lemma contact_effect_step:
  assumes "distinct (contact_uris bs)"
  shows "binding_map (let expires = (if 0 \<le> pc_expires c then pc_expires c else dflt) in
        if expires = 0 then removeBinding bs (pc_uri c) else upsert_contact now callID cseq expires flowID c bs)
      = contact_effect now dflt callID cseq flowID c (binding_map bs)"
  unfolding contact_effect_def Let_def if_distrib [of binding_map] binding_map_remove [OF assms] binding_map_upsert ..

lemma contact_step_distinct:
  "distinct (contact_uris bs) \<Longrightarrow> distinct (contact_uris (let expires = (if 0 \<le> pc_expires c then pc_expires c else dflt) in
        if expires = 0 then removeBinding bs (pc_uri c) else upsert_contact now callID cseq expires flowID c bs))"
  by (simp add: Let_def distinct_remove distinct_upsert)

text \<open>
  C34. The list of bindings of an address of record implements a map keyed by contact URI: registering a list of
  contacts has on the map the effect of handling them one by one, an expiry of zero removing the contact and any other
  creating or renewing it; the instance and registration ids of a renewed binding stay when the contact has none.
\<close>

theorem register_refines_map:
  assumes "distinct (contact_uris bs)"
  shows "binding_map (apply_contacts now dflt callID cseq flowID cs bs)
    = fold (contact_effect now dflt callID cseq flowID) cs (binding_map bs)"
  using assms
proof (induction cs arbitrary: bs)
  case (Cons c cs)
  note Cons.IH [OF contact_step_distinct [OF Cons.prems], of c dflt now callID cseq flowID]
  then show ?case by (simp only: apply_contacts_simp contact_effect_step [OF Cons.prems] fold_simps)
qed simp

definition sample_contact :: parsedContact where
  "sample_contact = \<lparr>pc_uri = ''sip:u@h'', pc_sipInstance = [], pc_expires = 60, pc_regID = - 1, pc_ob = True\<rparr>"

theorem register_refines_map_witness:
  "map_option bd_Expires (binding_map (apply_contacts 5 3600 ''c'' 1 [] [sample_contact, sample_contact\<lparr>pc_uri := ''sip:v@h'', pc_expires := 0\<rparr>] []) ''sip:u@h'')
    = Some (5 + seconds 60)"
  using register_refines_map [of "[]" 5 3600 "''c''" 1 "[]" "[sample_contact, sample_contact\<lparr>pc_uri := ''sip:v@h'', pc_expires := 0\<rparr>]"]
  by (simp add: contact_uris_def contact_effect_def sample_contact_def renewed_def)

section \<open>The registrar invariant\<close>

definition registrar_ok :: "Registrar \<Rightarrow> bool" where
  "registrar_ok r \<longleftrightarrow> fmpred (\<lambda>_ bs. bs \<noteq> [] \<and> distinct (contact_uris bs)) (reg_bindings r)"

lemma registrar_ok_bindings: "registrar_ok r \<Longrightarrow> distinct (contact_uris (bindings_of r aor))"
  by (auto simp: registrar_ok_def bindings_of_def contact_uris_def fmpred_iff split: option.splits)

lemma registrar_ok_filter: "registrar_ok r \<Longrightarrow> registrar_ok (filter_bindings P r)"
  by (auto simp: registrar_ok_def filter_bindings_def fmpred_iff fmlookup_keep_live contact_uris_def distinct_map_filter
      split: option.splits if_splits)

lemma registrar_ok_cong: "reg_bindings r = reg_bindings r' \<Longrightarrow> registrar_ok r = registrar_ok r'"
  by (simp add: registrar_ok_def)

lemma authorize_register_cases:
  assumes "authorize_register uni H env r req tx aor callID = (Ok (r', a) :: ('e, _) go)"
  obtains
    (unprotected) "reg_passwd r = None" "r' = r" "a = None"
  | (refused) passwd st out where "reg_passwd r = Some passwd"
      "VerifyDigestRequest uni H env passwd (register_ap (reg_maxFailedAttempts r)) req tx (reg_auth r) = (Ok (st, out, None) :: ('e, _) go)"
      "r' = r\<lparr>reg_auth := st\<rparr>" "a = Some out"
  | (forbidden) passwd st out creds st' out' where "reg_passwd r = Some passwd"
      "VerifyDigestRequest uni H env passwd (register_ap (reg_maxFailedAttempts r)) req tx (reg_auth r) = (Ok (st, out, Some creds) :: ('e, _) go)"
      "sendAuthFailureResponse env passwd (register_ap (reg_maxFailedAttempts r)) req (AuthAttemptKey tx callID) False st = (st', out')"
      "r' = r\<lparr>reg_auth := st'\<rparr>" "a = Some out'"
  | (allowed) passwd st out creds where "reg_passwd r = Some passwd"
      "VerifyDigestRequest uni H env passwd (register_ap (reg_maxFailedAttempts r)) req tx (reg_auth r) = (Ok (st, out, Some creds) :: ('e, _) go)"
      "AORAllowed (case ps_AORs passwd (dc_Username creds) of Some l \<Rightarrow> l | None \<Rightarrow> []) aor"
      "r' = r\<lparr>reg_auth := st\<lparr>as_attempts := Attempts_Reset (as_attempts st) (AuthAttemptKey tx callID)\<rparr>\<rparr>" "a = None"
proof (cases "reg_passwd r")
  case None
  with assms have "r' = r" "a = None" by (simp_all add: authorize_register_def)
  with None show thesis by (rule unprotected)
next
  case (Some passwd)
  with assms obtain st out creds where
    v: "VerifyDigestRequest uni H env passwd (register_ap (reg_maxFailedAttempts r)) req tx (reg_auth r) = (Ok (st, out, creds) :: ('e, _) go)"
    by (auto simp: authorize_register_def and_then_eq_Ok Let_def)
  show thesis
  proof (cases creds)
    case None
    with assms Some v have "r' = r\<lparr>reg_auth := st\<rparr>" "a = Some out" by (simp_all add: authorize_register_def Let_def)
    then show thesis using refused [OF Some] v None by blast
  next
    case c: (Some c)
    let ?ok = "AORAllowed (case ps_AORs passwd (dc_Username c) of Some l \<Rightarrow> l | None \<Rightarrow> []) aor"
    obtain st' out' where s: "sendAuthFailureResponse env passwd (register_ap (reg_maxFailedAttempts r)) req
        (AuthAttemptKey tx callID) False st = (st', out')" by fastforce
    show thesis
    proof (cases ?ok)
      case True
      with assms Some v c have
        "r' = r\<lparr>reg_auth := st\<lparr>as_attempts := Attempts_Reset (as_attempts st) (AuthAttemptKey tx callID)\<rparr>\<rparr>" "a = None"
        by (simp_all add: authorize_register_def Let_def)
      then show thesis using allowed [OF Some] v c True by blast
    next
      case False
      with assms Some v c s have "r' = r\<lparr>reg_auth := st'\<rparr>" "a = Some out'"
        by (simp_all add: authorize_register_def Let_def)
      then show thesis using forbidden [OF Some] v c s by blast
    qed
  qed
qed

lemma authorize_register_frame:
  assumes "authorize_register uni H env r req tx aor callID = Ok (r', a)"
  shows "reg_bindings r' = reg_bindings r \<and> reg_lastCSeq r' = reg_lastCSeq r \<and> reg_passwd r' = reg_passwd r
    \<and> reg_maxFailedAttempts r' = reg_maxFailedAttempts r"
  using assms by (cases rule: authorize_register_cases) simp_all

lemma update_bindings_ok:
  assumes "update_bindings env r aor callID cseq dflt raw flowID = (r', a)" and "registrar_ok r"
  shows "registrar_ok r'"
  using assms registrar_ok_bindings [OF assms(2), of aor]
  by (auto simp: update_bindings_def Let_def registrar_ok_def fmpred_upd fmpred_drop distinct_apply_contacts
      split: prod.splits if_splits)

section \<open>How a REGISTER request ends\<close>

lemma HandleRegister_cases:
  assumes "HandleRegister uni H env r req tx = (Ok (r', out) :: ('e, _) go)"
  obtains
    (malformed) "r' = r" "out = [NewResponse req 400 ''Bad Request'']"
  | (answered) to callID where "SIPMessage_To req = Ok to"
      "SIPHeaders_GetFirst (msg_Headers req) ''Call-ID'' = (Ok callID :: ('e, string) go)"
      "authorize_register uni H env r req tx (addr_URI to) callID = (Ok (r', Some out) :: ('e, _) go)"
  | (rejected) to callID r1 dflt where "SIPMessage_To req = Ok to"
      "SIPHeaders_GetFirst (msg_Headers req) ''Call-ID'' = (Ok callID :: ('e, string) go)"
      "authorize_register uni H env r req tx (addr_URI to) callID = (Ok (r1, None) :: ('e, _) go)"
      "update_bindings env r1 (addr_URI to) callID (cseq_Seq (msg_CSeq req)) dflt
         (SIPHeaders_Get (msg_Headers req) ''Contact'') (register_flowID tx) = (r', None)"
      "out = [NewResponse req 400 ''Bad Request'']"
  | (registered) to callID r1 dflt bs res where "SIPMessage_To req = Ok to"
      "SIPHeaders_GetFirst (msg_Headers req) ''Call-ID'' = (Ok callID :: ('e, string) go)"
      "authorize_register uni H env r req tx (addr_URI to) callID = (Ok (r1, None) :: ('e, _) go)"
      "update_bindings env r1 (addr_URI to) callID (cseq_Seq (msg_CSeq req)) dflt
         (SIPHeaders_Get (msg_Headers req) ''Contact'') (register_flowID tx) = (r', Some bs)"
      "sendRegisterResponse uni env req bs = (Ok res :: ('e, _) go)" "out = [res]"
proof -
  let ?h = "msg_Headers req"
  from assms obtain c e q s where
    "SIPHeaders_GetFirst ?h ''Contact'' = (Ok c :: ('e, string) go)" "SIPHeaders_GetFirst ?h ''Expires'' = (Ok e :: ('e, string) go)"
    "SIPHeaders_GetFirst ?h ''Require'' = (Ok q :: ('e, string) go)" "SIPHeaders_GetFirst ?h ''Supported'' = (Ok s :: ('e, string) go)"
    by (auto simp: HandleRegister_def Let_def and_then_eq_Ok)
  note hr = assms [unfolded HandleRegister_def Let_def, simplified this and_then.simps]
  show thesis
  proof (cases "SIPMessage_To req")
    case Panic
    with hr show thesis by simp
  next
    case (Fail x)
    with hr have "r' = r" "out = [NewResponse req 400 ''Bad Request'']" by simp_all
    then show thesis by (rule malformed)
  next
    case (Ok to)
    show thesis
    proof (cases "SIPMessage_RequestURI req \<noteq> [] \<and> uriHostname (SIPMessage_RequestURI req) \<noteq> uriHostname (addr_URI to)
        \<or> SIPHeaders_GetFirst ?h ''Call-ID'' = (Ok [] :: ('e, string) go)")
      case True
      with hr Ok have "r' = r" "out = [NewResponse req 400 ''Bad Request'']" by (auto split: if_splits)
      then show thesis by (rule malformed)
    next
      case False
      with hr Ok obtain callID r1 a where callID: "SIPHeaders_GetFirst ?h ''Call-ID'' = (Ok callID :: ('e, string) go)"
        and auth: "authorize_register uni H env r req tx (addr_URI to) callID = (Ok (r1, a) :: ('e, _) go)" "callID \<noteq> []"
        by (auto simp: and_then_eq_Ok split: if_splits)
      obtain r2 b where u: "update_bindings env r1 (addr_URI to) callID (cseq_Seq (msg_CSeq req)) (default_expires e)
         (SIPHeaders_Get ?h ''Contact'') (register_flowID tx) = (r2, b)" by fastforce
      note hr' = hr [simplified Ok go.case callID and_then.simps auth prod.case u if_False] 
      show thesis
      proof (cases a)
        case (Some o1)
        with hr' False auth have "r' = r1" "out = o1" by (auto split: if_splits)
        then show thesis using answered [OF Ok callID] auth Some by blast
      next
        case None
        show thesis
        proof (cases b)
          case None
          with hr' \<open>a = None\<close> False auth have "r' = r2" "out = [NewResponse req 400 ''Bad Request'']" by (auto split: if_splits)
          then show thesis using rejected [OF Ok callID] auth(1) u None \<open>a = None\<close> by blast
        next
          case (Some bs)
          with hr' \<open>a = None\<close> False auth obtain res where "r' = r2" "sendRegisterResponse uni env req bs = (Ok res :: ('e, _) go)" "out = [res]"
            by (auto simp: and_then_eq_Ok split: if_splits)
          then show thesis using registered [OF Ok callID] auth(1) u Some \<open>a = None\<close> by blast
        qed
      qed
    qed
  qed
qed


lemma HandleRegister_ok:
  assumes "HandleRegister uni H env r req tx = Ok (r', out)" and "registrar_ok r"
  shows "registrar_ok r'"
  using assms(1)
proof (cases rule: HandleRegister_cases)
  case (answered to callID)
  then show ?thesis using assms(2) authorize_register_frame [OF answered(3)] registrar_ok_cong by blast
next
  case (rejected to callID r1 dflt)
  then show ?thesis using assms(2) authorize_register_frame [OF rejected(3)] registrar_ok_cong update_bindings_ok by blast
next
  case (registered to callID r1 dflt bs res)
  then show ?thesis using assms(2) authorize_register_frame [OF registered(3)] registrar_ok_cong update_bindings_ok by blast
qed (use assms(2) in simp)

text \<open>
  Every state a registrar can be in: requests, the loss of flows, reaper ticks and configuration calls in any order.
\<close>

inductive registrar_run :: "Registrar \<Rightarrow> bool" where
  run_new: "registrar_run NewRegistrar"
| run_register: "registrar_run r \<Longrightarrow> HandleRegister uni H env r req tx = (Ok (r', out) :: (unit, _) go) \<Longrightarrow> registrar_run r'"
| run_flow_dead: "registrar_run r \<Longrightarrow> registrar_run (RemoveBindingsByFlowID r flowID)"
| run_tick: "registrar_run r \<Longrightarrow> registrar_run (Registrar_tick r now)"
| run_passwd: "registrar_run r \<Longrightarrow> registrar_run (SetPasswordStore r store)"
| run_max: "registrar_run r \<Longrightarrow> registrar_run (SetMaxFailedAuthAttempts r n)"

text \<open>
  C20. In every state of the registrar an address of record is stored only with at least one binding, no two bindings
  of an address of record have the same contact, and the limit on failed authentications is between 1 and 10.
\<close>

theorem registrar_invariant:
  "registrar_run r \<Longrightarrow> registrar_ok r \<and> reg_maxFailedAttempts r \<in> {1..10}"
proof (induction rule: registrar_run.induct)
  case run_new
  show ?case by (simp add: registrar_ok_def NewRegistrar_def DefaultMaxFailedAuthAttempts_def)
next
  case (run_register r uni H env req tx r' out)
  have "reg_maxFailedAttempts r' = reg_maxFailedAttempts r"
    using run_register.hyps(2) by (cases rule: HandleRegister_cases)
      (auto simp: update_bindings_def Let_def dest!: authorize_register_frame split: prod.splits if_splits)
  then show ?case using run_register HandleRegister_ok by auto
next
  case (run_flow_dead r flowID)
  then show ?case by (simp add: RemoveBindingsByFlowID_def registrar_ok_filter) (simp add: filter_bindings_def)
next
  case (run_tick r now)
  then have "registrar_ok (Registrar_sweep r now)" by (simp add: Registrar_sweep_def registrar_ok_filter)
  then show ?case using run_tick
    by (simp add: Registrar_tick_def registrar_ok_def) (simp add: Registrar_sweep_def filter_bindings_def)
qed (simp_all add: registrar_ok_def SetPasswordStore_def SetMaxFailedAuthAttempts_def ClampMaxFailedAuthAttempts_def)

theorem registrar_invariant_witness:
  "registrar_ok (SetMaxFailedAuthAttempts NewRegistrar 99) \<and> reg_maxFailedAttempts (SetMaxFailedAuthAttempts NewRegistrar 99) \<in> {1..10}"
  by (rule registrar_invariant) (intro run_max run_new)

lemma sendAuthFailureResponse_one:
  "sendAuthFailureResponse env passwd ap req key stale st = (st', out) \<Longrightarrow> length out = 1"
  by (auto simp: sendAuthFailureResponse_eq split: prod.splits if_splits)

lemma VerifyDigestRequest_None_one:
  assumes "VerifyDigestRequest uni H env passwd ap req tx st = (Ok (st', out, None) :: ('e, _) go)"
  shows "length out = 1"
  using assms by (cases rule: VerifyDigestRequest_cases) (auto dest: sendAuthFailureResponse_one)

text \<open>
  Every REGISTER request that is handled gets exactly one answer.
\<close>

theorem HandleRegister_one_answer:
  assumes "HandleRegister uni H env r req tx = (Ok (r', out) :: ('e, _) go)"
  shows "length out = 1"
  using assms
proof (cases rule: HandleRegister_cases)
  case (answered to callID)
  from answered(3) show ?thesis
  proof (cases rule: authorize_register_cases)
    case (refused passwd st out')
    then show ?thesis using VerifyDigestRequest_None_one by blast
  next
    case (forbidden passwd st out1 creds st' out')
    then show ?thesis using sendAuthFailureResponse_one by blast
  qed simp_all
qed simp_all

text \<open>
  C8. The CSeq numbers of a registration only grow: the number stored for a Call-ID never decreases, and a request
  changes the bindings only if its number is above the one stored for its Call-ID, which it then replaces.
\<close>

theorem register_cseq_monotone:
  assumes "HandleRegister uni H env r req tx = (Ok (r', out) :: ('e, _) go)"
    and "SIPHeaders_GetFirst (msg_Headers req) ''Call-ID'' = (Ok callID :: ('e, string) go)"
  shows "(fmlookup (reg_lastCSeq r) c = Some n \<longrightarrow> (\<exists>n' \<ge> n. fmlookup (reg_lastCSeq r') c = Some n'))
    \<and> (reg_bindings r' \<noteq> reg_bindings r \<longrightarrow>
        (\<forall>n. fmlookup (reg_lastCSeq r) callID = Some n \<longrightarrow> n < cseq_Seq (msg_CSeq req))
        \<and> fmlookup (reg_lastCSeq r') callID = Some (cseq_Seq (msg_CSeq req)))"
  using assms(1)
proof (cases rule: HandleRegister_cases)
  case (answered to callID)
  then show ?thesis using authorize_register_frame [OF answered(3)] by auto
next
  case (rejected to callID' r1 dflt)
  then show ?thesis using authorize_register_frame [OF rejected(3)]
    by (auto simp: update_bindings_def Let_def split: prod.splits if_splits)
next
  case (registered to callID' r1 dflt bs res)
  then show ?thesis using authorize_register_frame [OF registered(3)] assms(2)
    by (auto simp: update_bindings_def Let_def split: prod.splits if_splits option.splits)
qed simp


lemma AORAllowed_iff: "AORAllowed allowed aor \<longleftrightarrow> (\<exists>a \<in> set allowed. NormalizeAOR a = NormalizeAOR (StripURIParams aor))"
  by (induction allowed) auto

text \<open>
  C7. On a registrar with a password store, a request changes bindings only if it was authenticated as a user of the
  store to whom the address of record in its To header belongs; the bindings of other addresses of record stay as they are.
\<close>

theorem register_requires_authorization:
  assumes "HandleRegister uni H env r req tx = (Ok (r', out) :: ('e, _) go)"
    and "reg_passwd r = Some passwd" and "reg_bindings r' \<noteq> reg_bindings r"
  shows "\<exists>to st creds aors. SIPMessage_To req = Ok to
    \<and> VerifyDigestRequest uni H env passwd (register_ap (reg_maxFailedAttempts r)) req tx (reg_auth r)
        = (Ok (st, [], Some creds) :: ('e, _) go)
    \<and> ps_AORs passwd (dc_Username creds) = Some aors
    \<and> (\<exists>a \<in> set aors. NormalizeAOR a = NormalizeAOR (StripURIParams (addr_URI to)))
    \<and> (\<forall>aor. aor \<noteq> addr_URI to \<longrightarrow> fmlookup (reg_bindings r') aor = fmlookup (reg_bindings r) aor)"
  using assms(1)
proof (cases rule: HandleRegister_cases)
  case (answered to callID)
  then show ?thesis using assms(3) authorize_register_frame [OF answered(3)] by simp
next
  case (rejected to callID r1 dflt)
  then have "reg_bindings r' = reg_bindings r1" by (auto simp: update_bindings_def Let_def split: prod.splits if_splits)
  then show ?thesis using assms(3) authorize_register_frame [OF rejected(3)] by simp
next
  case (registered to callID r1 dflt bs res)
  have frame: "aor \<noteq> addr_URI to \<longrightarrow> fmlookup (reg_bindings r') aor = fmlookup (reg_bindings r) aor" for aor
    using registered(4) authorize_register_frame [OF registered(3)]
    by (auto simp: update_bindings_def Let_def split: prod.splits if_splits)
  from registered(3) show ?thesis
  proof (cases rule: authorize_register_cases)
    case (allowed passwd' st out' creds)
    then obtain aors where aors: "ps_AORs passwd (dc_Username creds) = Some aors"
      "\<exists>a \<in> set aors. NormalizeAOR a = NormalizeAOR (StripURIParams (addr_URI to))"
      using assms(2) by (cases "ps_AORs passwd (dc_Username creds)") (auto simp: AORAllowed_iff)
    have v: "VerifyDigestRequest uni H env passwd (register_ap (reg_maxFailedAttempts r)) req tx (reg_auth r)
        = (Ok (st, out', Some creds) :: ('e, _) go)" using allowed assms(2) by simp
    then have "out' = []" by (cases rule: VerifyDigestRequest_cases) simp_all
    then show ?thesis using registered(1) v aors frame by blast
  qed (use assms(2) in simp_all)
qed (use assms(3) in simp)

section \<open>Expiry\<close>

text \<open>The store of single bindings: the reaper keeps a binding exactly while it lives.\<close>

definition stored :: "Registrar \<Rightarrow> string \<times> Binding \<Rightarrow> Binding option" where
  "stored r k = (if snd k \<in> set (bindings_of r (fst k)) then Some (snd k) else None)"

lemma bindings_of_filter: "bindings_of (filter_bindings P r) aor = filter P (bindings_of r aor)"
  by (auto simp: bindings_of_def filter_bindings_def fmlookup_keep_live split: option.splits)

interpretation binding_store: expiring_store stored Registrar_sweep bd_Expires "\<lambda>now t. t > now"
  by unfold_locales (auto simp: stored_def Registrar_sweep_def bindings_of_filter split: if_splits)

lemma add_contacts_live:
  "add_contacts now (filter (\<lambda>b. bd_Expires b > now) bs) h m = add_contacts now bs h m"
  by (induction bs arbitrary: h m) (auto simp: time_Until_def Let_def)

text \<open>
  The reaper is invisible in answers: a REGISTER answer lists the bindings that have not expired, so it is the same
  before and after expired bindings were removed, and no binding that is alive at a later time was removed.
\<close>

theorem registrar_sweep_invisible:
  "sendRegisterResponse uni env req (bindings_of (Registrar_sweep r (env_now env)) aor)
     = sendRegisterResponse uni env req (bindings_of r aor)
   \<and> (b \<in> set (bindings_of (Registrar_sweep r now) aor) \<longleftrightarrow> b \<in> set (bindings_of r aor) \<and> bd_Expires b > now)"
proof -
  have "stored (Registrar_sweep r now) (aor, b) = (case stored r (aor, b) of Some v \<Rightarrow> if now < bd_Expires v then Some v else None | None \<Rightarrow> None)"
    by (rule binding_store.lookup_sweep)
  then have "b \<in> set (bindings_of (Registrar_sweep r now) aor) \<longleftrightarrow> b \<in> set (bindings_of r aor) \<and> bd_Expires b > now"
    by (auto simp: stored_def split: if_splits)
  then show ?thesis
    by (simp add: sendRegisterResponse_def Registrar_sweep_def bindings_of_filter add_contacts_live)
qed

text \<open>
  The lifetime of a binding is the requested one up to 9223372036 seconds, some 292 years; from 9223372037 to
  18446744073 seconds the multiplication overflows and the binding expires before it was made.
\<close>

theorem expires_overflow:
  "(0 \<le> n \<and> n \<le> 9223372036 \<longrightarrow> seconds n = n * 1000000000)
   \<and> (9223372037 \<le> n \<and> n \<le> 18446744073 \<longrightarrow>
        (\<forall>b \<in> set (upsertBinding now [] uri callID cseq n flowID ob regID inst). bd_Expires b < now))"
proof -
  have s: "seconds n = (n * 1000000000 + 2 ^ 63) mod 2 ^ 64 - 2 ^ 63"
    unfolding seconds_def signed_of_int by (simp add: signed_take_bit_eq_take_bit_shift take_bit_eq_mod)
  have "seconds n = n * 1000000000" if "0 \<le> n" "n \<le> 9223372036"
    using that unfolding s by (subst mod_pos_pos_trivial) simp_all
  moreover have "seconds n < 0" if "9223372037 \<le> n" "n \<le> 18446744073"
  proof -
    have "(n * 1000000000 + 2 ^ 63) mod 2 ^ 64 = (n * 1000000000 + 2 ^ 63 - 2 ^ 64) mod 2 ^ 64"
      by (rule minus_mod_self2 [symmetric])
    also have "\<dots> = n * 1000000000 + 2 ^ 63 - 2 ^ 64" using that by (intro mod_pos_pos_trivial) simp_all
    finally show ?thesis unfolding s using that by simp
  qed
  ultimately show ?thesis by simp
qed

theorem expires_overflow_witness:
  "seconds 3600 = 3600000000000"
  using expires_overflow [of 3600 0 "[]" "[]" 0 "[]" False 0 "[]"] by simp


section \<open>A worked registration\<close>

definition sample_registrar :: Registrar where
  "sample_registrar = NewRegistrar\<lparr>reg_passwd := Some sample_passwd, reg_auth := sample_auth_state\<rparr>"

definition sample_registration :: SIPMessage where
  "sample_registration = sample_register_auth\<lparr>msg_Headers := fmupd ''To'' [''<sip:u@d>''] (fmupd ''Contact'' [''<sip:u@h>'']
     (msg_Headers sample_register_auth))\<rparr>"

lemma registration_keys:
  "canonicalHeaderKey ''To'' = ''To''" "canonicalHeaderKey ''Contact'' = ''Contact''" "canonicalHeaderKey ''Expires'' = ''Expires''"
  "canonicalHeaderKey ''Require'' = ''Require''" "canonicalHeaderKey ''Supported'' = ''Supported''"
  by code_simp+

lemma registration_headers:
  "SIPHeaders_GetFirst (msg_Headers sample_registration) ''Contact'' = Ok ''<sip:u@h>''"
  "SIPHeaders_GetFirst (msg_Headers sample_registration) ''Expires'' = Ok []"
  "SIPHeaders_GetFirst (msg_Headers sample_registration) ''Require'' = Ok []"
  "SIPHeaders_GetFirst (msg_Headers sample_registration) ''Supported'' = Ok []"
  "SIPHeaders_GetFirst (msg_Headers sample_registration) ''Call-ID'' = Ok ''c''"
  "SIPHeaders_GetFirst (msg_Headers sample_registration) ''Authorization'' = Ok sample_answer"
  "SIPHeaders_GetFirst (msg_Headers sample_registration) ''To'' = Ok ''<sip:u@d>''"
  "SIPHeaders_Get (msg_Headers sample_registration) ''Contact'' = [''<sip:u@h>'']"
  "SIPMessage_RequestURI sample_registration = ''sip:d''"
  "msg_CSeq sample_registration = \<lparr>cseq_Method = ''REGISTER'', cseq_Seq = 1\<rparr>"
  by (simp_all add: SIPHeaders_GetFirst_def SIPHeaders_Get_def sample_keys registration_keys sample_registration_def
      sample_register_auth_def sample_register_def index_def NewRequest_def SIPMessage_RequestURI_def)

definition sample_parsed :: parsedContact where
  "sample_parsed = \<lparr>pc_uri = ''sip:u@h'', pc_sipInstance = [], pc_expires = - 1, pc_regID = - 1, pc_ob = False\<rparr>"

lemma registration_To:
  "UnmarshalSIPAddress ''<sip:u@d>'' = Ok (zero_SIPAddress\<lparr>addr_URI := ''sip:u@d''\<rparr>)"
  by (simp add: UnmarshalSIPAddress_def TrimSpace_id graphic_def Let_def zero_SIPAddress_def slice_def
      SIPAddress_unmarshalParams_def unmarshal_params.simps)

lemma registration_hosts: "uriHostname ''sip:d'' = ''d''" "uriHostname ''sip:u@d'' = ''d''"
  by (simp_all add: uriHostname_def uriHost_def TrimPrefix_def HasPrefix_def Let_def)

lemma registration_contacts: "extractContacts [''<sip:u@h>''] = ([sample_parsed], False)"
  by (simp add: extractContacts_def splitContactValues_def parseContactURI_def TrimSpace_id graphic_def uri_has_ob_def
      sample_parsed_def Let_def)

lemma registration_allowed: "AORAllowed [''sip:u@d''] ''sip:u@d''"
  by (simp add: StripURIParams_def)

lemma registration_verified:
  "VerifyDigestRequest sample_uni sample_hashes sample_env sample_passwd (register_ap 3) sample_registration
      sample_tx sample_auth_state = (Ok (used_nonce sample_auth_state ''41'' 1 \<lparr>ne_expires = 10, ne_maxNC = 0\<rparr>, [],
        Some sample_credentials) :: (unit, _) go)"
proof -
  have ap: "register_ap 3 = sample_ap" by (simp add: register_ap_def sample_ap_def)
  have "verify_credentials sample_uni sample_hashes sample_env sample_passwd sample_ap sample_registration sample_answer
      sample_auth_state = (Ok (used_nonce sample_auth_state ''41'' 1 \<lparr>ne_expires = 10, ne_maxNC = 0\<rparr>,
        Inr sample_credentials) :: (unit, _) go)"
    using verify_answer [of sample_passwd "''u''" "''h''" sample_auth_state "''41''" "\<lparr>ne_expires = 10, ne_maxNC = 0\<rparr>"
      sample_env 1 sample_response sample_hashes "''x''" sample_ap sample_registration "''MD5''"]
    by (simp add: sample_defs registration_headers sample_answer_def sample_response_def sample_credentials_def)
  then show ?thesis unfolding ap
    by (intro VerifyDigestRequest_verified)
      (simp_all add: registration_headers sample_ap_def sample_answer_def digest_answer_ne)
qed

lemma registration_handled:
  "\<exists>r' out. HandleRegister sample_uni sample_hashes sample_env sample_registrar sample_registration sample_tx
      = (Ok (r', out) :: (unit, _) go) \<and> reg_bindings r' \<noteq> reg_bindings sample_registrar
      \<and> fmlookup (reg_lastCSeq r') ''c'' = Some 1"
proof -
  have cred: "dc_Username sample_credentials = ''u''" by (simp add: sample_credentials_def answer_credentials_def)
  have reg: "reg_passwd sample_registrar = Some sample_passwd" "reg_maxFailedAttempts sample_registrar = 3"
    "reg_auth sample_registrar = sample_auth_state" "reg_bindings sample_registrar = fmempty" "reg_lastCSeq sample_registrar = fmempty"
    by (simp_all add: sample_registrar_def NewRegistrar_def DefaultMaxFailedAuthAttempts_def)
  have supp: "containsIgnoreCase sample_uni [] ''outbound'' = False"
    by (simp add: containsIgnoreCase_def ToLower_def ascii_string_def TrimSpace_id)
  define bs where "bs = apply_contacts (env_now sample_env) (default_expires []) ''c'' 1 (register_flowID sample_tx) [sample_parsed] []"
  have bs: "bs \<noteq> []" by (simp add: bs_def apply_contacts_simp upsert_contact_simps default_expires_def sample_parsed_def)
  obtain res where res: "sendRegisterResponse sample_uni sample_env sample_registration bs = (Ok res :: (unit, _) go)"
    by (cases "add_contacts (env_now sample_env) bs (SIPHeaders_Add (msg_Headers (NewResponse sample_registration 200 ''OK''))
          ''Date'' (format_RFC1123 (env_now sample_env))) (- 1)")
      (simp add: sendRegisterResponse_def registration_headers supp Let_def)
  have aors: "ps_AORs sample_passwd ''u'' = Some [''sip:u@d'']" by (simp add: sample_passwd_def)
  have blank: "TrimSpace ''<sip:u@h>'' = ''<sip:u@h>''" by (simp add: TrimSpace_id graphic_def)
  have nonempty: "fmupd k v m \<noteq> fmempty" for k v and m :: "(string, Binding list) fmap"
    by (metis fmempty_lookup fmupd_lookup option.distinct(1))
  show ?thesis
    using bs res by (simp add: HandleRegister_def Let_def registration_headers SIPMessage_To_def registration_To
        zero_SIPAddress_def registration_hosts registration_contacts registration_allowed authorize_register_def reg
        registration_verified cred aors update_bindings_def bindings_of_def blank nonempty flip: bs_def
        del: AORAllowed.simps)
qed

theorem HandleRegister_one_answer_witness:
  "\<exists>r' out. HandleRegister sample_uni sample_hashes sample_env sample_registrar sample_registration sample_tx
      = (Ok (r', out) :: (unit, _) go) \<and> length out = 1"
  using registration_handled HandleRegister_one_answer by blast

theorem register_cseq_monotone_witness:
  "\<exists>r' out. HandleRegister sample_uni sample_hashes sample_env sample_registrar sample_registration sample_tx
      = (Ok (r', out) :: (unit, _) go) \<and> fmlookup (reg_lastCSeq r') ''c'' = Some (cseq_Seq (msg_CSeq sample_registration))"
proof -
  from registration_handled obtain r' out where r': "HandleRegister sample_uni sample_hashes sample_env sample_registrar
      sample_registration sample_tx = (Ok (r', out) :: (unit, _) go)" "reg_bindings r' \<noteq> reg_bindings sample_registrar" by blast
  from register_cseq_monotone [OF r'(1), of "''c''"] r' show ?thesis by (simp add: registration_headers)
qed

theorem register_requires_authorization_witness:
  "\<exists>to st creds. SIPMessage_To sample_registration = Ok to
    \<and> VerifyDigestRequest sample_uni sample_hashes sample_env sample_passwd (register_ap 3) sample_registration sample_tx
        sample_auth_state = (Ok (st, [], Some creds) :: (unit, _) go)"
proof -
  from registration_handled obtain r' out where r': "HandleRegister sample_uni sample_hashes sample_env sample_registrar
      sample_registration sample_tx = (Ok (r', out) :: (unit, _) go)" "reg_bindings r' \<noteq> reg_bindings sample_registrar" by blast
  from register_requires_authorization [OF r'(1) _ r'(2), of sample_passwd] show ?thesis
    by (auto simp: sample_registrar_def NewRegistrar_def DefaultMaxFailedAuthAttempts_def)
qed


end
