(* ===== verification/Trunk.thy ===== *)
theory Trunk
  imports Registrar Go_Float
begin

text \<open>
  SIP trunks and the dialplan: \<^verbatim>\<open>internal/trunk/config.go\<close>, \<^verbatim>\<open>route.go\<close>, \<^verbatim>\<open>manager.go\<close> and \<^verbatim>\<open>internal/dialplan\<close>.
  A configuration is modelled after its JSON was decoded.  The parsers of addresses and prefixes, the
  regular expressions and the exchange with a remote registrar are arguments; a compiled expression is the set
  of the strings in which it finds a match.
\<close>

section \<open>Configuration\<close>

record ip_addr =
  ia_bits :: nat
  ia_value :: nat
  ia_zone :: string

record ip_prefix =
  ip_base :: ip_addr
  ip_len :: nat

text \<open>\<^verbatim>\<open>netip.Prefix.Contains\<close>: same family, no zone, and the same leading bits.\<close>

definition prefix_Contains :: "ip_prefix \<Rightarrow> ip_addr \<Rightarrow> bool" where
  "prefix_Contains p a \<longleftrightarrow> ia_bits (ip_base p) = ia_bits a \<and> ia_zone a = [] \<and> 0 < ia_bits a
     \<and> ia_value (ip_base p) div 2 ^ (ia_bits a - ip_len p) = ia_value a div 2 ^ (ia_bits a - ip_len p)"

record net_library =
  net_ParsePrefix :: "string \<Rightarrow> ip_prefix option"
  net_ParseAddr :: "string \<Rightarrow> ip_addr option"
  regexp_Compile :: "string \<Rightarrow> (string \<Rightarrow> bool) option"

type_synonym TrunkType = string

definition TrunkTypeStatic :: TrunkType where "TrunkTypeStatic = ''static''"
definition TrunkTypeRegistration :: TrunkType where "TrunkTypeRegistration = ''registration''"

record Trunk =
  trk_Name :: string
  trk_Type :: TrunkType
  trk_Host :: string
  trk_Port :: int
  trk_Transport :: string
  trk_AuthUser :: string
  trk_AuthPass :: string
  trk_Realm :: string
  trk_Codecs :: "string list"
  trk_MaxChannels :: int
  trk_CallerID :: string
  trk_TrustedIPs :: "string list"
  trk_RegisterURI :: string
  trk_StripHeaders :: "string list"
  trk_SessionExpiresSec :: int
  trk_LocalIP :: string
  trk_validCIDRs :: "ip_prefix list"

record OutboundRoute =
  rt_Name :: string
  rt_Pattern :: string
  rt_TrunkName :: string
  rt_StripDigits :: int
  rt_Prefix :: string
  rt_compiled :: "(string \<Rightarrow> bool) option"

record TrunkConfig =
  cfg_Trunks :: "Trunk list"
  cfg_Routes :: "OutboundRoute list"

datatype trunk_error =
    NoTrunks
  | NameRequired
  | HostRequired
  | PortRange int
  | UnsupportedTransport string
  | UnsupportedType string
  | AuthUserRequired
  | AuthPassRequired
  | NegativeMaxChannels
  | DuplicateTrunk string
  | BadPrefix string
  | PatternRequired
  | BadPattern string
  | NegativeStripDigits
  | TrunkRequired
  | UnknownTrunk string

definition Trunk_validate :: "unicode_tables \<Rightarrow> Trunk \<Rightarrow> (trunk_error, Trunk) go" where
  "Trunk_validate uni t =
     (if trk_Name t = [] then Fail NameRequired
      else if trk_Host t = [] then Fail HostRequired
      else if trk_Port t < 1 \<or> 65535 < trk_Port t then Fail (PortRange (trk_Port t))
      else
        let tr = ToLower (uni_lower uni) (trk_Transport t) in
        and_then (if tr = ''udp'' \<or> tr = ''tcp'' then Ok t
                  else if tr = [] then Ok (t\<lparr>trk_Transport := ''udp''\<rparr>)
                  else Fail (UnsupportedTransport (trk_Transport t))) (\<lambda>t.
          if trk_Type t \<noteq> TrunkTypeStatic \<and> trk_Type t \<noteq> TrunkTypeRegistration then Fail (UnsupportedType (trk_Type t))
          else if trk_Type t = TrunkTypeRegistration \<and> trk_AuthUser t = [] then Fail AuthUserRequired
          else if trk_Type t = TrunkTypeRegistration \<and> trk_AuthPass t = [] then Fail AuthPassRequired
          else if trk_MaxChannels t < 0 then Fail NegativeMaxChannels
          else Ok t))"

fun parse_prefixes :: "net_library \<Rightarrow> string list \<Rightarrow> (trunk_error, ip_prefix list) go" where
  "parse_prefixes net [] = Ok []"
| "parse_prefixes net (cidr # cidrs) = (case net_ParsePrefix net cidr of
     None \<Rightarrow> Fail (BadPrefix cidr)
   | Some p \<Rightarrow> and_then (parse_prefixes net cidrs) (\<lambda>ps. Ok (p # ps)))"

fun validate_trunks ::
  "unicode_tables \<Rightarrow> net_library \<Rightarrow> Trunk list \<Rightarrow> string list \<Rightarrow> (trunk_error, Trunk list \<times> string list) go" where
  "validate_trunks uni net [] names = Ok ([], names)"
| "validate_trunks uni net (t # ts) names =
     and_then (Trunk_validate uni t) (\<lambda>t.
     if trk_Name t \<in> set names then Fail (DuplicateTrunk (trk_Name t))
     else
       and_then (parse_prefixes net (trk_TrustedIPs t)) (\<lambda>ps.
       and_then (validate_trunks uni net ts (trk_Name t # names)) (\<lambda>(ts, names).
       Ok (t\<lparr>trk_validCIDRs := trk_validCIDRs t @ ps\<rparr> # ts, names))))"

definition OutboundRoute_validate :: "net_library \<Rightarrow> OutboundRoute \<Rightarrow> (trunk_error, OutboundRoute) go" where
  "OutboundRoute_validate net r =
     (if rt_Name r = [] then Fail NameRequired
      else if rt_Pattern r = [] then Fail PatternRequired
      else case regexp_Compile net (rt_Pattern r) of
        None \<Rightarrow> Fail (BadPattern (rt_Pattern r))
      | Some re \<Rightarrow>
          if rt_StripDigits r < 0 then Fail NegativeStripDigits
          else if rt_TrunkName r = [] then Fail TrunkRequired
          else Ok (r\<lparr>rt_compiled := Some re\<rparr>))"

fun validate_routes :: "net_library \<Rightarrow> string list \<Rightarrow> OutboundRoute list \<Rightarrow> (trunk_error, OutboundRoute list) go" where
  "validate_routes net names [] = Ok []"
| "validate_routes net names (r # rs) =
     and_then (OutboundRoute_validate net r) (\<lambda>r.
     if rt_TrunkName r \<notin> set names then Fail (UnknownTrunk (rt_TrunkName r))
     else and_then (validate_routes net names rs) (\<lambda>rs. Ok (r # rs)))"

definition TrunkConfig_validate :: "unicode_tables \<Rightarrow> net_library \<Rightarrow> TrunkConfig \<Rightarrow> (trunk_error, TrunkConfig) go" where
  "TrunkConfig_validate uni net cfg =
     (if cfg_Trunks cfg = [] then Fail NoTrunks
      else
        and_then (validate_trunks uni net (cfg_Trunks cfg) []) (\<lambda>(ts, names).
        and_then (validate_routes net names (cfg_Routes cfg)) (\<lambda>rs.
        Ok \<lparr>cfg_Trunks = ts, cfg_Routes = rs\<rparr>)))"

definition Trunk_TrustedIPMatches :: "net_library \<Rightarrow> Trunk \<Rightarrow> string \<Rightarrow> bool" where
  "Trunk_TrustedIPMatches net t ip = (case net_ParseAddr net ip of
     None \<Rightarrow> False | Some addr \<Rightarrow> list_ex (\<lambda>p. prefix_Contains p addr) (trk_validCIDRs t))"

definition LocalIPWithDefault :: "Trunk \<Rightarrow> string \<Rightarrow> string" where
  "LocalIPWithDefault t defaultIP = (if trk_LocalIP t \<noteq> [] then trk_LocalIP t else defaultIP)"

definition RegisterURIString :: "Trunk \<Rightarrow> string" where
  "RegisterURIString t = (if trk_RegisterURI t \<noteq> [] then trk_RegisterURI t else ''sip:'' @ trk_AuthUser t @ ''@'' @ trk_Host t)"

section \<open>The manager\<close>

record TrunkManager =
  tk_trunks :: "(string, Trunk) fmap"
  tk_routes :: "OutboundRoute list"
  tk_activeCalls :: "(string, int) fmap"
  tk_regs :: "string list"
  tk_serverIP :: string
  tk_serverAddr :: string
  tk_started :: bool

fun add_trunks :: "net_library \<Rightarrow> Trunk list \<Rightarrow> (string, Trunk) fmap \<Rightarrow> (trunk_error, (string, Trunk) fmap) go" where
  "add_trunks net [] m = Ok m"
| "add_trunks net (t # ts) m =
     (if fmlookup m (trk_Name t) \<noteq> None then Fail (DuplicateTrunk (trk_Name t))
      else
        and_then (if trk_validCIDRs t = [] \<and> trk_TrustedIPs t \<noteq> [] then
            and_then (parse_prefixes net (trk_TrustedIPs t)) (\<lambda>ps. Ok (t\<lparr>trk_validCIDRs := ps\<rparr>))
          else Ok t) (\<lambda>t.
        add_trunks net ts (fmupd (trk_Name t) t m)))"

fun compile_routes :: "net_library \<Rightarrow> OutboundRoute list \<Rightarrow> (trunk_error, OutboundRoute list) go" where
  "compile_routes net [] = Ok []"
| "compile_routes net (r # rs) =
     and_then (case rt_compiled r of
         Some _ \<Rightarrow> Ok r
       | None \<Rightarrow> (case regexp_Compile net (rt_Pattern r) of
           None \<Rightarrow> Fail (BadPattern (rt_Pattern r)) | Some re \<Rightarrow> Ok (r\<lparr>rt_compiled := Some re\<rparr>))) (\<lambda>r.
     and_then (compile_routes net rs) (\<lambda>rs. Ok (r # rs)))"

definition NewTrunkManager :: "net_library \<Rightarrow> TrunkConfig \<Rightarrow> string \<Rightarrow> string \<Rightarrow> (trunk_error, TrunkManager) go" where
  "NewTrunkManager net cfg serverIP serverAddr =
     and_then (add_trunks net (cfg_Trunks cfg) fmempty) (\<lambda>trunks.
     and_then (compile_routes net (cfg_Routes cfg)) (\<lambda>routes.
     Ok \<lparr>tk_trunks = trunks, tk_routes = routes, tk_activeCalls = fmempty, tk_regs = [], tk_serverIP = serverIP,
         tk_serverAddr = serverAddr, tk_started = False\<rparr>))"

definition TrunkManager_Start :: "TrunkManager \<Rightarrow> TrunkManager" where
  "TrunkManager_Start m =
     (if tk_started m then m
      else m\<lparr>tk_started := True,
        tk_regs := tk_regs m @ filter (\<lambda>n. trk_Type (the (fmlookup (tk_trunks m) n)) = TrunkTypeRegistration \<and> n \<notin> set (tk_regs m))
          (sorted_list_of_fset (fmdom (tk_trunks m)))\<rparr>)"

definition TrunkManager_Stop :: "TrunkManager \<Rightarrow> TrunkManager" where
  "TrunkManager_Stop m = m\<lparr>tk_regs := [], tk_started := False\<rparr>"

definition TrunkManager_TrustedIPMatches :: "net_library \<Rightarrow> TrunkManager \<Rightarrow> string \<Rightarrow> bool" where
  "TrunkManager_TrustedIPMatches net m ip =
     list_ex (\<lambda>n. Trunk_TrustedIPMatches net (the (fmlookup (tk_trunks m) n)) ip) (sorted_list_of_fset (fmdom (tk_trunks m)))"

text \<open>Channels.  An absent counter is zero; counters are far below the range of 64-bit integers.\<close>

definition ActiveCalls :: "TrunkManager \<Rightarrow> string \<Rightarrow> int" where
  "ActiveCalls m name = (case fmlookup (tk_activeCalls m) name of Some n \<Rightarrow> n | None \<Rightarrow> 0)"

definition AcquireChannel :: "string \<Rightarrow> TrunkManager \<Rightarrow> TrunkManager \<times> bool" where
  "AcquireChannel name m = (case fmlookup (tk_trunks m) name of
     None \<Rightarrow> (m, False)
   | Some t \<Rightarrow>
       if trk_MaxChannels t = 0 then (m\<lparr>tk_activeCalls := fmupd name (ActiveCalls m name + 1) (tk_activeCalls m)\<rparr>, True)
       else if trk_MaxChannels t \<le> ActiveCalls m name then (m, False)
       else (m\<lparr>tk_activeCalls := fmupd name (ActiveCalls m name + 1) (tk_activeCalls m)\<rparr>, True))"

definition ReleaseChannel :: "string \<Rightarrow> TrunkManager \<Rightarrow> TrunkManager" where
  "ReleaseChannel name m =
     (if 0 < ActiveCalls m name then m\<lparr>tk_activeCalls := fmupd name (ActiveCalls m name - 1) (tk_activeCalls m)\<rparr> else m)"

section \<open>Routes\<close>

definition applyDigitManipulation :: "string \<Rightarrow> int \<Rightarrow> string \<Rightarrow> string" where
  "applyDigitManipulation input stripDigits prefix =
     (let result = (if 0 < stripDigits \<and> stripDigits \<le> int (length input) then drop (nat stripDigits) input else input)
      in if prefix \<noteq> [] then prefix @ result else result)"

text \<open>A route whose expression was never compiled is a nil pointer.\<close>

fun match_route :: "(string, Trunk) fmap \<Rightarrow> string \<Rightarrow> OutboundRoute list \<Rightarrow> ('e, (Trunk \<times> string) option) go" where
  "match_route trunks user [] = Ok None"
| "match_route trunks user (r # rs) = (case rt_compiled r of
     None \<Rightarrow> Panic
   | Some re \<Rightarrow>
       if \<not> re user then match_route trunks user rs
       else case fmlookup trunks (rt_TrunkName r) of
         None \<Rightarrow> match_route trunks user rs
       | Some t \<Rightarrow> Ok (Some (t, applyDigitManipulation user (rt_StripDigits r) (rt_Prefix r))))"

definition MatchRoute :: "TrunkManager \<Rightarrow> string \<Rightarrow> ('e, (Trunk \<times> string) option) go" where
  "MatchRoute m user = match_route (tk_trunks m) user (tk_routes m)"

definition TrunkByName :: "TrunkManager \<Rightarrow> string \<Rightarrow> Trunk option" where
  "TrunkByName m name = fmlookup (tk_trunks m) name"

definition FormatTrunkContact :: "string \<Rightarrow> string \<Rightarrow> string \<Rightarrow> string" where
  "FormatTrunkContact serverIP serverAddr transport = ''<sip:trec@'' @ serverIP @ '';transport='' @ transport @ ''>''"

section \<open>Registration with a provider\<close>

text \<open>
  \<^verbatim>\<open>sendSIP\<close> is the exchange with the provider: the response to the bytes that are sent, or \<open>None\<close> for an error.
  The library function behind the verb for quoted strings is an argument, too.
\<close>

record reg_env =
  re_sendSIP :: "string \<Rightarrow> string \<Rightarrow> string \<Rightarrow> SIPMessage option"
  re_branch :: string
  re_branch2 :: string
  re_nanos :: int
  re_quote :: "string \<Rightarrow> string"

datatype reg_error =
    RegSend
  | RegNoChallenge
  | RegStatus int
  | RegParse auth_error

definition CRLF :: string where "CRLF = [CR, LF]"

fun expires_param :: "string list \<Rightarrow> int option" where
  "expires_param [] = None"
| "expires_param (part # parts) =
     (case Cut (TrimSpace part) ''='' of (k, v, found) \<Rightarrow>
        if found \<and> EqualFold k ''expires'' then
          (case Atoi v of Some n \<Rightarrow> if 0 < n then Some n else expires_param parts | None \<Rightarrow> expires_param parts)
        else expires_param parts)"

fun contact_expires :: "string list \<Rightarrow> int option" where
  "contact_expires [] = None"
| "contact_expires (c # cs) =
     (case (if Contains c '';expires='' then expires_param (Split c (CHR '';'')) else None) of
        Some n \<Rightarrow> Some n | None \<Rightarrow> contact_expires cs)"

definition parseExpires :: "SIPMessage \<Rightarrow> int \<Rightarrow> ('e, int) go" where
  "parseExpires resp defaultSecs =
     and_then (SIPHeaders_GetFirst (msg_Headers resp) ''Expires'') (\<lambda>expStr.
     if expStr = [] then
       Ok (case contact_expires (SIPHeaders_Get (msg_Headers resp) ''Contact'') of Some n \<Rightarrow> n | None \<Rightarrow> defaultSecs)
     else Ok (case Atoi (TrimSpace expStr) of Some n \<Rightarrow> if 0 < n then n else defaultSecs | None \<Rightarrow> defaultSecs))"

definition register_request ::
  "unicode_tables \<Rightarrow> Trunk \<Rightarrow> uri \<Rightarrow> string \<Rightarrow> string \<Rightarrow> string \<Rightarrow> string \<Rightarrow> string \<Rightarrow> string option \<Rightarrow> string" where
  "register_request uni t registerURI localIP branch callID cseq contact auth =
     ''REGISTER '' @ registerURI @ '' SIP/2.0'' @ CRLF
     @ ''Via: SIP/2.0/'' @ ToUpper (uni_upper uni) (trk_Transport t) @ '' '' @ localIP @ '';branch='' @ branch @ CRLF
     @ ''From: '' @ registerURI @ CRLF
     @ ''To: '' @ registerURI @ CRLF
     @ ''Call-ID: '' @ callID @ CRLF
     @ ''CSeq: '' @ cseq @ '' REGISTER'' @ CRLF
     @ ''Contact: '' @ contact @ CRLF
     @ ''Max-Forwards: 70'' @ CRLF
     @ (case auth of None \<Rightarrow> [] | Some authValue \<Rightarrow> ''Authorization: '' @ authValue @ CRLF)
     @ ''Content-Length: 0'' @ CRLF @ CRLF"

definition authenticatedRegister ::
  "unicode_tables \<Rightarrow> hashes \<Rightarrow> reg_env \<Rightarrow> TrunkManager \<Rightarrow> Trunk \<Rightarrow> uri \<Rightarrow> string \<Rightarrow> string \<Rightarrow> string \<Rightarrow> string \<Rightarrow> (reg_error, int) go" where
  "authenticatedRegister uni H env m t registerURI hostPort contact callID wwwAuth =
     (case ParseDigest uni wwwAuth of
        Panic \<Rightarrow> Panic
      | Fail e \<Rightarrow> Fail (RegParse e)
      | Ok challenge \<Rightarrow>
          let ha1 = ComputeHA1 H (trk_AuthUser t) (dc_Realm challenge) (trk_AuthPass t) (dc_Algorithm challenge);
              nc = ''00000001'';
              digestResp = ComputeDigestResponse H ha1 (dc_Nonce challenge) nc ''deadbeef'' ''auth'' ''REGISTER'' registerURI (dc_Algorithm challenge);
              authValue = ''Digest username='' @ re_quote env (trk_AuthUser t) @ '', realm='' @ re_quote env (dc_Realm challenge)
                @ '', nonce='' @ re_quote env (dc_Nonce challenge) @ '', uri='' @ re_quote env registerURI
                @ '', response='' @ re_quote env digestResp @ '', algorithm='' @ dc_Algorithm challenge
                @ '', cnonce='' @ dq @ ''deadbeef'' @ dq @ '', nc='' @ nc @ '', qop=auth'';
              localIP = LocalIPWithDefault t (tk_serverIP m);
              body = register_request uni t registerURI localIP (re_branch2 env) callID ''2'' contact (Some authValue)
          in case re_sendSIP env (trk_Transport t) hostPort body of
               None \<Rightarrow> Fail RegSend
             | Some resp \<Rightarrow>
                 if SIPMessage_StatusCode resp \<noteq> 200 then Fail (RegStatus (SIPMessage_StatusCode resp))
                 else and_then (parseExpires resp 3600) (\<lambda>expires. Ok (seconds expires)))"

definition registerOnce :: "unicode_tables \<Rightarrow> hashes \<Rightarrow> reg_env \<Rightarrow> TrunkManager \<Rightarrow> Trunk \<Rightarrow> (reg_error, int) go" where
  "registerOnce uni H env m t =
     (let registerURI = RegisterURIString t;
          hostPort = JoinHostPort (trk_Host t) (Itoa (trk_Port t));
          localIP = LocalIPWithDefault t (tk_serverIP m);
          contact = ''<sip:trec@'' @ localIP @ ''>'';
          callID = ''trunk-reg-'' @ trk_Name t @ ''-'' @ Itoa (re_nanos env)
      in case re_sendSIP env (trk_Transport t) hostPort
           (register_request uni t registerURI localIP (re_branch env) callID ''1'' contact None) of
          None \<Rightarrow> Fail RegSend
        | Some resp \<Rightarrow>
            let sc = SIPMessage_StatusCode resp in
            if sc = 200 then and_then (parseExpires resp 3600) (\<lambda>expires. Ok (seconds expires))
            else if sc = 401 then
              and_then (SIPHeaders_GetFirst (msg_Headers resp) ''WWW-Authenticate'') (\<lambda>wwwAuth.
                if wwwAuth = [] then Fail RegNoChallenge
                else authenticatedRegister uni H env m t registerURI hostPort contact callID wwwAuth)
            else Fail (RegStatus sc))"

text \<open>
  One round of the loop: the outcome of a registration and the current back-off give the next back-off and the time to wait, or
  the end of the loop when the context was cancelled (before the test after a failure, or during the wait after a success).
\<close>

definition reRegisterIn :: "int \<Rightarrow> int" where
  "reRegisterIn expires = ftrunc (fmul (round64 (of_int expires)) (3 / 4))"

definition registration_round :: "bool \<Rightarrow> (reg_error, int) go \<Rightarrow> int \<Rightarrow> ('e, (int \<times> int) option) go" where
  "registration_round cancelled outcome backoff = (case outcome of
     Panic \<Rightarrow> Panic
   | Fail _ \<Rightarrow>
       if cancelled then Ok None
       else
         let backoff = (if backoff = 0 then 30000000000 else if 300000000000 < 2 * backoff then 300000000000 else 2 * backoff)
         in Ok (Some (backoff, backoff))
   | Ok expires \<Rightarrow> if cancelled then Ok None else Ok (Some (0, reRegisterIn expires)))"

section \<open>The dialplan\<close>

datatype Action = ActionEcho | ActionPlay

record Entry =
  ent_File :: string
  ent_Action :: Action

type_synonym Dialplan = "(string, Entry) fmap"

fun load_entries :: "(string \<times> string \<times> string) list \<Rightarrow> Dialplan \<Rightarrow> Dialplan" where
  "load_entries [] m = m"
| "load_entries ((ext, action, file) # es) m = load_entries es
     (if action = ''echo'' then fmupd ext \<lparr>ent_File = [], ent_Action = ActionEcho\<rparr> m
      else if action = ''play'' then fmupd ext \<lparr>ent_File = file, ent_Action = ActionPlay\<rparr> m
      else m)"

definition Dialplan_Lookup :: "Dialplan \<Rightarrow> SIPMessage \<Rightarrow> Entry option" where
  "Dialplan_Lookup dp req =
     (let user = ExtractUser (SIPMessage_RequestURI req) in
      case fmlookup dp user of Some e \<Rightarrow> Some e | None \<Rightarrow> fmlookup dp ''*'')"



section \<open>Channels\<close>

text \<open>
  What a trunk promises to the calls that use it: a channel is granted only below the limit, a grant and a release change the count
  of that trunk by one, and nothing else changes.
\<close>

datatype 'n channel_op = Acquire 'n | Release 'n

locale channel_pool =
  fixes acquire :: "'n \<Rightarrow> 's \<Rightarrow> 's \<times> bool" and release :: "'n \<Rightarrow> 's \<Rightarrow> 's" and active :: "'s \<Rightarrow> 'n \<Rightarrow> int"
    and limit :: "'s \<Rightarrow> 'n \<Rightarrow> int option"
  assumes granted: "snd (acquire n s) \<Longrightarrow> active (fst (acquire n s)) k = (if k = n then active s k + 1 else active s k)"
    and refused: "\<not> snd (acquire n s) \<Longrightarrow> fst (acquire n s) = s"
    and limited: "limit s n = Some l \<Longrightarrow> snd (acquire n s) \<longleftrightarrow> active s n < l"
    and released: "0 \<le> active s k \<Longrightarrow> active (release n s) k = (if k = n then max 0 (active s k - 1) else active s k)"
    and same_limit: "limit (fst (acquire n s)) k = limit s k" "limit (release n s) k = limit s k"
begin

fun run_op :: "'n channel_op \<Rightarrow> 's \<Rightarrow> 's" where
  "run_op (Acquire n) s = fst (acquire n s)"
| "run_op (Release n) s = release n s"

text \<open>The channels of \<open>n\<close> that are held after a history: grants less releases.\<close>

fun held :: "'n \<Rightarrow> 'n channel_op list \<Rightarrow> 's \<Rightarrow> int" where
  "held n [] s = 0"
| "held n (Acquire k # ops) s = (if k = n \<and> snd (acquire k s) then 1 else 0) + held n ops (fst (acquire k s))"
| "held n (Release k # ops) s = (if k = n then -1 else 0) + held n ops (release k s)"

lemma run_limit: "limit (fold run_op ops s) n = limit s n"
  by (induction ops arbitrary: s; simp) (metis run_op.elims same_limit)

lemma op_bounds:
  assumes "0 \<le> active s n" and "limit s n = Some l \<Longrightarrow> active s n \<le> l"
  shows "0 \<le> active (run_op e s) n" and "limit s n = Some l \<Longrightarrow> 0 \<le> l \<Longrightarrow> active (run_op e s) n \<le> l"
proof -
  show "0 \<le> active (run_op e s) n"
  proof (cases e)
    case (Acquire k)
    then show ?thesis using assms(1) granted [of k s n] refused [of k s] by (cases "snd (acquire k s)") auto
  qed (use assms(1) released in auto)
  show "active (run_op e s) n \<le> l" if l: "limit s n = Some l" "0 \<le> l"
  proof (cases e)
    case (Acquire k)
    then show ?thesis using assms(2) l granted [of k s n] refused [of k s] limited [of s n l]
      by (cases "snd (acquire k s)") auto
  qed (use assms l released in auto)
qed

lemma pool_bounds:
  assumes "0 \<le> active s n" and "limit s n = Some l \<Longrightarrow> 0 \<le> l \<and> active s n \<le> l"
  shows "0 \<le> active (fold run_op ops s) n \<and> (limit s n = Some l \<longrightarrow> active (fold run_op ops s) n \<le> l)"
  using assms
proof (induction ops arbitrary: s)
  case (Cons e ops)
  have "0 \<le> active (run_op e s) n" "limit s n = Some l \<Longrightarrow> active (run_op e s) n \<le> l"
    using op_bounds [of s n l e] Cons.prems by auto
  moreover have "limit (run_op e s) n = limit s n" using run_limit [of "[e]" s n] by simp
  ultimately show ?case using Cons.IH [of "run_op e s"] Cons.prems(2) by simp
qed simp

text \<open>A history is fair when nothing is released that is not held.\<close>

definition fair :: "'n \<Rightarrow> 'n channel_op list \<Rightarrow> 's \<Rightarrow> bool" where
  "fair n ops s \<longleftrightarrow> (\<forall>i \<le> length ops. 0 \<le> active s n + held n (take i ops) s)"

lemma pool_accounting: "0 \<le> active s n \<Longrightarrow> fair n ops s \<Longrightarrow> active (fold run_op ops s) n = active s n + held n ops s"
proof (induction ops arbitrary: s)
  case (Cons e ops)
  have one: "active (run_op e s) n = active s n + held n [e] s"
  proof (cases e)
    case (Acquire k)
    then show ?thesis using granted [of k s n] refused [of k s] by (cases "snd (acquire k s)") auto
  next
    case (Release k)
    have "0 \<le> active s n + held n [e] s" using Cons.prems(2) [unfolded fair_def, rule_format, of 1] by simp
    then show ?thesis using Release released [of s n k] Cons.prems(1) by (auto split: if_splits)
  qed
  have split: "held n (e # xs) s = held n [e] s + held n xs (run_op e s)" for xs by (cases e) simp_all
  have "0 \<le> active s n + held n [e] s" using Cons.prems(2) [unfolded fair_def, rule_format, of 1] by simp
  moreover have "fair n ops (run_op e s)" unfolding fair_def
  proof (intro allI impI)
    fix i assume "i \<le> length ops"
    then show "0 \<le> active (run_op e s) n + held n (take i ops) (run_op e s)"
      using Cons.prems(2) [unfolded fair_def, rule_format, of "Suc i"] split [of "take i ops"] one by simp
  qed
  ultimately show ?case using Cons.IH [of "run_op e s"] one split [of ops] by simp
qed simp

end

text \<open>The limit of a trunk; zero means that there is none, and on a trunk that is not configured nothing is ever granted.\<close>

definition channel_limit :: "TrunkManager \<Rightarrow> string \<Rightarrow> int option" where
  "channel_limit m name = (case fmlookup (tk_trunks m) name of
     None \<Rightarrow> None | Some t \<Rightarrow> if trk_MaxChannels t = 0 then None else Some (trk_MaxChannels t))"

interpretation trunk_channels: channel_pool AcquireChannel ReleaseChannel ActiveCalls channel_limit
  by unfold_locales
    (auto simp: AcquireChannel_def ReleaseChannel_def channel_limit_def ActiveCalls_def split: option.splits if_splits)

fun channel_op_run :: "string channel_op \<Rightarrow> TrunkManager \<Rightarrow> TrunkManager" where
  "channel_op_run (Acquire n) m = fst (AcquireChannel n m)"
| "channel_op_run (Release n) m = ReleaseChannel n m"

lemma channel_op_run_eq: "channel_op_run = trunk_channels.run_op"
  by (intro ext) (metis channel_op_run.simps trunk_channels.run_op.elims)

lemma channel_run_trunks: "tk_trunks (fold channel_op_run ops m) = tk_trunks m"
proof (induction ops arbitrary: m)
  case (Cons e ops)
  have "tk_trunks (channel_op_run e m) = tk_trunks m"
    by (cases e) (auto simp: AcquireChannel_def ReleaseChannel_def split: option.splits)
  then show ?case using Cons by simp
qed simp

lemma Trunk_validate_facts:
  assumes "Trunk_validate uni t = Ok t'"
  shows "trk_Name t' = trk_Name t \<and> trk_Name t \<noteq> [] \<and> trk_Host t' \<noteq> [] \<and> 1 \<le> trk_Port t' \<and> trk_Port t' \<le> 65535
     \<and> 0 \<le> trk_MaxChannels t' \<and> trk_TrustedIPs t' = trk_TrustedIPs t \<and> trk_validCIDRs t' = trk_validCIDRs t
     \<and> (ToLower (uni_lower uni) (trk_Transport t') = ''udp'' \<or> ToLower (uni_lower uni) (trk_Transport t') = ''tcp'')"
proof -
  have u: "ToLower tbl ''udp'' = ''udp''" for tbl by (simp add: ToLower_def ascii_string_def lower_char_def)
  show ?thesis using assms unfolding Trunk_validate_def Let_def by (simp add: and_then_eq_Ok u split: if_split_asm) (force simp: u)
qed

lemma parse_prefixes_length: "parse_prefixes net cs = Ok ps \<Longrightarrow> length ps = length cs"
  by (induction cs arbitrary: ps) (auto simp: and_then_eq_Ok split: option.splits)

text \<open>What validation guarantees of the trunks.\<close>

definition trunk_ok :: "unicode_tables \<Rightarrow> Trunk \<Rightarrow> bool" where
  "trunk_ok uni t \<longleftrightarrow> trk_Name t \<noteq> [] \<and> trk_Host t \<noteq> [] \<and> 1 \<le> trk_Port t \<and> trk_Port t \<le> 65535 \<and> 0 \<le> trk_MaxChannels t
     \<and> length (trk_TrustedIPs t) \<le> length (trk_validCIDRs t)
     \<and> ToLower (uni_lower uni) (trk_Transport t) \<in> {''udp'', ''tcp''}"

lemma validate_trunks_facts:
  assumes "validate_trunks uni net ts names = Ok (ts', names')"
  shows "map trk_Name ts' = map trk_Name ts \<and> set names' = set names \<union> set (map trk_Name ts)
     \<and> distinct (map trk_Name ts') \<and> set (map trk_Name ts') \<inter> set names = {} \<and> list_all (trunk_ok uni) ts'"
  using assms
proof (induction ts arbitrary: names ts' names')
  case (Cons t ts)
  from Cons.prems obtain u ps us where v: "Trunk_validate uni t = Ok u" "trk_Name u \<notin> set names"
    "parse_prefixes net (trk_TrustedIPs u) = Ok ps" "validate_trunks uni net ts (trk_Name u # names) = Ok (us, names')"
    "ts' = u\<lparr>trk_validCIDRs := trk_validCIDRs u @ ps\<rparr> # us"
    by (auto simp: and_then_eq_Ok split: if_splits)
  have "trunk_ok uni (u\<lparr>trk_validCIDRs := trk_validCIDRs u @ ps\<rparr>)"
    using Trunk_validate_facts [OF v(1)] parse_prefixes_length [OF v(3)] by (simp add: trunk_ok_def)
  then show ?case using Cons.IH [OF v(4)] v Trunk_validate_facts [OF v(1)] by (force simp: v(5))
qed simp

lemma validate_routes_facts:
  assumes "validate_routes net names rs = Ok rs'"
  shows "list_all (\<lambda>r. rt_compiled r \<noteq> None \<and> rt_TrunkName r \<in> set names \<and> 0 \<le> rt_StripDigits r) rs'"
  using assms
  by (induction rs arbitrary: rs') (auto simp: and_then_eq_Ok OutboundRoute_validate_def split: if_splits option.splits)

lemma add_trunks_ok:
  assumes "list_all (trunk_ok uni) ts" and "distinct (map trk_Name ts)" and "\<And>t. t \<in> set ts \<Longrightarrow> fmlookup m (trk_Name t) = None"
  shows "\<exists>m'. add_trunks net ts m = Ok m'
    \<and> (\<forall>n. fmlookup m' n = (case find (\<lambda>t. trk_Name t = n) ts of Some t \<Rightarrow> Some t | None \<Rightarrow> fmlookup m n))"
  using assms
proof (induction ts arbitrary: m)
  case (Cons t ts)
  let ?m = "fmupd (trk_Name t) t m"
  have "\<And>x. x \<in> set ts \<Longrightarrow> fmlookup ?m (trk_Name x) = None" using Cons.prems(2,3) by auto
  with Cons.IH [of ?m] Cons.prems(1,2) obtain m' where m': "add_trunks net ts ?m = Ok m'"
    "\<forall>n. fmlookup m' n = (case find (\<lambda>t. trk_Name t = n) ts of Some t \<Rightarrow> Some t | None \<Rightarrow> fmlookup ?m n)" by auto
  have "find (\<lambda>x. trk_Name x = trk_Name t) ts = None" using Cons.prems(2) by (simp add: find_None_iff) (metis image_eqI)
  moreover have "\<not> (trk_validCIDRs t = [] \<and> trk_TrustedIPs t \<noteq> [])" using Cons.prems(1) by (auto simp: trunk_ok_def)
  ultimately show ?case using m' Cons.prems(3) by (auto split: option.splits)
qed simp

lemma compile_routes_ok: "list_all (\<lambda>r. rt_compiled r \<noteq> None) rs \<Longrightarrow> compile_routes net rs = Ok rs"
  by (induction rs) auto

definition validated_manager :: "TrunkConfig \<Rightarrow> TrunkManager \<Rightarrow> bool" where
  "validated_manager cfg m \<longleftrightarrow> tk_routes m = cfg_Routes cfg \<and> tk_activeCalls m = fmempty
     \<and> (\<forall>n. fmlookup (tk_trunks m) n = find (\<lambda>t. trk_Name t = n) (cfg_Trunks cfg))"

lemma NewTrunkManager_validated:
  assumes "TrunkConfig_validate uni net cfg = Ok cfg'"
  shows "\<exists>m. NewTrunkManager net cfg' ip addr = Ok m \<and> validated_manager cfg' m"
proof -
  from assms obtain ts names rs where v: "validate_trunks uni net (cfg_Trunks cfg) [] = Ok (ts, names)"
    "validate_routes net names (cfg_Routes cfg) = Ok rs" "cfg' = \<lparr>cfg_Trunks = ts, cfg_Routes = rs\<rparr>"
    by (auto simp: TrunkConfig_validate_def and_then_eq_Ok split: if_splits)
  from validate_trunks_facts [OF v(1)] add_trunks_ok [of uni ts fmempty net] obtain m' where
    "add_trunks net ts fmempty = Ok m'" "\<forall>n. fmlookup m' n = find (\<lambda>t. trk_Name t = n) ts" by (fastforce split: option.splits)
  moreover have "list_all (\<lambda>r. rt_compiled r \<noteq> None) rs" using validate_routes_facts [OF v(2)] by (simp add: list_all_iff)
  ultimately show ?thesis
    by (simp add: NewTrunkManager_def v(3) compile_routes_ok validated_manager_def)
qed



text \<open>
  Trunks never exceed their channels.  Start from the manager built from any validated configuration and run any
  sequence of acquisitions and releases.  Then the number of active calls of every trunk is never negative, and on a
  trunk with a limit it is never above the limit; and as long as no channel is released that is not held, the number
  is exactly the number of grants less the number of releases.
\<close>

theorem trunk_channels_bounded:
  assumes "TrunkConfig_validate uni net cfg = Ok cfg'" and "NewTrunkManager net cfg' ip addr = Ok m"
    and "t \<in> set (cfg_Trunks cfg')" and "m' = fold channel_op_run ops m"
  shows "0 \<le> ActiveCalls m' (trk_Name t)
    \<and> (trk_MaxChannels t \<noteq> 0 \<longrightarrow> ActiveCalls m' (trk_Name t) \<le> trk_MaxChannels t)
    \<and> (trunk_channels.fair (trk_Name t) ops m \<longrightarrow> ActiveCalls m' (trk_Name t) = trunk_channels.held (trk_Name t) ops m)"
proof -
  have v: "validated_manager cfg' m" using NewTrunkManager_validated [OF assms(1), of ip addr] assms(2) by simp
  from assms(1) obtain ts names where ts: "validate_trunks uni net (cfg_Trunks cfg) [] = Ok (ts, names)" "cfg_Trunks cfg' = ts"
    by (auto simp: TrunkConfig_validate_def and_then_eq_Ok split: if_splits)
  note f = validate_trunks_facts [OF ts(1)]
  have "find (\<lambda>x. trk_Name x = trk_Name t) ts = Some t"
  proof (cases "find (\<lambda>x. trk_Name x = trk_Name t) ts")
    case None
    then show ?thesis using assms(3) ts(2) by (auto simp: find_None_iff)
  next
    case (Some x)
    then have "x \<in> set ts" "trk_Name x = trk_Name t" by (auto simp: find_Some_iff)
    then show ?thesis using Some f assms(3) ts(2) by (auto simp: distinct_map dest: inj_onD)
  qed
  then have l: "fmlookup (tk_trunks m) (trk_Name t) = Some t" using v ts(2) by (simp add: validated_manager_def)
  have 0: "ActiveCalls m (trk_Name t) = 0" using v by (simp add: validated_manager_def ActiveCalls_def)
  have max: "0 \<le> trk_MaxChannels t" using f assms(3) ts(2) by (auto simp: list_all_iff trunk_ok_def)
  have lim: "channel_limit m (trk_Name t) = (if trk_MaxChannels t = 0 then None else Some (trk_MaxChannels t))"
    using l by (simp add: channel_limit_def)
  have "0 \<le> ActiveCalls m' (trk_Name t) \<and> (trk_MaxChannels t \<noteq> 0 \<longrightarrow> ActiveCalls m' (trk_Name t) \<le> trk_MaxChannels t)"
    using trunk_channels.pool_bounds [of m "trk_Name t" "trk_MaxChannels t" ops] 0 max lim
    by (simp add: channel_op_run_eq assms(4))
  moreover have "trunk_channels.fair (trk_Name t) ops m \<longrightarrow> ActiveCalls m' (trk_Name t) = trunk_channels.held (trk_Name t) ops m"
    using trunk_channels.pool_accounting [of m "trk_Name t" ops] 0 by (simp add: channel_op_run_eq assms(4))
  ultimately show ?thesis by blast
qed

section \<open>Routing\<close>

lemma match_route_find:
  assumes "list_all (\<lambda>r. rt_compiled r \<noteq> None \<and> fmlookup trunks (rt_TrunkName r) \<noteq> None) rs"
  shows "match_route trunks user rs = Ok (map_option (\<lambda>r. (the (fmlookup trunks (rt_TrunkName r)),
    applyDigitManipulation user (rt_StripDigits r) (rt_Prefix r))) (find (\<lambda>r. the (rt_compiled r) user) rs))"
  using assms by (induction rs) auto

text \<open>The trunk and the number that a route stands for.\<close>

definition route_target :: "Trunk list \<Rightarrow> string \<Rightarrow> OutboundRoute \<Rightarrow> Trunk \<times> string" where
  "route_target ts user r = (the (find (\<lambda>t. trk_Name t = rt_TrunkName r) ts),
     rt_Prefix r @ (if rt_StripDigits r \<le> int (length user) then drop (nat (rt_StripDigits r)) user else user))"

text \<open>
  Routes are tried in order and lead to configured trunks.  For every validated configuration the manager can be
  built, and looking up a user never panics: the first route whose pattern matches is taken, its trunk exists in the
  configuration, and the number that is dialled is the user less the leading digits to strip, when there are enough, behind the
  prefix of the route.
\<close>

theorem MatchRoute_first:
  assumes "TrunkConfig_validate uni net cfg = Ok cfg'"
  shows "\<exists>m. NewTrunkManager net cfg' ip addr = Ok m \<and> (\<forall>user. MatchRoute m user =
     (Ok (map_option (route_target (cfg_Trunks cfg') user) (find (\<lambda>r. the (rt_compiled r) user) (cfg_Routes cfg'))) :: (unit, _) go)
     \<and> (\<forall>r \<in> set (cfg_Routes cfg'). \<exists>t \<in> set (cfg_Trunks cfg'). trk_Name t = rt_TrunkName r))"
proof -
  obtain m where m: "NewTrunkManager net cfg' ip addr = Ok m" "validated_manager cfg' m"
    using NewTrunkManager_validated [OF assms] by blast
  from assms obtain ts names rs where v: "validate_trunks uni net (cfg_Trunks cfg) [] = Ok (ts, names)"
    "validate_routes net names (cfg_Routes cfg) = Ok rs" "cfg' = \<lparr>cfg_Trunks = ts, cfg_Routes = rs\<rparr>"
    by (auto simp: TrunkConfig_validate_def and_then_eq_Ok split: if_splits)
  have names: "set names = trk_Name ` set ts"
    using validate_trunks_facts [OF v(1)] by (metis list.set_map empty_set sup_bot_left)
  note r = validate_routes_facts [OF v(2), unfolded list_all_iff]
  have t: "\<exists>t \<in> set ts. trk_Name t = rt_TrunkName r" if "r \<in> set rs" for r using r that names by (metis imageE)
  then have "fmlookup (tk_trunks m) (rt_TrunkName r) \<noteq> None" if "r \<in> set rs" for r
    using that m(2) v(3) by (auto simp: validated_manager_def find_None_iff)
  with r have l: "list_all (\<lambda>r. rt_compiled r \<noteq> None \<and> fmlookup (tk_trunks m) (rt_TrunkName r) \<noteq> None) rs"
    by (simp add: list_all_iff)
  have d: "(the (fmlookup (tk_trunks m) (rt_TrunkName x)), applyDigitManipulation user (rt_StripDigits x) (rt_Prefix x))
      = route_target ts user x" if "x \<in> set rs" for x user
  proof -
    have "0 \<le> rt_StripDigits x" using that r by blast
    then show ?thesis using m(2) v(3)
      by (cases "rt_StripDigits x = 0") (auto simp: applyDigitManipulation_def route_target_def validated_manager_def)
  qed
  have rt: "tk_routes m = rs" using m(2) v(3) by (simp add: validated_manager_def)
  have mr: "MatchRoute m user = (Ok (map_option (route_target ts user) (find (\<lambda>r. the (rt_compiled r) user) rs)) :: (unit, _) go)" for user
  proof (cases "find (\<lambda>r. the (rt_compiled r) user) rs")
    case (Some x)
    then have "x \<in> set rs" unfolding find_Some_iff by (elim exE conjE) (simp only: nth_mem)
    then show ?thesis unfolding MatchRoute_def rt match_route_find [OF l] Some option.map using d by simp
  qed (simp add: MatchRoute_def rt match_route_find [OF l])
  show ?thesis using m(1) t v(3) mr by (intro exI [of _ m]) simp
qed

section \<open>Registration\<close>

lemma challenge_unusable:
  assumes "no_dq realm" "no_dq nonce" and "supported_algorithm algorithm"
  shows "ParseDigest uni (BuildDigestChallenge realm nonce algorithm False) = Fail AuthMissingField"
proof -
  define f4 where "f4 = '' qop='' @ dq @ ''auth'' @ dq"
  define f3 where "f3 = '' algorithm='' @ algorithm @ CHR '','' # f4"
  define f2 where "f2 = '' nonce='' @ dq @ nonce @ dq @ CHR '','' # f3"
  define f1 where "f1 = ''realm='' @ dq @ realm @ dq @ CHR '','' # f2"
  have ends: "f4 \<noteq> [] \<and> graphic (last f4)" "f3 \<noteq> [] \<and> graphic (last f3)" "f2 \<noteq> [] \<and> graphic (last f2)" "f1 \<noteq> [] \<and> graphic (last f1)"
    by (simp_all add: f4_def f3_def f2_def f1_def graphic_def dq_def)
  have p4: "parse_digest_fields uni f4 c = Ok (c\<lparr>dc_QOP := ''auth''\<rparr>)" for c
    by (subst parse_field [of "''qop''" "dq @ ''auth'' @ dq" _ "''auth''" "[]"])
      (simp_all add: f4_def padded_def key_tokens dq_def digest_value_def HasPrefix_def Let_def graphic_def set_digest_field_keys
        parse_digest_fields.simps)
  have p3: "parse_digest_fields uni f3 c = parse_digest_fields uni f4 (c\<lparr>dc_Algorithm := algorithm\<rparr>)" for c
    using supported_algorithm_token [OF assms(3)] ends
    by (subst parse_token_field [of "''algorithm''" algorithm f4]) (simp_all add: f3_def padded_def key_tokens set_digest_field_keys)
  have p2: "parse_digest_fields uni f2 c = parse_digest_fields uni f3 (c\<lparr>dc_Nonce := nonce\<rparr>)" for c
    using assms ends by (subst parse_quoted_field [of "''nonce''" nonce f3]) (simp_all add: f2_def padded_def key_tokens set_digest_field_keys)
  have p1: "parse_digest_fields uni f1 c = parse_digest_fields uni f2 (c\<lparr>dc_Realm := realm\<rparr>)" for c
    using assms ends by (subst parse_quoted_field [of "''realm''" realm f2]) (simp_all add: f1_def padded_def key_tokens set_digest_field_keys)
  have raw: "BuildDigestChallenge realm nonce algorithm False = ''Digest '' @ f1"
    by (simp add: BuildDigestChallenge_def f1_def f2_def f3_def f4_def)
  have t: "TrimSpace (''Digest '' @ f1) = ''Digest '' @ f1" using ends by (intro TrimSpace_id) (simp add: graphic_def)
  have t1: "TrimSpace (CHR '' '' # f1) = f1" using ends by (intro TrimSpace_padded) (simp_all add: padded_def f1_def graphic_def)
  have e: "EqualFold ''Digest'' ''Digest''" by (simp add: EqualFold_def)
  have "parse_digest_fields uni f1 zero_credentials
      = Ok (zero_credentials\<lparr>dc_Realm := realm, dc_Nonce := nonce, dc_Algorithm := algorithm, dc_QOP := ''auth''\<rparr>)"
    by (simp add: p1 p2 p3 p4)
  then show ?thesis unfolding ParseDigest_def raw t using ends t1 e by (simp add: Let_def zero_credentials_def)
qed

text \<open>
  C38. A defect: registration trunks cannot authenticate.  \<^verbatim>\<open>authenticatedRegister\<close> reads the challenge of the provider with the
  parser for the client's answer, which insists on user name, URI and response.  Whatever credentials the trunk is configured with
  and whatever the network does, a provider that challenges with the very header this server would send makes
  every registration attempt fail, and the loop, until it is cancelled, waits for 30 seconds, then 60, up to five minutes.
\<close>

theorem trunk_challenge_always_fails:
  assumes "no_dq realm" "no_dq nonce" "supported_algorithm algorithm"
    and "re_sendSIP env (trk_Transport t) (JoinHostPort (trk_Host t) (Itoa (trk_Port t)))
      (register_request uni t (RegisterURIString t) (LocalIPWithDefault t (tk_serverIP m)) (re_branch env)
        (''trunk-reg-'' @ trk_Name t @ ''-'' @ Itoa (re_nanos env)) ''1''
        (''<sip:trec@'' @ LocalIPWithDefault t (tk_serverIP m) @ ''>'') None) = Some resp"
    and "SIPMessage_StatusCode resp = 401"
    and "SIPHeaders_GetFirst (msg_Headers resp) ''WWW-Authenticate'' = (Ok (BuildWWWAuthenticate realm nonce algorithm False) :: (reg_error, _) go)"
  shows "registerOnce uni H env m t = Fail (RegParse AuthMissingField)
    \<and> registration_round cancelled (registerOnce uni H env m t) backoff
      = Ok (if cancelled then None
            else if backoff = 0 then Some (30000000000, 30000000000)
            else Some (min 300000000000 (2 * backoff), min 300000000000 (2 * backoff)))"
proof -
  have "BuildWWWAuthenticate realm nonce algorithm False \<noteq> []" by (simp add: BuildWWWAuthenticate_def BuildDigestChallenge_def)
  then have r: "registerOnce uni H env m t = Fail (RegParse AuthMissingField)"
    using assms(4-6) challenge_unusable [OF assms(1-3), of uni]
    by (simp add: registerOnce_def Let_def authenticatedRegister_def BuildWWWAuthenticate_def)
  then show ?thesis by (simp add: registration_round_def Let_def min_def)
qed

section \<open>The dialplan\<close>

lemma Dialplan_Lookup_cases:
  "Dialplan_Lookup dp req = (if ExtractUser (SIPMessage_RequestURI req) |\<in>| fmdom dp
     then fmlookup dp (ExtractUser (SIPMessage_RequestURI req)) else fmlookup dp ''*'')"
  by (auto simp: Dialplan_Lookup_def Let_def fmdom_notD split: option.splits)

lemma load_entries_actions:
  "fmlookup (load_entries es m) x = Some e \<Longrightarrow> fmlookup m x = Some e \<or> (\<exists>a f. (x, a, f) \<in> set es \<and>
     (a = ''echo'' \<and> ent_Action e = ActionEcho \<or> a = ''play'' \<and> ent_Action e = ActionPlay \<and> ent_File e = f))"
  by (induction es m rule: load_entries.induct) (fastforce split: if_splits)+


section \<open>A concrete configuration\<close>

definition sample_net :: net_library where
  "sample_net = \<lparr>net_ParsePrefix = (\<lambda>s. if s = ''192.0.2.0/24'' then Some \<lparr>ip_base = \<lparr>ia_bits = 32, ia_value = 3221225984, ia_zone = []\<rparr>, ip_len = 24\<rparr> else None),
     net_ParseAddr = (\<lambda>s. if s = ''192.0.2.7'' then Some \<lparr>ia_bits = 32, ia_value = 3221225991, ia_zone = []\<rparr> else None),
     regexp_Compile = (\<lambda>p. if p = ''^9'' then Some (\<lambda>s. HasPrefix s ''9'') else None)\<rparr>"

definition sample_trunk :: Trunk where
  "sample_trunk = \<lparr>trk_Name = ''p'', trk_Type = ''static'', trk_Host = ''h'', trk_Port = 5060, trk_Transport = ''udp'', trk_AuthUser = [],
     trk_AuthPass = [], trk_Realm = [], trk_Codecs = [], trk_MaxChannels = 1, trk_CallerID = [], trk_TrustedIPs = [''192.0.2.0/24''],
     trk_RegisterURI = [], trk_StripHeaders = [], trk_SessionExpiresSec = 0, trk_LocalIP = [],
     trk_validCIDRs = [\<lparr>ip_base = \<lparr>ia_bits = 32, ia_value = 3221225984, ia_zone = []\<rparr>, ip_len = 24\<rparr>]\<rparr>"

definition sample_route :: OutboundRoute where
  "sample_route = \<lparr>rt_Name = ''r'', rt_Pattern = ''^9'', rt_TrunkName = ''p'', rt_StripDigits = 1, rt_Prefix = ''00'', rt_compiled = Some (\<lambda>s. HasPrefix s ''9'')\<rparr>"

definition sample_config :: TrunkConfig where
  "sample_config = \<lparr>cfg_Trunks = [sample_trunk], cfg_Routes = [sample_route]\<rparr>"

definition raw_config :: TrunkConfig where
  "raw_config = \<lparr>cfg_Trunks = [sample_trunk\<lparr>trk_validCIDRs := []\<rparr>], cfg_Routes = [sample_route\<lparr>rt_compiled := None\<rparr>]\<rparr>"

lemma sample_config_valid: "TrunkConfig_validate \<lparr>uni_lower = id, uni_upper = id\<rparr> sample_net raw_config = Ok sample_config"
  by (simp add: TrunkConfig_validate_def raw_config_def sample_config_def sample_trunk_def sample_route_def sample_net_def Trunk_validate_def
      OutboundRoute_validate_def TrunkTypeStatic_def TrunkTypeRegistration_def Let_def ToLower_def ascii_string_def lower_char_def)

definition sample_manager :: TrunkManager where
  "sample_manager = \<lparr>tk_trunks = fmupd ''p'' sample_trunk fmempty, tk_routes = [sample_route], tk_activeCalls = fmempty, tk_regs = [],
     tk_serverIP = ''s'', tk_serverAddr = ''a'', tk_started = False\<rparr>"

lemma sample_manager_new: "NewTrunkManager sample_net sample_config ''s'' ''a'' = Ok sample_manager"
  by (simp add: NewTrunkManager_def sample_config_def sample_manager_def sample_trunk_def sample_route_def)

theorem trunk_channels_bounded_witness:
  "ActiveCalls (fold channel_op_run [Acquire ''p'', Acquire ''p'', Release ''p'', Acquire ''p''] sample_manager) ''p'' \<le> 1"
  using trunk_channels_bounded [OF sample_config_valid sample_manager_new _ refl, of sample_trunk
      "[Acquire ''p'', Acquire ''p'', Release ''p'', Acquire ''p'']"]
  by (simp add: sample_config_def sample_trunk_def)

theorem MatchRoute_first_witness:
  "\<exists>m. NewTrunkManager sample_net sample_config ''s'' ''a'' = Ok m
     \<and> MatchRoute m ''912'' = (Ok (Some (sample_trunk, ''0012'')) :: (unit, _) go) \<and> MatchRoute m ''12'' = (Ok None :: (unit, _) go)"
proof -
  obtain m where m: "NewTrunkManager sample_net sample_config ''s'' ''a'' = Ok m"
    and r: "\<forall>user. MatchRoute m user = (Ok (map_option (route_target (cfg_Trunks sample_config) user)
      (find (\<lambda>r. the (rt_compiled r) user) (cfg_Routes sample_config))) :: (unit, _) go)"
    using MatchRoute_first [OF sample_config_valid, of "''s''" "''a''"] by blast
  have "MatchRoute m ''912'' = (Ok (Some (sample_trunk, ''0012'')) :: (unit, _) go)" "MatchRoute m ''12'' = (Ok None :: (unit, _) go)"
    using r [rule_format, of "''912''"] r [rule_format, of "''12''"]
    by (simp_all add: sample_config_def sample_route_def sample_trunk_def HasPrefix_def route_target_def)
  then show ?thesis using m by blast
qed

definition sample_challenge :: SIPMessage where
  "sample_challenge = (NewResponse (NewRequest ''REGISTER'' ''sip:h'') 401 [])
     \<lparr>msg_Headers := fmupd (canonicalHeaderKey ''WWW-Authenticate'') [BuildWWWAuthenticate ''r'' ''n'' ''MD5'' False] fmempty\<rparr>"

definition sample_reg_env :: reg_env where
  "sample_reg_env = \<lparr>re_sendSIP = (\<lambda>_ _ _. Some sample_challenge), re_branch = ''b'', re_branch2 = ''c'', re_nanos = 0, re_quote = id\<rparr>"

theorem trunk_challenge_always_fails_witness:
  "registerOnce \<lparr>uni_lower = id, uni_upper = id\<rparr> \<lparr>md5_Sum = (\<lambda>_. []), sha256_Sum256 = (\<lambda>_. []), sha512_Sum512_256 = (\<lambda>_. [])\<rparr>
     sample_reg_env sample_manager sample_trunk = Fail (RegParse AuthMissingField)"
  by (rule conjunct1 [OF trunk_challenge_always_fails [where realm = "''r''" and nonce = "''n''" and algorithm = "''MD5''" and resp = sample_challenge]])
    (simp_all add: no_dq_def supported_algorithm_def sample_reg_env_def sample_challenge_def SIPMessage_StatusCode_def NewResponse_def
      SIPHeaders_GetFirst_def index_def)


end
