(* ===== verification/B2BUA.thy ===== *)
theory B2BUA
  imports Calls Registrar Trunk Server
begin

text \<open>
  The call handler: \<^verbatim>\<open>internal/b2bua/handler.go\<close>.  Its state is the state of all the components it drives: server
  transactions (with the log of what was sent), client transactions, registrar, TCP flows, sessions, calls, trunks, reliable
  provisional responses, and the open RTP sockets.  A goroutine that a handler starts is an entry of the state: a response loop, a
  session timer, a media task; each of its later steps is a definition of its own.  What the code draws from outside (time, random
  bytes, sockets, resolver, files, the outcome of a write) is an argument.
\<close>

section \<open>State\<close>

record handler_config =
  hc_serverIP :: string
  hc_serverPort :: string
  hc_natAddress :: string
  hc_rtpMin :: int
  hc_rtpMax :: int
  hc_dp :: "Dialplan option"
  hc_Allow :: string
  hc_uni :: unicode_tables
  hc_hashes :: hashes
  hc_net :: net_library
  hc_ParseIP :: "string \<Rightarrow> string option"
  hc_IsLoopback :: "string \<Rightarrow> bool"

record handler_env =
  he_auth :: environment
  he_rnd :: "nat \<Rightarrow> string option"
  he_ssrc :: "nat \<Rightarrow> u32"
  he_free :: "nat \<Rightarrow> int \<Rightarrow> bool"
  he_assigned :: "nat \<Rightarrow> int option"
  he_dial :: "string \<Rightarrow> net_conn option"
  he_resolve :: "string \<Rightarrow> net_addr option"
  he_sent :: bool
  he_file :: "string \<Rightarrow> byte list option"

record callCtx =
  cc_req :: SIPMessage
  cc_tx :: nat
  cc_target :: Target
  cc_transportImpl :: transport_kind
  cc_uac :: nat
  cc_rtpConnA :: nat
  cc_rtpConnB :: nat
  cc_from :: SIPAddress
  cc_aliceFromTag :: string
  cc_serverTag :: string
  cc_callID :: string
  cc_calleeTag :: string
  cc_bobCallID :: string
  cc_to :: SIPAddress
  cc_selectedPT :: byte
  cc_hasEarlyOffer :: bool
  cc_aliceSDPOffer :: "SDP option"
  cc_aliceSDPBytes :: string
  cc_recordRoute :: string

text \<open>The other leg of a call: a registered contact, or a trunk with the session interval asked for.\<close>

datatype leg =
    BobLeg string bool
  | TrunkLeg string string int

record response_loop =
  lp_cc :: callCtx
  lp_leg :: leg
  lp_invite :: SIPMessage
  lp_started :: bool
  lp_cancelled :: bool
  lp_prackDone :: bool

datatype media_task = EchoTask nat | PlayTask nat | BridgeTask nat nat

record handler_state =
  hs_tm :: TransactionManager
  hs_uac :: UACManager
  hs_reg :: Registrar
  hs_pool :: FlowPool
  hs_sm :: SessionManager
  hs_sessions :: "(nat, Session) fmap"
  hs_store :: Store
  hs_trunks :: "TrunkManager option"
  hs_prack :: "ReliableProvisionalManager option"
  hs_proxy :: "(PasswordStore \<times> auth_state) option"
  hs_maxFailed :: int
  hs_ports :: "(nat, int) fmap"
  hs_rtp :: "nat fset"
  hs_loops :: "(nat, response_loop) fmap"
  hs_timers :: "(string \<times> string) list"
  hs_tasks :: "media_task list"
  hs_next :: nat

definition NewHandler :: "Registrar \<Rightarrow> bool \<Rightarrow> TrunkManager option \<Rightarrow> handler_state" where
  "NewHandler reg prackEnabled trunkMgr =
     \<lparr>hs_tm = NewTransactionManager, hs_uac = NewUACManager, hs_reg = reg, hs_pool = NewFlowPool True, hs_sm = fmempty,
      hs_sessions = fmempty, hs_store = NewStore, hs_trunks = trunkMgr,
      hs_prack = (if prackEnabled then Some NewReliableProvisionalManager else None), hs_proxy = None,
      hs_maxFailed = DefaultMaxFailedAuthAttempts, hs_ports = fmempty, hs_rtp = {||}, hs_loops = fmempty, hs_timers = [], hs_tasks = [], hs_next = 0\<rparr>"

definition server_port :: "string \<Rightarrow> string" where
  "server_port serverAddr = (case SplitHostPort serverAddr of Some (_, port) \<Rightarrow> if port \<noteq> [] then port else ''5060'' | None \<Rightarrow> ''5060'')"

definition SetProxyPasswordStore :: "PasswordStore \<Rightarrow> handler_state \<Rightarrow> handler_state" where
  "SetProxyPasswordStore store s = s\<lparr>hs_proxy := Some (store,
     \<lparr>as_nonces = NewNonceManager 300000000000, as_attempts = NewAuthAttemptTracker 300000000000\<rparr>)\<rparr>"

definition Handler_SetMaxFailedAuthAttempts :: "int \<Rightarrow> handler_state \<Rightarrow> handler_state" where
  "Handler_SetMaxFailedAuthAttempts n s = s\<lparr>hs_maxFailed := ClampMaxFailedAuthAttempts n\<rparr>"

section \<open>Small steps\<close>

definition respond :: "nat \<Rightarrow> SIPMessage \<Rightarrow> handler_state \<Rightarrow> handler_state" where
  "respond tx res s = s\<lparr>hs_tm := Respond tx res (hs_tm s)\<rparr>"

definition transport_send :: "transport_kind \<Rightarrow> Target \<Rightarrow> SIPMessage \<Rightarrow> handler_state \<Rightarrow> handler_state" where
  "transport_send tr target msg s = s\<lparr>hs_tm := send_msg tr target msg (hs_tm s)\<rparr>"

definition close_rtp :: "nat \<Rightarrow> handler_state \<Rightarrow> handler_state" where
  "close_rtp i s = s\<lparr>hs_rtp := hs_rtp s |-| {|i|}\<rparr>"

definition close_both :: "callCtx \<Rightarrow> handler_state \<Rightarrow> handler_state" where
  "close_both cc s = close_rtp (cc_rtpConnB cc) (close_rtp (cc_rtpConnA cc) s)"

definition open_rtp :: "handler_config \<Rightarrow> handler_env \<Rightarrow> nat \<Rightarrow> handler_state \<Rightarrow> (nat \<times> int) option \<times> handler_state" where
  "open_rtp cfg env k s = (case NewRTPConnRange (he_free env k) (he_assigned env k) (hc_rtpMin cfg) (hc_rtpMax cfg) of
     None \<Rightarrow> (None, s)
   | Some port \<Rightarrow> (Some (hs_next s, port), s\<lparr>hs_ports := fmupd (hs_next s) port (hs_ports s),
       hs_rtp := finsert (hs_next s) (hs_rtp s), hs_next := Suc (hs_next s)\<rparr>))"

definition release_channel :: "string \<Rightarrow> handler_state \<Rightarrow> handler_state" where
  "release_channel name s = s\<lparr>hs_trunks := map_option (ReleaseChannel name) (hs_trunks s)\<rparr>"

definition cancelPRACK :: "string \<Rightarrow> handler_state \<Rightarrow> handler_state" where
  "cancelPRACK callID s = s\<lparr>hs_prack := map_option (Reliable_Cancel callID) (hs_prack s)\<rparr>"

definition add_session :: "nat \<Rightarrow> Session \<Rightarrow> handler_state \<Rightarrow> handler_state" where
  "add_session i se s = s\<lparr>hs_sessions := fmupd i se (hs_sessions s), hs_sm := SessionManager_Add (se_Key se) i (hs_sm s)\<rparr>"

text \<open>A session is cancelled, its socket closed and its entry removed.\<close>

definition end_session :: "nat \<Rightarrow> handler_state \<Rightarrow> handler_state" where
  "end_session i s = (case fmlookup (hs_sessions s) i of
     None \<Rightarrow> s
   | Some se \<Rightarrow> (close_rtp (se_RTPConn se) s)
       \<lparr>hs_sessions := fmupd i (Session_Cancel se) (hs_sessions s), hs_sm := SessionManager_Remove (se_Key se) (hs_sm s)\<rparr>)"

definition tx_info_of :: "handler_state \<Rightarrow> nat \<Rightarrow> ('e, tx_info) go" where
  "tx_info_of s tx = (case fmlookup (tm_txs (hs_tm s)) tx of
     None \<Rightarrow> Panic | Some t \<Rightarrow> Ok \<lparr>tx_Target = tx_target t, tx_Transport = Some (tx_transport t)\<rparr>)"

definition add_headers :: "(string \<times> string) list \<Rightarrow> SIPHeaders \<Rightarrow> SIPHeaders" where
  "add_headers kvs hs = fold (\<lambda>(k, v) hs. SIPHeaders_Add hs k v) kvs hs"

definition mk_request :: "SIPMethod \<Rightarrow> string \<Rightarrow> int \<Rightarrow> (string \<times> string) list \<Rightarrow> SIPMessage" where
  "mk_request meth uri seq kvs =
     (NewRequest meth uri)\<lparr>msg_Headers := add_headers kvs fmempty, msg_CSeq := \<lparr>cseq_Method = meth, cseq_Seq = seq\<rparr>\<rparr>"

definition tagged :: "string \<Rightarrow> string \<Rightarrow> string" where
  "tagged uri tag = ''<'' @ uri @ ''>;tag='' @ tag"

definition via_header :: "string \<Rightarrow> string \<Rightarrow> string \<Rightarrow> string \<Rightarrow> string" where
  "via_header transport ip port branch = ''SIP/2.0/'' @ transport @ '' '' @ ip @ '':'' @ port @ '';branch='' @ branch"

definition status_reason :: "SIPMessage \<Rightarrow> string" where
  "status_reason resp = (case Index (SIPMessage_Status resp) '' '' of Some i \<Rightarrow> drop (Suc i) (SIPMessage_Status resp) | None \<Rightarrow> SIPMessage_Status resp)"

text \<open>\<^verbatim>\<open>body, _ := sdp.Marshal()\<close> and the reading of a body that may be an offer.\<close>

definition sdp_body :: "SDP \<Rightarrow> ('e, string) go" where
  "sdp_body sdp = (case SDP_Marshal sdp of Ok b \<Rightarrow> Ok b | Fail _ \<Rightarrow> Ok [] | Panic \<Rightarrow> Panic)"

definition has_offer :: "SIPMessage \<Rightarrow> ('e, bool) go" where
  "has_offer req = (if msg_Body req = [] then Ok False
     else and_then (SIPHeaders_GetFirst (msg_Headers req) ''Content-Type'') (\<lambda>ct. Ok (ct = ''application/sdp'')))"

definition resolveClientAddr :: "handler_config \<Rightarrow> SDP \<Rightarrow> string \<times> int" where
  "resolveClientAddr cfg sdpOffer =
     (let (clientIP, clientPort) = ExtractRTPAddr sdpOffer in
      case hc_ParseIP cfg clientIP of
        Some ip \<Rightarrow> if hc_IsLoopback cfg ip \<and> hc_natAddress cfg \<noteq> [] then (hc_natAddress cfg, clientPort) else (clientIP, clientPort)
      | None \<Rightarrow> (clientIP, clientPort))"

definition resolve_rtp :: "handler_config \<Rightarrow> handler_env \<Rightarrow> SDP \<Rightarrow> net_addr option" where
  "resolve_rtp cfg env sdp = (let (ip, port) = resolveClientAddr cfg sdp in he_resolve env (ip @ '':'' @ Itoa port))"

definition parsed_rtp_addr :: "handler_config \<Rightarrow> SDP \<Rightarrow> net_addr" where
  "parsed_rtp_addr cfg sdp = (let (ip, port) = ExtractRTPAddr sdp in UDPAddr (case hc_ParseIP cfg ip of Some a \<Rightarrow> a | None \<Rightarrow> []) port)"


section \<open>Authentication, OPTIONS and PRACK\<close>

definition proxy_params :: "string \<Rightarrow> int \<Rightarrow> auth_params" where
  "proxy_params meth maxFailed = \<lparr>ap_authHeaderKey = ''Proxy-Authorization'', ap_respChallengeKey = ''Proxy-Authenticate'', ap_challengeStatus = 407,
     ap_statusText = ''Proxy Authentication Required'', ap_method = meth, ap_maxAttempts = maxFailed\<rparr>"

text \<open>The answer is whether the caller goes on.\<close>

definition requireProxyAuth ::
  "handler_config \<Rightarrow> handler_env \<Rightarrow> SIPMessage \<Rightarrow> nat \<Rightarrow> string \<Rightarrow> handler_state \<Rightarrow> ('e, bool \<times> handler_state) go" where
  "requireProxyAuth cfg env req tx meth s = (case hs_proxy s of
     None \<Rightarrow> Ok (True, s)
   | Some (passwd, auth) \<Rightarrow>
       and_then (tx_info_of s tx) (\<lambda>info.
       and_then (VerifyDigestRequest (hc_uni cfg) (hc_hashes cfg) (he_auth env) passwd (proxy_params meth (hs_maxFailed s)) req info auth)
         (\<lambda>(auth, out, creds).
         let s = fold (respond tx) out s in
         case creds of
           None \<Rightarrow> Ok (False, s\<lparr>hs_proxy := Some (passwd, auth)\<rparr>)
         | Some _ \<Rightarrow>
             and_then (SIPHeaders_GetFirst (msg_Headers req) ''Call-ID'') (\<lambda>callID.
             Ok (True, s\<lparr>hs_proxy := Some (passwd, auth\<lparr>as_attempts := Attempts_Reset (as_attempts auth) (AuthAttemptKey info callID)\<rparr>)\<rparr>)))))"

definition HandleOptions :: "handler_config \<Rightarrow> SIPMessage \<Rightarrow> nat \<Rightarrow> handler_state \<Rightarrow> handler_state" where
  "HandleOptions cfg req tx s =
     (let res = NewResponse req 200 ''OK'';
          supported = ''timer'' # (if hs_prack s \<noteq> None then [''100rel''] else []);
          hs = fmupd ''Supported'' supported (fmupd ''Accept'' [''application/sdp''] (fmupd ''Allow'' [hc_Allow cfg] (msg_Headers res)))
      in respond tx (res\<lparr>msg_Headers := hs\<rparr>) (respond tx (NewResponse req 100 ''Trying'') s))"

definition HandlePRACK :: "SIPMessage \<Rightarrow> nat \<Rightarrow> handler_state \<Rightarrow> ('e, handler_state) go" where
  "HandlePRACK req tx s = (case hs_prack s of
     None \<Rightarrow> Ok (respond tx (NewResponse req 501 ''Not Implemented'') s)
   | Some m \<Rightarrow> and_then (Reliable_HandlePRACK req tx (m, hs_tm s)) (\<lambda>(m, tm). Ok (s\<lparr>hs_prack := Some m, hs_tm := tm\<rparr>)))"

section \<open>Local services\<close>

text \<open>
  The body both local services share: the offer is read, a socket opened, a session made and the call answered 200.  The echo
  and the playback differ in what they load before and record in the session; \<open>prepare\<close> does the latter.
\<close>

definition service_ok :: "handler_config \<Rightarrow> SIPMessage \<Rightarrow> string \<Rightarrow> string \<Rightarrow> ('e, SIPMessage) go" where
  "service_ok cfg req serverTag body =
     and_then (SIPHeaders_GetFirst (msg_Headers req) ''To'') (\<lambda>toHeader.
     let res = NewResponse req 200 ''OK'';
         hs = SIPHeaders_Set (msg_Headers res) ''To'' [toHeader @ '';tag='' @ serverTag];
         hs = fmupd ''Allow'' [hc_Allow cfg] (SIPHeaders_Set hs ''Content-Type'' [''application/sdp''])
     in Ok (res\<lparr>msg_Headers := hs, msg_Body := body\<rparr>))"

definition read_offer :: "SIPMessage \<Rightarrow> ('e, SDP option option) go" where
  "read_offer req = and_then (has_offer req) (\<lambda>offered.
     if \<not> offered then Ok (Some None)
     else case UnmarshalSDP (msg_Body req) of Ok sdp \<Rightarrow> Ok (Some (Some sdp)) | Fail _ \<Rightarrow> Ok None | Panic \<Rightarrow> Panic)"

definition answer_service ::
  "handler_config \<Rightarrow> handler_env \<Rightarrow> SIPMessage \<Rightarrow> nat \<Rightarrow> SDP option \<Rightarrow> (SIPAddress \<Rightarrow> Session \<Rightarrow> Session) \<Rightarrow> (nat \<Rightarrow> media_task)
   \<Rightarrow> handler_state \<Rightarrow> ('e, handler_state) go" where
  "answer_service cfg env req tx sdpOffer prepare task s =
     (let serverTag = GenerateTag (he_rnd env 0) in
      case open_rtp cfg env 0 s of
        (None, s) \<Rightarrow> Ok (respond tx (NewResponse req 500 ''Server Internal Error'') s)
      | (Some (conn, port), s) \<Rightarrow>
          and_then (case sdpOffer of Some sdp \<Rightarrow> PickPayloadType (Some sdp) | None \<Rightarrow> Ok 0) (\<lambda>payloadType.
          let sdpAnswer = (case sdpOffer of
                 Some sdp \<Rightarrow> BuildAnswer (env_now (he_auth env)) sdp port payloadType (hc_serverIP cfg)
               | None \<Rightarrow> BuildOffer (env_now (he_auth env)) port payloadType (hc_serverIP cfg)) in
          case SIPMessage_From req of
            Panic \<Rightarrow> Panic
          | Fail _ \<Rightarrow> Ok (respond tx (NewResponse req 400 ''Bad Request'') (close_rtp conn s))
          | Ok from_addr \<Rightarrow>
              and_then (SIPHeaders_GetFirst (msg_Headers req) ''Call-ID'') (\<lambda>callID.
              let key = \<lparr>sk_CallID = callID, sk_LocalTag = serverTag, sk_RemoteTag = addr_Tag from_addr\<rparr>;
                  se = prepare from_addr (NewSession (he_ssrc env 0) key conn payloadType (Some (UDPAddr ''0.0.0.0'' port)));
                  i = hs_next s;
                  s = s\<lparr>hs_next := Suc i\<rparr> in
              case sdpOffer of
                None \<Rightarrow>
                  and_then (sdp_body sdpAnswer) (\<lambda>body.
                  and_then (service_ok cfg req serverTag body) (\<lambda>res.
                  Ok (respond tx res (add_session i (Session_SetState SessionWaitingAck se) s))))
              | Some sdp \<Rightarrow>
                  (case resolve_rtp cfg env sdp of
                     None \<Rightarrow> Ok (respond tx (NewResponse req 500 ''Internal Server Error'') (close_rtp conn s))
                   | Some remoteAddr \<Rightarrow>
                       and_then (sdp_body sdpAnswer) (\<lambda>body.
                       and_then (service_ok cfg req serverTag body) (\<lambda>res.
                       let s = add_session i (Session_SetState SessionActive (Session_SetRemoteAddr remoteAddr se)) s;
                           s = respond tx res s
                       in Ok (s\<lparr>hs_tasks := task i # hs_tasks s\<rparr>)))))))"

definition handleEchoInvite :: "handler_config \<Rightarrow> handler_env \<Rightarrow> SIPMessage \<Rightarrow> nat \<Rightarrow> handler_state \<Rightarrow> ('e, handler_state) go" where
  "handleEchoInvite cfg env req tx s =
     and_then (read_offer req) (\<lambda>r. case r of
       None \<Rightarrow> Ok (respond tx (NewResponse req 488 ''Not Acceptable Here'') s)
     | Some sdpOffer \<Rightarrow> answer_service cfg env req tx sdpOffer (\<lambda>_ se. se) EchoTask s)"

definition handleFileInvite :: "handler_config \<Rightarrow> handler_env \<Rightarrow> SIPMessage \<Rightarrow> nat \<Rightarrow> string \<Rightarrow> handler_state \<Rightarrow> ('e, handler_state) go" where
  "handleFileInvite cfg env req tx filePath s =
     and_then (read_offer req) (\<lambda>r. case r of
       None \<Rightarrow> Ok (respond tx (NewResponse req 488 ''Not Acceptable Here'') s)
     | Some sdpOffer \<Rightarrow>
         (case LoadWav (he_file env filePath) of
            Panic \<Rightarrow> Panic
          | Fail _ \<Rightarrow> Ok (respond tx (NewResponse req 500 ''Server Internal Error'') s)
          | Ok wav \<Rightarrow>
              and_then (tx_info_of s tx) (\<lambda>info.
              and_then (SIPHeaders_GetFirst (msg_Headers req) ''Contact'') (\<lambda>contact.
              and_then (case SIPMessage_To req of Ok a \<Rightarrow> Ok (addr_URI a) | Fail _ \<Rightarrow> Ok [] | Panic \<Rightarrow> Panic) (\<lambda>toURI.
              answer_service cfg env req tx sdpOffer
                (\<lambda>from_addr se. se\<lparr>se_Kind := SessionKindPlay, se_WavData := Some wav, se_CallerContact := contact, se_CallerURI := addr_URI from_addr,
                   se_TargetURI := toURI, se_SipTransport := tx_Transport info, se_SipTarget := Some (tx_Target info)\<rparr>)
                PlayTask s)))))"

definition bye_request :: "handler_config \<Rightarrow> string \<Rightarrow> string \<Rightarrow> string \<Rightarrow> string \<Rightarrow> string \<Rightarrow> string \<Rightarrow> SIPMessage" where
  "bye_request cfg uri transport branch fromHdr toHdr callID =
     mk_request ''BYE'' uri 2 [(''Via'', via_header transport (hc_serverIP cfg) (hc_serverPort cfg) branch), (''From'', fromHdr), (''To'', toHdr),
       (''Call-ID'', callID), (''Max-Forwards'', ''70''), (''Content-Length'', ''0'')]"

text \<open>The end of a playback that was not interrupted.\<close>

definition sendByeToSession :: "handler_config \<Rightarrow> handler_env \<Rightarrow> nat \<Rightarrow> handler_state \<Rightarrow> handler_state" where
  "sendByeToSession cfg env i s = (case fmlookup (hs_sessions s) i of
     None \<Rightarrow> s
   | Some se \<Rightarrow>
       let targetURI = (if se_TargetURI se = [] then ''sip:file@'' @ hc_serverIP cfg else se_TargetURI se);
           key = se_Key se;
           transport = (case se_SipTransport se of Some t \<Rightarrow> TransportName t | None \<Rightarrow> ''?'');
           bye = bye_request cfg (StripBrackets (se_CallerContact se)) transport (GenerateBranch (he_rnd env 0)) (tagged targetURI (sk_LocalTag key))
             (tagged (se_CallerURI se) (sk_RemoteTag key)) (sk_CallID key);
           s = s\<lparr>hs_sessions := fmupd i (Session_Cancel se) (hs_sessions s)\<rparr>;
           s = (case (se_SipTransport se, se_SipTarget se) of (Some tr, Some target) \<Rightarrow> transport_send tr target bye s | _ \<Rightarrow> s)
       in s\<lparr>hs_sm := SessionManager_Remove key (hs_sm s)\<rparr>)"

definition playback_done :: "handler_config \<Rightarrow> handler_env \<Rightarrow> nat \<Rightarrow> handler_state \<Rightarrow> handler_state" where
  "playback_done cfg env i s =
     (if PlayTask i \<notin> set (hs_tasks s) then s
      else
        let s = s\<lparr>hs_tasks := remove1 (PlayTask i) (hs_tasks s)\<rparr> in
        case fmlookup (hs_sessions s) i of
          None \<Rightarrow> s | Some se \<Rightarrow> if se_cancelled se then s else sendByeToSession cfg env i s)"


section \<open>Calls to registered users\<close>

definition HandleOutbound :: "int \<Rightarrow> net_conn \<Rightarrow> handler_state \<Rightarrow> net_conn \<times> handler_state" where
  "HandleOutbound now conn s = (conn, s\<lparr>hs_pool := fst (FlowPool_Register (hs_pool s) now conn)\<rparr>)"

text \<open>\<^verbatim>\<open>selectBinding\<close> goes through the bindings from the newest to the oldest; the list is given in that order.\<close>

fun select_binding ::
  "handler_config \<Rightarrow> handler_env \<Rightarrow> Binding list \<Rightarrow> handler_state \<Rightarrow> ('e, (Binding \<times> Target \<times> string) option \<times> handler_state) go" where
  "select_binding cfg env [] s = Ok (None, s)"
| "select_binding cfg env (b # bs) s = (case (if bd_OB b \<and> bd_FlowID b \<noteq> [] then FlowPool_GetByFlowID (hs_pool s) (bd_FlowID b) else None) of
     Some fc \<Rightarrow> Ok (Some (b, \<lparr>tgt_Addr = None, tgt_Conn = Some (fc_Conn fc), tgt_FlowID = FlowKey_String (fc_Key fc)\<rparr>, ''TCP''), s)
   | None \<Rightarrow>
       and_then (TargetFromContact (hc_uni cfg) (he_dial env) (he_resolve env) (bd_ContactURI b)) (\<lambda>r. case r of
         None \<Rightarrow> select_binding cfg env bs s
       | Some (tgt, tr) \<Rightarrow>
           (case (tr = ''TCP'', tgt_Conn tgt) of
              (True, Some conn) \<Rightarrow>
                (let (conn, s) = HandleOutbound (env_now (he_auth env)) conn s in Ok (Some (b, tgt\<lparr>tgt_Conn := Some conn\<rparr>, tr), s))
            | _ \<Rightarrow> Ok (Some (b, tgt, tr), s))))"

definition selectBinding ::
  "handler_config \<Rightarrow> handler_env \<Rightarrow> Binding list \<Rightarrow> handler_state \<Rightarrow> ('e, (Binding \<times> Target \<times> string) option \<times> handler_state) go" where
  "selectBinding cfg env bindings s = select_binding cfg env (rev bindings) s"

definition detect100relSupport :: "handler_config \<Rightarrow> SIPMessage \<Rightarrow> handler_state \<Rightarrow> bool" where
  "detect100relSupport cfg req s \<longleftrightarrow> hs_prack s \<noteq> None \<and>
     list_ex (\<lambda>v. Contains (ToLower (uni_lower (hc_uni cfg)) v) ''100rel'') (values_at (msg_Headers req) ''Supported'' @ values_at (msg_Headers req) ''Require'')"

text \<open>
  The two sockets of a bridged call and the two session descriptions made for them; the first failure ends it with the status to
  answer, and everything opened so far closed again.
\<close>

datatype media_setup =
    SetupFailed int string
  | SetupDone nat nat int "SDP option" byte string string

definition setup_media ::
  "handler_config \<Rightarrow> handler_env \<Rightarrow> SIPMessage \<Rightarrow> string \<Rightarrow> handler_state \<Rightarrow> ('e, media_setup \<times> handler_state) go" where
  "setup_media cfg env req bobIP s = (case open_rtp cfg env 0 s of
     (None, s) \<Rightarrow> Ok (SetupFailed 500 ''Server Internal Error'', s)
   | (Some (a, portA), s) \<Rightarrow> (case open_rtp cfg env 1 s of
       (None, s) \<Rightarrow> Ok (SetupFailed 500 ''Server Internal Error'', close_rtp a s)
     | (Some (b, portB), s) \<Rightarrow>
         and_then (read_offer req) (\<lambda>r. case r of
           None \<Rightarrow> Ok (SetupFailed 488 ''Not Acceptable Here'', close_rtp b (close_rtp a s))
         | Some sdpOffer \<Rightarrow>
             and_then (PickPayloadType sdpOffer) (\<lambda>pt.
             and_then (sdp_body (BuildOffer (env_now (he_auth env)) portB pt bobIP)) (\<lambda>bobBody.
             and_then (case sdpOffer of
                 None \<Rightarrow> Ok []
               | Some sdp \<Rightarrow> sdp_body (BuildAnswer (env_now (he_auth env)) sdp portA pt (hc_serverIP cfg))) (\<lambda>aliceBody.
             Ok (SetupDone a b portA sdpOffer pt bobBody aliceBody, s)))))))"

definition start_loop :: "callCtx \<Rightarrow> leg \<Rightarrow> SIPMessage \<Rightarrow> handler_state \<Rightarrow> handler_state" where
  "start_loop cc lg invite s =
     (let i = hs_next s;
          early = \<lparr>ec_AliceCallID = cc_callID cc, ec_BobCallID = cc_bobCallID cc, ec_AliceServerTag = cc_serverTag cc, ec_BobTx = cc_uac cc,
            ec_RTPConnA = cc_rtpConnA cc, ec_RTPConnB = cc_rtpConnB cc, ec_loop = i\<rparr>
      in s\<lparr>hs_store := StoreEarly early (hs_store s),
           hs_loops := fmupd i \<lparr>lp_cc = cc, lp_leg = lg, lp_invite = invite, lp_started = False, lp_cancelled = False, lp_prackDone = False\<rparr> (hs_loops s),
           hs_next := Suc i\<rparr>)"

definition new_uac :: "handler_env \<Rightarrow> nat \<Rightarrow> SIPMethod \<Rightarrow> transport_kind \<Rightarrow> Target \<Rightarrow> handler_state \<Rightarrow> nat \<times> string \<times> handler_state" where
  "new_uac env k meth tr target s =
     (let (u, um) = NewTransaction (he_rnd env k) meth tr target (hs_uac s) in (u, GenerateBranch (he_rnd env k), s\<lparr>hs_uac := um\<rparr>))"

definition call_headers ::
  "handler_config \<Rightarrow> string \<Rightarrow> string \<Rightarrow> string \<Rightarrow> string \<Rightarrow> string \<Rightarrow> string \<Rightarrow> string \<Rightarrow> (string \<times> string) list" where
  "call_headers cfg ip transport branch fromHdr toHdr bobCallID recordRoute =
     [(''Via'', via_header transport ip (hc_serverPort cfg) branch), (''From'', fromHdr), (''To'', toHdr),
      (''Contact'', ''<sip:trec@'' @ ip @ '':'' @ hc_serverPort cfg @ '';transport='' @ transport @ ''>''), (''Call-ID'', bobCallID),
      (''Max-Forwards'', ''70''), (''Record-Route'', recordRoute), (''Content-Type'', ''application/sdp'')]"

definition record_route :: "handler_config \<Rightarrow> string \<Rightarrow> string" where
  "record_route cfg ip = ''<sip:trec@'' @ ip @ '':'' @ hc_serverPort cfg @ '';lr>''"

text \<open>The call to a contact that was found, once the caller's address is known.\<close>

definition bob_call ::
  "handler_config \<Rightarrow> handler_env \<Rightarrow> SIPMessage \<Rightarrow> nat \<Rightarrow> SIPAddress \<Rightarrow> SIPAddress \<Rightarrow> Binding \<Rightarrow> Target \<Rightarrow> string \<Rightarrow> bool
   \<Rightarrow> handler_state \<Rightarrow> ('e, handler_state) go" where
  "bob_call cfg env req tx to_addr from_addr binding target transport rel s =
     (let aliceFromTag = (if addr_Tag from_addr = [] then GenerateTag (he_rnd env 0) else addr_Tag from_addr);
          serverTag = GenerateTag (he_rnd env 1) in
      and_then (SIPHeaders_GetFirst (msg_Headers req) ''Call-ID'') (\<lambda>callID.
      and_then (setup_media cfg env req (hc_serverIP cfg) s) (\<lambda>(r, s). case r of
        SetupFailed sc reason \<Rightarrow> Ok (respond tx (NewResponse req sc reason) s)
      | SetupDone a b portA sdpOffer pt bobBody aliceBody \<Rightarrow>
          let calleeTag = GenerateTag (he_rnd env 2);
              bobCallID = GenerateCallID (he_rnd env 3);
              tr = (if transport = ''TCP'' then TCPTransport else UDPTransport);
              (u, branch, s) = new_uac env 4 ''INVITE'' tr target s;
              rr = record_route cfg (hc_serverIP cfg);
              kvs = call_headers cfg (hc_serverIP cfg) transport branch (tagged (addr_URI from_addr) calleeTag) (''<'' @ addr_URI to_addr @ ''>'') bobCallID rr
                @ (if hs_prack s \<noteq> None then [(''Supported'', ''100rel'')] else []);
              invite = (mk_request ''INVITE'' (bd_ContactURI binding) 1 kvs)\<lparr>msg_Body := bobBody\<rparr>;
              cc = \<lparr>cc_req = req, cc_tx = tx, cc_target = target, cc_transportImpl = tr, cc_uac = u, cc_rtpConnA = a, cc_rtpConnB = b, cc_from = from_addr,
                cc_aliceFromTag = aliceFromTag, cc_serverTag = serverTag, cc_callID = callID, cc_calleeTag = calleeTag, cc_bobCallID = bobCallID,
                cc_to = to_addr, cc_selectedPT = pt, cc_hasEarlyOffer = (sdpOffer \<noteq> None), cc_aliceSDPOffer = sdpOffer, cc_aliceSDPBytes = aliceBody,
                cc_recordRoute = rr\<rparr>
          in Ok (start_loop cc (BobLeg (bd_ContactURI binding) rel) invite s))))"


section \<open>Calls to trunks\<close>

definition trunk_headers :: "Trunk \<Rightarrow> string \<Rightarrow> SIPHeaders \<Rightarrow> SIPHeaders" where
  "trunk_headers trk trunkIP hs =
     (let hs = (if trk_CallerID trk \<noteq> [] then
            add_headers [(''P-Asserted-Identity'', ''<sip:'' @ trk_CallerID trk @ ''@'' @ trunkIP @ ''>''), (''Privacy'', ''none'')] hs else hs);
          hs = fold (\<lambda>h hs. SIPHeaders_Delete hs h) (trk_StripHeaders trk) hs
      in if 0 < trk_SessionExpiresSec trk then SIPHeaders_Add hs ''Session-Expires'' (Itoa (trk_SessionExpiresSec trk) @ '';refresher=uac'') else hs)"

text \<open>The transport of a trunk, and its connection registered when it is TCP.\<close>

definition trunk_transport :: "handler_env \<Rightarrow> Trunk \<Rightarrow> Target \<Rightarrow> string \<Rightarrow> handler_state \<Rightarrow> transport_kind \<times> Target \<times> handler_state" where
  "trunk_transport env trk bobTarget bobTransport s =
     (if bobTransport = ''TCP'' \<and> trk_Transport trk = ''tcp'' then
        (case tgt_Conn bobTarget of
           Some conn \<Rightarrow> (let (conn, s) = HandleOutbound (env_now (he_auth env)) conn s in (TCPTransport, bobTarget\<lparr>tgt_Conn := Some conn\<rparr>, s))
         | None \<Rightarrow> (TCPTransport, bobTarget, s))
      else (UDPTransport, bobTarget, s))"

definition give_up_trunk :: "string \<Rightarrow> nat \<Rightarrow> nat \<Rightarrow> handler_state \<Rightarrow> handler_state" where
  "give_up_trunk name a b s = release_channel name (close_rtp b (close_rtp a s))"

definition trunk_call ::
  "handler_config \<Rightarrow> handler_env \<Rightarrow> SIPMessage \<Rightarrow> nat \<Rightarrow> Trunk \<Rightarrow> string \<Rightarrow> SIPAddress \<Rightarrow> string
   \<Rightarrow> nat \<Rightarrow> nat \<Rightarrow> SDP option \<Rightarrow> byte \<Rightarrow> string \<Rightarrow> string \<Rightarrow> handler_state \<Rightarrow> ('e, handler_state) go" where
  "trunk_call cfg env req tx trk dest to_addr trunkIP a b sdpOffer pt bobBody aliceBody s =
     (case SIPMessage_From req of
        Panic \<Rightarrow> Panic
      | Fail _ \<Rightarrow> Ok (respond tx (NewResponse req 400 ''Bad Request'') (give_up_trunk (trk_Name trk) a b s))
      | Ok from_addr \<Rightarrow>
          and_then (SIPHeaders_GetFirst (msg_Headers req) ''Call-ID'') (\<lambda>callID.
          let bobReqURI = ''sip:'' @ dest @ ''@'' @ JoinHostPort (trk_Host trk) (Itoa (trk_Port trk)) in
          and_then (TargetFromContact (hc_uni cfg) (he_dial env) (he_resolve env) bobReqURI) (\<lambda>r. case r of
            None \<Rightarrow> Ok (respond tx (NewResponse req 502 ''Bad Gateway'') (give_up_trunk (trk_Name trk) a b s))
          | Some (bobTarget, bobTransport) \<Rightarrow>
              let serverTag = GenerateTag (he_rnd env 1);
                  calleeTag = GenerateTag (he_rnd env 2);
                  bobCallID = GenerateCallID (he_rnd env 3);
                  (tr, bobTarget, s) = trunk_transport env trk bobTarget bobTransport s;
                  (u, branch, s) = new_uac env 4 ''INVITE'' tr bobTarget s;
                  rr = record_route cfg trunkIP;
                  kvs = call_headers cfg trunkIP bobTransport branch (tagged (addr_URI from_addr) calleeTag) (''<'' @ addr_URI to_addr @ ''>'') bobCallID rr;
                  invite = mk_request ''INVITE'' bobReqURI 1 kvs;
                  invite = invite\<lparr>msg_Headers := trunk_headers trk trunkIP (msg_Headers invite), msg_Body := bobBody\<rparr>;
                  cc = \<lparr>cc_req = req, cc_tx = tx, cc_target = bobTarget, cc_transportImpl = tr, cc_uac = u, cc_rtpConnA = a, cc_rtpConnB = b,
                    cc_from = from_addr, cc_aliceFromTag = addr_Tag from_addr, cc_serverTag = serverTag, cc_callID = callID, cc_calleeTag = calleeTag,
                    cc_bobCallID = bobCallID, cc_to = to_addr, cc_selectedPT = pt, cc_hasEarlyOffer = (sdpOffer \<noteq> None), cc_aliceSDPOffer = sdpOffer,
                    cc_aliceSDPBytes = aliceBody, cc_recordRoute = rr\<rparr>
              in Ok (start_loop cc (TrunkLeg (trk_Name trk) bobReqURI (if 0 < trk_SessionExpiresSec trk then seconds (trk_SessionExpiresSec trk) else 0)) invite s))))"

definition handleTrunkInvite ::
  "handler_config \<Rightarrow> handler_env \<Rightarrow> SIPMessage \<Rightarrow> nat \<Rightarrow> Trunk \<Rightarrow> string \<Rightarrow> SIPAddress \<Rightarrow> handler_state \<Rightarrow> ('e, handler_state) go" where
  "handleTrunkInvite cfg env req tx trk dest to_addr s = (case hs_trunks s of
     None \<Rightarrow> Panic
   | Some m \<Rightarrow>
       let trunkIP = (if trk_LocalIP trk = [] then hc_serverIP cfg else trk_LocalIP trk);
           (m, acquired) = AcquireChannel (trk_Name trk) m;
           s = s\<lparr>hs_trunks := Some m\<rparr> in
       if \<not> acquired then Ok (respond tx (NewResponse req 503 ''Service Unavailable'') s)
       else and_then (setup_media cfg env req trunkIP s) (\<lambda>(r, s). case r of
         SetupFailed sc reason \<Rightarrow> Ok (respond tx (NewResponse req sc reason) (release_channel (trk_Name trk) s))
       | SetupDone a b portA sdpOffer pt bobBody aliceBody \<Rightarrow>
           trunk_call cfg env req tx trk dest to_addr trunkIP a b sdpOffer pt bobBody aliceBody s))"

section \<open>INVITE\<close>

definition call_user :: "handler_config \<Rightarrow> handler_env \<Rightarrow> SIPMessage \<Rightarrow> nat \<Rightarrow> SIPAddress \<Rightarrow> handler_state \<Rightarrow> ('e, handler_state) go" where
  "call_user cfg env req tx to_addr s =
     (let bindings = GetBindings (hs_reg s) (NormalizeAOR (addr_URI to_addr)) in
      if bindings = [] then Ok (respond tx (NewResponse req 404 ''Not Found'') s)
      else and_then (selectBinding cfg env bindings s) (\<lambda>(r, s). case r of
        None \<Rightarrow> Ok (respond tx (NewResponse req 502 ''Bad Gateway'') s)
      | Some (binding, target, transport) \<Rightarrow>
          (case SIPMessage_From req of
             Panic \<Rightarrow> Panic
           | Fail _ \<Rightarrow> Ok (respond tx (NewResponse req 400 ''Bad Request'') s)
           | Ok from_addr \<Rightarrow> bob_call cfg env req tx to_addr from_addr binding target transport (detect100relSupport cfg req s) s)))"

definition handleB2BUAInvite :: "handler_config \<Rightarrow> handler_env \<Rightarrow> SIPMessage \<Rightarrow> nat \<Rightarrow> handler_state \<Rightarrow> ('e, handler_state) go" where
  "handleB2BUAInvite cfg env req tx s = (case SIPMessage_To req of
     Panic \<Rightarrow> Panic
   | Fail _ \<Rightarrow> Ok (respond tx (NewResponse req 400 ''Bad Request'') s)
   | Ok to_addr \<Rightarrow>
       and_then (case hs_trunks s of None \<Rightarrow> Ok None | Some m \<Rightarrow> MatchRoute m (ExtractUser (addr_URI to_addr))) (\<lambda>r. case r of
         Some (trk, transformed) \<Rightarrow> handleTrunkInvite cfg env req tx trk transformed to_addr s
       | None \<Rightarrow> call_user cfg env req tx to_addr s))"

definition from_trusted_trunk :: "handler_config \<Rightarrow> tx_info \<Rightarrow> handler_state \<Rightarrow> bool" where
  "from_trusted_trunk cfg info s = (case (hs_trunks s, tgt_Addr (tx_Target info)) of
     (Some m, Some addr) \<Rightarrow>
       (let srcIP = net_addr_String addr; srcIP = (case SplitHostPort srcIP of Some (host, _) \<Rightarrow> host | None \<Rightarrow> srcIP)
        in TrunkManager_TrustedIPMatches (hc_net cfg) m srcIP)
   | _ \<Rightarrow> False)"

definition HandleInvite :: "handler_config \<Rightarrow> handler_env \<Rightarrow> SIPMessage \<Rightarrow> nat \<Rightarrow> handler_state \<Rightarrow> ('e, handler_state) go" where
  "HandleInvite cfg env req tx s =
     (let s = respond tx (NewResponse req 100 ''Trying'') s in
      and_then (tx_info_of s tx) (\<lambda>info.
      and_then (if from_trusted_trunk cfg info s then Ok (True, s) else requireProxyAuth cfg env req tx ''INVITE'' s) (\<lambda>(allowed, s).
      if \<not> allowed then Ok s
      else case (case hc_dp cfg of None \<Rightarrow> None | Some dp \<Rightarrow> Dialplan_Lookup dp req) of
        Some entry \<Rightarrow> (case ent_Action entry of
            ActionEcho \<Rightarrow> handleEchoInvite cfg env req tx s
          | ActionPlay \<Rightarrow> handleFileInvite cfg env req tx (ent_File entry) s)
      | None \<Rightarrow> handleB2BUAInvite cfg env req tx s)))"


section \<open>The response loops\<close>

definition uac_commit :: "nat \<Rightarrow> UACTransaction \<times> uac_effect list \<Rightarrow> handler_state \<Rightarrow> handler_state" where
  "uac_commit u r s = s\<lparr>hs_uac := commit u r (hs_uac s)\<rparr>"

text \<open>What happens to the resources of a call attempt that ends: the sockets are closed, and a trunk gets its channel back.\<close>

fun leg_release :: "leg \<Rightarrow> handler_state \<Rightarrow> handler_state" where
  "leg_release (BobLeg uri rel) s = s"
| "leg_release (TrunkLeg name uri ivl) s = release_channel name s"

definition drop_call :: "callCtx \<Rightarrow> leg \<Rightarrow> handler_state \<Rightarrow> handler_state" where
  "drop_call cc lg s = leg_release lg (close_both cc s)"

fun leg_uri :: "leg \<Rightarrow> string" where
  "leg_uri (BobLeg uri rel) = uri"
| "leg_uri (TrunkLeg name uri ivl) = uri"

fun leg_trunk :: "leg \<Rightarrow> string" where
  "leg_trunk (BobLeg uri rel) = []"
| "leg_trunk (TrunkLeg name uri ivl) = name"

fun is_trunk :: "leg \<Rightarrow> bool" where
  "is_trunk (BobLeg uri rel) = False"
| "is_trunk (TrunkLeg name uri ivl) = True"

definition ack_request :: "handler_config \<Rightarrow> handler_env \<Rightarrow> callCtx \<Rightarrow> string \<Rightarrow> string \<Rightarrow> SIPMessage" where
  "ack_request cfg env cc uri bobTag =
     mk_request ''ACK'' uri 1 [(''Via'', via_header (TransportName (cc_transportImpl cc)) (hc_serverIP cfg) (hc_serverPort cfg) (GenerateBranch (he_rnd env 0)) @ '';rport''),
       (''From'', tagged (addr_URI (cc_from cc)) (cc_calleeTag cc)), (''To'', tagged (addr_URI (cc_to cc)) bobTag),
       (''Call-ID'', cc_bobCallID cc), (''Max-Forwards'', ''70''), (''Content-Length'', ''0'')]"

definition alice_ok :: "handler_config \<Rightarrow> callCtx \<Rightarrow> transport_kind \<Rightarrow> string \<Rightarrow> ('e, SIPMessage) go" where
  "alice_ok cfg cc tr body =
     and_then (SIPHeaders_GetFirst (msg_Headers (cc_req cc)) ''To'') (\<lambda>toHeader.
     let res = NewResponse (cc_req cc) 200 ''OK'';
         hs = SIPHeaders_Set (msg_Headers res) ''To'' [toHeader @ '';tag='' @ cc_serverTag cc];
         hs = SIPHeaders_Set hs ''Content-Type'' [''application/sdp''];
         hs = fmupd ''Allow'' [''INVITE, ACK, BYE, CANCEL, OPTIONS, REGISTER''] hs;
         hs = add_headers [(''Record-Route'', cc_recordRoute cc),
           (''Contact'', ''<sip:trec@'' @ hc_serverIP cfg @ '':'' @ hc_serverPort cfg @ '';transport='' @ TransportName tr @ ''>'')] hs
     in Ok (res\<lparr>msg_Headers := hs, msg_Body := body\<rparr>))"

definition new_call ::
  "handler_config \<Rightarrow> handler_env \<Rightarrow> callCtx \<Rightarrow> leg \<Rightarrow> tx_info \<Rightarrow> transport_kind \<Rightarrow> string \<Rightarrow> string \<Rightarrow> net_addr \<Rightarrow> nat \<Rightarrow> nat \<Rightarrow> Call" where
  "new_call cfg env cc lg info tr aliceContact bobTag bobRTPAddr aliceSess bobSess =
     (let now = env_now (he_auth env);
          serverContact = ''<sip:trec@'' @ hc_serverIP cfg @ '':'' @ hc_serverPort cfg @ ''>'';
          aliceDialog = NewDialog now \<lparr>di_CallID = cc_callID cc, di_LocalTag = cc_serverTag cc, di_RemoteTag = cc_aliceFromTag cc\<rparr>
            serverContact (addr_URI (cc_from cc)) aliceContact;
          bobDialog = NewDialog now \<lparr>di_CallID = cc_bobCallID cc, di_LocalTag = cc_calleeTag cc, di_RemoteTag = bobTag\<rparr>
            serverContact (addr_URI (cc_to cc)) (leg_uri lg)
      in \<lparr>ca_AliceTransport = tr, ca_BobTransport = cc_transportImpl cc, ca_BobRTPAddr = bobRTPAddr, ca_BobTarget = cc_target cc,
          ca_BobSess = bobSess, ca_AliceSess = aliceSess, ca_BobDialog = Dialog_SetState DialogStateConfirmed bobDialog,
          ca_AliceDialog = Dialog_SetState DialogStateConfirmed aliceDialog,
          ca_Bridge = NewBridge (he_ssrc env 2) (he_ssrc env 3) (cc_rtpConnA cc) (cc_rtpConnB cc), ca_AliceTarget = tx_Target info,
          ca_BobCalleeTag = cc_calleeTag cc, ca_BobRemoteTag = bobTag, ca_AliceFromTag = cc_aliceFromTag cc, ca_AliceServerTag = cc_serverTag cc,
          ca_AliceContactURI = aliceContact, ca_AliceCallID = cc_callID cc, ca_BobContactURI = leg_uri lg, ca_BobCallID = cc_bobCallID cc,
          ca_BridgeReady = False, ca_TrunkName = leg_trunk lg\<rparr>)"

text \<open>The two forwarding goroutines of a bridge run from its start until it is stopped.\<close>

definition bridge_task :: "Call \<Rightarrow> media_task" where
  "bridge_task call = BridgeTask (bd_AConn (ca_Bridge call)) (bd_BConn (ca_Bridge call))"

definition start_bridge :: "Call \<Rightarrow> handler_state \<Rightarrow> handler_state" where
  "start_bridge call s = (if bd_started (ca_Bridge call) then s\<lparr>hs_tasks := bridge_task call # hs_tasks s\<rparr> else s)"

definition stop_bridge :: "Call \<Rightarrow> handler_state \<Rightarrow> handler_state" where
  "stop_bridge call s = s\<lparr>hs_tasks := removeAll (bridge_task call) (hs_tasks s)\<rparr>"

text \<open>
  The part after the ACK and the 200: sessions, bridge, dialogs, table.  The caller's address is resolved twice in the code, with
  the same input; when it cannot be resolved the function returns with nothing undone.  The answer is whether the call was stored.
\<close>

definition establish ::
  "handler_config \<Rightarrow> handler_env \<Rightarrow> callCtx \<Rightarrow> leg \<Rightarrow> tx_info \<Rightarrow> transport_kind \<Rightarrow> string \<Rightarrow> SIPAddress \<Rightarrow> SDP \<Rightarrow> handler_state \<Rightarrow> bool \<times> handler_state" where
  "establish cfg env cc lg info tr aliceContact bobTo bobSDP s =
     (let bobRTPAddr = parsed_rtp_addr cfg bobSDP;
          portOf = (\<lambda>c. case fmlookup (hs_ports s) c of Some p \<Rightarrow> Some (UDPAddr ''0.0.0.0'' p) | None \<Rightarrow> None);
          aliceKey = \<lparr>sk_CallID = cc_callID cc, sk_LocalTag = cc_serverTag cc, sk_RemoteTag = cc_aliceFromTag cc\<rparr>;
          bobKey = \<lparr>sk_CallID = cc_bobCallID cc, sk_LocalTag = addr_Tag bobTo, sk_RemoteTag = cc_calleeTag cc\<rparr>;
          aliceSess = NewSession (he_ssrc env 0) aliceKey (cc_rtpConnA cc) (cc_selectedPT cc) (portOf (cc_rtpConnA cc));
          bobSess = Session_SetRemoteAddr bobRTPAddr
            (NewSession (he_ssrc env 1) bobKey (cc_rtpConnB cc) (cc_selectedPT cc) (portOf (cc_rtpConnB cc)));
          i = hs_next s;
          call = new_call cfg env cc lg info tr aliceContact (addr_Tag bobTo) bobRTPAddr i (Suc i);
          finish = (\<lambda>aliceSess call. let s = add_session (Suc i) bobSess (add_session i aliceSess s)
            in (True, start_bridge call (s\<lparr>hs_store := Store_Store call (hs_store s), hs_next := Suc (Suc i)\<rparr>)))
      in case cc_aliceSDPOffer cc of
           Some sdp \<Rightarrow>
             (case resolve_rtp cfg env sdp of
                None \<Rightarrow> (False, s)
              | Some aRTPAddr \<Rightarrow>
                  finish (Session_SetState SessionActive (Session_SetRemoteAddr aRTPAddr aliceSess))
                    (call\<lparr>ca_Bridge := Bridge_Start (SetBRemote bobRTPAddr (SetARemote aRTPAddr (ca_Bridge call))), ca_BridgeReady := True\<rparr>))
         | None \<Rightarrow> finish (Session_SetState SessionWaitingAck aliceSess) call)"

text \<open>A 200 of the other leg; \<open>cancelled\<close> is the state of the context of the loop.\<close>

definition handle200OK ::
  "handler_config \<Rightarrow> handler_env \<Rightarrow> bool \<Rightarrow> callCtx \<Rightarrow> leg \<Rightarrow> SIPMessage \<Rightarrow> handler_state \<Rightarrow> ('e, bool \<times> handler_state) go" where
  "handle200OK cfg env cancelled cc lg resp s =
     (if cancelled then Ok (False, drop_call cc lg s)
      else case SIPMessage_To resp of
        Panic \<Rightarrow> Panic
      | Fail _ \<Rightarrow> Ok (False, drop_call cc lg s)
      | Ok bobTo \<Rightarrow> (case UnmarshalSDP (msg_Body resp) of
          Panic \<Rightarrow> Panic
        | Fail _ \<Rightarrow> Ok (False, drop_call cc lg s)
        | Ok bobSDP \<Rightarrow>
            let s = transport_send (cc_transportImpl cc) (cc_target cc) (ack_request cfg env cc (leg_uri lg) (addr_Tag bobTo)) s in
            and_then (tx_info_of s (cc_tx cc)) (\<lambda>info.
            let tr = (case tx_Transport info of Some t \<Rightarrow> t | None \<Rightarrow> OtherTransport) in
            and_then (if cc_hasEarlyOffer cc then Ok (cc_aliceSDPBytes cc)
              else case fmlookup (hs_ports s) (cc_rtpConnA cc) of
                None \<Rightarrow> Panic
              | Some port \<Rightarrow> sdp_body (BuildOffer (env_now (he_auth env)) port (cc_selectedPT cc) (hc_serverIP cfg))) (\<lambda>body.
            and_then (alice_ok cfg cc tr body) (\<lambda>res.
            and_then (SIPHeaders_GetFirst (msg_Headers (cc_req cc)) ''Contact'') (\<lambda>aliceContact.
            Ok (establish cfg env cc lg info tr aliceContact bobTo bobSDP (respond (cc_tx cc) res s))))))))"

definition handleBob200OK ::
  "handler_config \<Rightarrow> handler_env \<Rightarrow> bool \<Rightarrow> callCtx \<Rightarrow> string \<Rightarrow> bool \<Rightarrow> SIPMessage \<Rightarrow> handler_state \<Rightarrow> ('e, handler_state) go" where
  "handleBob200OK cfg env cancelled cc contactURI rel resp s =
     and_then (handle200OK cfg env cancelled cc (BobLeg contactURI rel) resp s) (\<lambda>(_, s). Ok s)"

text \<open>The trunk variant starts the session timer when the call was stored.\<close>

definition handleTrunk200OK ::
  "handler_config \<Rightarrow> handler_env \<Rightarrow> bool \<Rightarrow> callCtx \<Rightarrow> string \<Rightarrow> string \<Rightarrow> int \<Rightarrow> SIPMessage \<Rightarrow> handler_state \<Rightarrow> ('e, handler_state) go" where
  "handleTrunk200OK cfg env cancelled cc trunkName bobReqURI sessionExpires resp s =
     and_then (handle200OK cfg env cancelled cc (TrunkLeg trunkName bobReqURI sessionExpires) resp s) (\<lambda>(stored, s).
     Ok (if stored \<and> 0 < sessionExpires then s\<lparr>hs_timers := (cc_callID cc, trunkName) # hs_timers s\<rparr> else s))"


text \<open>The provisional response passed on to the caller.\<close>

definition provisional :: "callCtx \<Rightarrow> SIPMessage \<Rightarrow> SIPMessage" where
  "provisional cc resp =
     (let prov = NewResponse (cc_req cc) (SIPMessage_StatusCode resp) (status_reason resp);
          hs = SIPHeaders_Set (msg_Headers prov) ''To'' [tagged (addr_URI (cc_to cc)) (cc_serverTag cc)]
      in if msg_Body resp \<noteq> [] then
           (let ct = values_at (msg_Headers resp) ''Content-Type'';
                hs = (if ct \<noteq> [] then fmupd ''Content-Type'' ct hs else hs);
                hs = SIPHeaders_Set hs ''Content-Length'' [Itoa (int (length (msg_Body resp)))]
            in prov\<lparr>msg_Headers := hs, msg_Body := msg_Body resp\<rparr>)
         else prov\<lparr>msg_Headers := hs\<rparr>)"

definition refusal :: "callCtx \<Rightarrow> SIPMessage \<Rightarrow> SIPMessage" where
  "refusal cc resp = NewResponse (cc_req cc) (SIPMessage_StatusCode resp) (status_reason resp)"

text \<open>PRACK for a reliable provisional response of the other leg.\<close>

definition send_prack :: "handler_config \<Rightarrow> handler_env \<Rightarrow> callCtx \<Rightarrow> string \<Rightarrow> SIPMessage \<Rightarrow> handler_state \<Rightarrow> ('e, handler_state) go" where
  "send_prack cfg env cc contactURI resp s =
     and_then (SIPHeaders_GetFirst (msg_Headers resp) ''Require'') (\<lambda>bobRequire.
     and_then (SIPHeaders_GetFirst (msg_Headers resp) ''RSeq'') (\<lambda>bobRSeq.
     if bobRequire \<noteq> [] \<and> bobRSeq \<noteq> [] \<and> Contains (ToLower (uni_lower (hc_uni cfg)) bobRequire) ''100rel'' \<and> hs_prack s \<noteq> None then
       and_then (case SIPMessage_To resp of Ok a \<Rightarrow> Ok (addr_Tag a) | Fail _ \<Rightarrow> Ok [] | Panic \<Rightarrow> Panic) (\<lambda>bobRespTag.
       let (u, branch, s) = new_uac env 0 ''PRACK'' (cc_transportImpl cc) (cc_target cc) s;
           seq = cseq_Seq (msg_CSeq resp);
           prack = mk_request ''PRACK'' contactURI (seq + 1)
             [(''Via'', via_header (TransportName (cc_transportImpl cc)) (hc_serverIP cfg) (hc_serverPort cfg) branch),
              (''From'', tagged (addr_URI (cc_from cc)) (cc_calleeTag cc)), (''To'', tagged (addr_URI (cc_to cc)) bobRespTag),
              (''Call-ID'', cc_bobCallID cc), (''RAck'', bobRSeq @ '' '' @ Itoa seq @ '' INVITE''), (''Max-Forwards'', ''70''), (''Content-Length'', ''0'')] in
       case fmlookup (um_txs (hs_uac s)) u of
         None \<Rightarrow> Panic
       | Some ut \<Rightarrow> and_then (UACTransaction_Send (he_sent env) prack ut) (\<lambda>(ut, effects, _). Ok (uac_commit u (ut, effects) s)))
     else Ok s))"

definition ring_alice :: "callCtx \<Rightarrow> nat \<Rightarrow> bool \<Rightarrow> SIPMessage \<Rightarrow> handler_state \<Rightarrow> ('e, handler_state) go" where
  "ring_alice cc i rel prov s = (case (rel, hs_prack s) of
     (True, Some m) \<Rightarrow> and_then (SendReliable (cc_tx cc) prov (cc_callID cc) (Some i) (m, hs_tm s)) (\<lambda>(m, tm). Ok (s\<lparr>hs_prack := Some m, hs_tm := tm\<rparr>))
   | _ \<Rightarrow> Ok (respond (cc_tx cc) prov s))"

text \<open>The end of a loop: what its deferred calls do, and its removal.\<close>

definition end_loop :: "nat \<Rightarrow> response_loop \<Rightarrow> handler_state \<Rightarrow> handler_state" where
  "end_loop i lp s =
     (let s = (if is_trunk (lp_leg lp) \<or> \<not> lp_started lp then s else cancelPRACK (cc_callID (lp_cc lp)) s)
      in s\<lparr>hs_store := RemoveEarly (cc_callID (lp_cc lp)) (hs_store s), hs_loops := fmdrop i (hs_loops s)\<rparr>)"

definition cancel_if_bob :: "response_loop \<Rightarrow> handler_state \<Rightarrow> handler_state" where
  "cancel_if_bob lp s = (if is_trunk (lp_leg lp) then s else cancelPRACK (cc_callID (lp_cc lp)) s)"

text \<open>One response, for either kind of leg; the answer is whether the loop ends.\<close>

definition b2buaResponse ::
  "handler_config \<Rightarrow> handler_env \<Rightarrow> nat \<Rightarrow> response_loop \<Rightarrow> string \<Rightarrow> bool \<Rightarrow> SIPMessage \<Rightarrow> handler_state \<Rightarrow> ('e, bool \<times> handler_state) go" where
  "b2buaResponse cfg env i lp contactURI rel resp s =
     (let cc = lp_cc lp; sc = SIPMessage_StatusCode resp in
      if 100 \<le> sc \<and> sc < 200 then
        (if sc = 180 \<or> sc = 183 then
           and_then (send_prack cfg env cc contactURI resp s) (\<lambda>s.
           and_then (ring_alice cc i rel (provisional cc resp) s) (\<lambda>s. Ok (False, s)))
         else Ok (False, s))
      else if sc = 200 then
        and_then (handleBob200OK cfg env (lp_cancelled lp) cc contactURI rel resp (cancelPRACK (cc_callID cc) s)) (\<lambda>s. Ok (True, s))
      else if 300 \<le> sc then Ok (True, respond (cc_tx cc) (refusal cc resp) (drop_call cc (lp_leg lp) (cancelPRACK (cc_callID cc) s)))
      else Ok (False, s))"

definition trunkResponse ::
  "handler_config \<Rightarrow> handler_env \<Rightarrow> response_loop \<Rightarrow> string \<Rightarrow> string \<Rightarrow> int \<Rightarrow> SIPMessage \<Rightarrow> handler_state \<Rightarrow> ('e, bool \<times> handler_state) go" where
  "trunkResponse cfg env lp trunkName bobReqURI sessionExpires resp s =
     (let cc = lp_cc lp; sc = SIPMessage_StatusCode resp in
      if 100 \<le> sc \<and> sc < 200 then Ok (False, respond (cc_tx cc) (provisional cc resp) s)
      else if sc = 200 then
        and_then (handleTrunk200OK cfg env (lp_cancelled lp) cc trunkName bobReqURI sessionExpires resp s) (\<lambda>s. Ok (True, s))
      else if 300 \<le> sc then Ok (True, respond (cc_tx cc) (refusal cc resp) (drop_call cc (lp_leg lp) s))
      else Ok (False, s))"

definition loop_response ::
  "handler_config \<Rightarrow> handler_env \<Rightarrow> nat \<Rightarrow> response_loop \<Rightarrow> SIPMessage \<Rightarrow> handler_state \<Rightarrow> ('e, bool \<times> handler_state) go" where
  "loop_response cfg env i lp resp s = (case lp_leg lp of
     BobLeg uri rel \<Rightarrow> b2buaResponse cfg env i lp uri rel resp s
   | TrunkLeg name uri ivl \<Rightarrow> trunkResponse cfg env lp name uri ivl resp s)"

text \<open>What a loop can do next: send the INVITE, or receive from one of the channels it selects on.\<close>

datatype loop_event = LoopSend | LoopPrackDone | LoopDone | LoopResponse | LoopError

definition loop_step ::
  "handler_config \<Rightarrow> handler_env \<Rightarrow> nat \<Rightarrow> loop_event \<Rightarrow> handler_state \<Rightarrow> ('e, handler_state) go" where
  "loop_step cfg env i ev s = (case fmlookup (hs_loops s) i of
     None \<Rightarrow> Ok s
   | Some lp \<Rightarrow>
       let cc = lp_cc lp; lg = lp_leg lp in
       (case fmlookup (um_txs (hs_uac s)) (cc_uac cc) of
          None \<Rightarrow> Panic
        | Some ut \<Rightarrow>
            if \<not> lp_started lp then
              (if ev \<noteq> LoopSend then Ok s
               else and_then (UACTransaction_Send (he_sent env) (lp_invite lp) ut) (\<lambda>(ut, effects, err).
                 let s = uac_commit (cc_uac cc) (ut, effects) s in
                 if err \<noteq> None then Ok (end_loop i lp (respond (cc_tx cc) (NewResponse (cc_req cc) 502 ''Bad Gateway'') (drop_call cc lg s)))
                 else Ok (s\<lparr>hs_loops := fmupd i (lp\<lparr>lp_started := True\<rparr>) (hs_loops s)\<rparr>)))
            else case ev of
              LoopSend \<Rightarrow> Ok s
            | LoopPrackDone \<Rightarrow> Ok (if lp_prackDone lp \<and> \<not> is_trunk lg then end_loop i lp s else s)
            | LoopDone \<Rightarrow> Ok (if lp_cancelled lp then end_loop i lp (cancel_if_bob lp (drop_call cc lg s)) else s)
            | LoopResponse \<Rightarrow>
                (case ut_Responses ut of
                   [] \<Rightarrow> Ok s
                 | resp # rest \<Rightarrow>
                     let s = uac_commit (cc_uac cc) (ut\<lparr>ut_Responses := rest\<rparr>, []) s in
                     and_then (loop_response cfg env i lp resp s) (\<lambda>(done, s). Ok (if done then end_loop i lp s else s)))
            | LoopError \<Rightarrow>
                (case ut_Errors ut of
                   [] \<Rightarrow> Ok s
                 | _ # rest \<Rightarrow>
                     let s = uac_commit (cc_uac cc) (ut\<lparr>ut_Errors := rest\<rparr>, []) s
                     in Ok (end_loop i lp (respond (cc_tx cc) (NewResponse (cc_req cc) 408 ''Request Timeout'') (drop_call cc lg (cancel_if_bob lp s)))))))"


section \<open>Timers\<close>

text \<open>
  A timer of the reliable provisional responses fires; the function it may call is the one of the loop that sent the response.  It
  closes a channel of the loop, and a second \<^verbatim>\<open>close\<close> would panic.
\<close>

definition prack_timeout :: "nat \<Rightarrow> handler_state \<Rightarrow> ('e, handler_state) go" where
  "prack_timeout i s = (case fmlookup (hs_loops s) i of
     None \<Rightarrow> Ok s
   | Some lp \<Rightarrow>
       let cc = lp_cc lp; s = respond (cc_tx cc) (NewResponse (cc_req cc) 504 ''PRACK Timeout'') (close_both cc s)
       in if lp_prackDone lp then Panic else Ok (s\<lparr>hs_loops := fmupd i (lp\<lparr>lp_prackDone := True\<rparr>) (hs_loops s)\<rparr>))"

definition prack_timer :: "nat \<Rightarrow> handler_state \<Rightarrow> ('e, handler_state) go" where
  "prack_timer k s = (case hs_prack s of
     None \<Rightarrow> Ok s
   | Some m \<Rightarrow>
       (let (m, sent, call) = fire_reliable k m;
            s = fold (\<lambda>(tr, target, msg). transport_send tr target msg) sent (s\<lparr>hs_prack := Some m\<rparr>)
        in case call of None \<Rightarrow> Ok s | Some i \<Rightarrow> prack_timeout i s))"

definition dialog_bye :: "handler_config \<Rightarrow> handler_env \<Rightarrow> string \<Rightarrow> transport_kind \<Rightarrow> Dialog \<Rightarrow> SIPMessage" where
  "dialog_bye cfg env uri tr dlg =
     bye_request cfg uri (TransportName tr) (GenerateBranch (he_rnd env 0)) (tagged (StripBrackets (dg_LocalURI dlg)) (di_LocalTag (dg_ID dlg)))
       (tagged (StripBrackets (dg_RemoteURI dlg)) (di_RemoteTag (dg_ID dlg))) (di_CallID (dg_ID dlg))"

text \<open>
  The session interval of a trunk call is over.  \<^verbatim>\<open>trunkSessionTimer\<close> takes no lock of its own: the look-up, the teardown, the removal
  from the table and the release of the channel are separate steps (\<open>ending_step\<close> below interleaves them with everything else);
  the definition composes them without interruption.
\<close>

definition remove_call :: "Call \<Rightarrow> handler_state \<Rightarrow> handler_state" where
  "remove_call call s = s\<lparr>hs_store := Store_Remove (ca_AliceCallID call) (hs_store s)\<rparr>"

definition timer_teardown :: "handler_config \<Rightarrow> handler_env \<Rightarrow> Call \<Rightarrow> handler_state \<Rightarrow> handler_state" where
  "timer_teardown cfg env call s =
     (let s = transport_send (ca_AliceTransport call) (ca_AliceTarget call)
            (dialog_bye cfg env (StripBrackets (ca_AliceContactURI call)) (ca_AliceTransport call) (ca_AliceDialog call)) s
      in end_session (ca_BobSess call) (end_session (ca_AliceSess call) (stop_bridge call s)))"

definition trunkSessionTimer :: "handler_config \<Rightarrow> handler_env \<Rightarrow> string \<Rightarrow> string \<Rightarrow> handler_state \<Rightarrow> handler_state" where
  "trunkSessionTimer cfg env callID trunkName s = (case Store_Get callID (hs_store s) of
     None \<Rightarrow> s
   | Some call \<Rightarrow> release_channel trunkName (remove_call call (timer_teardown cfg env call s)))"

definition session_timer :: "handler_config \<Rightarrow> handler_env \<Rightarrow> string \<Rightarrow> string \<Rightarrow> handler_state \<Rightarrow> handler_state" where
  "session_timer cfg env callID trunkName s =
     (if (callID, trunkName) \<notin> set (hs_timers s) then s
      else trunkSessionTimer cfg env callID trunkName (s\<lparr>hs_timers := remove1 (callID, trunkName) (hs_timers s)\<rparr>))"

section \<open>ACK\<close>

text \<open>\<^verbatim>\<open>checkB2BUAAck\<close>: \<open>None\<close> when the Call-ID belongs to no call.\<close>

definition checkB2BUAAck :: "handler_config \<Rightarrow> SIPMessage \<Rightarrow> handler_state \<Rightarrow> ('e, handler_state option) go" where
  "checkB2BUAAck cfg msg s =
     and_then (SIPHeaders_GetFirst (msg_Headers msg) ''Call-ID'') (\<lambda>callID. case Store_Get callID (hs_store s) of
       None \<Rightarrow> Ok None
     | Some call \<Rightarrow>
         if ca_BridgeReady call then Ok (Some s)
         else if msg_Body msg = [] then Ok (Some s)
         else case UnmarshalSDP (msg_Body msg) of
           Panic \<Rightarrow> Panic
         | Fail _ \<Rightarrow> Ok (Some s)
         | Ok sdp \<Rightarrow>
             let addr = parsed_rtp_addr cfg sdp;
                 call = call\<lparr>ca_Bridge := Bridge_Start (SetBRemote (ca_BobRTPAddr call) (SetARemote addr (ca_Bridge call))), ca_BridgeReady := True\<rparr>;
                 sessions = (case fmlookup (hs_sessions s) (ca_AliceSess call) of
                     None \<Rightarrow> hs_sessions s
                   | Some se \<Rightarrow> fmupd (ca_AliceSess call) (Session_SetState SessionActive (Session_SetRemoteAddr addr se)) (hs_sessions s))
             in Ok (Some (start_bridge call (s\<lparr>hs_store := put_call call (hs_store s), hs_sessions := sessions\<rparr>))))"

definition session_key :: "SIPMessage \<Rightarrow> ('e, SessionKey option) go" where
  "session_key msg = (case SIPMessage_From msg of
     Panic \<Rightarrow> Panic | Fail _ \<Rightarrow> Ok None
   | Ok from_addr \<Rightarrow> (case SIPMessage_To msg of
       Panic \<Rightarrow> Panic | Fail _ \<Rightarrow> Ok None
     | Ok to_addr \<Rightarrow> and_then (SIPHeaders_GetFirst (msg_Headers msg) ''Call-ID'') (\<lambda>callID.
         Ok (Some \<lparr>sk_CallID = callID, sk_LocalTag = addr_Tag to_addr, sk_RemoteTag = addr_Tag from_addr\<rparr>))))"

definition HandleAck :: "handler_config \<Rightarrow> SIPMessage \<Rightarrow> handler_state \<Rightarrow> ('e, handler_state) go" where
  "HandleAck cfg msg s =
     and_then (checkB2BUAAck cfg msg s) (\<lambda>r. case r of
       Some s \<Rightarrow> Ok s
     | None \<Rightarrow> and_then (session_key msg) (\<lambda>k. case (case k of None \<Rightarrow> None | Some key \<Rightarrow> SessionManager_Get key (hs_sm s)) of
         None \<Rightarrow> Ok s
       | Some i \<Rightarrow> (case fmlookup (hs_sessions s) i of
           None \<Rightarrow> Panic
         | Some se \<Rightarrow>
             if se_State se \<noteq> SessionWaitingAck \<or> msg_Body msg = [] then Ok s
             else case UnmarshalSDP (msg_Body msg) of
               Panic \<Rightarrow> Panic
             | Fail _ \<Rightarrow> Ok s
             | Ok sdp \<Rightarrow>
                 let se = Session_SetState SessionActive (Session_SetRemoteAddr (parsed_rtp_addr cfg sdp) se);
                     task = (case se_Kind se of SessionKindPlay \<Rightarrow> PlayTask i | SessionKindEcho \<Rightarrow> EchoTask i)
                 in Ok (s\<lparr>hs_sessions := fmupd i se (hs_sessions s), hs_tasks := task # hs_tasks s\<rparr>))))"

section \<open>BYE and CANCEL\<close>

text \<open>
  The end of a bridged call by either side: the BYE for the other leg, then everything the call holds is given back.  Again the
  parts are separate definitions, for no lock spans them.
\<close>

definition bye_teardown :: "handler_config \<Rightarrow> handler_env \<Rightarrow> string \<Rightarrow> Call \<Rightarrow> handler_state \<Rightarrow> handler_state" where
  "bye_teardown cfg env callID call s =
     (let s = stop_bridge call s;
          s = (if callID = ca_AliceCallID call then
            transport_send (ca_BobTransport call) (ca_BobTarget call)
              (dialog_bye cfg env (StripBrackets (ca_BobContactURI call)) (ca_BobTransport call) (ca_BobDialog call)) s
          else
            transport_send (ca_AliceTransport call) (ca_AliceTarget call)
              (dialog_bye cfg env (StripBrackets (ca_AliceContactURI call)) (ca_AliceTransport call) (ca_AliceDialog call)) s)
      in end_session (ca_AliceSess call) (end_session (ca_BobSess call) s))"

definition bye_release :: "Call \<Rightarrow> handler_state \<Rightarrow> handler_state" where
  "bye_release call s = (if ca_TrunkName call \<noteq> [] then release_channel (ca_TrunkName call) s else s)"

definition bye_call :: "handler_config \<Rightarrow> handler_env \<Rightarrow> string \<Rightarrow> Call \<Rightarrow> handler_state \<Rightarrow> handler_state" where
  "bye_call cfg env callID call s = bye_release call (remove_call call (bye_teardown cfg env callID call s))"

definition bye_session :: "SIPMessage \<Rightarrow> handler_state \<Rightarrow> ('e, handler_state) go" where
  "bye_session req s =
     and_then (session_key req) (\<lambda>k. case (case k of None \<Rightarrow> None | Some key \<Rightarrow> SessionManager_Get key (hs_sm s)) of
       None \<Rightarrow> Ok s | Some i \<Rightarrow> Ok (end_session i s))"

definition bye_begin ::
  "handler_config \<Rightarrow> handler_env \<Rightarrow> SIPMessage \<Rightarrow> nat \<Rightarrow> handler_state \<Rightarrow> ('e, string \<times> bool \<times> handler_state) go" where
  "bye_begin cfg env req tx s =
     and_then (SIPHeaders_GetFirst (msg_Headers req) ''Call-ID'') (\<lambda>callID.
     let s = respond tx (NewResponse req 100 ''Trying'') s in
     and_then (requireProxyAuth cfg env req tx ''BYE'' s) (\<lambda>(allowed, s). Ok (callID, allowed, s)))"

definition bye_finish :: "handler_config \<Rightarrow> SIPMessage \<Rightarrow> nat \<Rightarrow> handler_state \<Rightarrow> handler_state" where
  "bye_finish cfg req tx s =
     (let res = NewResponse req 200 ''OK''
      in respond tx (res\<lparr>msg_Headers := fmupd ''Allow'' [hc_Allow cfg] (msg_Headers res)\<rparr>) s)"

definition HandleBye :: "handler_config \<Rightarrow> handler_env \<Rightarrow> SIPMessage \<Rightarrow> nat \<Rightarrow> handler_state \<Rightarrow> ('e, handler_state) go" where
  "HandleBye cfg env req tx s =
     and_then (bye_begin cfg env req tx s) (\<lambda>(callID, allowed, s).
     if \<not> allowed then Ok s
     else and_then (case Store_Get callID (hs_store s) of
         Some call \<Rightarrow> Ok (bye_call cfg env callID call s)
       | None \<Rightarrow> bye_session req s) (\<lambda>s. Ok (bye_finish cfg req tx s)))"

text \<open>
  The same two functions as goroutines, cut where another goroutine can get in between: each value is a program counter with
  the variables that are still needed, each step one access to a shared table.  The last argument of the two release points is
  not a variable of the code: it remembers the trunk of the call that this goroutine itself took out of the table, if any.
\<close>

datatype ending =
    ByeLookup handler_env SIPMessage nat string
  | ByeTeardown handler_env SIPMessage nat string Call
  | ByeRemove SIPMessage nat Call
  | ByeRelease SIPMessage nat Call "string option"
  | ByeRespond SIPMessage nat
  | TimerLookup handler_env string string
  | TimerTeardown handler_env string Call
  | TimerRemove string Call
  | TimerRelease string "string option"

definition removed_trunk :: "Call \<Rightarrow> handler_state \<Rightarrow> string option" where
  "removed_trunk call s = map_option ca_TrunkName (fmlookup (st_calls (hs_store s)) (ca_AliceCallID call))"

fun ending_step :: "handler_config \<Rightarrow> ending \<Rightarrow> handler_state \<Rightarrow> ('e, handler_state \<times> ending option) go" where
  "ending_step cfg (ByeLookup env req tx callID) s = (case Store_Get callID (hs_store s) of
     Some call \<Rightarrow> Ok (s, Some (ByeTeardown env req tx callID call))
   | None \<Rightarrow> and_then (bye_session req s) (\<lambda>s. Ok (s, Some (ByeRespond req tx))))"
| "ending_step cfg (ByeTeardown env req tx callID call) s = Ok (bye_teardown cfg env callID call s, Some (ByeRemove req tx call))"
| "ending_step cfg (ByeRemove req tx call) s = Ok (remove_call call s, Some (ByeRelease req tx call (removed_trunk call s)))"
| "ending_step cfg (ByeRelease req tx call r) s = Ok (bye_release call s, Some (ByeRespond req tx))"
| "ending_step cfg (ByeRespond req tx) s = Ok (bye_finish cfg req tx s, None)"
| "ending_step cfg (TimerLookup env callID trunkName) s = (case Store_Get callID (hs_store s) of
     Some call \<Rightarrow> Ok (s, Some (TimerTeardown env trunkName call))
   | None \<Rightarrow> Ok (s, None))"
| "ending_step cfg (TimerTeardown env trunkName call) s = Ok (timer_teardown cfg env call s, Some (TimerRemove trunkName call))"
| "ending_step cfg (TimerRemove trunkName call) s = Ok (remove_call call s, Some (TimerRelease trunkName (removed_trunk call s)))"
| "ending_step cfg (TimerRelease trunkName r) s = Ok (release_channel trunkName s, None)"

fun run_ending :: "nat \<Rightarrow> handler_config \<Rightarrow> ending \<Rightarrow> handler_state \<Rightarrow> ('e, handler_state) go" where
  "run_ending 0 cfg e s = Ok s"
| "run_ending (Suc n) cfg e s = and_then (ending_step cfg e s) (\<lambda>(s, e'). case e' of None \<Rightarrow> Ok s | Some e' \<Rightarrow> run_ending n cfg e' s)"

definition cancel_response :: "SIPMessage \<Rightarrow> EarlyCall option \<Rightarrow> ('e, SIPMessage) go" where
  "cancel_response req early =
     and_then (SIPHeaders_GetFirst (msg_Headers req) ''To'') (\<lambda>toHeader.
     let res = (NewResponse req 487 ''Request Terminated'')\<lparr>msg_CSeq := \<lparr>cseq_Method = ''INVITE'', cseq_Seq = cseq_Seq (msg_CSeq req)\<rparr>\<rparr>;
         tag = (case early of Some e \<Rightarrow> ec_AliceServerTag e | None \<Rightarrow> ''trecs-cancel'')
     in Ok (if Contains toHeader ''tag='' then res
            else res\<lparr>msg_Headers := SIPHeaders_Set (msg_Headers res) ''To'' [toHeader @ '';tag='' @ tag]\<rparr>))"

definition cancel_loop :: "nat \<Rightarrow> handler_state \<Rightarrow> handler_state" where
  "cancel_loop i s = (case fmlookup (hs_loops s) i of None \<Rightarrow> s | Some lp \<Rightarrow> s\<lparr>hs_loops := fmupd i (lp\<lparr>lp_cancelled := True\<rparr>) (hs_loops s)\<rparr>)"

definition HandleCancel :: "handler_env \<Rightarrow> SIPMessage \<Rightarrow> nat \<Rightarrow> handler_state \<Rightarrow> ('e, handler_state) go" where
  "HandleCancel env req tx s =
     and_then (SIPHeaders_GetFirst (msg_Headers req) ''Call-ID'') (\<lambda>callID.
     if Store_Get callID (hs_store s) \<noteq> None then Ok s
     else
       let early = GetEarly callID (hs_store s) in
       and_then (cancel_response req early) (\<lambda>res.
       let s = respond tx res s in
       case early of
         None \<Rightarrow> Ok s
       | Some e \<Rightarrow>
           let s = cancel_loop (ec_loop e) s in
           (case fmlookup (um_txs (hs_uac s)) (ec_BobTx e) of
              None \<Rightarrow> Panic
            | Some ut \<Rightarrow>
                and_then (SendCancel (he_sent env) ut) (\<lambda>(effects, _).
                let s = close_rtp (ec_RTPConnB e) (close_rtp (ec_RTPConnA e) (uac_commit (ec_BobTx e) (ut, effects) s));
                    s = s\<lparr>hs_store := RemoveEarly callID (hs_store s)\<rparr>
                in Ok (cancelPRACK callID s)))))"

definition HandleResponse :: "handler_config \<Rightarrow> SIPMessage \<Rightarrow> handler_state \<Rightarrow> ('e, handler_state) go" where
  "HandleResponse cfg msg s = and_then (UACManager_HandleResponse (hc_uni cfg) msg (hs_uac s)) (\<lambda>um. Ok (s\<lparr>hs_uac := um\<rparr>))"

text \<open>A client transaction's timer fires.\<close>

definition uac_timer_fires :: "handler_env \<Rightarrow> nat \<Rightarrow> nat \<Rightarrow> handler_state \<Rightarrow> ('e, handler_state) go" where
  "uac_timer_fires env u k s = (case fmlookup (um_txs (hs_uac s)) u of
     None \<Rightarrow> Ok s
   | Some ut \<Rightarrow> and_then (uac_fire (he_sent env) k ut) (\<lambda>r. Ok (uac_commit u r s)))"

text \<open>A TCP connection dies: the pool forgets the flow and the registrar its bindings, as \<^verbatim>\<open>main\<close> wires them.\<close>

definition flow_dies :: "string \<Rightarrow> handler_state \<Rightarrow> handler_state" where
  "flow_dies flowID s =
     (let (pool, dead) = FlowPool_RemoveDead (hs_pool s) flowID; s = s\<lparr>hs_pool := pool\<rparr>
      in if dead then s\<lparr>hs_reg := RemoveBindingsByFlowID (hs_reg s) flowID\<rparr> else s)"

end
