(* ===== verification/B2BUA_Accounts.thy ===== *)
theory B2BUA_Accounts
  imports B2BUA
begin

text \<open>
  Trunk accounting in the call handler: which steps leave the loops, calls and trunks alone, how each of the others changes
  them, and the invariant that every call of a trunk in progress holds a channel, up to a balance \<open>d\<close> per trunk.  The balance is
  left alone by every handler, by every step of a response loop and by every timer but the two functions that end an established
  call; these are cut into the steps of \<open>ending_step\<close> and interleaved with everything else, and change the balance when they
  release a channel other than the one of the call they removed.
\<close>


section \<open>What the steps leave alone\<close>

text \<open>The part of the state that trunk accounting is about.\<close>

definition acct :: "handler_state \<Rightarrow> (nat, response_loop) fmap \<times> (string, Call) fmap \<times> TrunkManager option" where
  "acct s = (hs_loops s, st_calls (hs_store s), hs_trunks s)"

named_theorems acct_simps

lemma acct_small [acct_simps]:
  "acct (respond tx res s) = acct s" "acct (transport_send tr target msg s) = acct s" "acct (close_rtp i s) = acct s"
  "acct (close_both cc s) = acct s" "acct (cancelPRACK callID s) = acct s" "acct (add_session i se s) = acct s"
  "acct (end_session i s) = acct s" "acct (uac_commit u r s) = acct s" "acct (start_bridge c s) = acct s" "acct (stop_bridge c s) = acct s"
  by (auto simp: acct_def respond_def transport_send_def close_rtp_def close_both_def cancelPRACK_def add_session_def end_session_def
      uac_commit_def start_bridge_def stop_bridge_def split: option.splits)

lemma acct_update [acct_simps]:
  "acct (s\<lparr>hs_tm := a\<rparr>) = acct s" "acct (s\<lparr>hs_uac := b\<rparr>) = acct s" "acct (s\<lparr>hs_reg := c\<rparr>) = acct s" "acct (s\<lparr>hs_pool := d\<rparr>) = acct s"
  "acct (s\<lparr>hs_sm := e\<rparr>) = acct s" "acct (s\<lparr>hs_sessions := f\<rparr>) = acct s" "acct (s\<lparr>hs_prack := g\<rparr>) = acct s" "acct (s\<lparr>hs_proxy := h\<rparr>) = acct s"
  "acct (s\<lparr>hs_maxFailed := i\<rparr>) = acct s" "acct (s\<lparr>hs_ports := j\<rparr>) = acct s" "acct (s\<lparr>hs_rtp := k\<rparr>) = acct s" "acct (s\<lparr>hs_timers := l\<rparr>) = acct s"
  "acct (s\<lparr>hs_tasks := m\<rparr>) = acct s" "acct (s\<lparr>hs_next := n\<rparr>) = acct s" "acct (s\<lparr>hs_store := RemoveEarly x (hs_store s)\<rparr>) = acct s"
  by (simp_all add: acct_def RemoveEarly_def)

lemma acct_fold_respond [acct_simps]: "acct (fold (respond tx) out s) = acct s"
  by (induction out arbitrary: s) (simp_all add: acct_simps)

lemma acct_open_rtp: "open_rtp cfg env k s = (r, s') \<Longrightarrow> acct s' = acct s"
  by (auto simp: open_rtp_def acct_def split: option.splits)

abbreviation same_acct :: "handler_state \<Rightarrow> handler_state \<Rightarrow> bool" where
  "same_acct s s' \<equiv> acct s' = acct s"

lemma acct_requireProxyAuth: "ok_all (\<lambda>(b, s'). same_acct s s') (requireProxyAuth cfg env req tx meth s)"
  unfolding requireProxyAuth_def by (auto intro!: ok_all_and_then simp: Let_def acct_simps split: option.split)

lemma acct_HandlePRACK: "ok_all (same_acct s) (HandlePRACK req tx s)"
  unfolding HandlePRACK_def by (auto intro!: ok_all_and_then simp: acct_simps split: option.split)

lemma acct_HandleOptions: "acct (HandleOptions cfg req tx s) = acct s"
  by (simp add: HandleOptions_def Let_def acct_simps)

lemma acct_answer_service: "ok_all (same_acct s) (answer_service cfg env req tx off prep task s)"
  unfolding answer_service_def Let_def
  by (auto intro!: ok_all_and_then simp: acct_simps split: option.split prod.split go.split dest!: acct_open_rtp)

lemma acct_handleEchoInvite: "ok_all (same_acct s) (handleEchoInvite cfg env req tx s)"
  unfolding handleEchoInvite_def by (auto intro!: ok_all_and_then acct_answer_service simp: acct_simps split: option.split)

lemma acct_handleFileInvite: "ok_all (same_acct s) (handleFileInvite cfg env req tx path s)"
  unfolding handleFileInvite_def by (auto intro!: ok_all_and_then acct_answer_service simp: acct_simps split: option.split go.split)

lemma acct_HandleOutbound: "HandleOutbound now conn s = (c, s') \<Longrightarrow> acct s' = acct s"
  by (auto simp: HandleOutbound_def acct_simps)

lemma acct_select_binding: "ok_all (\<lambda>(r, s'). same_acct s s') (select_binding cfg env bs s)"
  by (induction bs arbitrary: s)
    (auto intro!: ok_all_and_then simp: Let_def split: option.split prod.split bool.split dest: acct_HandleOutbound)

lemma acct_setup_media: "ok_all (\<lambda>(r, s'). same_acct s s') (setup_media cfg env req ip s)"
  unfolding setup_media_def
  by (auto intro!: ok_all_and_then simp: acct_simps split: option.split prod.split dest!: acct_open_rtp)

lemma acct_new_uac: "new_uac env k meth tr target s = (u, b, s') \<Longrightarrow> acct s' = acct s"
  by (auto simp: new_uac_def Let_def acct_simps split: prod.splits)

lemma acct_trunk_transport: "trunk_transport env trk t tr s = (k, t', s') \<Longrightarrow> acct s' = acct s"
  by (auto simp: trunk_transport_def Let_def acct_simps split: if_splits option.splits prod.splits dest: acct_HandleOutbound)


section \<open>Trunk channels\<close>

text \<open>How many entries of a table have a property.\<close>

definition kcount :: "('v \<Rightarrow> bool) \<Rightarrow> ('k, 'v) fmap \<Rightarrow> nat" where
  "kcount P m = card {k. \<exists>v. fmlookup m k = Some v \<and> P v}"

lemma kcount_finite: "finite {k. \<exists>v. fmlookup m k = Some v \<and> P v}"
  by (rule finite_subset [of _ "fset (fmdom m)"]) (auto intro: fmdomI)

lemma kcount_empty [simp]: "kcount P fmempty = 0"
  by (simp add: kcount_def)

lemma kcount_fmupd: "kcount P (fmupd k v m) \<le> kcount P m + (if P v then 1 else 0)"
proof -
  have "{k'. \<exists>v'. fmlookup (fmupd k v m) k' = Some v' \<and> P v'} \<subseteq> {k'. \<exists>v'. fmlookup m k' = Some v' \<and> P v'} \<union> (if P v then {k} else {})"
    by (auto split: if_splits)
  then have "kcount P (fmupd k v m) \<le> card ({k'. \<exists>v'. fmlookup m k' = Some v' \<and> P v'} \<union> (if P v then {k} else {}))"
    unfolding kcount_def by (intro card_mono) (simp_all add: kcount_finite)
  also have "\<dots> \<le> kcount P m + card (if P v then {k} else {})" unfolding kcount_def by (rule card_Un_le)
  finally show ?thesis by (simp split: if_splits)
qed

lemma kcount_fmupd_same:
  assumes "fmlookup m k = Some v" and "P v \<longleftrightarrow> P v'"
  shows "kcount P (fmupd k v' m) = kcount P m"
  unfolding kcount_def by (rule arg_cong [of _ _ card]) (use assms in auto)

lemma kcount_fmdrop:
  assumes "fmlookup m k = Some v"
  shows "kcount P m = kcount P (fmdrop k m) + (if P v then 1 else 0)"
proof -
  have "{k'. \<exists>v'. fmlookup m k' = Some v' \<and> P v'} = {k'. \<exists>v'. fmlookup (fmdrop k m) k' = Some v' \<and> P v'} \<union> (if P v then {k} else {})"
    using assms by auto
  moreover have "k \<notin> {k'. \<exists>v'. fmlookup (fmdrop k m) k' = Some v' \<and> P v'}" by simp
  ultimately show ?thesis using kcount_finite [of "fmdrop k m" P] by (simp add: kcount_def)
qed

fun on_trunk :: "string \<Rightarrow> leg \<Rightarrow> bool" where
  "on_trunk name (BobLeg uri rel) \<longleftrightarrow> False"
| "on_trunk name (TrunkLeg n uri ivl) \<longleftrightarrow> n = name"

text \<open>
  The calls of a trunk that are in progress: those being set up, each in its response loop, and those established, each in the
  table.
\<close>

definition in_progress :: "string \<Rightarrow> (nat, response_loop) fmap \<times> (string, Call) fmap \<times> TrunkManager option \<Rightarrow> int" where
  "in_progress name = (\<lambda>(L, C, T). int (kcount (\<lambda>lp. on_trunk name (lp_leg lp)) L) + int (kcount (\<lambda>c. ca_TrunkName c = name) C))"

definition held_channels :: "string \<Rightarrow> TrunkManager option \<Rightarrow> int" where
  "held_channels name T = (case T of None \<Rightarrow> 0 | Some m \<Rightarrow> ActiveCalls m name)"

definition channels_ok :: "TrunkManager option \<Rightarrow> bool" where
  "channels_ok T \<longleftrightarrow> (case T of None \<Rightarrow> True
     | Some m \<Rightarrow> \<forall>name. 0 \<le> ActiveCalls m name \<and>
         (\<forall>t. fmlookup (tk_trunks m) name = Some t \<longrightarrow> 0 < trk_MaxChannels t \<longrightarrow> ActiveCalls m name \<le> trk_MaxChannels t))"

definition trunk_inv :: "(string \<Rightarrow> int) \<Rightarrow> (nat, response_loop) fmap \<times> (string, Call) fmap \<times> TrunkManager option \<Rightarrow> bool" where
  "trunk_inv d v \<longleftrightarrow> (\<forall>a c. fmlookup (fst (snd v)) a = Some c \<longrightarrow> ca_AliceCallID c = a) \<and>
     (\<forall>name. name \<noteq> [] \<longrightarrow> in_progress name v \<le> held_channels name (snd (snd v)) + d name) \<and> channels_ok (snd (snd v))"

lemma trunk_invD:
  assumes "trunk_inv d (L, C, T)"
  shows "\<And>a c. fmlookup C a = Some c \<Longrightarrow> ca_AliceCallID c = a" "\<And>name. name \<noteq> [] \<Longrightarrow> in_progress name (L, C, T) \<le> held_channels name T + d name" "channels_ok T"
  using assms by (simp_all add: trunk_inv_def)

lemma ActiveCalls_Release:
  "ActiveCalls (ReleaseChannel n m) name = (if n = name \<and> 0 < ActiveCalls m name then ActiveCalls m name - 1 else ActiveCalls m name)"
  by (simp add: ReleaseChannel_def ActiveCalls_def)

lemma tk_trunks_Release [simp]: "tk_trunks (ReleaseChannel n m) = tk_trunks m"
  by (simp add: ReleaseChannel_def)

lemma held_release:
  "held_channels name (map_option (ReleaseChannel n) T) =
     (if n = name \<and> 0 < held_channels name T then held_channels name T - 1 else held_channels name T)"
  by (cases T) (simp_all add: held_channels_def ActiveCalls_Release)

lemma channels_ok_release: "channels_ok T \<Longrightarrow> channels_ok (map_option (ReleaseChannel n) T)"
  by (fastforce simp: channels_ok_def ActiveCalls_Release split: option.splits)

lemma trunk_inv_drop_loop:
  assumes "trunk_inv d (L, C, T)" and "fmlookup L i = Some lp"
  shows "trunk_inv d (fmdrop i L, C, T)"
  unfolding trunk_inv_def
proof (intro conjI allI impI)
  fix name :: string assume "name \<noteq> []"
  with trunk_invD(2) [OF assms(1)] have "in_progress name (L, C, T) \<le> held_channels name T + d name" .
  then show "in_progress name (fmdrop i L, C, T) \<le> held_channels name (snd (snd (fmdrop i L, C, T))) + d name"
    using kcount_fmdrop [OF assms(2), of "\<lambda>lp. on_trunk name (lp_leg lp)"] by (simp add: in_progress_def split: if_splits)
qed (use trunk_invD [OF assms(1)] in simp_all)

lemma trunk_inv_release_loop:
  assumes "trunk_inv d (L, C, T)" and "fmlookup L i = Some lp" and "lp_leg lp = TrunkLeg n uri ivl"
  shows "trunk_inv d (fmdrop i L, C, map_option (ReleaseChannel n) T)"
  unfolding trunk_inv_def
proof (intro conjI allI impI)
  fix name :: string assume "name \<noteq> []"
  with trunk_invD(2) [OF assms(1)] have "in_progress name (L, C, T) \<le> held_channels name T + d name" .
  then show "in_progress name (fmdrop i L, C, map_option (ReleaseChannel n) T) \<le> held_channels name (snd (snd (fmdrop i L, C, map_option (ReleaseChannel n) T))) + d name"
    using kcount_fmdrop [OF assms(2), of "\<lambda>lp. on_trunk name (lp_leg lp)"] assms(3)
    by (simp add: in_progress_def held_release split: if_splits)
qed (use trunk_invD [OF assms(1)] channels_ok_release in simp_all)

lemma trunk_inv_same_leg:
  assumes "trunk_inv d (L, C, T)" and "fmlookup L i = Some lp" and "lp_leg lp' = lp_leg lp"
  shows "trunk_inv d (fmupd i lp' L, C, T)"
proof -
  have "in_progress name (fmupd i lp' L, C, T) = in_progress name (L, C, T)" for name
    using kcount_fmupd_same [OF assms(2), of "\<lambda>lp. on_trunk name (lp_leg lp)" lp'] assms(3) by (simp add: in_progress_def)
  then show ?thesis using assms(1) by (simp add: trunk_inv_def)
qed

lemma trunk_inv_answer:
  assumes "trunk_inv d (L, C, T)" and "fmlookup L i = Some lp" and "ca_TrunkName call = leg_trunk (lp_leg lp)" and "ca_AliceCallID call = a"
  shows "trunk_inv d (fmdrop i L, fmupd a call C, T)"
  unfolding trunk_inv_def
proof (intro conjI allI impI)
  fix name :: string assume n: "name \<noteq> []"
  with trunk_invD(2) [OF assms(1)] have "in_progress name (L, C, T) \<le> held_channels name T + d name" .
  moreover have "ca_TrunkName call = name \<Longrightarrow> on_trunk name (lp_leg lp)" using assms(3) n by (cases "lp_leg lp") auto
  ultimately show "in_progress name (fmdrop i L, fmupd a call C, T) \<le> held_channels name (snd (snd (fmdrop i L, fmupd a call C, T))) + d name"
    using kcount_fmdrop [OF assms(2), of "\<lambda>lp. on_trunk name (lp_leg lp)"] kcount_fmupd [of "\<lambda>c. ca_TrunkName c = name" a call C]
    by (auto simp: in_progress_def split: if_splits)
qed (use trunk_invD [OF assms(1)] assms(4) in \<open>auto split: if_splits\<close>)

lemma Acquire_cases:
  assumes "AcquireChannel n m = (m', b)"
  shows "\<not> b \<Longrightarrow> m' = m" "b \<Longrightarrow> ActiveCalls m' name = (if name = n then ActiveCalls m n + 1 else ActiveCalls m name)" "tk_trunks m' = tk_trunks m"
    "b \<Longrightarrow> \<exists>t. fmlookup (tk_trunks m) n = Some t \<and> (trk_MaxChannels t = 0 \<or> ActiveCalls m n < trk_MaxChannels t)"
  using assms by (auto simp: AcquireChannel_def ActiveCalls_def split: option.splits if_splits)

lemma channels_ok_acquire:
  assumes "channels_ok (Some m)" and "AcquireChannel n m = (m', True)"
  shows "channels_ok (Some m')"
proof -
  note a = Acquire_cases(2-4) [OF assms(2)]
  obtain t where t: "fmlookup (tk_trunks m) n = Some t" "trk_MaxChannels t = 0 \<or> ActiveCalls m n < trk_MaxChannels t" using a(3) by blast
  have nn: "0 \<le> ActiveCalls m name"
    and le: "fmlookup (tk_trunks m) name = Some t \<Longrightarrow> 0 < trk_MaxChannels t \<Longrightarrow> ActiveCalls m name \<le> trk_MaxChannels t" for name t
    using assms(1) by (simp_all add: channels_ok_def)
  have "0 \<le> ActiveCalls m' name" for name using nn [of name] nn [of n] by (simp add: a(1))
  moreover have "ActiveCalls m' name \<le> trk_MaxChannels t'" if "fmlookup (tk_trunks m) name = Some t'" "0 < trk_MaxChannels t'" for name t'
    using t le [OF that] that by (auto simp: a(1))
  ultimately show ?thesis by (simp add: channels_ok_def a(2))
qed

lemma trunk_inv_acquire:
  assumes "trunk_inv d (L, C, Some m)" and "AcquireChannel n m = (m', True)"
  shows "trunk_inv d (L, C, Some m')" and "trunk_inv d (L, C, Some (ReleaseChannel n m'))"
    and "on_trunk n (lp_leg lp) \<Longrightarrow> trunk_inv d (fmupd i lp L, C, Some m')"
proof -
  note d = trunk_invD [OF assms(1)] and a = Acquire_cases(2) [OF assms(2)]
  have ok: "channels_ok (Some m')" by (rule channels_ok_acquire [OF d(3) assms(2)])
  have le: "in_progress name (L, C, Some m) \<le> ActiveCalls m name + d name" if "name \<noteq> []" for name
    using d(2) [OF that] by (simp add: held_channels_def)
  have nn: "0 \<le> ActiveCalls m name" for name using d(3) by (simp add: channels_ok_def)
  show "trunk_inv d (L, C, Some m')"
    using d(1) ok le by (force simp: trunk_inv_def in_progress_def held_channels_def a)
  show "trunk_inv d (L, C, Some (ReleaseChannel n m'))"
    using d(1) channels_ok_release [OF ok, of n] le nn by (force simp: trunk_inv_def in_progress_def held_channels_def a ActiveCalls_Release)
  assume l: "on_trunk n (lp_leg lp)"
  have "in_progress name (fmupd i lp L, C, Some m') \<le> ActiveCalls m' name + d name" if "name \<noteq> []" for name
  proof -
    have "on_trunk name (lp_leg lp) \<Longrightarrow> name = n" using l by (cases "lp_leg lp") auto
    then show ?thesis using le [OF that] kcount_fmupd [of "\<lambda>lp. on_trunk name (lp_leg lp)" i lp L]
      by (auto simp: in_progress_def a split: if_splits)
  qed
  then show "trunk_inv d (fmupd i lp L, C, Some m')" using d(1) ok by (simp add: trunk_inv_def held_channels_def)
qed

lemma trunk_inv_bob_loop:
  assumes "trunk_inv d (L, C, T)" and "\<not> is_trunk (lp_leg lp)"
  shows "trunk_inv d (fmupd i lp L, C, T)"
proof -
  have "\<not> on_trunk name (lp_leg lp)" for name using assms(2) by (cases "lp_leg lp") auto
  then have "in_progress name (fmupd i lp L, C, T) \<le> in_progress name (L, C, T)" for name
    using kcount_fmupd [of "\<lambda>lp. on_trunk name (lp_leg lp)" i lp L] by (simp add: in_progress_def)
  then show ?thesis using assms(1) unfolding trunk_inv_def snd_conv by (meson order_trans fst_conv)
qed


abbreviation accounted :: "(string \<Rightarrow> int) \<Rightarrow> handler_state \<Rightarrow> bool" where
  "accounted d s \<equiv> trunk_inv d (acct s)"

lemma acct_start_loop:
  "acct s = (L, C, T) \<Longrightarrow> acct (start_loop cc lg invite s) =
     (fmupd (hs_next s) \<lparr>lp_cc = cc, lp_leg = lg, lp_invite = invite, lp_started = False, lp_cancelled = False, lp_prackDone = False\<rparr> L, C, T)"
  by (simp add: start_loop_def Let_def acct_def StoreEarly_def)

lemma acct_release: "acct s = (L, C, T) \<Longrightarrow> acct (release_channel n s) = (L, C, map_option (ReleaseChannel n) T)"
  by (simp add: release_channel_def acct_def)

lemma acct_end_loop: "acct s = (L, C, T) \<Longrightarrow> acct (end_loop i lp s) = (fmdrop i L, C, T)"
  by (simp add: end_loop_def Let_def acct_def RemoveEarly_def cancelPRACK_def)

lemma acct_give_up: "acct s = (L, C, T) \<Longrightarrow> acct (give_up_trunk n a b s) = (L, C, map_option (ReleaseChannel n) T)"
  by (simp add: give_up_trunk_def acct_release acct_simps)

lemma acct_store_call: "acct s = (L, C, T) \<Longrightarrow> acct (s\<lparr>hs_store := Store_Store call (hs_store s)\<rparr>) = (L, fmupd (ca_AliceCallID call) call C, T)"
  by (simp add: acct_def Store_Store_def)

lemma acct_split: "\<exists>L C T. acct s = (L, C, T)"
  by (cases "acct s") auto

section \<open>INVITE keeps the account\<close>

lemma trunk_call_accounted:
  assumes "trunk_inv d (L, C, Some m)" and "AcquireChannel (trk_Name trk) m = (m', True)" and s: "acct s = (L, C, Some m')"
  shows "ok_all (accounted d) (trunk_call cfg env req tx trk dest to_addr ip a b off pt bb ab s)"
proof -
  note inv = trunk_inv_acquire [OF assms(1,2)]
  have new: "accounted d (start_loop cc (TrunkLeg (trk_Name trk) u e) i s')" if "acct s' = acct s" for s' cc u e i
    using inv(3) acct_start_loop [of s' L C "Some m'"] that s by simp
  show ?thesis
    unfolding trunk_call_def Let_def
    by (auto intro!: ok_all_and_then new simp: acct_simps acct_give_up [OF s] inv(2) split: go.split option.split prod.split
        dest!: acct_trunk_transport acct_new_uac)
qed

lemma setup_media_same: "setup_media cfg env req ip s = Ok (r, s') \<Longrightarrow> acct s' = acct s"
  using ok_allD [OF acct_setup_media] by fastforce

lemma handleTrunkInvite_accounted:
  assumes "accounted d s"
  shows "ok_all (accounted d) (handleTrunkInvite cfg env req tx trk dest to_addr s)"
proof (cases "hs_trunks s")
  case None
  then show ?thesis by (simp add: handleTrunkInvite_def)
next
  case (Some m)
  obtain L C where s: "acct s = (L, C, Some m)" using Some by (simp add: acct_def)
  obtain m' b where a: "AcquireChannel (trk_Name trk) m = (m', b)" by fastforce
  show ?thesis
  proof (cases b)
    case False
    then show ?thesis using Some s a assms Acquire_cases(1) [OF a] by (simp add: handleTrunkInvite_def acct_simps) (simp add: acct_def)
  next
    case True
    have s': "acct (s\<lparr>hs_trunks := Some m'\<rparr>) = (L, C, Some m')" using s by (simp add: acct_def)
    note inv = assms [unfolded s]
    have acq: "AcquireChannel (trk_Name trk) m = (m', True)" using a True by simp
    have m: "acct s1 = (L, C, Some m')" if "setup_media cfg env req ip (s\<lparr>hs_trunks := Some m'\<rparr>) = Ok (r, s1)" for ip r s1
      using setup_media_same [OF that] by (simp add: s')
    show ?thesis
      by (simp add: handleTrunkInvite_def Some acq Let_def)
        (auto intro!: ok_all_and_then trunk_call_accounted [OF inv acq] simp: acct_simps acct_release trunk_inv_acquire(2) [OF inv acq]
          split: media_setup.split dest!: m)
  qed
qed

lemma bob_call_accounted:
  assumes "accounted d s"
  shows "ok_all (accounted d) (bob_call cfg env req tx to_addr from_addr b t tr rel s)"
proof -
  obtain L C T where s: "acct s = (L, C, T)" using acct_split by blast
  have new: "accounted d (start_loop cc (BobLeg u r) i s')" if "acct s' = acct s" for s' cc u r i
    using acct_start_loop [of s' L C T] trunk_inv_bob_loop that s assms by simp
  show ?thesis
    unfolding bob_call_def Let_def
    by (auto intro!: ok_all_and_then new simp: acct_simps assms split: media_setup.split prod.split dest!: acct_new_uac setup_media_same)
qed

lemma call_user_accounted:
  assumes "accounted d s"
  shows "ok_all (accounted d) (call_user cfg env req tx to_addr s)"
  unfolding call_user_def Let_def selectBinding_def
  by (auto intro!: ok_all_bind [OF acct_select_binding] bob_call_accounted simp: acct_simps assms split: option.split go.split)

lemma handleB2BUAInvite_accounted:
  assumes "accounted d s"
  shows "ok_all (accounted d) (handleB2BUAInvite cfg env req tx s)"
  unfolding handleB2BUAInvite_def
  by (auto intro!: ok_all_and_then handleTrunkInvite_accounted call_user_accounted simp: acct_simps assms split: option.split go.split)

lemma ok_all_same: "ok_all (same_acct s) r \<Longrightarrow> accounted d s \<Longrightarrow> ok_all (accounted d) r"
  by (simp add: ok_all_def)

lemma HandleInvite_accounted:
  assumes "accounted d s"
  shows "ok_all (accounted d) (HandleInvite cfg env req tx s)"
proof -
  let ?s = "respond tx (NewResponse req 100 ''Trying'') s"
  have s: "accounted d ?s" by (simp add: acct_simps assms)
  have auth: "ok_all (\<lambda>(b, s'). accounted d s') (if from_trusted_trunk cfg info ?s then Ok (True, ?s) else requireProxyAuth cfg env req tx ''INVITE'' ?s)" for info
    using s by (auto intro!: ok_all_mono [OF acct_requireProxyAuth])
  show ?thesis
    unfolding HandleInvite_def Let_def
    by (auto intro!: ok_all_and_then ok_all_bind [OF auth] ok_all_same [OF acct_handleEchoInvite] ok_all_same [OF acct_handleFileInvite]
        handleB2BUAInvite_accounted split: option.split Action.split prod.split)
qed


section \<open>The other handlers keep the account\<close>

lemma acct_send_prack: "ok_all (same_acct s) (send_prack cfg env cc uri resp s)"
  unfolding send_prack_def Let_def
  by (auto intro!: ok_all_and_then simp: acct_simps split: option.split prod.split dest!: acct_new_uac)

lemma acct_ring_alice: "ok_all (same_acct s) (ring_alice cc i rel prov s)"
  unfolding ring_alice_def by (auto intro!: ok_all_and_then simp: acct_simps split: option.split bool.split)

lemma drop_call_ends:
  assumes "trunk_inv d (L, C, T)" and "fmlookup L i = Some lp" and "acct s = (L, C, T)"
  shows "\<exists>T'. acct (drop_call cc (lp_leg lp) s) = (L, C, T') \<and> trunk_inv d (fmdrop i L, C, T')"
proof (cases "lp_leg lp")
  case (BobLeg u r)
  then show ?thesis using trunk_inv_drop_loop [OF assms(1,2)] assms(3) by (simp add: drop_call_def acct_simps)
next
  case (TrunkLeg n u e)
  then show ?thesis
    using trunk_inv_release_loop [OF assms(1,2) TrunkLeg] assms(3) by (simp add: drop_call_def acct_simps acct_release)
qed

text \<open>
  What a 200 of the other leg does: the call is stored with the trunk of its leg, or dropped, or nothing more is done.  In each
  case the account holds once the loop is gone.
\<close>

definition loop_over :: "(string \<Rightarrow> int) \<Rightarrow> nat \<Rightarrow> handler_state \<Rightarrow> bool" where
  "loop_over d i s \<longleftrightarrow> (\<exists>L C T. acct s = (L, C, T) \<and> trunk_inv d (fmdrop i L, C, T))"

lemma loop_over_simps [acct_simps]:
  "loop_over d i (respond tx res s) = loop_over d i s" "loop_over d i (cancelPRACK c s) = loop_over d i s" "loop_over d i (s\<lparr>hs_timers := x\<rparr>) = loop_over d i s"
  by (simp_all add: loop_over_def acct_simps)

lemma loop_over_end: "loop_over d i s \<Longrightarrow> accounted d (end_loop i lp s)"
  by (auto simp: loop_over_def acct_end_loop)

lemma loop_over_drop:
  assumes "accounted d s" and "fmlookup (hs_loops s) i = Some lp"
  shows "loop_over d i (drop_call cc (lp_leg lp) s)" and "loop_over d i s"
proof -
  obtain C T where s: "acct s = (hs_loops s, C, T)" by (simp add: acct_def)
  note inv = assms(1) [unfolded s]
  show "loop_over d i (drop_call cc (lp_leg lp) s)" using drop_call_ends [OF inv assms(2) s] unfolding loop_over_def by blast
  show "loop_over d i s" using trunk_inv_drop_loop [OF inv assms(2)] s unfolding loop_over_def by blast
qed

lemma new_call_fields:
  "ca_TrunkName (new_call cfg env cc lg info tr ac bt addr i j) = leg_trunk lg" "ca_AliceCallID (new_call cfg env cc lg info tr ac bt addr i j) = cc_callID cc"
  by (simp_all add: new_call_def Let_def)

lemma establish_over:
  assumes "accounted d s" and "fmlookup (hs_loops s) i = Some lp"
  shows "loop_over d i (snd (establish cfg env cc (lp_leg lp) info tr ac bobTo sdp s))"
proof -
  obtain C T where s: "acct s = (hs_loops s, C, T)" by (simp add: acct_def)
  note inv = assms(1) [unfolded s]
  have put: "loop_over d i (start_bridge call' (s'\<lparr>hs_store := Store_Store call (hs_store s'), hs_next := n\<rparr>))"
    if "acct s' = acct s" "ca_TrunkName call = leg_trunk (lp_leg lp)" for s' call call' n
    using trunk_inv_answer [OF inv assms(2) that(2) refl] acct_store_call [of s' "hs_loops s" C T call] that(1) s
    unfolding loop_over_def by (auto simp: acct_simps)
  show ?thesis
    unfolding establish_def Let_def
    by (auto intro!: put loop_over_drop(2) [OF assms] simp: acct_simps new_call_fields split: option.split)
qed

lemma hs_loops_acct: "acct s' = acct s \<Longrightarrow> hs_loops s' = hs_loops s"
  by (simp add: acct_def)

lemma handle200OK_over:
  assumes "accounted d s" and "fmlookup (hs_loops s) i = Some lp"
  shows "ok_all (\<lambda>(b, s'). loop_over d i s') (handle200OK cfg env cancelled cc (lp_leg lp) resp s)"
proof -
  have e: "loop_over d i s2" if "establish cfg env cc (lp_leg lp) info tr ac bobTo sdp s1 = (b, s2)" "acct s1 = acct s" for s1 s2 b info tr ac bobTo sdp
    using establish_over [of d s1 i lp cfg env cc info tr ac bobTo sdp] that assms hs_loops_acct [OF that(2)] by simp
  show ?thesis
    unfolding handle200OK_def Let_def
    by (auto intro!: ok_all_and_then loop_over_drop(1) [OF assms] simp: acct_simps split: go.split elim!: e)
qed

lemma handleBob200OK_over:
  assumes "accounted d s" and "fmlookup (hs_loops s) i = Some lp" and "lp_leg lp = BobLeg uri rel"
  shows "ok_all (loop_over d i) (handleBob200OK cfg env cancelled cc uri rel resp s)"
  unfolding handleBob200OK_def by (rule ok_all_bind [OF handle200OK_over [OF assms(1,2), unfolded assms(3)]]) auto

lemma handleTrunk200OK_over:
  assumes "accounted d s" and "fmlookup (hs_loops s) i = Some lp" and "lp_leg lp = TrunkLeg n uri ivl"
  shows "ok_all (loop_over d i) (handleTrunk200OK cfg env cancelled cc n uri ivl resp s)"
  unfolding handleTrunk200OK_def by (rule ok_all_bind [OF handle200OK_over [OF assms(1,2), unfolded assms(3)]]) (auto simp: acct_simps)

lemma b2buaResponse_accounted:
  assumes "accounted d s" and "fmlookup (hs_loops s) i = Some lp" and "lp_leg lp = BobLeg uri rel"
  shows "ok_all (\<lambda>(done, s'). if done then loop_over d i s' else accounted d s') (b2buaResponse cfg env i lp uri rel resp s)"
proof -
  let ?s = "cancelPRACK (cc_callID (lp_cc lp)) s"
  have c: "accounted d ?s" "fmlookup (hs_loops ?s) i = Some lp" using assms by (simp_all add: acct_simps hs_loops_acct [of ?s s])
  show ?thesis
    unfolding b2buaResponse_def Let_def using assms(1)
    by (auto intro!: ok_all_bind [OF handleBob200OK_over [OF c assms(3)]] loop_over_drop(1) [OF c] ok_all_bind [OF acct_send_prack] ok_all_bind [OF acct_ring_alice]
        simp: acct_simps)
qed

lemma trunkResponse_accounted:
  assumes "accounted d s" and "fmlookup (hs_loops s) i = Some lp" and "lp_leg lp = TrunkLeg n uri ivl"
  shows "ok_all (\<lambda>(done, s'). if done then loop_over d i s' else accounted d s') (trunkResponse cfg env lp n uri ivl resp s)"
  unfolding trunkResponse_def Let_def using assms(1)
  by (auto intro!: ok_all_bind [OF handleTrunk200OK_over [OF assms]] loop_over_drop(1) [OF assms(1,2)] simp: acct_simps)

lemma loop_response_accounted:
  assumes "accounted d s" and "fmlookup (hs_loops s) i = Some lp"
  shows "ok_all (\<lambda>(done, s'). if done then loop_over d i s' else accounted d s') (loop_response cfg env i lp resp s)"
proof (cases "lp_leg lp")
  case (BobLeg u r)
  from b2buaResponse_accounted [OF assms this] show ?thesis unfolding loop_response_def BobLeg leg.case .
next
  case (TrunkLeg n u e)
  from trunkResponse_accounted [OF assms this] show ?thesis unfolding loop_response_def TrunkLeg leg.case .
qed

lemma loop_step_accounted:
  assumes "accounted d s"
  shows "ok_all (accounted d) (loop_step cfg env i ev s)"
proof (cases "fmlookup (hs_loops s) i")
  case None
  then show ?thesis using assms by (simp add: loop_step_def)
next
  case (Some lp)
  obtain C T where s: "acct s = (hs_loops s, C, T)" by (simp add: acct_def)
  have started: "accounted d (s'\<lparr>hs_loops := fmupd i (lp\<lparr>lp_started := True\<rparr>) (hs_loops s')\<rparr>)" if "acct s' = acct s" for s'
    using trunk_inv_same_leg [OF assms [unfolded s] Some, of "lp\<lparr>lp_started := True\<rparr>"] that s by (simp add: acct_def)
  have dropped: "loop_over d i (drop_call cc (lp_leg lp) s')" if "acct s' = acct s" for s' cc
    using loop_over_drop(1) [of d s' i lp] assms Some that hs_loops_acct [OF that] by simp
  note over = loop_over_drop(2) [OF assms Some]
  have resp: "ok_all (\<lambda>(done, s'). if done then loop_over d i s' else accounted d s') (loop_response cfg env i lp r s')" if "acct s' = acct s" for s' r
    by (rule loop_response_accounted) (simp_all add: that assms Some hs_loops_acct [OF that])
  have respond: "ok_all (accounted d) (and_then (loop_response cfg env i lp r s') (\<lambda>(done, s). Ok (if done then end_loop i lp s else s)))" if "acct s' = acct s" for s' r
    by (rule ok_all_bind [OF resp [OF that]]) (auto simp: loop_over_end split: if_splits)
  show ?thesis
    unfolding loop_step_def Some using assms
    by (auto intro!: ok_all_and_then started loop_over_end dropped respond
        simp: over acct_simps Let_def cancel_if_bob_def split: option.split loop_event.split list.split if_split)
qed

section \<open>Teardown and timers keep the account\<close>

lemma Store_Get_in:
  assumes "\<And>a c. fmlookup (st_calls st) a = Some c \<Longrightarrow> ca_AliceCallID c = a" and "Store_Get k st = Some call"
  shows "fmlookup (st_calls st) (ca_AliceCallID call) = Some call"
  using assms(2) by (auto simp: Store_Get_def dest: assms(1) split: option.splits if_splits)

lemma acct_teardown [acct_simps]: "acct (bye_teardown cfg env callID call s) = acct s" "acct (timer_teardown cfg env call s) = acct s"
  by (simp_all add: bye_teardown_def timer_teardown_def Let_def acct_simps)

lemma acct_finish [acct_simps]: "acct (bye_finish cfg req tx s) = acct s"
  by (simp add: bye_finish_def Let_def acct_simps)

lemma acct_remove:
  assumes "acct s = (L, C, T)" shows "acct (remove_call call s) = (L, fmdrop (ca_AliceCallID call) C, T)"
proof (cases "fmlookup (st_calls (hs_store s)) (ca_AliceCallID call)")
  case None
  moreover have "st_calls (Store_Remove (ca_AliceCallID call) (hs_store s)) = st_calls (hs_store s)"
    using None by (simp add: Store_Remove_def)
  moreover have "fmdrop (ca_AliceCallID call) C = C" using None assms by (intro fmap_ext) (auto simp: acct_def)
  ultimately show ?thesis using assms by (simp add: acct_def remove_call_def)
next
  case (Some c)
  then show ?thesis using assms by (simp add: acct_def remove_call_def Store_Remove_eq)
qed

text \<open>A removal leaves a channel to release, a release takes one.\<close>

lemma remove_accounted:
  assumes "accounted d s"
  shows "accounted (\<lambda>n. d n - of_bool (removed_trunk call s = Some n)) (remove_call call s)"
proof -
  let ?a = "ca_AliceCallID call"
  obtain L C T where s: "acct s = (L, C, T)" using acct_split by blast
  note inv = trunk_invD [OF assms [unfolded s]]
  have C: "st_calls (hs_store s) = C" using s by (simp add: acct_def)
  have "in_progress name (L, fmdrop ?a C, T) \<le> in_progress name (L, C, T) - of_bool (removed_trunk call s = Some name)" for name
  proof (cases "fmlookup C ?a")
    case None
    then have "fmdrop ?a C = C" by (intro fmap_ext) auto
    then show ?thesis using None by (simp add: removed_trunk_def C)
  next
    case (Some c)
    then show ?thesis using kcount_fmdrop [OF Some, of "\<lambda>c. ca_TrunkName c = name"] by (simp add: removed_trunk_def C in_progress_def)
  qed
  then have "in_progress name (L, fmdrop ?a C, T) \<le> held_channels name T + (d name - of_bool (removed_trunk call s = Some name))" if "name \<noteq> []" for name
    using inv(2) [OF that] by (smt (verit))
  then show ?thesis using inv(1,3) by (simp add: trunk_inv_def acct_remove [OF s])
qed

lemma release_accounted:
  assumes "accounted d s"
  shows "accounted (\<lambda>n. d n + of_bool (t = n)) (release_channel t s)"
proof -
  obtain L C T where s: "acct s = (L, C, T)" using acct_split by blast
  note inv = trunk_invD [OF assms [unfolded s]]
  have "in_progress name (L, C, map_option (ReleaseChannel t) T) \<le> held_channels name (map_option (ReleaseChannel t) T) + (d name + of_bool (t = name))"
    if "name \<noteq> []" for name
    using inv(2) [OF that] by (auto simp: held_release in_progress_def)
  then show ?thesis using inv(1) channels_ok_release [OF inv(3)] by (simp add: trunk_inv_def acct_release [OF s])
qed

lemma accounted_mono: "accounted d s \<Longrightarrow> (\<And>n. n \<noteq> [] \<Longrightarrow> d n \<le> d' n) \<Longrightarrow> accounted d' s"
  unfolding trunk_inv_def by (meson add_left_mono order_trans)

lemma bye_release_accounted:
  assumes "accounted d s"
  shows "accounted (\<lambda>n. d n + of_bool (ca_TrunkName call = n)) (bye_release call s)"
  using release_accounted [OF assms] accounted_mono [OF assms] by (auto simp: bye_release_def)

text \<open>Uninterrupted, a BYE releases the channel of the call it removes.\<close>

lemma bye_call_accounted:
  assumes "accounted d s" and "Store_Get k (hs_store s) = Some call"
  shows "accounted d (bye_call cfg env callID call s)"
proof -
  let ?s = "bye_teardown cfg env callID call s"
  have "acct ?s = acct s" by (simp add: acct_simps)
  then have c: "st_calls (hs_store ?s) = st_calls (hs_store s)" and a: "accounted d ?s" using assms(1) by (simp_all add: acct_def)
  have "fmlookup (st_calls (hs_store s)) (ca_AliceCallID call) = Some call"
    by (rule Store_Get_in [OF _ assms(2)]) (use assms(1) in \<open>simp add: trunk_inv_def acct_def\<close>)
  then have "removed_trunk call ?s = Some (ca_TrunkName call)" by (simp add: removed_trunk_def c)
  from bye_release_accounted [OF remove_accounted [OF a, of call], of call, unfolded this]
  show ?thesis unfolding bye_call_def by (rule accounted_mono) auto
qed

lemma bye_begin_accounted:
  assumes "accounted d s"
  shows "ok_all (\<lambda>(callID, allowed, s'). accounted d s') (bye_begin cfg env req tx s)"
proof -
  let ?s = "respond tx (NewResponse req 100 ''Trying'') s"
  have "ok_all (\<lambda>(b, s'). accounted d s') (requireProxyAuth cfg env req tx ''BYE'' ?s)"
    using assms by (auto intro!: ok_all_mono [OF acct_requireProxyAuth] simp: acct_simps)
  then show ?thesis unfolding bye_begin_def Let_def by (auto intro!: ok_all_and_then [of "SIPHeaders_GetFirst (msg_Headers req) ''Call-ID''"] ok_all_bind)
qed

lemma bye_session_accounted: "accounted d s \<Longrightarrow> ok_all (accounted d) (bye_session req s)"
  unfolding bye_session_def by (auto intro!: ok_all_and_then simp: acct_simps split: option.split)

lemma HandleBye_accounted:
  assumes "accounted d s"
  shows "ok_all (accounted d) (HandleBye cfg env req tx s)"
proof -
  have body: "ok_all (accounted d) (case Store_Get k (hs_store s') of Some call \<Rightarrow> Ok (bye_call cfg env k call s') | None \<Rightarrow> bye_session req s')"
    if "accounted d s'" for k s'
    using that by (auto intro!: bye_session_accounted bye_call_accounted split: option.split)
  show ?thesis
    unfolding HandleBye_def Let_def
    by (rule ok_all_bind [OF bye_begin_accounted [OF assms]]) (auto intro!: ok_all_bind [OF body] simp: acct_simps)
qed

lemma acct_cancel_loop:
  assumes "accounted d s"
  shows "accounted d (cancel_loop i s)"
proof (cases "fmlookup (hs_loops s) i")
  case None
  then show ?thesis using assms by (simp add: cancel_loop_def)
next
  case (Some lp)
  then show ?thesis using assms trunk_inv_same_leg [of d "hs_loops s" "st_calls (hs_store s)" "hs_trunks s" i lp "lp\<lparr>lp_cancelled := True\<rparr>"]
    by (simp add: cancel_loop_def acct_def)
qed

lemma HandleCancel_accounted:
  assumes "accounted d s"
  shows "ok_all (accounted d) (HandleCancel env req tx s)"
  unfolding HandleCancel_def Let_def using acct_cancel_loop assms
  by (auto intro!: ok_all_and_then simp: acct_simps split: option.split)

lemma prack_timeout_accounted:
  assumes "accounted d s"
  shows "ok_all (accounted d) (prack_timeout i s)"
proof (cases "fmlookup (hs_loops s) i")
  case None
  then show ?thesis using assms by (simp add: prack_timeout_def)
next
  case (Some lp)
  let ?s = "respond (cc_tx (lp_cc lp)) (NewResponse (cc_req (lp_cc lp)) 504 ''PRACK Timeout'') (close_both (lp_cc lp) s)"
  have "acct ?s = acct s" by (simp add: acct_simps)
  then show ?thesis
    using Some assms trunk_inv_same_leg [of d "hs_loops s" "st_calls (hs_store s)" "hs_trunks s" i lp "lp\<lparr>lp_prackDone := True\<rparr>"]
    by (simp add: prack_timeout_def Let_def acct_def)
qed

lemma acct_fold_send [acct_simps]: "acct (fold (\<lambda>(tr, target, msg). transport_send tr target msg) sent s) = acct s"
  by (induction sent arbitrary: s) (auto simp: acct_simps)

lemma prack_timer_accounted: "accounted d s \<Longrightarrow> ok_all (accounted d) (prack_timer k s)"
  unfolding prack_timer_def Let_def by (auto intro!: prack_timeout_accounted simp: acct_simps split: option.split prod.split)

lemma checkB2BUAAck_accounted:
  assumes "accounted d s"
  shows "ok_all (\<lambda>r. case r of None \<Rightarrow> True | Some s' \<Rightarrow> accounted d s') (checkB2BUAAck cfg msg s)"
proof -
  obtain L T where s: "acct s = (L, st_calls (hs_store s), T)" by (simp add: acct_def)
  note inv = assms [unfolded s]
  have put: "accounted d (start_bridge (call\<lparr>ca_Bridge := b, ca_BridgeReady := r\<rparr>)
      (s\<lparr>hs_store := put_call (call\<lparr>ca_Bridge := b, ca_BridgeReady := r\<rparr>) (hs_store s), hs_sessions := x\<rparr>))"
    if "Store_Get k (hs_store s) = Some call" for k call x b r
  proof -
    let ?call = "call\<lparr>ca_Bridge := b, ca_BridgeReady := r\<rparr>"
    have c: "fmlookup (st_calls (hs_store s)) (ca_AliceCallID call) = Some call" by (rule Store_Get_in [OF trunk_invD(1) [OF inv] that])
    have "in_progress name (L, fmupd (ca_AliceCallID call) ?call (st_calls (hs_store s)), T) = in_progress name (L, st_calls (hs_store s), T)" for name
      using kcount_fmupd_same [OF c, of "\<lambda>c. ca_TrunkName c = name" ?call] by (simp add: in_progress_def)
    then have "trunk_inv d (L, fmupd (ca_AliceCallID call) ?call (st_calls (hs_store s)), T)" using inv by (simp add: trunk_inv_def)
    then show ?thesis using s by (simp add: acct_simps) (simp add: acct_def put_call_def)
  qed
  show ?thesis
    unfolding checkB2BUAAck_def Let_def using assms
    by (auto intro!: ok_all_and_then dest: put [where x = "hs_sessions s", simplified] put split: option.split go.split)
qed

lemma HandleAck_accounted:
  assumes "accounted d s"
  shows "ok_all (accounted d) (HandleAck cfg msg s)"
  unfolding HandleAck_def Let_def
  by (rule ok_all_bind [OF checkB2BUAAck_accounted [OF assms]])
    (use assms in \<open>auto intro!: ok_all_and_then simp: acct_simps split: option.split go.split\<close>)


section \<open>Runs of the handler\<close>

text \<open>
  What can happen to the state of the handler in one piece, in any order.  A BYE and the timer of a trunk session are not here:
  their steps are those of \<open>ending_step\<close>.
\<close>

inductive handler_step :: "handler_config \<Rightarrow> handler_state \<Rightarrow> handler_state \<Rightarrow> bool" for cfg where
  hs_invite: "HandleInvite cfg env req tx s = (Ok s' :: (unit, _) go) \<Longrightarrow> handler_step cfg s s'"
| hs_cancel: "HandleCancel env req tx s = (Ok s' :: (unit, _) go) \<Longrightarrow> handler_step cfg s s'"
| hs_ack: "HandleAck cfg msg s = (Ok s' :: (unit, _) go) \<Longrightarrow> handler_step cfg s s'"
| hs_options: "handler_step cfg s (HandleOptions cfg req tx s)"
| hs_prack: "HandlePRACK req tx s = (Ok s' :: (unit, _) go) \<Longrightarrow> handler_step cfg s s'"
| hs_response: "HandleResponse cfg msg s = (Ok s' :: (unit, _) go) \<Longrightarrow> handler_step cfg s s'"
| hs_loop: "loop_step cfg env i ev s = (Ok s' :: (unit, _) go) \<Longrightarrow> handler_step cfg s s'"
| hs_prack_timer: "prack_timer k s = (Ok s' :: (unit, _) go) \<Longrightarrow> handler_step cfg s s'"
| hs_uac_timer: "uac_timer_fires env u k s = (Ok s' :: (unit, _) go) \<Longrightarrow> handler_step cfg s s'"
| hs_playback: "handler_step cfg s (playback_done cfg env i s)"
| hs_transactions: "handler_step cfg s (s\<lparr>hs_tm := tm\<rparr>)"
| hs_registrar: "handler_step cfg s (s\<lparr>hs_reg := reg\<rparr>)"
| hs_flow: "handler_step cfg s (flow_dies flowID s)"
| hs_config: "handler_step cfg s (SetProxyPasswordStore store s)"

text \<open>
  A configuration of the running program: the state, the goroutines that are ending a call, and, per trunk, how many of
  them have released a channel without having removed a call of that trunk.
\<close>

record conf =
  cf_state :: handler_state
  cf_ends :: "ending list"
  cf_strays :: "string \<Rightarrow> nat"

fun justified :: "string \<Rightarrow> ending \<Rightarrow> bool" where
  "justified n (ByeRelease req tx call r) \<longleftrightarrow> ca_TrunkName call = n \<and> r = Some n"
| "justified n (TimerRelease t r) \<longleftrightarrow> t = n \<and> r = Some n"
| "justified n _ \<longleftrightarrow> False"

fun stray :: "string \<Rightarrow> ending \<Rightarrow> bool" where
  "stray n (ByeRelease req tx call r) \<longleftrightarrow> ca_TrunkName call = n \<and> r \<noteq> Some n"
| "stray n (TimerRelease t r) \<longleftrightarrow> t = n \<and> r \<noteq> Some n"
| "stray n _ \<longleftrightarrow> False"

inductive conf_step :: "handler_config \<Rightarrow> conf \<Rightarrow> conf \<Rightarrow> bool" for cfg where
  cs_handler: "handler_step cfg (cf_state c) s' \<Longrightarrow> conf_step cfg c (c\<lparr>cf_state := s'\<rparr>)"
| cs_bye: "bye_begin cfg env req tx (cf_state c) = (Ok (callID, allowed, s') :: (unit, _) go) \<Longrightarrow>
    conf_step cfg c (c\<lparr>cf_state := s', cf_ends := (if allowed then [ByeLookup env req tx callID] else []) @ cf_ends c\<rparr>)"
| cs_timer: "(callID, trunkName) \<in> set (hs_timers (cf_state c)) \<Longrightarrow>
    conf_step cfg c (c\<lparr>cf_state := (cf_state c)\<lparr>hs_timers := remove1 (callID, trunkName) (hs_timers (cf_state c))\<rparr>,
      cf_ends := TimerLookup env callID trunkName # cf_ends c\<rparr>)"
| cs_ending: "cf_ends c = es @ e # fs \<Longrightarrow> ending_step cfg e (cf_state c) = (Ok (s', e') :: (unit, _) go) \<Longrightarrow>
    conf_step cfg c \<lparr>cf_state = s', cf_ends = es @ (case e' of None \<Rightarrow> [] | Some e' \<Rightarrow> [e']) @ fs,
      cf_strays = (\<lambda>n. cf_strays c n + of_bool (stray n e))\<rparr>"

inductive conf_run :: "handler_config \<Rightarrow> TrunkManager option \<Rightarrow> conf \<Rightarrow> bool" for cfg T where
  run_new: "conf_run cfg T \<lparr>cf_state = NewHandler reg prackEnabled T, cf_ends = [], cf_strays = (\<lambda>_. 0)\<rparr>"
| run_step: "conf_run cfg T c \<Longrightarrow> conf_step cfg c c' \<Longrightarrow> conf_run cfg T c'"

text \<open>Channels whose release is due: their call is gone and its goroutine has not released them yet.\<close>

definition due :: "string \<Rightarrow> ending list \<Rightarrow> nat" where
  "due n es = length (filter (justified n) es)"

definition balance :: "conf \<Rightarrow> string \<Rightarrow> int" where
  "balance c n = int (cf_strays c n) - int (due n (cf_ends c))"

lemma due_simps [simp]: "due n [] = 0" "due n (e # es) = of_bool (justified n e) + due n es" "due n (es @ fs) = due n es + due n fs"
  by (simp_all add: due_def)

lemma sendBye_same: "acct (sendByeToSession cfg env i s) = acct s"
  by (auto simp: sendByeToSession_def Let_def acct_simps split: option.split)

lemma playback_same: "acct (playback_done cfg env i s) = acct s"
  by (auto simp: playback_done_def Let_def acct_simps sendBye_same split: option.split)

lemma flow_dies_same: "acct (flow_dies f s) = acct s"
  by (auto simp: flow_dies_def Let_def acct_simps split: prod.split)

lemma step_accounted:
  assumes "handler_step cfg s s'" and "accounted d s"
  shows "accounted d s'"
  using assms
proof (induction rule: handler_step.induct)
  case (hs_invite env req tx s s')
  then show ?case using ok_allD [OF HandleInvite_accounted] by blast
next
  case (hs_cancel env req tx s s')
  then show ?case using ok_allD [OF HandleCancel_accounted] by blast
next
  case (hs_ack msg s s')
  then show ?case using ok_allD [OF HandleAck_accounted] by blast
next
  case (hs_prack req tx s s')
  then show ?case using ok_allD [OF acct_HandlePRACK [of s req tx] hs_prack(1)] by simp
next
  case (hs_response msg s s')
  then show ?case by (auto simp: HandleResponse_def and_then_eq_Ok acct_simps)
next
  case (hs_loop env i ev s s')
  then show ?case using ok_allD [OF loop_step_accounted] by blast
next
  case (hs_prack_timer k s s')
  then show ?case using ok_allD [OF prack_timer_accounted] by blast
next
  case (hs_uac_timer env u k s s')
  then show ?case by (auto simp: uac_timer_fires_def and_then_eq_Ok acct_simps split: option.splits)
qed (simp_all add: acct_simps acct_HandleOptions playback_same flow_dies_same SetProxyPasswordStore_def)

text \<open>One step of an ending changes the balance by the channels it leaves or takes.\<close>

lemma ending_step_accounted:
  assumes "ending_step cfg e s = (Ok (s', e') :: (unit, _) go)" and "accounted d s"
  shows "accounted (\<lambda>n. d n + of_bool (stray n e) + of_bool (justified n e)
    - (case e' of None \<Rightarrow> 0 | Some e' \<Rightarrow> of_bool (justified n e'))) s'"
proof (cases e)
  case (ByeLookup env req tx callID)
  then show ?thesis using assms ok_allD [OF bye_session_accounted [OF assms(2), of req]]
    by (auto simp: and_then_eq_Ok split: option.splits)
next
  case (ByeRemove req tx call)
  then show ?thesis using assms by (auto intro!: accounted_mono [OF remove_accounted [OF assms(2), of call]])
next
  case (ByeRelease req tx call r)
  then show ?thesis using assms by (auto intro!: accounted_mono [OF bye_release_accounted [OF assms(2), of call]])
next
  case (TimerRemove t call)
  then show ?thesis using assms by (auto intro!: accounted_mono [OF remove_accounted [OF assms(2), of call]])
next
  case (TimerRelease t r)
  then show ?thesis using assms by (auto intro!: accounted_mono [OF release_accounted [OF assms(2), of t]])
qed (use assms in \<open>auto simp: acct_simps split: option.splits\<close>)

lemma conf_step_accounted:
  assumes "conf_step cfg c c'" and "accounted (balance c) (cf_state c)"
  shows "accounted (balance c') (cf_state c')"
  using assms
proof (induction rule: conf_step.induct)
  case (cs_handler c s')
  then show ?case using step_accounted by (simp add: balance_def [abs_def])
next
  case (cs_bye env req tx c callID allowed s')
  then have "accounted (balance c) s'" using ok_allD [OF bye_begin_accounted] by fastforce
  then show ?case by (simp add: balance_def [abs_def])
next
  case (cs_timer callID trunkName c env)
  then show ?case by (simp add: balance_def [abs_def] acct_simps)
next
  case (cs_ending c es e fs s' e')
  from ending_step_accounted [OF cs_ending(2,3)] show ?case unfolding conf.simps
    by (rule accounted_mono) (auto simp: balance_def cs_ending(1) split: option.split)
qed

lemma run_accounted:
  assumes "conf_run cfg T c" and "\<And>m name. T = Some m \<Longrightarrow> ActiveCalls m name = 0"
  shows "accounted (balance c) (cf_state c)"
  using assms(1)
proof induction
  case (run_new reg p)
  show ?case using assms(2)
    by (auto simp: trunk_inv_def acct_def NewHandler_def NewStore_def in_progress_def held_channels_def channels_ok_def balance_def split: option.split)
next
  case (run_step c c')
  then show ?case by (blast intro: conf_step_accounted)
qed

section \<open>Endings run to the end\<close>

text \<open>The steps of an ending, with nothing in between, are the functions of the code.\<close>

lemma HandleBye_steps:
  "HandleBye cfg env req tx s = and_then (bye_begin cfg env req tx s) (\<lambda>(callID, allowed, s).
     if allowed then run_ending 5 cfg (ByeLookup env req tx callID) s else Ok s)"
  by (auto simp: HandleBye_def bye_call_def numeral_eq_Suc and_then_assoc intro!: arg_cong [of _ _ "and_then (bye_begin cfg env req tx s)"] split: option.split)

lemma trunkSessionTimer_steps: "run_ending 4 cfg (TimerLookup env callID trunkName) s = Ok (trunkSessionTimer cfg env callID trunkName s)"
  by (simp add: trunkSessionTimer_def numeral_eq_Suc split: option.split)

end
