(* ===== verification/B2BUA_Calls.thy ===== *)
theory B2BUA_Calls
  imports B2BUA_Accounts
begin

text \<open>
  What the call handler promises and where it breaks the promise: capacity of trunks, the end of a call, the resources an
  INVITE leaves behind, and two inputs for which the code goes wrong.
\<close>

section \<open>Trunk capacity\<close>

text \<open>
  C1.  The limit of a trunk, in every interleaving of the handlers, the response loops, the timers and the goroutines that end
  calls, from a start with no channel taken: the channels the manager counts for a trunk are between zero and its
  \<^verbatim>\<open>max_channels\<close>, and the calls of the trunk that are being set up or established, together with the ended ones whose channel is
  still to be released, are at most those channels plus the number of stray releases, that is of releases by a goroutine that had
  not itself removed a call of that trunk.  Without a stray release the limit is a limit on calls.
\<close>

theorem trunk_capacity:
  assumes "conf_run cfg (Some m0) c" and "\<And>n. ActiveCalls m0 n = 0"
    and "hs_trunks (cf_state c) = Some m" and "fmlookup (tk_trunks m) name = Some t" and "0 < trk_MaxChannels t" and "name \<noteq> []"
  shows "in_progress name (acct (cf_state c)) + int (due name (cf_ends c)) \<le> ActiveCalls m name + int (cf_strays c name) \<and>
    0 \<le> ActiveCalls m name \<and> ActiveCalls m name \<le> trk_MaxChannels t"
proof -
  have "trunk_inv (balance c) (acct (cf_state c))" by (rule run_accounted [OF assms(1)]) (use assms(2) in auto)
  then have "trunk_inv (balance c) (hs_loops (cf_state c), st_calls (hs_store (cf_state c)), Some m)" by (simp add: acct_def assms(3))
  from trunk_invD(2) [OF this assms(6)] trunk_invD(3) [OF this] assms(3-5) show ?thesis
    by (simp add: acct_def held_channels_def channels_ok_def balance_def)
qed

text \<open>
  A stray release does happen.  Both legs of a trunk call hang up at once, and both goroutines have looked the call up before either
  has removed it: the second one removes nothing and releases another channel of the trunk all the same, so that the manager
  counts one call less than there are and the next call is let in over the limit.
\<close>

theorem racing_byes_release_twice:
  assumes "cf_ends c = [ByeRemove req tx call, ByeRemove req' tx' call]"
    and "fmlookup (st_calls (hs_store (cf_state c))) (ca_AliceCallID call) = Some call"
    and "ca_TrunkName call = name" and "name \<noteq> []" and "hs_trunks (cf_state c) = Some m" and "2 \<le> ActiveCalls m name"
  shows "\<exists>c' m'. (conf_step cfg)\<^sup>*\<^sup>* c c' \<and> hs_trunks (cf_state c') = Some m' \<and> ActiveCalls m' name = ActiveCalls m name - 2 \<and>
     in_progress name (acct (cf_state c')) = in_progress name (acct (cf_state c)) - 1 \<and> cf_strays c' name = Suc (cf_strays c name)"
proof -
  let ?s = "cf_state c" and ?a = "ca_AliceCallID call"
  define s1 where "s1 = remove_call call ?s"
  define s2 where "s2 = remove_call call s1"
  define s3 where "s3 = bye_release call (bye_release call s2)"
  obtain L C where s: "acct ?s = (L, C, Some m)" using assms(5) by (simp add: acct_def)
  have C: "fmlookup C ?a = Some call" using assms(2) s by (simp add: acct_def)
  have a1: "acct s1 = (L, fmdrop ?a C, Some m)" unfolding s1_def by (rule acct_remove [OF s])
  have a2: "acct s2 = (L, fmdrop ?a C, Some m)" using acct_remove [OF a1, of call] by (simp add: s2_def)
  have r: "removed_trunk call ?s = Some name" "removed_trunk call s1 = None"
    using assms(2,3) a1 by (simp_all add: removed_trunk_def acct_def)
  let ?c1 = "\<lparr>cf_state = s1, cf_ends = [ByeRelease req tx call (Some name), ByeRemove req' tx' call], cf_strays = cf_strays c\<rparr>"
  let ?c2 = "\<lparr>cf_state = s2, cf_ends = [ByeRelease req tx call (Some name), ByeRelease req' tx' call None], cf_strays = cf_strays c\<rparr>"
  let ?c3 = "\<lparr>cf_state = bye_release call s2, cf_ends = [ByeRespond req tx, ByeRelease req' tx' call None], cf_strays = cf_strays c\<rparr>"
  let ?c4 = "\<lparr>cf_state = s3, cf_ends = [ByeRespond req tx, ByeRespond req' tx'], cf_strays = (\<lambda>n. cf_strays c n + of_bool (n = name))\<rparr>"
  have 1: "conf_step cfg c ?c1"
    using cs_ending [of c "[]" "ByeRemove req tx call" "[ByeRemove req' tx' call]" cfg] assms(1) r(1) by (simp add: s1_def)
  have 2: "conf_step cfg ?c1 ?c2"
    using cs_ending [of ?c1 "[ByeRelease req tx call (Some name)]" "ByeRemove req' tx' call" "[]" cfg] r(2) by (simp add: s2_def)
  have 3: "conf_step cfg ?c2 ?c3"
    using cs_ending [of ?c2 "[]" "ByeRelease req tx call (Some name)" "[ByeRelease req' tx' call None]" cfg] assms(3)
    by (simp add: of_bool_def cong: if_cong)
  have 4: "conf_step cfg ?c3 ?c4"
    using cs_ending [of ?c3 "[ByeRespond req tx]" "ByeRelease req' tx' call None" "[]" cfg] assms(3) by (simp add: s3_def eq_commute)
  have a3: "acct s3 = (L, fmdrop ?a C, Some (ReleaseChannel name (ReleaseChannel name m)))"
    using assms(3,4) acct_release [OF acct_release [OF a2, of name], of name] by (simp add: s3_def bye_release_def)
  have "in_progress name (acct s3) = in_progress name (acct ?s) - 1"
    using kcount_fmdrop [OF C, of "\<lambda>c. ca_TrunkName c = name"] assms(3) by (simp add: a3 s in_progress_def)
  moreover have "hs_trunks s3 = Some (ReleaseChannel name (ReleaseChannel name m))" using a3 by (simp add: acct_def)
  moreover have "ActiveCalls (ReleaseChannel name (ReleaseChannel name m)) name = ActiveCalls m name - 2"
    using assms(6) by (simp add: ActiveCalls_Release)
  moreover have "(conf_step cfg)\<^sup>*\<^sup>* c ?c4" using 1 2 3 4 by (meson converse_rtranclp_into_rtranclp rtranclp.rtrancl_refl)
  ultimately show ?thesis by (intro exI [of _ ?c4]) simp
qed

section \<open>The end of a call\<close>

lemma end_session_facts [simp]:
  "hs_store (end_session i s) = hs_store s" "hs_trunks (end_session i s) = hs_trunks s" "hs_tm (end_session i s) = hs_tm s"
  "hs_proxy (end_session i s) = hs_proxy s" "hs_loops (end_session i s) = hs_loops s"
  by (simp_all add: end_session_def close_rtp_def split: option.split)

lemma end_session_rtp: "fmlookup (hs_sessions s) i = Some se \<Longrightarrow> hs_rtp (end_session i s) = hs_rtp s |-| {|se_RTPConn se|}"
  by (simp add: end_session_def close_rtp_def)

lemma end_session_sm: "fmlookup (hs_sessions s) i = Some se \<Longrightarrow> hs_sm (end_session i s) = fmdrop (se_Key se) (hs_sm s)"
  by (simp add: end_session_def close_rtp_def SessionManager_Remove_def)

lemma end_session_sessions:
  "fmlookup (hs_sessions s) i = Some se \<Longrightarrow>
   fmlookup (hs_sessions (end_session i s)) j = (if j = i then Some (Session_Cancel se) else fmlookup (hs_sessions s) j)"
  by (simp add: end_session_def close_rtp_def)

lemma Session_Cancel_facts [simp]: "se_RTPConn (Session_Cancel se) = se_RTPConn se" "se_Key (Session_Cancel se) = se_Key se" "se_cancelled (Session_Cancel se)"
  by (simp_all add: Session_Cancel_def)

lemma stop_bridge_facts [simp]:
  "hs_store (stop_bridge c s) = hs_store s" "hs_trunks (stop_bridge c s) = hs_trunks s" "hs_tm (stop_bridge c s) = hs_tm s"
  "hs_sessions (stop_bridge c s) = hs_sessions s" "hs_sm (stop_bridge c s) = hs_sm s" "hs_rtp (stop_bridge c s) = hs_rtp s"
  by (simp_all add: stop_bridge_def)

lemma transport_send_facts [simp]:
  "hs_store (transport_send tr t m s) = hs_store s" "hs_trunks (transport_send tr t m s) = hs_trunks s"
  "tm_sent (hs_tm (transport_send tr t m s)) = tm_sent (hs_tm s) @ [(tr, t, m)]" "tm_txs (hs_tm (transport_send tr t m s)) = tm_txs (hs_tm s)"
  "hs_sessions (transport_send tr t m s) = hs_sessions s" "hs_sm (transport_send tr t m s) = hs_sm s" "hs_rtp (transport_send tr t m s) = hs_rtp s"
  by (simp_all add: transport_send_def send_msg_def)

lemma respond_facts [simp]:
  "hs_store (respond tx r s) = hs_store s" "hs_trunks (respond tx r s) = hs_trunks s" "hs_proxy (respond tx r s) = hs_proxy s"
  "hs_sessions (respond tx r s) = hs_sessions s" "hs_sm (respond tx r s) = hs_sm s" "hs_rtp (respond tx r s) = hs_rtp s"
  "hs_tasks (respond tx r s) = hs_tasks s" "hs_loops (respond tx r s) = hs_loops s" "hs_reg (respond tx r s) = hs_reg s" "hs_pool (respond tx r s) = hs_pool s"
  "hs_prack (respond tx r s) = hs_prack s" "hs_uac (respond tx r s) = hs_uac s" "hs_next (respond tx r s) = hs_next s" "hs_ports (respond tx r s) = hs_ports s"
  "hs_timers (respond tx r s) = hs_timers s"
  by (simp_all add: respond_def)

text \<open>The leg that gets a BYE when the other leg, named by its Call-ID, hangs up.\<close>

definition other_leg :: "string \<Rightarrow> Call \<Rightarrow> transport_kind \<times> Target" where
  "other_leg callID call = (if callID = ca_AliceCallID call then (ca_BobTransport call, ca_BobTarget call) else (ca_AliceTransport call, ca_AliceTarget call))"

definition call_released :: "string \<Rightarrow> Call \<Rightarrow> Session \<Rightarrow> Session \<Rightarrow> handler_state \<Rightarrow> handler_state \<Rightarrow> bool" where
  "call_released callID call sa sb s s' \<longleftrightarrow>
     hs_rtp s' = hs_rtp s |-| {|se_RTPConn sa, se_RTPConn sb|} \<and>
     SessionManager_Get (se_Key sa) (hs_sm s') = None \<and> SessionManager_Get (se_Key sb) (hs_sm s') = None \<and>
     bridge_task call \<notin> set (hs_tasks s') \<and>
     Store_Get (ca_AliceCallID call) (hs_store s') = None \<and> Store_Get (ca_BobCallID call) (hs_store s') = None \<and>
     hs_trunks s' = (if ca_TrunkName call = [] then hs_trunks s else map_option (ReleaseChannel (ca_TrunkName call)) (hs_trunks s))"

lemma Store_Get_call:
  assumes "store_ok st" and "Store_Get callID st = Some call"
  shows "fmlookup (st_calls st) (ca_AliceCallID call) = Some call"
  using assms store_ok_call [OF assms(1)] by (auto simp: Store_Get_def split: option.splits if_splits)


definition other_leg_bye :: "handler_config \<Rightarrow> handler_env \<Rightarrow> string \<Rightarrow> Call \<Rightarrow> SIPMessage" where
  "other_leg_bye cfg env callID call =
     (if callID = ca_AliceCallID call then dialog_bye cfg env (StripBrackets (ca_BobContactURI call)) (ca_BobTransport call) (ca_BobDialog call)
      else dialog_bye cfg env (StripBrackets (ca_AliceContactURI call)) (ca_AliceTransport call) (ca_AliceDialog call))"

lemma bye_call_facts:
  assumes "store_ok (hs_store s)" and "Store_Get callID (hs_store s) = Some call"
    and "fmlookup (hs_sessions s) (ca_AliceSess call) = Some sa" and "fmlookup (hs_sessions s) (ca_BobSess call) = Some sb"
  shows "call_released callID call sa sb s (bye_call cfg env callID call s)"
    and "tm_sent (hs_tm (bye_call cfg env callID call s))
      = tm_sent (hs_tm s) @ [(fst (other_leg callID call), snd (other_leg callID call), other_leg_bye cfg env callID call)]"
    and "tm_txs (hs_tm (bye_call cfg env callID call s)) = tm_txs (hs_tm s)"
proof -
  define s1 where "s1 = transport_send (fst (other_leg callID call)) (snd (other_leg callID call)) (other_leg_bye cfg env callID call) (stop_bridge call s)"
  define s2 where "s2 = end_session (ca_AliceSess call) (end_session (ca_BobSess call) s1)"
  have eq: "bye_call cfg env callID call s =
     (let s' = s2\<lparr>hs_store := Store_Remove (ca_AliceCallID call) (hs_store s2)\<rparr>
      in if ca_TrunkName call \<noteq> [] then release_channel (ca_TrunkName call) s' else s')"
    by (simp add: bye_call_def bye_teardown_def bye_release_def remove_call_def s1_def s2_def other_leg_def other_leg_bye_def Let_def)
  have l1: "fmlookup (hs_sessions s1) (ca_BobSess call) = Some sb" using assms(4) by (simp add: s1_def)
  obtain sa' where l2: "fmlookup (hs_sessions (end_session (ca_BobSess call) s1)) (ca_AliceSess call) = Some sa'"
    "se_RTPConn sa' = se_RTPConn sa" "se_Key sa' = se_Key sa"
    using assms(3,4) by (cases "ca_AliceSess call = ca_BobSess call") (simp_all add: end_session_sessions [OF l1], simp_all add: s1_def)
  have s1: "hs_rtp s1 = hs_rtp s" "hs_sm s1 = hs_sm s" by (simp_all add: s1_def)
  have r: "hs_rtp s2 = hs_rtp s |-| {|se_RTPConn sa, se_RTPConn sb|}"
    by (auto simp: s2_def end_session_rtp [OF l2(1)] end_session_rtp [OF l1] l2 s1)
  have m: "hs_sm s2 = fmdrop (se_Key sa) (fmdrop (se_Key sb) (hs_sm s))"
    by (simp add: s2_def end_session_sm [OF l2(1)] end_session_sm [OF l1] l2 s1)
  have k: "hs_tasks s2 = removeAll (bridge_task call) (hs_tasks s)"
    by (simp add: s2_def s1_def end_session_def close_rtp_def transport_send_def stop_bridge_def split: option.split)
  have o: "hs_store s2 = hs_store s" "hs_trunks s2 = hs_trunks s" by (simp_all add: s2_def s1_def)
  note g = Store_Get_removed [OF assms(1) Store_Get_call [OF assms(1,2)]]
  show "call_released callID call sa sb s (bye_call cfg env callID call s)"
    by (simp add: call_released_def eq Let_def release_channel_def r m k o g SessionManager_Get_def)
  show "tm_sent (hs_tm (bye_call cfg env callID call s))
      = tm_sent (hs_tm s) @ [(fst (other_leg callID call), snd (other_leg callID call), other_leg_bye cfg env callID call)]"
    and "tm_txs (hs_tm (bye_call cfg env callID call s)) = tm_txs (hs_tm s)"
    by (simp_all add: eq Let_def release_channel_def s2_def s1_def)
qed


lemma status_of_NewResponse [simp]: "SIPMessage_StatusCode (NewResponse req sc r) = sc" "SIPMessage_StatusCode (m\<lparr>msg_Headers := h\<rparr>) = SIPMessage_StatusCode m"
  by (simp_all add: SIPMessage_StatusCode_def NewResponse_def)

lemma respond_provisional_nist:
  assumes "fmlookup (tm_txs (hs_tm s)) tx = Some (NIST t)" and "nt_state t \<noteq> NISTTerminated" and "SIPMessage_StatusCode res = 100"
  shows "tm_sent (hs_tm (respond tx res s)) = tm_sent (hs_tm s) @ [(nt_transport t, nt_target t, res)]"
    and "\<exists>t'. fmlookup (tm_txs (hs_tm (respond tx res s))) tx = Some (NIST t') \<and> nt_state t' \<noteq> NISTTerminated \<and>
      nt_transport t' = nt_transport t \<and> nt_target t' = nt_target t"
  using assms by (simp_all add: respond_def Respond_def NonInviteTransaction_Respond_def Let_def send_msg_def put_tx_def)

lemma respond_final_nist:
  assumes "fmlookup (tm_txs (hs_tm s)) tx = Some (NIST t)" and "nt_state t \<noteq> NISTTerminated" and "200 \<le> SIPMessage_StatusCode res"
  shows "tm_sent (hs_tm (respond tx res s)) = tm_sent (hs_tm s) @ [(nt_transport t, nt_target t, res)]"
  using assms by (simp add: respond_def Respond_def NonInviteTransaction_Respond_def Let_def send_msg_def put_tx_def AfterFunc_def)

lemma call_released_respond:
  "call_released callID call sa sb (respond tx r s) s' \<Longrightarrow> call_released callID call sa sb s (respond tx' r' s')"
  by (simp add: call_released_def)

lemma requireProxyAuth_passed:
  assumes "requireProxyAuth cfg env req tx meth s = (Ok (True, s') :: (unit, _) go)"
  obtains p where "s' = s\<lparr>hs_proxy := p\<rparr>"
proof (cases "hs_proxy s")
  case None
  then have "s' = s" using assms by (simp add: requireProxyAuth_def)
  then have "s' = s\<lparr>hs_proxy := None\<rparr>" using None by simp
  then show thesis by (rule that)
next
  case (Some pa)
  obtain passwd auth where pa: "pa = (passwd, auth)" by (cases pa)
  from assms Some obtain info auth' out creds callID where
    v: "VerifyDigestRequest (hc_uni cfg) (hc_hashes cfg) (he_auth env) passwd (proxy_params meth (hs_maxFailed s)) req info auth
      = (Ok (auth', out, Some creds) :: (unit, _) go)" and
    s': "s' = (fold (respond tx) out s)\<lparr>hs_proxy := Some (passwd, auth'\<lparr>as_attempts := Attempts_Reset (as_attempts auth') (AuthAttemptKey info callID)\<rparr>)\<rparr>"
    by (auto simp: requireProxyAuth_def pa and_then_eq_Ok Let_def split: option.splits)
  from v have "out = []" by (cases rule: VerifyDigestRequest_cases) simp_all
  then show thesis using s' by (intro that) simp
qed

text \<open>
  C3.  A BYE for a bridged call that passes the proxy's check, from either leg and uninterrupted: the request is answered 100 and
  200 with the BYE for the other leg sent in between, both RTP sockets are closed, both sessions and the call are gone from their tables, the bridge no longer runs, and a
  trunk has its channel back.
\<close>

theorem bye_ends_call:
  assumes "store_ok (hs_store s)" and "requireProxyAuth cfg env req tx ''BYE'' (respond tx (NewResponse req 100 ''Trying'') s) = (Ok (True, s1) :: (unit, _) go)"
    and "SIPHeaders_GetFirst (msg_Headers req) ''Call-ID'' = (Ok callID :: (unit, _) go)" and "Store_Get callID (hs_store s) = Some call"
    and "fmlookup (hs_sessions s) (ca_AliceSess call) = Some sa" and "fmlookup (hs_sessions s) (ca_BobSess call) = Some sb"
    and "fmlookup (tm_txs (hs_tm s)) tx = Some (NIST t)" and "nt_state t \<noteq> NISTTerminated"
  shows "\<exists>s' ok. HandleBye cfg env req tx s = (Ok s' :: (unit, _) go) \<and> call_released callID call sa sb s s' \<and> SIPMessage_StatusCode ok = 200 \<and>
     tm_sent (hs_tm s') = tm_sent (hs_tm s) @ [(nt_transport t, nt_target t, NewResponse req 100 ''Trying''),
       (fst (other_leg callID call), snd (other_leg callID call), other_leg_bye cfg env callID call), (nt_transport t, nt_target t, ok)]"
proof -
  let ?s = "respond tx (NewResponse req 100 ''Trying'') s"
  obtain p where p: "s1 = ?s\<lparr>hs_proxy := p\<rparr>" using requireProxyAuth_passed [OF assms(2)] .
  define s2 where "s2 = bye_call cfg env callID call s1"
  define ok where "ok = (NewResponse req 200 ''OK'')\<lparr>msg_Headers := fmupd ''Allow'' [hc_Allow cfg] (msg_Headers (NewResponse req 200 ''OK''))\<rparr>"
  have sc: "SIPMessage_StatusCode ok = 200" by (simp add: ok_def)
  have run: "HandleBye cfg env req tx s = (Ok (respond tx ok s2) :: (unit, _) go)"
    using assms(2-4) by (simp add: HandleBye_def bye_begin_def bye_finish_def Let_def s2_def ok_def p)
  have s1: "store_ok (hs_store s1)" "Store_Get callID (hs_store s1) = Some call" "fmlookup (hs_sessions s1) (ca_AliceSess call) = Some sa"
    "fmlookup (hs_sessions s1) (ca_BobSess call) = Some sb" using assms(1,4-6) by (simp_all add: p)
  note f = bye_call_facts [OF s1, of cfg env, folded s2_def]
  have sent: "tm_sent (hs_tm s1) = tm_sent (hs_tm s) @ [(nt_transport t, nt_target t, NewResponse req 100 ''Trying'')]"
    using respond_provisional_nist(1) [OF assms(7,8), of "NewResponse req 100 ''Trying''"] by (simp add: p)
  obtain t' where t': "fmlookup (tm_txs (hs_tm s1)) tx = Some (NIST t')" "nt_state t' \<noteq> NISTTerminated" "nt_transport t' = nt_transport t" "nt_target t' = nt_target t"
    using respond_provisional_nist(2) [OF assms(7,8), of "NewResponse req 100 ''Trying''"] by (auto simp: p)
  have "tm_sent (hs_tm (respond tx ok s2)) = tm_sent (hs_tm s2) @ [(nt_transport t, nt_target t, ok)]"
    using respond_final_nist [of s2 tx t' ok] t' f(3) sc by simp
  with run f(1,2) sent sc show ?thesis
    by (intro exI [of _ "respond tx ok s2"] exI [of _ ok]) (simp add: call_released_respond call_released_def p)
qed


section \<open>What an INVITE leaves behind\<close>

text \<open>Sockets and loops are numbered upwards.\<close>

definition ids_fresh :: "handler_state \<Rightarrow> bool" where
  "ids_fresh s \<longleftrightarrow> (\<forall>c. c |\<in>| hs_rtp s \<longrightarrow> c < hs_next s) \<and> (\<forall>i. fmlookup (hs_loops s) i \<noteq> None \<longrightarrow> i < hs_next s)"

text \<open>Tables that an INVITE has no business with.\<close>

definition kept :: "handler_state \<Rightarrow> handler_state \<Rightarrow> bool" where
  "kept s s' \<longleftrightarrow> hs_reg s' = hs_reg s \<and> hs_prack s' = hs_prack s \<and> hs_timers s' = hs_timers s \<and>
     st_calls (hs_store s') = st_calls (hs_store s) \<and> st_bobToAlice (hs_store s') = st_bobToAlice (hs_store s)"

definition left_nothing :: "handler_state \<Rightarrow> handler_state \<Rightarrow> bool" where
  "left_nothing s s' \<longleftrightarrow> kept s s' \<and> hs_rtp s' = hs_rtp s \<and> hs_loops s' = hs_loops s \<and> hs_sm s' = hs_sm s \<and>
     hs_sessions s' = hs_sessions s \<and> hs_tasks s' = hs_tasks s \<and> st_early (hs_store s') = st_early (hs_store s) \<and> hs_uac s' = hs_uac s \<and>
     (\<forall>n. held_channels n (hs_trunks s') = held_channels n (hs_trunks s))"

definition left_call :: "handler_state \<Rightarrow> handler_state \<Rightarrow> bool" where
  "left_call s s' \<longleftrightarrow> kept s s' \<and> (\<exists>i lp e ut. fmlookup (hs_loops s) i = None \<and> hs_loops s' = fmupd i lp (hs_loops s) \<and>
     cc_rtpConnA (lp_cc lp) |\<notin>| hs_rtp s \<and> cc_rtpConnB (lp_cc lp) |\<notin>| hs_rtp s \<and> cc_rtpConnA (lp_cc lp) \<noteq> cc_rtpConnB (lp_cc lp) \<and>
     hs_rtp s' = finsert (cc_rtpConnA (lp_cc lp)) (finsert (cc_rtpConnB (lp_cc lp)) (hs_rtp s)) \<and>
     hs_sm s' = hs_sm s \<and> hs_sessions s' = hs_sessions s \<and> hs_tasks s' = hs_tasks s \<and>
     st_early (hs_store s') = fmupd (cc_callID (lp_cc lp)) e (st_early (hs_store s)) \<and> ec_loop e = i \<and>
     um_txs (hs_uac s') = fmupd (cc_uac (lp_cc lp)) ut (um_txs (hs_uac s)) \<and> um_effects (hs_uac s') = um_effects (hs_uac s) \<and>
     (\<forall>n. held_channels n (hs_trunks s') = held_channels n (hs_trunks s) + (if on_trunk n (lp_leg lp) then 1 else 0)))"

definition left_session :: "handler_state \<Rightarrow> handler_state \<Rightarrow> bool" where
  "left_session s s' \<longleftrightarrow> kept s s' \<and> (\<exists>i se. hs_sessions s' = fmupd i se (hs_sessions s) \<and> hs_sm s' = fmupd (se_Key se) i (hs_sm s) \<and>
     se_RTPConn se |\<notin>| hs_rtp s \<and> hs_rtp s' = finsert (se_RTPConn se) (hs_rtp s) \<and> hs_loops s' = hs_loops s \<and>
     hs_tasks s' \<in> {hs_tasks s, EchoTask i # hs_tasks s, PlayTask i # hs_tasks s} \<and>
     st_early (hs_store s') = st_early (hs_store s) \<and> hs_uac s' = hs_uac s \<and>
     (\<forall>n. held_channels n (hs_trunks s') = held_channels n (hs_trunks s)))"

text \<open>The pool of TCP connections: unchanged, or with one connection registered that was dialled for the callee.\<close>

definition flow_dialled :: "handler_state \<Rightarrow> handler_state \<Rightarrow> bool" where
  "flow_dialled s s' \<longleftrightarrow> hs_pool s' = hs_pool s \<or> (\<exists>now conn. hs_pool s' = fst (FlowPool_Register (hs_pool s) now conn))"

definition invite_outcome :: "handler_state \<Rightarrow> handler_state \<Rightarrow> bool" where
  "invite_outcome s s' \<longleftrightarrow> left_nothing s s' \<or> left_call s s' \<or> left_session s s'"

text \<open>The part of the state these are about.\<close>

definition others where
  "others s = (hs_store s, hs_uac s, hs_sessions s, hs_tasks s, hs_reg s, hs_prack s, hs_timers s)"

definition rview where
  "rview s = (hs_rtp s, hs_loops s, hs_sm s, hs_trunks s, hs_next s, others s)"

lemma rview_cong:
  assumes "rview s1 = rview s"
  shows "invite_outcome s1 s' = invite_outcome s s'" "ids_fresh s1 = ids_fresh s" "hs_trunks s1 = hs_trunks s"
  using assms by (simp_all add: rview_def invite_outcome_def left_nothing_def left_call_def left_session_def ids_fresh_def kept_def others_def)

lemma rview_simps [simp]:
  "rview (respond tx r s) = rview s" "rview (s\<lparr>hs_proxy := p\<rparr>) = rview s" "rview (s\<lparr>hs_pool := q\<rparr>) = rview s"
  by (simp_all add: rview_def others_def)

lemma rview_fold_respond [simp]: "rview (fold (respond tx) out s) = rview s"
  by (induction out arbitrary: s) simp_all

lemma rview_HandleOutbound: "HandleOutbound now conn s = (c, s') \<Longrightarrow> rview s' = rview s"
  by (auto simp: HandleOutbound_def)

lemma rview_select_binding: "ok_all (\<lambda>(r, s'). rview s' = rview s) (select_binding cfg env bs s)"
  by (induction bs arbitrary: s)
    (auto intro!: ok_all_and_then simp: Let_def split: option.split prod.split bool.split dest: rview_HandleOutbound)

lemma new_uac_adds:
  assumes "new_uac env k meth tr target s = (u, b, s')"
  obtains um ut where "s' = s\<lparr>hs_uac := um\<rparr>" "um_txs um = fmupd u ut (um_txs (hs_uac s))" "um_effects um = um_effects (hs_uac s)"
  using assms by (auto simp: new_uac_def NewTransaction_def UACManager_Register_def Let_def)

lemma rview_trunk_transport: "trunk_transport env trk t tr s = (k, t', s') \<Longrightarrow> rview s' = rview s"
  by (auto simp: trunk_transport_def Let_def split: if_splits option.splits prod.splits dest: rview_HandleOutbound)

lemma rview_requireProxyAuth: "ok_all (\<lambda>(b, s'). rview s' = rview s) (requireProxyAuth cfg env req tx meth s)"
  unfolding requireProxyAuth_def by (auto intro!: ok_all_and_then simp: Let_def split: option.split)

text \<open>
  With a password store a BYE has to carry credentials like an INVITE, which the called leg and a trunk do not have: it is
  challenged, and the call with everything it holds stays.
\<close>

lemma bye_challenged_keeps_call:
  assumes "SIPHeaders_GetFirst (msg_Headers req) ''Call-ID'' = (Ok callID :: (unit, _) go)"
    and "requireProxyAuth cfg env req tx ''BYE'' (respond tx (NewResponse req 100 ''Trying'') s) = (Ok (False, s1) :: (unit, _) go)"
  shows "HandleBye cfg env req tx s = (Ok s1 :: (unit, _) go) \<and> rview s1 = rview s"
  using assms ok_allD [OF rview_requireProxyAuth assms(2)] by (simp add: HandleBye_def bye_begin_def Let_def)

lemma left_nothing_same: "rview s' = rview s \<Longrightarrow> left_nothing s s'"
  by (simp add: rview_def others_def left_nothing_def kept_def)

text \<open>A socket opened and closed again leaves the sockets as they were.\<close>

lemma open_rtp_cases:
  assumes "open_rtp cfg env k s = (r, s')"
  shows "r = None \<Longrightarrow> s' = s"
    and "r = Some (a, p) \<Longrightarrow> a = hs_next s \<and> rview s' = (finsert a (hs_rtp s), hs_loops s, hs_sm s, hs_trunks s, Suc a, others s)"
  using assms by (auto simp: open_rtp_def rview_def others_def split: option.splits)

lemma rview_close: "rview s = (R, L, M, T, n, O1) \<Longrightarrow> rview (close_rtp a s) = (R |-| {|a|}, L, M, T, n, O1)"
  by (simp add: rview_def others_def close_rtp_def)

lemma setup_media_view:
  assumes "ids_fresh s"
  shows "ok_all (\<lambda>(r, s'). case r of
     SetupFailed sc reason \<Rightarrow> left_nothing s s' \<and> hs_trunks s' = hs_trunks s
   | SetupDone a b p off pt bb ab \<Rightarrow> a |\<notin>| hs_rtp s \<and> b |\<notin>| hs_rtp s \<and> a \<noteq> b \<and>
       (\<exists>n \<ge> hs_next s. rview s' = (finsert a (finsert b (hs_rtp s)), hs_loops s, hs_sm s, hs_trunks s, n, others s))) (setup_media cfg env req ip s)"
proof -
  obtain r0 s0 where o0: "open_rtp cfg env 0 s = (r0, s0)" by fastforce
  obtain r1 s1 where o1: "open_rtp cfg env (Suc 0) s0 = (r1, s1)" by fastforce
  have fresh: "hs_next s |\<notin>| hs_rtp s" "Suc (hs_next s) |\<notin>| hs_rtp s" using assms by (auto simp: ids_fresh_def)
  show ?thesis
  proof (cases r0)
    case None
    then show ?thesis using open_rtp_cases(1) [OF o0] by (simp add: setup_media_def o0 left_nothing_def kept_def)
  next
    case (Some q)
    then obtain a p where r0: "r0 = Some (a, p)" by (cases q) auto
    note v0 = open_rtp_cases(2) [OF o0 r0]
    show ?thesis
    proof (cases r1)
      case None
      then show ?thesis using open_rtp_cases(1) [OF o1] v0 fresh
        by (simp add: setup_media_def o0 r0 o1 left_nothing_def kept_def close_rtp_def rview_def others_def)
    next
      case (Some q')
      then obtain b p' where r1: "r1 = Some (b, p')" by (cases q') auto
      have v1: "a = hs_next s" "b = Suc (hs_next s)" "rview s1 = (finsert b (finsert a (hs_rtp s)), hs_loops s, hs_sm s, hs_trunks s, Suc b, others s)"
        using open_rtp_cases(2) [OF o1 r1] v0 by (auto simp: rview_def)
      then have "left_nothing s (close_rtp b (close_rtp a s1)) \<and> hs_trunks s1 = hs_trunks s" using fresh
        by (auto simp: left_nothing_def kept_def close_rtp_def rview_def others_def)
      moreover have "\<exists>n\<ge>hs_next s. rview s1 = (finsert a (finsert b (hs_rtp s)), hs_loops s, hs_sm s, hs_trunks s, n, others s)"
        using v1 by (intro exI [of _ "Suc b"]) auto
      ultimately show ?thesis using v1 fresh
        by (simp add: setup_media_def o0 r0 o1 r1) (auto intro!: ok_all_and_then split: option.split simp: close_rtp_def)
    qed
  qed
qed

text \<open>The loop that a call starts with.\<close>

lemma start_loop_left:
  assumes "ids_fresh s" and "rview s' = (finsert a (finsert b (hs_rtp s)), hs_loops s, hs_sm s, T, n, others s)" and "hs_next s \<le> n"
    and "a |\<notin>| hs_rtp s" "b |\<notin>| hs_rtp s" "a \<noteq> b" and "cc_rtpConnA cc = a" "cc_rtpConnB cc = b"
    and "\<And>k. held_channels k T = held_channels k (hs_trunks s) + (if on_trunk k lg then 1 else 0)"
    and "new_uac env k meth tr target s' = (cc_uac cc, br, s2)"
  shows "left_call s (start_loop cc lg invite s2)"
proof -
  obtain um ut where u: "s2 = s'\<lparr>hs_uac := um\<rparr>" "um_txs um = fmupd (cc_uac cc) ut (um_txs (hs_uac s'))" "um_effects um = um_effects (hs_uac s')"
    using new_uac_adds [OF assms(10)] .
  let ?lp = "\<lparr>lp_cc = cc, lp_leg = lg, lp_invite = invite, lp_started = False, lp_cancelled = False, lp_prackDone = False\<rparr>"
  show ?thesis unfolding left_call_def
  proof (intro conjI exI [of _ n] exI [of _ ?lp] exI [of _ ut] exI)
    show "fmlookup (hs_loops s) n = None" using assms(1,3) by (auto simp: ids_fresh_def)
  qed (use assms(2-9) u in \<open>auto simp: start_loop_def Let_def rview_def others_def StoreEarly_def kept_def\<close>)
qed

lemma left_nothing_respond [simp]: "left_nothing s (respond tx r s') = left_nothing s s'"
  by (simp add: left_nothing_def kept_def)

lemma outcome_refused: "left_nothing s s' \<Longrightarrow> invite_outcome s (respond tx r s')"
  by (simp add: invite_outcome_def)

lemma outcome_loop:
  assumes "new_uac env k meth tr target s1 = (cc_uac cc, br, s2)"
    and "rview s1 = (finsert a (finsert b (hs_rtp s)), hs_loops s, hs_sm s, T, n, others s)" and "ids_fresh s" and "hs_next s \<le> n"
    and "a |\<notin>| hs_rtp s" "b |\<notin>| hs_rtp s" "a \<noteq> b" and "cc_rtpConnA cc = a" "cc_rtpConnB cc = b"
    and "\<And>k. held_channels k T = held_channels k (hs_trunks s) + (if on_trunk k lg then 1 else 0)"
  shows "invite_outcome s (start_loop cc lg invite s2)"
  unfolding invite_outcome_def using start_loop_left [OF assms(3,2,4-10,1)] by simp

lemma bob_call_left:
  assumes "ids_fresh s"
  shows "ok_all (invite_outcome s) (bob_call cfg env req tx to_addr from_addr b t tr rel s)"
proof -
  have new: "invite_outcome s (start_loop cc (BobLeg u r) i s2)"
    if "new_uac env k meth tr' t' s1 = (cc_uac cc, br, s2)" "cc_rtpConnA cc |\<notin>| hs_rtp s" "cc_rtpConnB cc |\<notin>| hs_rtp s" "cc_rtpConnA cc \<noteq> cc_rtpConnB cc"
      "\<exists>n\<ge>hs_next s. rview s1 = (finsert (cc_rtpConnA cc) (finsert (cc_rtpConnB cc) (hs_rtp s)), hs_loops s, hs_sm s, hs_trunks s, n, others s)"
    for s1 s2 cc u r i k meth tr' t' br
    using that(2-5) by (auto intro!: outcome_loop [OF that(1) _ assms])
  show ?thesis
    unfolding bob_call_def Let_def
    by (auto intro!: ok_all_and_then ok_all_bind [OF setup_media_view [OF assms]] outcome_refused new split: media_setup.split prod.split)
qed

lemma held_acquire:
  assumes "AcquireChannel n m = (m', True)"
  shows "held_channels k (Some m') = held_channels k (Some m) + (if k = n then 1 else 0)"
    and "0 \<le> held_channels n (Some m) \<Longrightarrow> held_channels k (Some (ReleaseChannel n m')) = held_channels k (Some m)"
  using Acquire_cases(2) [OF assms] by (auto simp: held_channels_def ActiveCalls_Release)

lemma give_up_left:
  assumes "ids_fresh s" and "rview s1 = (finsert a (finsert b (hs_rtp s)), hs_loops s, hs_sm s, Some m', k, others s)"
    and "hs_trunks s = Some m" and "AcquireChannel n m = (m', True)" and "0 \<le> held_channels n (Some m)"
    and "a |\<notin>| hs_rtp s" "b |\<notin>| hs_rtp s"
  shows "left_nothing s (give_up_trunk n a b s1)"
  using assms held_acquire(2) [OF assms(4,5)]
  by (auto simp: left_nothing_def kept_def give_up_trunk_def release_channel_def close_rtp_def rview_def others_def)

lemma trunk_call_left:
  assumes "ids_fresh s" and s1: "rview s1 = (finsert a (finsert b (hs_rtp s)), hs_loops s, hs_sm s, Some m', k, others s)" and "hs_next s \<le> k"
    and m: "hs_trunks s = Some m" "AcquireChannel (trk_Name trk) m = (m', True)" "0 \<le> held_channels (trk_Name trk) (Some m)"
    and ab: "a |\<notin>| hs_rtp s" "b |\<notin>| hs_rtp s" "a \<noteq> b"
  shows "ok_all (invite_outcome s) (trunk_call cfg env req tx trk dest to_addr ip a b off pt bb aab s1)"
proof -
  have new: "invite_outcome s (start_loop cc (TrunkLeg (trk_Name trk) u e) i s3)"
    if "new_uac env n meth tr t s2 = (cc_uac cc, br, s3)" "trunk_transport env trk t' tr' s1 = (kk, tt, s2)" "cc_rtpConnA cc = a" "cc_rtpConnB cc = b"
    for s2 s3 cc u e i n meth tr t t' tr' br kk tt
    using rview_trunk_transport [OF that(2)] s1 assms(1,3) ab that(3,4)
    by (intro outcome_loop [OF that(1), of a b s "Some m'" k]) (auto simp: m held_acquire(1) [OF m(2)])
  show ?thesis
    unfolding trunk_call_def Let_def
    by (auto intro!: ok_all_and_then outcome_refused give_up_left [OF assms(1) s1 m ab(1,2)] new split: go.split option.split prod.split)
qed


lemma handleTrunkInvite_left:
  assumes "ids_fresh s" and nn: "\<And>n. 0 \<le> held_channels n (hs_trunks s)"
  shows "ok_all (invite_outcome s) (handleTrunkInvite cfg env req tx trk dest to_addr s)"
proof (cases "hs_trunks s")
  case None
  then show ?thesis by (simp add: handleTrunkInvite_def)
next
  case (Some m)
  obtain m' b where a: "AcquireChannel (trk_Name trk) m = (m', b)" by fastforce
  show ?thesis
  proof (cases b)
    case False
    then show ?thesis using Some a Acquire_cases(1) [OF a] by (simp add: handleTrunkInvite_def outcome_refused left_nothing_def kept_def)
  next
    case True
    then have acq: "AcquireChannel (trk_Name trk) m = (m', True)" using a by simp
    let ?s = "s\<lparr>hs_trunks := Some m'\<rparr>"
    have f: "ids_fresh ?s" and o: "others ?s = others s" using assms(1) by (simp_all add: ids_fresh_def others_def)
    have nn': "0 \<le> held_channels (trk_Name trk) (Some m)" using nn Some by metis
    have failed: "left_nothing s (release_channel (trk_Name trk) s1)" if "left_nothing ?s s1" "hs_trunks s1 = Some m'" for s1
      using that held_acquire(2) [OF acq nn'] Some by (simp add: left_nothing_def kept_def release_channel_def)
    show ?thesis
      by (auto simp: handleTrunkInvite_def Some acq Let_def o intro!: ok_all_bind [OF setup_media_view [OF f]] outcome_refused failed
          intro: trunk_call_left [OF assms(1) _ _ Some acq nn'] split: media_setup.splits)
  qed
qed

lemma call_user_left:
  assumes "ids_fresh s"
  shows "ok_all (invite_outcome s) (call_user cfg env req tx to_addr s)"
proof -
  have b: "ok_all (invite_outcome s) (bob_call cfg env req tx to_addr fa b t tr rel s1)" if "rview s1 = rview s" for fa b t tr rel s1
    using bob_call_left [of s1 cfg env req tx to_addr fa b t tr rel] assms rview_cong(1,2) [OF that] by (simp add: ok_all_def)
  show ?thesis
    unfolding call_user_def Let_def selectBinding_def
    by (auto intro!: ok_all_bind [OF rview_select_binding] b outcome_refused left_nothing_same split: option.split go.split)
qed

lemma add_session_tasks [simp]: "hs_tasks (add_session i se s) = hs_tasks s"
  by (simp add: add_session_def)

lemma add_session_left:
  assumes "ids_fresh s" and "open_rtp cfg env k s = (Some (c, port), s1)" and "se_RTPConn se = c"
  shows "invite_outcome s (respond tx r (add_session i se (s1\<lparr>hs_next := n\<rparr>)))"
    and "task \<in> {EchoTask, PlayTask} \<Longrightarrow> invite_outcome s ((respond tx r (add_session i se (s1\<lparr>hs_next := n\<rparr>)))\<lparr>hs_tasks := task i # hs_tasks s1\<rparr>)"
proof -
  note v = open_rtp_cases(2) [OF assms(2) refl]
  have "c |\<notin>| hs_rtp s" using v assms(1) by (auto simp: ids_fresh_def)
  then have "left_session s (respond tx r (add_session i se (s1\<lparr>hs_next := n\<rparr>)))"
    unfolding left_session_def using v assms(3)
    by (auto simp: add_session_def SessionManager_Add_def rview_def others_def kept_def intro!: exI [of _ i] exI [of _ se])
  then show "invite_outcome s (respond tx r (add_session i se (s1\<lparr>hs_next := n\<rparr>)))" by (simp add: invite_outcome_def)
  assume "task \<in> {EchoTask, PlayTask}"
  then have "left_session s ((respond tx r (add_session i se (s1\<lparr>hs_next := n\<rparr>)))\<lparr>hs_tasks := task i # hs_tasks s1\<rparr>)"
    unfolding left_session_def using v assms(3) \<open>c |\<notin>| hs_rtp s\<close>
    by (auto simp: add_session_def SessionManager_Add_def rview_def others_def kept_def intro!: exI [of _ i] exI [of _ se])
  then show "invite_outcome s ((respond tx r (add_session i se (s1\<lparr>hs_next := n\<rparr>)))\<lparr>hs_tasks := task i # hs_tasks s1\<rparr>)"
    by (simp add: invite_outcome_def)
qed

lemma open_close_left:
  assumes "ids_fresh s" and "open_rtp cfg env k s = (Some (c, port), s1)"
  shows "left_nothing s (close_rtp c s1)" "left_nothing s (close_rtp c (s1\<lparr>hs_next := n\<rparr>))"
  using open_rtp_cases(2) [OF assms(2) refl] assms(1) by (auto simp: left_nothing_def kept_def close_rtp_def rview_def others_def ids_fresh_def)

lemma answer_service_left:
  assumes "ids_fresh s" and prep: "\<And>fa se. se_RTPConn (prep fa se) = se_RTPConn se" and task: "task \<in> {EchoTask, PlayTask}"
  shows "ok_all (invite_outcome s) (answer_service cfg env req tx off prep task s)"
proof (cases "open_rtp cfg env 0 s")
  case (Pair r s1)
  show ?thesis
  proof (cases r)
    case None
    then show ?thesis using Pair open_rtp_cases(1) [OF Pair] by (simp add: answer_service_def Let_def outcome_refused left_nothing_def kept_def)
  next
    case (Some q)
    then obtain c port where o: "open_rtp cfg env 0 s = (Some (c, port), s1)" using Pair by (cases q) auto
    show ?thesis
      unfolding answer_service_def Let_def
      by (auto intro!: ok_all_and_then outcome_refused open_close_left [OF assms(1) o] add_session_left(1) [OF assms(1) o] add_session_left(2) [OF assms(1) o _ task] simp: o prep
          Session_SetState_def Session_SetRemoteAddr_def NewSession_def split: option.split go.split)
  qed
qed

lemma rview_outcome:
  assumes "ok_all (invite_outcome s1) r" and "rview s1 = rview s"
  shows "ok_all (invite_outcome s) r"
  using assms rview_cong(1) [OF assms(2)] by (simp add: ok_all_def)

lemma service_left:
  assumes "ids_fresh s"
  shows "ok_all (invite_outcome s) (handleEchoInvite cfg env req tx s)" "ok_all (invite_outcome s) (handleFileInvite cfg env req tx path s)"
  unfolding handleEchoInvite_def handleFileInvite_def
  by (auto intro!: ok_all_and_then answer_service_left [OF assms] outcome_refused left_nothing_same split: option.split go.split)

lemma handleB2BUAInvite_left:
  assumes "ids_fresh s" and "\<And>n. 0 \<le> held_channels n (hs_trunks s)"
  shows "ok_all (invite_outcome s) (handleB2BUAInvite cfg env req tx s)"
  unfolding handleB2BUAInvite_def
  by (auto intro!: ok_all_and_then handleTrunkInvite_left [OF assms] call_user_left [OF assms(1)] outcome_refused left_nothing_same split: option.split go.split)

lemma HandleInvite_left:
  assumes "ids_fresh s" and "\<And>n. 0 \<le> held_channels n (hs_trunks s)"
  shows "ok_all (invite_outcome s) (HandleInvite cfg env req tx s)"
proof -
  let ?s = "respond tx (NewResponse req 100 ''Trying'') s"
  have auth: "ok_all (\<lambda>(b, s'). rview s' = rview s) (if from_trusted_trunk cfg info ?s then Ok (True, ?s) else requireProxyAuth cfg env req tx ''INVITE'' ?s)" for info
    by (auto intro!: ok_all_mono [OF rview_requireProxyAuth])
  have go: "ok_all (invite_outcome s) (handleEchoInvite cfg env req tx s1)" "ok_all (invite_outcome s) (handleFileInvite cfg env req tx path s1)"
    "ok_all (invite_outcome s) (handleB2BUAInvite cfg env req tx s1)" if "rview s1 = rview s" for s1 path
    using assms rview_cong(2,3) [OF that] that
    by (auto intro!: rview_outcome [OF service_left(1)] rview_outcome [OF service_left(2)] rview_outcome [OF handleB2BUAInvite_left])
  have stop: "rview s1 = rview s \<Longrightarrow> invite_outcome s s1" for s1 by (simp add: invite_outcome_def left_nothing_same)
  show ?thesis
    unfolding HandleInvite_def Let_def
    by (auto intro!: ok_all_and_then ok_all_bind [OF auth] go stop split: option.split Action.split prod.split)
qed

text \<open>The only connection an INVITE can leave in the pool is the one dialled for its callee.\<close>

abbreviation same_pool :: "handler_state \<Rightarrow> handler_state \<Rightarrow> bool" where
  "same_pool s s' \<equiv> hs_pool s' = hs_pool s"

lemma pool_small [simp]:
  "hs_pool (close_rtp i s) = hs_pool s" "hs_pool (release_channel n s) = hs_pool s" "hs_pool (add_session i se s) = hs_pool s"
  "hs_pool (start_loop cc lg invite s) = hs_pool s" "hs_pool (give_up_trunk n a b s) = hs_pool s"
  by (simp_all add: close_rtp_def release_channel_def add_session_def start_loop_def give_up_trunk_def Let_def)

lemma pool_fold_respond [simp]: "hs_pool (fold (respond tx) out s) = hs_pool s"
  by (induction out arbitrary: s) simp_all

lemma pool_open_rtp: "open_rtp cfg env k s = (r, s') \<Longrightarrow> same_pool s s'"
  by (auto simp: open_rtp_def split: option.splits)

lemma pool_new_uac: "new_uac env k meth tr target s = (u, b, s') \<Longrightarrow> same_pool s s'"
  by (auto simp: new_uac_def Let_def split: prod.splits)

lemma pool_requireProxyAuth: "ok_all (\<lambda>(b, s'). same_pool s s') (requireProxyAuth cfg env req tx meth s)"
  unfolding requireProxyAuth_def by (auto intro!: ok_all_and_then simp: Let_def split: option.split)

lemma pool_answer_service: "ok_all (same_pool s) (answer_service cfg env req tx off prep task s)"
  unfolding answer_service_def Let_def
  by (auto intro!: ok_all_and_then split: option.split prod.split go.split dest!: pool_open_rtp)

lemma pool_setup_media: "ok_all (\<lambda>(r, s'). same_pool s s') (setup_media cfg env req ip s)"
  unfolding setup_media_def by (auto intro!: ok_all_and_then split: option.split prod.split dest!: pool_open_rtp)

lemma flow_HandleOutbound: "HandleOutbound now conn s = (c, s') \<Longrightarrow> flow_dialled s s'"
proof -
  assume "HandleOutbound now conn s = (c, s')"
  then have "hs_pool s' = fst (FlowPool_Register (hs_pool s) now conn)" by (auto simp: HandleOutbound_def)
  then show "flow_dialled s s'" unfolding flow_dialled_def by blast
qed

lemma flow_same: "same_pool s s' \<Longrightarrow> flow_dialled s s'"
  by (simp add: flow_dialled_def)

lemma flow_simps [simp]:
  "flow_dialled s s" "flow_dialled s (respond tx r s') = flow_dialled s s'" "flow_dialled s (give_up_trunk n a b s') = flow_dialled s s'"
  "flow_dialled s (release_channel n s') = flow_dialled s s'" "flow_dialled s (start_loop cc lg invite s') = flow_dialled s s'"
  by (simp_all add: flow_dialled_def)

lemma flow_select_binding: "ok_all (\<lambda>(r, s'). flow_dialled s s') (select_binding cfg env bs s)"
  by (induction bs arbitrary: s)
    (auto intro!: ok_all_and_then simp: Let_def split: option.split prod.split bool.split dest: flow_HandleOutbound)

lemma flow_trunk_transport: "trunk_transport env trk t tr s = (k, t', s') \<Longrightarrow> flow_dialled s s'"
  by (auto simp: trunk_transport_def Let_def split: if_splits option.splits prod.splits dest: flow_HandleOutbound)

lemma flow_new_uac: "new_uac env k meth tr target s1 = (u, b, s') \<Longrightarrow> flow_dialled s s1 \<Longrightarrow> flow_dialled s s'"
  using pool_new_uac [of env k meth tr target s1 u b s'] by (simp add: flow_dialled_def)

lemma flow_trunk_call: "ok_all (flow_dialled s) (trunk_call cfg env req tx trk dest to_addr ip a b off pt bb ab s)"
  unfolding trunk_call_def Let_def
  by (auto intro!: ok_all_and_then elim!: flow_new_uac dest!: flow_trunk_transport split: go.split option.split prod.split)

lemma flow_handleTrunkInvite: "ok_all (flow_dialled s) (handleTrunkInvite cfg env req tx trk dest to_addr s)"
proof -
  have call: "ok_all (flow_dialled s) (trunk_call cfg env req tx trk dest to_addr ip a b off pt bb ab s1)" if "same_pool s s1" for ip a b off pt bb ab s1
    by (rule ok_all_mono [OF flow_trunk_call]) (use that in \<open>simp add: flow_dialled_def\<close>)
  show ?thesis
    unfolding handleTrunkInvite_def Let_def
    by (auto intro!: ok_all_bind [OF pool_setup_media] call flow_same split: option.split prod.split media_setup.split)
qed

lemma pool_bob_call: "ok_all (same_pool s) (bob_call cfg env req tx to_addr from_addr b t tr rel s)"
  unfolding bob_call_def Let_def
  by (auto intro!: ok_all_and_then ok_all_bind [OF pool_setup_media] split: media_setup.split prod.split dest!: pool_new_uac)

lemma flow_call_user: "ok_all (flow_dialled s) (call_user cfg env req tx to_addr s)"
proof -
  have bob: "ok_all (flow_dialled s) (bob_call cfg env req tx to_addr fa b t tr rel s1)" if "flow_dialled s s1" for fa b t tr rel s1
    by (rule ok_all_mono [OF pool_bob_call]) (use that in \<open>simp add: flow_dialled_def\<close>)
  show ?thesis
    unfolding call_user_def Let_def selectBinding_def
    by (auto intro!: ok_all_bind [OF flow_select_binding] bob split: option.split go.split)
qed

lemma flow_HandleInvite: "ok_all (flow_dialled s) (HandleInvite cfg env req tx s)"
proof -
  let ?s = "respond tx (NewResponse req 100 ''Trying'') s"
  have auth: "ok_all (\<lambda>(b, s'). same_pool s s') (if from_trusted_trunk cfg info ?s then Ok (True, ?s) else requireProxyAuth cfg env req tx ''INVITE'' ?s)" for info
    by (auto intro!: ok_all_mono [OF pool_requireProxyAuth])
  have same: "ok_all (flow_dialled s) r" if "ok_all (flow_dialled s1) r" "same_pool s s1" for r :: "('e, handler_state) go" and s1
    using that by (simp add: ok_all_def flow_dialled_def)
  have service: "ok_all (flow_dialled s1) (handleEchoInvite cfg env req tx s1 :: ('e, _) go)" "ok_all (flow_dialled s1) (handleFileInvite cfg env req tx path s1 :: ('e, _) go)" for s1 path
    unfolding handleEchoInvite_def handleFileInvite_def
    by (auto intro!: ok_all_and_then ok_all_mono [OF pool_answer_service] flow_same split: option.split go.split)
  have b2bua: "ok_all (flow_dialled s1) (handleB2BUAInvite cfg env req tx s1 :: ('e, _) go)" for s1
    unfolding handleB2BUAInvite_def
    by (auto intro!: ok_all_and_then flow_handleTrunkInvite flow_call_user flow_same split: option.split go.split)
  show ?thesis
    unfolding HandleInvite_def Let_def
    by (auto intro!: ok_all_and_then ok_all_bind [OF auth] same [OF service(1)] same [OF service(2)] same [OF b2bua] flow_same split: option.split Action.split prod.split)
qed

text \<open>
  C2.  What an INVITE leaves behind.  Whatever its outcome, refused at any point, taken by a local service or passed on, the
  registrations, established calls, reliable responses and session timers are as before, and the state has either the same
  sockets, sessions, media tasks, early calls, client transactions, response loops and trunk channels as before; or one new
  session with one new socket and at most one new media task; or one new response loop that owns two new sockets, one new client
  transaction, one entry in the table where CANCEL looks for it and, on a trunk, one more channel.  In the pool of TCP
  connections there is at most one more, dialled for the callee; it stays there also when the INVITE is then refused.
\<close>

theorem invite_no_leak:
  assumes "ids_fresh s" and "\<And>n. 0 \<le> held_channels n (hs_trunks s)" and "HandleInvite cfg env req tx s = (Ok s' :: (unit, _) go)"
  shows "(left_nothing s s' \<or> left_call s s' \<or> left_session s s') \<and> flow_dialled s s'"
  using ok_allD [OF HandleInvite_left [OF assms(1,2)] assms(3)] ok_allD [OF flow_HandleInvite assms(3)] by (simp add: invite_outcome_def)


section \<open>A handler with one trunk and one registered user\<close>

definition sample_world :: handler_config where
  "sample_world = \<lparr>hc_serverIP = ''s'', hc_serverPort = ''5060'', hc_natAddress = [], hc_rtpMin = 0, hc_rtpMax = 0, hc_dp = None, hc_Allow = ''INVITE'',
     hc_uni = no_unicode, hc_hashes = \<lparr>md5_Sum = (\<lambda>_. []), sha256_Sum256 = (\<lambda>_. []), sha512_Sum512_256 = (\<lambda>_. [])\<rparr>, hc_net = sample_net,
     hc_ParseIP = Some, hc_IsLoopback = (\<lambda>_. False)\<rparr>"

definition sample_he :: handler_env where
  "sample_he = \<lparr>he_auth = \<lparr>env_now = 0, env_rnd = []\<rparr>, he_rnd = (\<lambda>_. None), he_ssrc = of_nat, he_free = (\<lambda>_ _. False),
     he_assigned = (\<lambda>k. Some (4000 + int k)), he_dial = (\<lambda>_. None), he_resolve = (\<lambda>a. if a = ''h:5060'' then Some (UDPAddr ''h'' 5060) else None),
     he_sent = True, he_file = (\<lambda>_. None)\<rparr>"

definition sample_call_request :: "SIPMethod \<Rightarrow> string \<Rightarrow> string \<Rightarrow> SIPMessage" where
  "sample_call_request meth user body = (NewRequest meth ''sip:b'')\<lparr>msg_Headers := fmupd ''From'' [''<sip:a@h>'']
     (fmupd ''To'' [''<sip:'' @ user @ ''@h>''] (fmupd ''Call-ID'' [''a1''] (fmupd ''Contact'' [''<sip:a@c>''] (fmupd ''Content-Type'' [''application/sdp''] fmempty)))),
     msg_Body := body\<rparr>"

definition sample_registrar :: Registrar where
  "sample_registrar = \<lparr>reg_bindings = fmupd ''sip:b@h'' [\<lparr>bd_Expires = 9, bd_LastUpdate = 0, bd_ContactURI = ''sip:b@h:5060'', bd_CallID = ''r'',
       bd_FlowID = [], bd_SIPInstance = [], bd_CSeq = 1, bd_RegID = 0, bd_OB = False\<rparr>] fmempty,
     reg_lastCSeq = fmempty, reg_passwd = None, reg_auth = \<lparr>as_nonces = NewNonceManager 300000000000, as_attempts = NewAuthAttemptTracker 300000000000\<rparr>,
     reg_maxFailedAttempts = 3\<rparr>"

definition sample_handler :: "TrunkManager option \<Rightarrow> TransactionManager \<Rightarrow> handler_state" where
  "sample_handler T tm = (NewHandler sample_registrar False T)\<lparr>hs_tm := tm\<rparr>"

lemma world_keys: "canonicalHeaderKey ''From'' = ''From''" "canonicalHeaderKey ''To'' = ''To''" "canonicalHeaderKey ''Call-ID'' = ''Call-ID''"
  "canonicalHeaderKey ''Contact'' = ''Contact''" "canonicalHeaderKey ''Content-Type'' = ''Content-Type''"
  by code_simp+

lemma sample_address:
  "UnmarshalSIPAddress ''<sip:912@h>'' = Ok (zero_SIPAddress\<lparr>addr_URI := ''sip:912@h''\<rparr>)"
  "UnmarshalSIPAddress ''<sip:b@h>'' = Ok (zero_SIPAddress\<lparr>addr_URI := ''sip:b@h''\<rparr>)"
  "UnmarshalSIPAddress ''<sip:a@h>'' = Ok (zero_SIPAddress\<lparr>addr_URI := ''sip:a@h''\<rparr>)"
  by (simp_all add: UnmarshalSIPAddress_def TrimSpace_id graphic_def Let_def zero_SIPAddress_def slice_def SIPAddress_unmarshalParams_def)

lemma world_headers:
  "SIPHeaders_GetFirst (msg_Headers (sample_call_request meth user body)) ''Call-ID'' = (Ok ''a1'' :: ('e, _) go)"
  "SIPHeaders_GetFirst (msg_Headers (sample_call_request meth user body)) ''Content-Type'' = (Ok ''application/sdp'' :: ('e, _) go)"
  "SIPMessage_From (sample_call_request meth user body) = UnmarshalSIPAddress ''<sip:a@h>''"
  "SIPMessage_To (sample_call_request meth user body) = UnmarshalSIPAddress (''<sip:'' @ user @ ''@h>'')"
  "msg_Body (sample_call_request meth user body) = body"
  by (simp_all add: sample_call_request_def SIPHeaders_GetFirst_def SIPMessage_From_def SIPMessage_To_def world_keys index_def)

lemma sample_users: "ExtractUser ''sip:912@h'' = ''912''" "ExtractUser ''sip:b@h'' = ''b''" "NormalizeAOR ''sip:b@h'' = ''sip:b@h''"
  by code_simp+

lemma sample_ports: "Itoa 5060 = ''5060''" "Atoi ''5060'' = Some 5060" "JoinHostPort ''h'' ''5060'' = ''h:5060''" "SplitHostPort ''h:5060'' = Some (''h'', ''5060'')"
  by (simp add: Itoa_def nat_digits.simps digit_char_def char_of_def bit_0, code_simp+)

lemma sample_uris: "extractSIPURI no_unicode ''sip:b@h:5060'' = Ok (''h'', 5060, ''UDP'')" "extractSIPURI no_unicode ''sip:0012@h:5060'' = Ok (''h'', 5060, ''UDP'')"
  by (simp_all add: extractSIPURI_def no_unicode_def ToLower_def ascii_string_def lower_char_def HasPrefix_def slice_def sample_ports Let_def)

lemma sample_target:
  "TargetFromContact no_unicode dial (he_resolve sample_he) ''sip:b@h:5060'' = Ok (Some (\<lparr>tgt_Addr = Some (UDPAddr ''h'' 5060), tgt_Conn = None, tgt_FlowID = []\<rparr>, ''UDP''))"
  "TargetFromContact no_unicode dial (he_resolve sample_he) ''sip:0012@h:5060'' = Ok (Some (\<lparr>tgt_Addr = Some (UDPAddr ''h'' 5060), tgt_Conn = None, tgt_FlowID = []\<rparr>, ''UDP''))"
  by (simp_all add: TargetFromContact_def sample_uris sample_ports sample_he_def Let_def)

lemma sample_sockets: "NewRTPConnRange f (he_assigned sample_he k) (hc_rtpMin sample_world) (hc_rtpMax sample_world) = Some (4000 + int k)"
  by (simp add: sample_he_def sample_world_def NewRTPConnRange_def)

lemma sample_offer_read: "UnmarshalSDP (sdp_text sample_sdp) = Ok sample_sdp" "sdp_text sample_sdp \<noteq> []"
  by (rule UnmarshalSDP_text [OF sample_sdp_ok], simp add: sdp_text_def sdp_lines_def session_lines_def line_text_def)

lemma audio_sdp_body: "0 \<le> port \<Longrightarrow> sdp_body (audio_sdp nanos port pt ip) = (Ok (sdp_text (audio_sdp nanos port pt ip)) :: ('e, _) go)"
  by (simp add: sdp_body_def SDP_Marshal_text sdp_nonneg_def audio_sdp_def zero_SDP_def times_nonneg_def media_nonneg_def)

lemma setup_media_offer:
  assumes "NewRTPConnRange (he_free env 0) (he_assigned env 0) (hc_rtpMin cfg) (hc_rtpMax cfg) = Some p0"
    and "NewRTPConnRange (he_free env 1) (he_assigned env 1) (hc_rtpMin cfg) (hc_rtpMax cfg) = Some p1" and "0 \<le> p0" "0 \<le> p1"
    and "read_offer req = (Ok (Some (Some sdp)) :: ('e, _) go)"
  shows "\<exists>pt bb ab. (setup_media cfg env req ip s :: ('e, _) go) = Ok (SetupDone (hs_next s) (Suc (hs_next s)) p0 (Some sdp) pt bb ab,
     s\<lparr>hs_ports := fmupd (Suc (hs_next s)) p1 (fmupd (hs_next s) p0 (hs_ports s)), hs_rtp := finsert (Suc (hs_next s)) (finsert (hs_next s) (hs_rtp s)),
       hs_next := Suc (Suc (hs_next s))\<rparr>)"
  using assms by (simp add: setup_media_def open_rtp_def PickPayloadType_def BuildOffer_def BuildAnswer_def audio_sdp_body)

lemma sample_read_offer:
  "read_offer (sample_call_request meth user (sdp_text sample_sdp)) = (Ok (Some (Some sample_sdp)) :: ('e, _) go)"
  "read_offer (sample_call_request meth user []) = (Ok (Some None) :: ('e, _) go)"
  by (simp_all add: read_offer_def has_offer_def world_headers sample_offer_read)

definition sample_ringing :: "string \<Rightarrow> handler_state" where
  "sample_ringing user = (case HandleInvite sample_world sample_he (sample_call_request ''INVITE'' user (sdp_text sample_sdp)) 3
     (sample_handler (Some sample_manager) sample_rel_tm) :: (unit, _) go of Ok s \<Rightarrow> s | _ \<Rightarrow> sample_handler None sample_rel_tm)"

lemma sample_route_found: "MatchRoute sample_manager ''912'' = Ok (Some (sample_trunk, ''0012''))" "MatchRoute sample_manager ''b'' = Ok None"
  by (simp_all add: MatchRoute_def sample_manager_def sample_route_def HasPrefix_def applyDigitManipulation_def)

lemma tx_info_after_trying:
  assumes "fmlookup (tm_txs (hs_tm s)) tx = Some t"
  shows "tx_info_of (respond tx (NewResponse req 100 reason) s) tx = Ok \<lparr>tx_Target = tx_target t, tx_Transport = Some (tx_transport t)\<rparr>"
  using assms by (cases t) (simp_all add: tx_info_of_def respond_def Respond_def InviteTransaction_Respond_def NonInviteTransaction_Respond_def Let_def send_msg_def put_tx_def)

section \<open>INVITE for a trunk\<close>

text \<open>What is left of the handler once the checks in front of a call have passed.\<close>

lemma HandleInvite_no_auth:
  assumes "fmlookup (tm_txs (hs_tm s)) tx = Some t" and "hs_proxy s = None" and "hc_dp cfg = None"
  shows "HandleInvite cfg env req tx s = handleB2BUAInvite cfg env req tx (respond tx (NewResponse req 100 ''Trying'') s)"
  using assms by (simp add: HandleInvite_def Let_def tx_info_after_trying requireProxyAuth_def)

lemma sample_tx: "fmlookup (tm_txs (hs_tm (sample_handler T sample_rel_tm))) 3 = Some (new_server_tx (sample_req ''INVITE'') UDPTransport sample_branch False)"
  by (simp add: sample_handler_def sample_rel_tm_def put_tx_def)

lemma trunk_call_starts:
  assumes "SIPMessage_From req = Ok from_addr" and "SIPHeaders_GetFirst (msg_Headers req) ''Call-ID'' = (Ok callID :: ('e, _) go)"
    and "TargetFromContact (hc_uni cfg) (he_dial env) (he_resolve env) (''sip:'' @ dest @ ''@'' @ JoinHostPort (trk_Host trk) (Itoa (trk_Port trk)))
      = (Ok (Some (bt, btr)) :: ('e, _) go)"
  shows "\<exists>cc u e invite s2. (trunk_call cfg env req tx trk dest to_addr ip a b off pt bb ab s :: ('e, _) go)
    = Ok (start_loop cc (TrunkLeg (trk_Name trk) u e) invite s2) \<and> acct s2 = acct s \<and> hs_next s2 = hs_next s"
proof -
  obtain tr bt' s1 where t: "trunk_transport env trk bt btr s = (tr, bt', s1)" by (cases "trunk_transport env trk bt btr s") auto
  obtain u br s2 where u: "new_uac env 4 ''INVITE'' tr bt' s1 = (u, br, s2)" by (cases "new_uac env 4 ''INVITE'' tr bt' s1") auto
  have nx: "hs_next s2 = hs_next s1" by (rule new_uac_adds [OF u]) simp
  have v: "acct s2 = acct s" "hs_next s2 = hs_next s"
    using acct_trunk_transport [OF t] acct_new_uac [OF u] rview_trunk_transport [OF t] nx by (simp_all add: rview_def)
  show ?thesis
    unfolding trunk_call_def assms go.case and_then.simps option.case prod.case Let_def t u by (intro exI conjI, rule refl, fact v, fact v)
qed

lemma handleTrunkInvite_starts:
  assumes "hs_trunks s = Some m" and "AcquireChannel (trk_Name trk) m = (m', True)"
    and "\<And>k. NewRTPConnRange (he_free env k) (he_assigned env k) (hc_rtpMin cfg) (hc_rtpMax cfg) = Some (ports k)" "\<And>k. 0 \<le> ports k"
    and "read_offer req = (Ok (Some (Some sdp)) :: ('e, _) go)"
    and "SIPMessage_From req = Ok from_addr" and "SIPHeaders_GetFirst (msg_Headers req) ''Call-ID'' = (Ok callID :: ('e, _) go)"
    and "TargetFromContact (hc_uni cfg) (he_dial env) (he_resolve env) (''sip:'' @ dest @ ''@'' @ JoinHostPort (trk_Host trk) (Itoa (trk_Port trk)))
      = (Ok (Some (bt, btr)) :: ('e, _) go)"
  shows "\<exists>s' lp u e. (handleTrunkInvite cfg env req tx trk dest to_addr s :: ('e, _) go) = Ok s' \<and> lp_leg lp = TrunkLeg (trk_Name trk) u e \<and>
    acct s' = (fmupd (Suc (Suc (hs_next s))) lp (hs_loops s), st_calls (hs_store s), Some m')"
proof -
  define ip where "ip = (if trk_LocalIP trk = [] then hc_serverIP cfg else trk_LocalIP trk)"
  let ?s = "s\<lparr>hs_trunks := Some m'\<rparr>"
  obtain pt bb ab s1 where sm: "(setup_media cfg env req ip ?s :: ('e, _) go) = Ok (SetupDone (hs_next s) (Suc (hs_next s)) (ports 0) (Some sdp) pt bb ab, s1)"
    "acct s1 = acct ?s" "hs_next s1 = Suc (Suc (hs_next s))"
    using setup_media_offer [OF assms(3) assms(3) assms(4) assms(4) assms(5), of ip ?s] by (auto simp: acct_def)
  obtain cc u e invite s2 where c: "(trunk_call cfg env req tx trk dest to_addr ip (hs_next s) (Suc (hs_next s)) (Some sdp) pt bb ab s1 :: ('e, _) go)
      = Ok (start_loop cc (TrunkLeg (trk_Name trk) u e) invite s2)" "acct s2 = acct s1" "hs_next s2 = hs_next s1"
    using trunk_call_starts [OF assms(6-8)] by blast
  have "(handleTrunkInvite cfg env req tx trk dest to_addr s :: ('e, _) go) = Ok (start_loop cc (TrunkLeg (trk_Name trk) u e) invite s2)"
    unfolding handleTrunkInvite_def assms(1,2) option.case Let_def prod.case ip_def [symmetric] by (simp add: sm(1) c(1))
  moreover have v: "acct s2 = (hs_loops s, st_calls (hs_store s), Some m')" "hs_next s2 = Suc (Suc (hs_next s))"
    using c(2,3) sm(2,3) by (simp_all add: acct_def rview_def)
  ultimately show ?thesis
    using acct_start_loop [OF v(1)] v(2)
    by (intro exI [of _ "start_loop cc (TrunkLeg (trk_Name trk) u e) invite s2"] exI [of _ u] exI [of _ e]
      exI [of _ "\<lparr>lp_cc = cc, lp_leg = TrunkLeg (trk_Name trk) u e, lp_invite = invite, lp_started = False, lp_cancelled = False, lp_prackDone = False\<rparr>"]) simp
qed

lemma sample_trunk_invite:
  "\<exists>s' lp. HandleInvite sample_world sample_he (sample_call_request ''INVITE'' ''912'' (sdp_text sample_sdp)) 3
     (sample_handler (Some sample_manager) sample_rel_tm) = (Ok s' :: (unit, _) go) \<and>
     acct s' = (fmupd 2 lp fmempty, fmempty, Some (fst (AcquireChannel ''p'' sample_manager))) \<and> on_trunk ''p'' (lp_leg lp)"
proof -
  let ?req = "sample_call_request ''INVITE'' ''912'' (sdp_text sample_sdp)" and ?m = "fst (AcquireChannel ''p'' sample_manager)"
  define s1 where "s1 = respond 3 (NewResponse ?req 100 ''Trying'') (sample_handler (Some sample_manager) sample_rel_tm)"
  have s1: "hs_trunks s1 = Some sample_manager" "hs_next s1 = 0" "hs_loops s1 = fmempty" "st_calls (hs_store s1) = fmempty"
    by (simp_all add: s1_def sample_handler_def NewHandler_def NewStore_def)
  have acq: "AcquireChannel (trk_Name sample_trunk) sample_manager = (?m, True)"
    by (simp add: AcquireChannel_def sample_manager_def sample_trunk_def ActiveCalls_def)
  have trunk: "trk_Name sample_trunk = ''p''" "trk_Host sample_trunk = ''h''" "trk_Port sample_trunk = 5060"
    by (simp_all add: sample_trunk_def)
  have h: "HandleInvite sample_world sample_he ?req 3 (sample_handler (Some sample_manager) sample_rel_tm)
    = (handleTrunkInvite sample_world sample_he ?req 3 sample_trunk ''0012'' (zero_SIPAddress\<lparr>addr_URI := ''sip:912@h''\<rparr>) s1 :: (unit, _) go)"
    by (subst HandleInvite_no_auth [OF sample_tx])
      (simp_all add: sample_handler_def NewHandler_def sample_world_def handleB2BUAInvite_def world_headers sample_address sample_users sample_route_found s1_def)
  have "\<exists>s' lp u e. (handleTrunkInvite sample_world sample_he ?req 3 sample_trunk ''0012'' (zero_SIPAddress\<lparr>addr_URI := ''sip:912@h''\<rparr>) s1 :: (unit, _) go) = Ok s' \<and>
     lp_leg lp = TrunkLeg (trk_Name sample_trunk) u e \<and> acct s' = (fmupd (Suc (Suc (hs_next s1))) lp (hs_loops s1), st_calls (hs_store s1), Some ?m)"
  proof (rule handleTrunkInvite_starts [OF s1(1) acq sample_sockets _ sample_read_offer(1)])
    show "SIPMessage_From ?req = Ok (zero_SIPAddress\<lparr>addr_URI := ''sip:a@h''\<rparr>)" by (simp add: world_headers sample_address)
    show "SIPHeaders_GetFirst (msg_Headers ?req) ''Call-ID'' = (Ok ''a1'' :: (unit, _) go)" by (rule world_headers)
    show "(TargetFromContact (hc_uni sample_world) (he_dial sample_he) (he_resolve sample_he) (''sip:'' @ ''0012'' @ ''@'' @ JoinHostPort (trk_Host sample_trunk) (Itoa (trk_Port sample_trunk))) :: (unit, _) go)
      = Ok (Some (\<lparr>tgt_Addr = Some (UDPAddr ''h'' 5060), tgt_Conn = None, tgt_FlowID = []\<rparr>, ''UDP''))"
      using sample_target(2) by (simp add: trunk sample_ports sample_world_def)
  qed simp
  then show ?thesis using s1 trunk by (auto simp: h numeral_2_eq_2 intro!: exI [of _ "_ :: response_loop"])
qed

theorem trunk_capacity_witness:
  "\<exists>c m. conf_run sample_world (Some sample_manager) c \<and> hs_trunks (cf_state c) = Some m \<and> in_progress ''p'' (acct (cf_state c)) = 1 \<and>
     ActiveCalls m ''p'' = 1 \<and> cf_strays c ''p'' = 0 \<and> ActiveCalls m ''p'' \<le> trk_MaxChannels sample_trunk"
proof -
  let ?m = "fst (AcquireChannel ''p'' sample_manager)" and ?s = "sample_handler (Some sample_manager) sample_rel_tm"
  let ?c = "\<lambda>s. \<lparr>cf_state = s, cf_ends = [], cf_strays = (\<lambda>_. 0)\<rparr>"
  obtain s lp where i: "HandleInvite sample_world sample_he (sample_call_request ''INVITE'' ''912'' (sdp_text sample_sdp)) 3 ?s = (Ok s :: (unit, _) go)"
    and a: "acct s = (fmupd 2 lp fmempty, fmempty, Some ?m)" "on_trunk ''p'' (lp_leg lp)"
    using sample_trunk_invite by blast
  have handler: "conf_run sample_world (Some sample_manager) (?c s')"
    if "conf_run sample_world (Some sample_manager) (?c s1)" "handler_step sample_world s1 s'" for s1 s'
    using run_step [OF that(1) cs_handler] that(2) by simp
  have "conf_run sample_world (Some sample_manager) (?c ?s)"
    unfolding sample_handler_def by (rule handler [OF run_new hs_transactions])
  then have run: "conf_run sample_world (Some sample_manager) (?c s)" by (rule handler [OF _ hs_invite [OF i]])
  have m: "hs_trunks s = Some ?m" "fmlookup (tk_trunks ?m) ''p'' = Some sample_trunk" "0 < trk_MaxChannels sample_trunk" "ActiveCalls ?m ''p'' = 1"
    using a(1) by (simp_all add: acct_def AcquireChannel_def sample_manager_def sample_trunk_def ActiveCalls_def)
  have "in_progress ''p'' (acct (cf_state (?c s))) + int (due ''p'' (cf_ends (?c s))) \<le> ActiveCalls ?m ''p'' + int (cf_strays (?c s) ''p'') \<and>
    0 \<le> ActiveCalls ?m ''p'' \<and> ActiveCalls ?m ''p'' \<le> trk_MaxChannels sample_trunk"
    by (rule trunk_capacity [OF run]) (simp_all add: m, simp_all add: sample_manager_def ActiveCalls_def)
  moreover have "{k. k = (2::nat) \<and> on_trunk ''p'' (lp_leg lp)} = {2}" using a(2) by auto
  ultimately show ?thesis using run m a by (intro exI [of _ "?c s"] exI [of _ ?m]) (auto simp: in_progress_def kcount_def)
qed


theorem invite_no_leak_witness:
  "\<exists>s'. HandleInvite sample_world sample_he (sample_call_request ''INVITE'' ''912'' (sdp_text sample_sdp)) 3
     (sample_handler (Some sample_manager) sample_rel_tm) = (Ok s' :: (unit, _) go) \<and> left_call (sample_handler (Some sample_manager) sample_rel_tm) s'"
proof -
  let ?s = "sample_handler (Some sample_manager) sample_rel_tm"
  obtain s' lp where i: "HandleInvite sample_world sample_he (sample_call_request ''INVITE'' ''912'' (sdp_text sample_sdp)) 3 ?s = (Ok s' :: (unit, _) go)"
    and a: "acct s' = (fmupd 2 lp fmempty, fmempty, Some (fst (AcquireChannel ''p'' sample_manager)))"
    using sample_trunk_invite by blast
  have "hs_loops s' \<noteq> hs_loops ?s" using a by (auto simp: acct_def sample_handler_def NewHandler_def)
  moreover have "(left_nothing ?s s' \<or> left_call ?s s' \<or> left_session ?s s') \<and> flow_dialled ?s s'"
    by (rule invite_no_leak [OF _ _ i])
      (simp_all add: sample_handler_def NewHandler_def ids_fresh_def held_channels_def sample_manager_def ActiveCalls_def)
  ultimately show ?thesis using i by (auto simp: left_nothing_def left_session_def)
qed

section \<open>Two ways a call goes wrong\<close>

lemma selectBinding_newest:
  assumes "bs \<noteq> []" and "\<not> bd_OB (last bs)"
    and "TargetFromContact (hc_uni cfg) (he_dial env) (he_resolve env) (bd_ContactURI (last bs)) = (Ok (Some (tgt, ''UDP'')) :: ('e, _) go)"
  shows "selectBinding cfg env bs s = (Ok (Some (last bs, tgt, ''UDP''), s) :: ('e, _) go)"
proof -
  have r: "rev bs = last bs # rev (butlast bs)" using assms(1) by (metis append_butlast_last_id rev_eq_Cons_iff rev_rev_ident)
  show ?thesis unfolding selectBinding_def r using assms(2,3) by simp
qed

text \<open>
  C22.  An INVITE without a session description, which SIP allows (the offer then comes in the ACK, and the handler has code for
  that), ends the server: for a callee that is registered and reachable, \<^verbatim>\<open>handleB2BUAInvite\<close> passes the missing offer to
  \<^verbatim>\<open>PickPayloadType\<close>, which dereferences it, and nothing recovers from the panic.
\<close>

theorem delayed_offer_panics:
  assumes "fmlookup (tm_txs (hs_tm s)) tx = Some t" and "hs_proxy s = None" and "hc_dp cfg = None" and "hs_trunks s = None"
    and "msg_Body req = []" and "SIPMessage_To req = Ok to_addr" and "SIPMessage_From req = Ok from_addr"
    and "SIPHeaders_GetFirst (msg_Headers req) ''Call-ID'' = (Ok callID :: (unit, _) go)"
    and "GetBindings (hs_reg s) (NormalizeAOR (addr_URI to_addr)) = bs" and "bs \<noteq> []" and "\<not> bd_OB (last bs)"
    and "TargetFromContact (hc_uni cfg) (he_dial env) (he_resolve env) (bd_ContactURI (last bs)) = (Ok (Some (tgt, ''UDP'')) :: (unit, _) go)"
    and "NewRTPConnRange (he_free env 0) (he_assigned env 0) (hc_rtpMin cfg) (hc_rtpMax cfg) = Some p0"
    and "NewRTPConnRange (he_free env 1) (he_assigned env 1) (hc_rtpMin cfg) (hc_rtpMax cfg) = Some p1"
  shows "HandleInvite cfg env req tx s = (Panic :: (unit, _) go)"
proof -
  have "setup_media cfg env req ip s1 = (Panic :: (unit, _) go)" for ip s1
    using assms(5,13,14) by (simp add: setup_media_def open_rtp_def read_offer_def has_offer_def PickPayloadType_def)
  then have "bob_call cfg env req tx to_addr from_addr b tg tr rel s1 = (Panic :: (unit, _) go)" for b tg tr rel s1
    using assms(8) by (simp add: bob_call_def Let_def)
  then show ?thesis
    using assms(4,6,7,9,10) selectBinding_newest [OF assms(10-12)]
    by (simp add: HandleInvite_no_auth [OF assms(1-3)] handleB2BUAInvite_def call_user_def)
qed

theorem delayed_offer_panics_witness:
  "HandleInvite sample_world sample_he (sample_call_request ''INVITE'' ''b'' []) 3 (sample_handler None sample_rel_tm) = (Panic :: (unit, _) go)"
proof (rule delayed_offer_panics [OF sample_tx])
  let ?req = "sample_call_request ''INVITE'' ''b'' []"
  show "SIPMessage_To ?req = Ok (zero_SIPAddress\<lparr>addr_URI := ''sip:b@h''\<rparr>)" "SIPMessage_From ?req = Ok (zero_SIPAddress\<lparr>addr_URI := ''sip:a@h''\<rparr>)"
    by (simp_all add: world_headers sample_address)
  show "(TargetFromContact (hc_uni sample_world) (he_dial sample_he) (he_resolve sample_he)
      (bd_ContactURI (last (the (fmlookup (reg_bindings sample_registrar) ''sip:b@h'')))) :: (unit, _) go)
    = Ok (Some (\<lparr>tgt_Addr = Some (UDPAddr ''h'' 5060), tgt_Conn = None, tgt_FlowID = []\<rparr>, ''UDP''))"
    using sample_target(1) by (simp add: sample_registrar_def sample_world_def)
qed (simp_all add: sample_sockets world_headers sample_users, simp_all add: sample_handler_def NewHandler_def sample_world_def GetBindings_def bindings_of_def sample_registrar_def)

text \<open>
  C23.  A call whose offer names an RTP address that cannot be resolved is answered and then forgotten: when the 200 of the other
  leg arrives it is acknowledged and the caller gets its 200 with a session description, but the loop ends with both RTP sockets
  open, the trunk's channel taken and no entry in the call table, so that no later BYE can find the call and release them.
\<close>

theorem unresolvable_answer_leaks:
  assumes "fmlookup (hs_loops s) i = Some lp" and "lp_started lp" and "\<not> lp_cancelled lp" and "lp_leg lp = TrunkLeg name uri ivl"
    and "fmlookup (um_txs (hs_uac s)) (cc_uac (lp_cc lp)) = Some ut" and "ut_Responses ut = resp # rest" and "SIPMessage_StatusCode resp = 200"
    and "SIPMessage_To resp = Ok bobTo" and "UnmarshalSDP (msg_Body resp) = Ok bobSDP"
    and "cc_aliceSDPOffer (lp_cc lp) = Some aliceSDP" and "cc_hasEarlyOffer (lp_cc lp)" and "resolve_rtp cfg env aliceSDP = None"
    and "fmlookup (tm_txs (hs_tm s)) (cc_tx (lp_cc lp)) = Some (IST t)" and "it_state t = ISTProceeding"
    and "SIPHeaders_GetFirst (msg_Headers (cc_req (lp_cc lp))) ''To'' = (Ok toHdr :: (unit, _) go)"
    and "SIPHeaders_GetFirst (msg_Headers (cc_req (lp_cc lp))) ''Contact'' = (Ok contact :: (unit, _) go)"
  shows "\<exists>s' ok. loop_step cfg env i LoopResponse s = (Ok s' :: (unit, _) go) \<and> hs_loops s' = fmdrop i (hs_loops s) \<and>
     hs_rtp s' = hs_rtp s \<and> hs_trunks s' = hs_trunks s \<and> st_calls (hs_store s') = st_calls (hs_store s) \<and>
     SIPMessage_StatusCode ok = 200 \<and> msg_Body ok = cc_aliceSDPBytes (lp_cc lp) \<and>
     tm_sent (hs_tm s') = tm_sent (hs_tm s) @
       [(cc_transportImpl (lp_cc lp), cc_target (lp_cc lp), ack_request cfg env (lp_cc lp) uri (addr_Tag bobTo)), (it_transport t, it_target t, ok)]"
proof -
  let ?cc = "lp_cc lp"
  define s1 where "s1 = transport_send (cc_transportImpl ?cc) (cc_target ?cc) (ack_request cfg env ?cc uri (addr_Tag bobTo))
    (uac_commit (cc_uac ?cc) (ut\<lparr>ut_Responses := rest\<rparr>, []) s)"
  have s1: "hs_loops s1 = hs_loops s" "hs_rtp s1 = hs_rtp s" "hs_trunks s1 = hs_trunks s" "hs_store s1 = hs_store s"
    "tm_txs (hs_tm s1) = tm_txs (hs_tm s)"
    "tm_sent (hs_tm s1) = tm_sent (hs_tm s) @ [(cc_transportImpl ?cc, cc_target ?cc, ack_request cfg env ?cc uri (addr_Tag bobTo))]"
    by (simp_all add: s1_def uac_commit_def) (simp add: transport_send_def)
  obtain ok where ok: "(alice_ok cfg ?cc (it_transport t) (cc_aliceSDPBytes ?cc) :: (unit, _) go) = Ok ok" "SIPMessage_StatusCode ok = 200"
    "msg_Body ok = cc_aliceSDPBytes ?cc"
    using assms(15) by (simp add: alice_ok_def Let_def SIPMessage_StatusCode_def NewResponse_def)
  have r: "tm_sent (hs_tm (respond (cc_tx ?cc) ok s1)) = tm_sent (hs_tm s1) @ [(it_transport t, it_target t, ok)]"
    using assms(13,14) ok(2) by (simp add: respond_def Respond_def s1 InviteTransaction_Respond_def Let_def send_msg_def put_tx_def forget_branch_def)
  have run: "(loop_step cfg env i LoopResponse s :: (unit, _) go) = Ok (end_loop i lp (respond (cc_tx ?cc) ok s1))"
  proof -
    let ?lg = "TrunkLeg name uri ivl" and ?s = "uac_commit (cc_uac ?cc) (ut\<lparr>ut_Responses := rest\<rparr>, []) s"
    have info: "tx_info_of s1 (cc_tx ?cc) = (Ok \<lparr>tx_Target = it_target t, tx_Transport = Some (it_transport t)\<rparr> :: (unit, _) go)"
      using assms(13) by (simp add: tx_info_of_def s1)
    have "establish cfg env ?cc ?lg inf tr contact bobTo bobSDP s2 = (False, s2)" for inf tr s2
      using assms(10,12) by (simp add: establish_def Let_def)
    then have "(handle200OK cfg env False ?cc ?lg resp ?s :: (unit, _) go) = Ok (False, respond (cc_tx ?cc) ok s1)"
      using assms(8,9,11,16) info ok(1) by (simp add: handle200OK_def Let_def s1_def [symmetric])
    then have "(loop_response cfg env i lp resp ?s :: (unit, _) go) = Ok (True, respond (cc_tx ?cc) ok s1)"
      using assms(3,4,7) by (simp add: loop_response_def trunkResponse_def handleTrunk200OK_def Let_def)
    then show ?thesis using assms(1,2,5,6) by (simp add: loop_step_def Let_def)
  qed
  show ?thesis
    by (rule exI [of _ "end_loop i lp (respond (cc_tx ?cc) ok s1)"], rule exI [of _ ok])
      (simp add: run ok r s1 end_loop_def assms(4) RemoveEarly_def)
qed

definition sample_tm :: "server_tx \<Rightarrow> TransactionManager" where
  "sample_tm t = put_tx 3 t NewTransactionManager"

definition sample_session :: "string \<Rightarrow> nat \<Rightarrow> Session" where
  "sample_session callID conn = NewSession 1 \<lparr>sk_CallID = callID, sk_LocalTag = ''l'', sk_RemoteTag = ''r''\<rparr> conn 0 None"

text \<open>A trunk call in progress, with its sessions and sockets, and its caller hanging up.\<close>

definition sample_talking :: handler_state where
  "sample_talking = (sample_handler (Some (fst (AcquireChannel ''p'' sample_manager))) (sample_tm (new_server_tx (sample_req ''BYE'') UDPTransport sample_branch False)))
     \<lparr>hs_store := Store_Store (sample_call ''a1'' ''b1'' ''p'') NewStore, hs_rtp := {|0, 1|},
      hs_sessions := fmupd 1 (sample_session ''b1'' 1) (fmupd 0 (sample_session ''a1'' 0) fmempty)\<rparr>"

theorem bye_ends_call_witness:
  "\<exists>s'. HandleBye sample_world sample_he (sample_call_request ''BYE'' ''b'' []) 3 sample_talking = (Ok s' :: (unit, _) go) \<and>
     hs_rtp s' = {||} \<and> Store_Get ''b1'' (hs_store s') = None \<and> held_channels ''p'' (hs_trunks s') = 0 \<and> length (tm_sent (hs_tm s')) = 3"
proof -
  let ?call = "sample_call ''a1'' ''b1'' ''p''" and ?sa = "sample_session ''a1'' 0" and ?sb = "sample_session ''b1'' 1"
  have st: "store_ok (hs_store sample_talking)"
    using store_ok_put [of NewStore ?call] by (simp add: sample_talking_def fresh_call_def NewStore_def sample_call_def store_ok_def)
  obtain t where t: "new_server_tx (sample_req ''BYE'') UDPTransport sample_branch False = NIST t" "nt_state t \<noteq> NISTTerminated"
    by (simp add: new_server_tx_def)
  have "\<exists>s' ok. HandleBye sample_world sample_he (sample_call_request ''BYE'' ''b'' []) 3 sample_talking = (Ok s' :: (unit, _) go) \<and>
     call_released ''a1'' ?call ?sa ?sb sample_talking s' \<and> SIPMessage_StatusCode ok = 200 \<and>
     tm_sent (hs_tm s') = tm_sent (hs_tm sample_talking) @ [(nt_transport t, nt_target t, NewResponse (sample_call_request ''BYE'' ''b'' []) 100 ''Trying''),
       (fst (other_leg ''a1'' ?call), snd (other_leg ''a1'' ?call), other_leg_bye sample_world sample_he ''a1'' ?call), (nt_transport t, nt_target t, ok)]"
  proof (rule bye_ends_call [OF st _ world_headers(1)])
    let ?s = "respond 3 (NewResponse (sample_call_request ''BYE'' ''b'' []) 100 ''Trying'') sample_talking"
    show "requireProxyAuth sample_world sample_he (sample_call_request ''BYE'' ''b'' []) 3 ''BYE'' ?s = (Ok (True, ?s) :: (unit, _) go)"
      by (simp add: requireProxyAuth_def) (simp add: sample_talking_def sample_handler_def NewHandler_def)
  qed (simp_all add: t sample_talking_def sample_handler_def NewHandler_def sample_tm_def put_tx_def Store_Get_def Store_Store_def sample_call_def)
  then obtain s' ok where h: "HandleBye sample_world sample_he (sample_call_request ''BYE'' ''b'' []) 3 sample_talking = (Ok s' :: (unit, _) go)"
    "call_released ''a1'' ?call ?sa ?sb sample_talking s'" "length (tm_sent (hs_tm s')) = length (tm_sent (hs_tm sample_talking)) + 3" by auto
  have v: "hs_rtp sample_talking = {|0, 1|}" "tm_sent (hs_tm sample_talking) = []"
    "hs_trunks sample_talking = Some (fst (AcquireChannel ''p'' sample_manager))" "ca_TrunkName ?call = ''p''" "ca_BobCallID ?call = ''b1''"
    "se_RTPConn ?sa = 0" "se_RTPConn ?sb = 1"
    by (simp_all add: sample_talking_def sample_handler_def NewHandler_def sample_tm_def put_tx_def NewTransactionManager_def sample_call_def sample_session_def NewSession_def)
  have "ActiveCalls (ReleaseChannel ''p'' (fst (AcquireChannel ''p'' sample_manager))) ''p'' = 0"
    by (simp add: ActiveCalls_Release) (simp add: AcquireChannel_def sample_manager_def sample_trunk_def ActiveCalls_def)
  then have "hs_rtp s' = {||} \<and> Store_Get ''b1'' (hs_store s') = None \<and> held_channels ''p'' (hs_trunks s') = 0 \<and> length (tm_sent (hs_tm s')) = 3"
    using h(2,3) unfolding call_released_def v by (simp add: held_channels_def)
  then show ?thesis using h(1) by blast
qed

definition sample_answer :: SIPMessage where
  "sample_answer = (sample_call_request ''INVITE'' ''b'' (sdp_text sample_sdp))\<lparr>msg_startLine := msg_startLine (NewResponse sample_uac_invite 200 [])\<rparr>"

definition sample_loop :: response_loop where
  "sample_loop = \<lparr>lp_cc = \<lparr>cc_req = sample_call_request ''INVITE'' ''912'' (sdp_text sample_sdp), cc_tx = 3, cc_target = sample_uac_target,
       cc_transportImpl = UDPTransport, cc_uac = 0, cc_rtpConnA = 0, cc_rtpConnB = 1, cc_from = zero_SIPAddress, cc_aliceFromTag = [], cc_serverTag = ''t'',
       cc_callID = ''a1'', cc_calleeTag = ''c'', cc_bobCallID = ''b1'', cc_to = zero_SIPAddress, cc_selectedPT = 0, cc_hasEarlyOffer = True,
       cc_aliceSDPOffer = Some sample_sdp, cc_aliceSDPBytes = ''v=0'', cc_recordRoute = []\<rparr>,
     lp_leg = TrunkLeg ''p'' ''sip:0012@h'' 0, lp_invite = sample_uac_invite, lp_started = True, lp_cancelled = False, lp_prackDone = False\<rparr>"

definition sample_answered :: handler_state where
  "sample_answered = (sample_handler (Some (fst (AcquireChannel ''p'' sample_manager)))
       (sample_tm (case new_server_tx (sample_req ''INVITE'') UDPTransport sample_branch False of IST t \<Rightarrow> IST (t\<lparr>it_state := ISTProceeding\<rparr>) | NIST t \<Rightarrow> NIST t)))
     \<lparr>hs_rtp := {|0, 1|}, hs_loops := fmupd 5 sample_loop fmempty,
      hs_uac := NewUACManager\<lparr>um_txs := fmupd 0 (sample_uac\<lparr>ut_Responses := [sample_answer]\<rparr>) fmempty\<rparr>\<rparr>"

theorem unresolvable_answer_leaks_witness:
  "\<exists>s'. loop_step sample_world sample_he 5 LoopResponse sample_answered = (Ok s' :: (unit, _) go) \<and> hs_loops s' = fmempty \<and> hs_rtp s' = {|0, 1|} \<and>
     held_channels ''p'' (hs_trunks s') = 1 \<and> st_calls (hs_store s') = fmempty \<and> length (tm_sent (hs_tm s')) = 2"
proof -
  let ?s = sample_answered and ?lp = sample_loop and ?cc = "lp_cc sample_loop"
  obtain t where t: "fmlookup (tm_txs (hs_tm ?s)) 3 = Some (IST t)" "it_state t = ISTProceeding"
    by (simp add: sample_answered_def sample_handler_def sample_tm_def put_tx_def new_server_tx_def)
  have cc: "cc_uac ?cc = 0" "cc_tx ?cc = 3" "cc_hasEarlyOffer ?cc" "cc_aliceSDPOffer ?cc = Some sample_sdp"
    "cc_req ?cc = sample_call_request ''INVITE'' ''912'' (sdp_text sample_sdp)" by (simp_all add: sample_loop_def)
  have "\<exists>s' ok. loop_step sample_world sample_he 5 LoopResponse ?s = (Ok s' :: (unit, _) go) \<and> hs_loops s' = fmdrop 5 (hs_loops ?s) \<and>
     hs_rtp s' = hs_rtp ?s \<and> hs_trunks s' = hs_trunks ?s \<and> st_calls (hs_store s') = st_calls (hs_store ?s) \<and>
     SIPMessage_StatusCode ok = 200 \<and> msg_Body ok = cc_aliceSDPBytes ?cc \<and>
     tm_sent (hs_tm s') = tm_sent (hs_tm ?s) @ [(cc_transportImpl ?cc, cc_target ?cc, ack_request sample_world sample_he ?cc ''sip:0012@h'' (addr_Tag (zero_SIPAddress\<lparr>addr_URI := ''sip:b@h''\<rparr>))),
       (it_transport t, it_target t, ok)]"
  proof (rule unresolvable_answer_leaks)
    show "fmlookup (hs_loops ?s) 5 = Some ?lp" "lp_leg ?lp = TrunkLeg ''p'' ''sip:0012@h'' 0" "lp_started ?lp" "\<not> lp_cancelled ?lp"
      "fmlookup (um_txs (hs_uac ?s)) (cc_uac ?cc) = Some (sample_uac\<lparr>ut_Responses := [sample_answer]\<rparr>)"
      by (simp_all add: sample_answered_def sample_loop_def)
    show "fmlookup (tm_txs (hs_tm ?s)) (cc_tx ?cc) = Some (IST t)" "it_state t = ISTProceeding" using t cc(2) by simp_all
    show "SIPMessage_To sample_answer = Ok (zero_SIPAddress\<lparr>addr_URI := ''sip:b@h''\<rparr>)" "SIPMessage_StatusCode sample_answer = 200"
      "UnmarshalSDP (msg_Body sample_answer) = Ok sample_sdp"
      by (simp_all add: sample_answer_def SIPMessage_StatusCode_def NewResponse_def SIPMessage_To_def sample_offer_read)
        (simp_all add: sample_call_request_def SIPHeaders_GetFirst_def world_keys index_def sample_address sample_offer_read)
    show "resolve_rtp sample_world sample_he sample_sdp = None"
      by (simp add: resolve_rtp_def resolveClientAddr_def ExtractRTPAddr_def sample_sdp_def sample_world_def sample_he_def)
    show "SIPHeaders_GetFirst (msg_Headers (cc_req ?cc)) ''To'' = (Ok ''<sip:912@h>'' :: (unit, _) go)"
      "SIPHeaders_GetFirst (msg_Headers (cc_req ?cc)) ''Contact'' = (Ok ''<sip:a@c>'' :: (unit, _) go)"
      by (simp_all add: cc sample_call_request_def SIPHeaders_GetFirst_def world_keys index_def)
  qed (simp_all add: cc)
  then obtain s' where h: "loop_step sample_world sample_he 5 LoopResponse ?s = (Ok s' :: (unit, _) go)" "hs_loops s' = fmdrop 5 (hs_loops ?s)"
    "hs_rtp s' = hs_rtp ?s" "hs_trunks s' = hs_trunks ?s" "st_calls (hs_store s') = st_calls (hs_store ?s)" "length (tm_sent (hs_tm s')) = length (tm_sent (hs_tm ?s)) + 2"
    by auto
  have v: "hs_loops ?s = fmupd 5 ?lp fmempty" "hs_rtp ?s = {|0, 1|}" "st_calls (hs_store ?s) = fmempty" "tm_sent (hs_tm ?s) = []"
    "hs_trunks ?s = Some (fst (AcquireChannel ''p'' sample_manager))"
    by (simp_all add: sample_answered_def sample_handler_def NewHandler_def NewStore_def sample_tm_def put_tx_def NewTransactionManager_def)
  have d: "fmdrop 5 (fmupd 5 ?lp fmempty) = fmempty" by (rule fmap_ext) simp
  have "ActiveCalls (fst (AcquireChannel ''p'' sample_manager)) ''p'' = 1"
    by (simp add: AcquireChannel_def sample_manager_def sample_trunk_def ActiveCalls_def)
  then have "hs_loops s' = fmempty \<and> hs_rtp s' = {|0, 1|} \<and> held_channels ''p'' (hs_trunks s') = 1 \<and> st_calls (hs_store s') = fmempty \<and> length (tm_sent (hs_tm s')) = 2"
    using h(2-6) d unfolding v by (simp add: held_channels_def)
  then show ?thesis using h(1) by blast
qed

end
