(* ===== verification/Logging.thy ===== *)
theory Logging
  imports SIP_Message
begin

text \<open>
  Logging: the handlers of \<^verbatim>\<open>internal/logutil\<close> (\<^verbatim>\<open>compact.go\<close>, \<^verbatim>\<open>context.go\<close>, \<^verbatim>\<open>test.go\<close>).  An attribute value of a scalar kind is the
  text that \<^verbatim>\<open>fmt\<close> prints for it and a time stamp is its text; what a handler writes is its result.  A context is what the package
  keeps in it: the logger, as its handler, and the list of attributes.
\<close>

section \<open>Records, attributes and levels\<close>

datatype LogAttr = LogAttr (la_Key: string) (la_Value: LogValue)
  and LogValue = ScalarValue string | GroupValue "LogAttr list"

record LogRecord =
  lr_Time :: string
  lr_Level :: int
  lr_Message :: string
  lr_Attrs :: "LogAttr list"

definition LevelTrace :: int where "LevelTrace = -10"
definition LevelDebug :: int where "LevelDebug = -4"
definition LevelInfo :: int where "LevelInfo = 0"
definition LevelWarn :: int where "LevelWarn = 4"
definition LevelError :: int where "LevelError = 8"

lemmas level_defs = LevelTrace_def LevelDebug_def LevelInfo_def LevelWarn_def LevelError_def

text \<open>\<^verbatim>\<open>slog.Level.String\<close>: the named level below and the signed distance to it.\<close>

definition level_offset :: "string \<Rightarrow> int \<Rightarrow> string" where
  "level_offset base d = (if d = 0 then base else base @ (if 0 < d then ''+'' else []) @ Itoa d)"

definition Level_String :: "int \<Rightarrow> string" where
  "Level_String l =
     (if l < LevelInfo then level_offset ''DEBUG'' (l - LevelDebug)
      else if l < LevelWarn then level_offset ''INFO'' (l - LevelInfo)
      else if l < LevelError then level_offset ''WARN'' (l - LevelWarn)
      else level_offset ''ERROR'' (l - LevelError))"

definition levelString :: "int \<Rightarrow> string" where
  "levelString level =
     (if level = LevelTrace then ''TRACE''
      else if level = LevelDebug then ''DEBUG''
      else if level = LevelInfo then ''INFO''
      else if level = LevelWarn then ''WARN''
      else if level = LevelError then ''ERROR''
      else Level_String level)"

text \<open>\<^verbatim>\<open>fmt.Sprintf("%v", v.Any())\<close>: a group prints as the slice of its attributes.\<close>

fun sprint_value :: "LogValue \<Rightarrow> string" and sprint_attr :: "LogAttr \<Rightarrow> string" where
  "sprint_value (ScalarValue s) = s"
| "sprint_value (GroupValue as) = ''['' @ Join (map sprint_attr as) '' '' @ '']''"
| "sprint_attr (LogAttr k v) = k @ ''='' @ sprint_value v"

section \<open>The compact handler\<close>

abbreviation ESC :: char where "ESC \<equiv> CHR 0x1B"

definition colorReset :: string where "colorReset = ESC # ''[0m''"
definition colorCyan :: string where "colorCyan = ESC # ''[36m''"
definition colorGray :: string where "colorGray = ESC # ''[90m''"
definition colorBrightWhite :: string where "colorBrightWhite = ESC # ''[97m''"
definition colorYellow :: string where "colorYellow = ESC # ''[33m''"
definition colorRed :: string where "colorRed = ESC # ''[31m''"
definition colorDarkGreen :: string where "colorDarkGreen = ESC # ''[32m''"
definition colorBlue :: string where "colorBlue = ESC # ''[34m''"

definition levelColor :: "int \<Rightarrow> string" where
  "levelColor level =
     (if level = LevelInfo then colorDarkGreen
      else if level = LevelWarn then colorYellow
      else if level = LevelError then colorRed
      else if level = LevelTrace then colorGray
      else if level = LevelDebug then colorBlue
      else colorBrightWhite)"

record CompactHandler =
  ch_Level :: "int option"
  ch_attrs :: "LogAttr list"
  ch_groups :: "string list"
  ch_colors :: bool

definition NewCompactHandler :: "bool \<Rightarrow> int option option \<Rightarrow> CompactHandler" where
  "NewCompactHandler is_terminal opts =
     (let level = (case opts of None \<Rightarrow> None | Some level \<Rightarrow> level);
          level = (if level = None then Some LevelInfo else level)
      in \<lparr>ch_Level = level, ch_attrs = [], ch_groups = [], ch_colors = is_terminal\<rparr>)"

definition Compact_Enabled :: "CompactHandler \<Rightarrow> int \<Rightarrow> bool" where
  "Compact_Enabled h level \<longleftrightarrow> (case ch_Level h of None \<Rightarrow> LevelInfo | Some l \<Rightarrow> l) \<le> level"

definition Compact_WithAttrs :: "LogAttr list \<Rightarrow> CompactHandler \<Rightarrow> CompactHandler" where
  "Compact_WithAttrs attrs h = h\<lparr>ch_attrs := ch_attrs h @ attrs\<rparr>"

definition Compact_WithGroup :: "string \<Rightarrow> CompactHandler \<Rightarrow> CompactHandler" where
  "Compact_WithGroup name h = h\<lparr>ch_groups := ch_groups h @ [name]\<rparr>"

definition dim :: "bool \<Rightarrow> string \<Rightarrow> string \<Rightarrow> string" where
  "dim colors color s = (if colors then color @ s @ colorReset else s)"

fun formatCompactAttr :: "string list \<Rightarrow> bool \<Rightarrow> LogAttr \<Rightarrow> string" where
  "formatCompactAttr groups colors (LogAttr key (GroupValue members)) =
     Join (map (\<lambda>ga. formatCompactAttr (groups @ [key]) colors ga) members) '' ''"
| "formatCompactAttr groups colors (LogAttr key (ScalarValue s)) =
     (let key = (if groups \<noteq> [] then Join groups ''.'' @ ''.'' @ key else key)
      in dim colors colorCyan key @ ''='' @ s)"

definition is_payload :: "LogRecord \<Rightarrow> LogAttr \<Rightarrow> bool" where
  "is_payload r a \<longleftrightarrow> la_Key a = ''payload'' \<and> lr_Level r = LevelTrace"

text \<open>Of several payloads the last one is kept.\<close>

definition record_payload :: "LogRecord \<Rightarrow> string option" where
  "record_payload r = fold (\<lambda>a p. if is_payload r a then Some (sprint_value (la_Value a)) else p) (lr_Attrs r) None"

definition line_attrs :: "CompactHandler \<Rightarrow> LogRecord \<Rightarrow> LogAttr list" where
  "line_attrs h r = filter (\<lambda>a. \<not> is_payload r a) (lr_Attrs r) @ ch_attrs h"

definition Compact_Handle :: "CompactHandler \<Rightarrow> LogRecord \<Rightarrow> string" where
  "Compact_Handle h r =
     lr_Time r @ '' '' @ ''['' @ dim (ch_colors h) (levelColor (lr_Level r)) (levelString (lr_Level r)) @ ''] ''
     @ dim (ch_colors h) colorBrightWhite (lr_Message r)
     @ concat (map (\<lambda>a. '' '' @ formatCompactAttr (ch_groups h) (ch_colors h) a) (line_attrs h r)) @ [LF]
     @ (case record_payload r of
          None \<Rightarrow> []
        | Some payload \<Rightarrow> concat (map (\<lambda>line. TAB # dim (ch_colors h) colorGray line @ [LF]) (Split payload LF)))"

section \<open>The test handler\<close>

record TestHandler =
  th_group :: string
  th_attrs :: "LogAttr list"

definition NewTestLogger :: TestHandler where
  "NewTestLogger = \<lparr>th_group = [], th_attrs = []\<rparr>"

definition Test_Enabled :: "int \<Rightarrow> bool" where
  "Test_Enabled level \<longleftrightarrow> LevelTrace \<le> level"

fun formatAttr :: "string \<Rightarrow> LogAttr \<Rightarrow> string" where
  "formatAttr grp (LogAttr key (GroupValue as)) = Join (map (\<lambda>ga. formatAttr key ga) as) '' ''"
| "formatAttr grp (LogAttr key (ScalarValue s)) = (if grp \<noteq> [] then grp @ ''.'' @ key else key) @ ''='' @ s"

definition Test_Handle :: "TestHandler \<Rightarrow> LogRecord \<Rightarrow> string" where
  "Test_Handle h r =
     (if th_group h \<noteq> [] then th_group h @ '': '' else []) @ levelString (lr_Level r) @ '' '' @ lr_Message r
     @ concat (map (\<lambda>a. '' '' @ formatAttr (th_group h) a) (lr_Attrs r))
     @ concat (map (\<lambda>a. '' '' @ formatAttr (th_group h) a) (th_attrs h))"

definition Test_WithAttrs :: "LogAttr list \<Rightarrow> TestHandler \<Rightarrow> TestHandler" where
  "Test_WithAttrs attrs h = h\<lparr>th_attrs := th_attrs h @ attrs\<rparr>"

definition Test_WithGroup :: "string \<Rightarrow> TestHandler \<Rightarrow> TestHandler" where
  "Test_WithGroup name h = h\<lparr>th_group := name\<rparr>"

section \<open>Contexts\<close>

text \<open>The interface \<^verbatim>\<open>slog.Handler\<close> with the implementations of the package; a logger is its handler.\<close>

datatype Logger =
    CompactLogger CompactHandler
  | TestLogger TestHandler
  | CtxAttrLogger Logger "LogAttr list"

fun Logger_Enabled :: "Logger \<Rightarrow> int \<Rightarrow> bool" where
  "Logger_Enabled (CompactLogger h) level = Compact_Enabled h level"
| "Logger_Enabled (TestLogger h) level = Test_Enabled level"
| "Logger_Enabled (CtxAttrLogger base vals) level = Logger_Enabled base level"

fun Logger_Handle :: "Logger \<Rightarrow> LogRecord \<Rightarrow> string" where
  "Logger_Handle (CompactLogger h) r = Compact_Handle h r"
| "Logger_Handle (TestLogger h) r = Test_Handle h r"
| "Logger_Handle (CtxAttrLogger base vals) r = Logger_Handle base (r\<lparr>lr_Attrs := lr_Attrs r @ vals\<rparr>)"

fun Logger_WithAttrs :: "LogAttr list \<Rightarrow> Logger \<Rightarrow> Logger" where
  "Logger_WithAttrs attrs (CompactLogger h) = CompactLogger (Compact_WithAttrs attrs h)"
| "Logger_WithAttrs attrs (TestLogger h) = TestLogger (Test_WithAttrs attrs h)"
| "Logger_WithAttrs attrs (CtxAttrLogger base vals) = CtxAttrLogger (Logger_WithAttrs attrs base) vals"

fun Logger_WithGroup :: "string \<Rightarrow> Logger \<Rightarrow> Logger" where
  "Logger_WithGroup name (CompactLogger h) = CompactLogger (Compact_WithGroup name h)"
| "Logger_WithGroup name (TestLogger h) = TestLogger (Test_WithGroup name h)"
| "Logger_WithGroup name (CtxAttrLogger base vals) = CtxAttrLogger (Logger_WithGroup name base) vals"

record LogContext =
  lc_logger :: "Logger option"
  lc_values :: "LogAttr list option"

definition extractCtxValues :: "LogContext \<Rightarrow> LogAttr list" where
  "extractCtxValues ctx = (case lc_values ctx of Some v \<Rightarrow> v | None \<Rightarrow> [])"

definition FromContext :: "Logger \<Rightarrow> LogContext \<Rightarrow> Logger" where
  "FromContext default_logger ctx = (case lc_logger ctx of
     Some logger \<Rightarrow> CtxAttrLogger logger (extractCtxValues ctx) | None \<Rightarrow> default_logger)"

definition NewContext :: "Logger \<Rightarrow> LogContext \<Rightarrow> LogContext" where
  "NewContext logger ctx = ctx\<lparr>lc_logger := Some logger\<rparr>"

definition WithValue :: "string \<Rightarrow> LogValue \<Rightarrow> LogContext \<Rightarrow> LogContext" where
  "WithValue key v ctx = ctx\<lparr>lc_values := Some (extractCtxValues ctx @ [LogAttr key v])\<rparr>"

text \<open>The arguments of \<^verbatim>\<open>WithValues\<close> are keys and values in turn; a key that is not a string (\<open>None\<close>) is skipped with its value, as is a last key without value.\<close>

fun pair_attrs :: "(string option \<times> LogValue) list \<Rightarrow> LogAttr list" where
  "pair_attrs ((key, _) # (_, v) # kvs) = (case key of Some k \<Rightarrow> LogAttr k v # pair_attrs kvs | None \<Rightarrow> pair_attrs kvs)"
| "pair_attrs kvs = []"

definition WithValues :: "(string option \<times> LogValue) list \<Rightarrow> LogContext \<Rightarrow> LogContext" where
  "WithValues kvs ctx = ctx\<lparr>lc_values := Some (extractCtxValues ctx @ pair_attrs kvs)\<rparr>"

text \<open>\<^verbatim>\<open>Trace\<close>: what is written, if the level is enabled.\<close>

definition Trace :: "Logger \<Rightarrow> string \<Rightarrow> string \<Rightarrow> LogAttr list \<Rightarrow> string option" where
  "Trace logger now msg attrs =
     (if Logger_Enabled logger LevelTrace
      then Some (Logger_Handle logger \<lparr>lr_Time = now, lr_Level = LevelTrace, lr_Message = msg, lr_Attrs = attrs\<rparr>) else None)"

section \<open>Colours only decorate\<close>

text \<open>Removal of the colour codes: everything from an escape character to the next \<open>m\<close>.\<close>

fun strip_ansi :: "bool \<Rightarrow> string \<Rightarrow> string" where
  "strip_ansi inEscape [] = []"
| "strip_ansi inEscape (c # s) =
     (if c = ESC then strip_ansi True s
      else if inEscape then strip_ansi (c \<noteq> CHR ''m'') s
      else c # strip_ansi False s)"

definition plain :: "char \<Rightarrow> string \<Rightarrow> bool" where
  "plain c s \<longleftrightarrow> c \<notin> set s"

fun plain_value :: "char \<Rightarrow> LogValue \<Rightarrow> bool" and plain_attr :: "char \<Rightarrow> LogAttr \<Rightarrow> bool" where
  "plain_value c (ScalarValue s) = plain c s"
| "plain_value c (GroupValue as) = list_all (plain_attr c) as"
| "plain_attr c (LogAttr k v) = (plain c k \<and> plain_value c v)"

named_theorems plain_simps

lemma plain_basic [plain_simps]: "plain c []" "plain c (d # s) \<longleftrightarrow> c \<noteq> d \<and> plain c s" "plain c (s @ t) \<longleftrightarrow> plain c s \<and> plain c t"
  by (auto simp: plain_def)

lemma strip_plain [simp]: "plain ESC s \<Longrightarrow> strip_ansi False (s @ t) = s @ strip_ansi False t"
  by (induction s) (auto simp: plain_def)

lemma dim_False: "dim False color s = s"
  by (simp add: dim_def)

lemma strip_dim:
  assumes "plain ESC s" and "color \<in> {colorReset, colorCyan, colorGray, colorBrightWhite, colorYellow, colorRed, colorDarkGreen, colorBlue}"
  shows "strip_ansi False (dim colors color s @ t) = s @ strip_ansi False t"
proof -
  have "strip_ansi False (color @ u) = strip_ansi False u" for u
    using assms(2) by (auto simp: colorReset_def colorCyan_def colorGray_def colorBrightWhite_def colorYellow_def colorRed_def
        colorDarkGreen_def colorBlue_def)
  moreover have "strip_ansi False (colorReset @ u) = strip_ansi False u" for u by (simp add: colorReset_def)
  ultimately show ?thesis using assms(1) by (simp add: dim_def)
qed

lemma plain_Join [plain_simps]: "plain c sep \<Longrightarrow> list_all (plain c) ss \<Longrightarrow> plain c (Join ss sep)"
  by (induction ss sep rule: Join.induct) (auto simp: plain_def)

lemma strip_Join:
  assumes "plain ESC sep" and "\<And>x t. x \<in> set xs \<Longrightarrow> strip_ansi False (f x @ t) = g x @ strip_ansi False t"
  shows "strip_ansi False (Join (map f xs) sep @ t) = Join (map g xs) sep @ strip_ansi False t"
  using assms(2)
proof (induction xs)
  case (Cons x xs)
  then show ?case using assms(1) by (cases xs) auto
qed simp

lemma strip_attr:
  "plain_attr ESC a \<Longrightarrow> list_all (plain ESC) groups \<Longrightarrow>
   strip_ansi False (formatCompactAttr groups colors a @ t) = formatCompactAttr groups False a @ strip_ansi False t"
proof (induction groups colors a arbitrary: t rule: formatCompactAttr.induct)
  case (1 groups colors key members)
  have "strip_ansi False (Join (map (formatCompactAttr (groups @ [key]) colors) members) '' '' @ t)
      = Join (map (formatCompactAttr (groups @ [key]) False) members) '' '' @ strip_ansi False t"
    by (rule strip_Join) (use 1 in \<open>auto simp: plain_simps list_all_iff\<close>)
  then show ?case by simp
next
  case (2 groups colors key s)
  let ?key = "if groups \<noteq> [] then Join groups ''.'' @ ''.'' @ key else key"
  have "plain ESC ?key" using 2 by (auto simp: plain_simps)
  from strip_dim [OF this, of colorCyan colors "''='' @ s @ t"]
  have "strip_ansi False (dim colors colorCyan ?key @ ''='' @ s @ t) = ?key @ ''='' @ s @ strip_ansi False t" using 2 by simp
  then show ?case by (simp only: formatCompactAttr.simps Let_def append_assoc) (simp add: dim_def)
qed

lemma nat_digits_chars: "c \<in> set (nat_digits n) \<Longrightarrow> is_digit c"
  using Itoa_chars [of "int n" c] by (simp add: Itoa_def)

lemma plain_Itoa [plain_simps]: "\<not> is_digit c \<Longrightarrow> c \<noteq> CHR ''-'' \<Longrightarrow> plain c (Itoa n)"
  by (auto simp: plain_def Itoa_def dest: nat_digits_chars)

lemma plain_levelString: "c \<in> {ESC, LF} \<Longrightarrow> plain c (levelString l)"
  by (auto simp: levelString_def Level_String_def level_offset_def plain_simps is_digit_def)

lemma strip_concat:
  assumes "\<And>x t. x \<in> set xs \<Longrightarrow> strip_ansi False (f x @ t) = g x @ strip_ansi False t"
  shows "strip_ansi False (concat (map f xs) @ t) = concat (map g xs) @ strip_ansi False t"
  using assms by (induction xs) auto

text \<open>A record, and the handler it goes to, without the character \<open>c\<close>.\<close>

definition plain_record :: "char \<Rightarrow> CompactHandler \<Rightarrow> LogRecord \<Rightarrow> bool" where
  "plain_record c h r \<longleftrightarrow> plain c (lr_Time r) \<and> plain c (lr_Message r) \<and> list_all (plain c) (ch_groups h) \<and>
     list_all (plain_attr c) (ch_attrs h) \<and> list_all (plain_attr c) (lr_Attrs r)"

lemma plain_sprint:
  "plain_value c v \<Longrightarrow> c \<notin> {CHR ''['', CHR '']'', CHR '' '', CHR ''=''} \<Longrightarrow> plain c (sprint_value v)"
  "plain_attr c a \<Longrightarrow> c \<notin> {CHR ''['', CHR '']'', CHR '' '', CHR ''=''} \<Longrightarrow> plain c (sprint_attr a)"
  by (induction v and a rule: sprint_value_sprint_attr.induct) (auto simp: plain_simps list_all_iff)

lemma plain_la_Value: "plain_attr c a \<Longrightarrow> plain_value c (la_Value a)"
  by (cases a) simp

lemma record_payload_Some:
  "record_payload r = Some p \<Longrightarrow> \<exists>a \<in> set (lr_Attrs r). is_payload r a \<and> p = sprint_value (la_Value a)"
proof -
  have "fold (\<lambda>a p. if is_payload r a then Some (sprint_value (la_Value a)) else p) as q = Some p \<Longrightarrow>
      q = Some p \<or> (\<exists>a \<in> set as. is_payload r a \<and> p = sprint_value (la_Value a))" for as q
    by (induction as arbitrary: q) (auto split: if_splits)
  from this [of "lr_Attrs r" None] show "record_payload r = Some p \<Longrightarrow> ?thesis" by (simp add: record_payload_def)
qed

lemma set_Split: "l \<in> set (Split s b) \<Longrightarrow> set l \<subseteq> set s - {b}"
proof (induction s b arbitrary: l rule: Split.induct)
  case (2 c s b)
  then show ?case by (cases "Split s b") (fastforce split: if_splits)+
qed simp

theorem colors_only_decorate:
  assumes "plain_record ESC h r"
  shows "strip_ansi False (Compact_Handle h r) = Compact_Handle (h\<lparr>ch_colors := False\<rparr>) r"
proof -
  have attr: "plain_attr ESC a" if "a \<in> set (line_attrs h r)" for a
    using that assms by (auto simp: line_attrs_def list_all_iff plain_record_def)
  have line: "strip_ansi False (concat (map (\<lambda>a. '' '' @ formatCompactAttr (ch_groups h) (ch_colors h) a) (line_attrs h r)) @ t)
      = concat (map (\<lambda>a. '' '' @ formatCompactAttr (ch_groups h) False a) (line_attrs h r)) @ strip_ansi False t" for t
    by (rule strip_concat) (use assms attr in \<open>auto simp: strip_attr plain_record_def\<close>)
  have pay: "strip_ansi False (concat (map (\<lambda>line. TAB # dim (ch_colors h) colorGray line @ [LF]) (Split p LF)) @ [])
      = concat (map (\<lambda>line. TAB # dim False colorGray line @ [LF]) (Split p LF)) @ strip_ansi False []"
    if p: "record_payload r = Some p" for p
  proof (rule strip_concat)
    fix l t assume l: "l \<in> set (Split p LF)"
    obtain a where a: "a \<in> set (lr_Attrs r)" "p = sprint_value (la_Value a)" using record_payload_Some [OF p] by blast
    then have "plain ESC p" using assms by (auto simp: plain_record_def list_all_iff intro!: plain_sprint plain_la_Value)
    then have "plain ESC l" using set_Split [OF l] by (auto simp: plain_def)
    then show "strip_ansi False ((TAB # dim (ch_colors h) colorGray l @ [LF]) @ t) = (TAB # dim False colorGray l @ [LF]) @ strip_ansi False t"
      by (simp add: strip_dim) (simp add: dim_def)
  qed
  have same: "line_attrs (h\<lparr>ch_colors := False\<rparr>) r = line_attrs h r" by (simp add: line_attrs_def)
  have lv: "strip_ansi False (dim (ch_colors h) (levelColor (lr_Level r)) (levelString (lr_Level r)) @ t) = levelString (lr_Level r) @ strip_ansi False t" for t
    by (rule strip_dim) (auto simp: plain_levelString levelColor_def)
  show ?thesis
    using assms pay by (simp add: plain_record_def Compact_Handle_def lv strip_dim line [simplified] same dim_False split: option.split)
qed

section \<open>One line per record\<close>

lemma plain_formatCompactAttr:
  "plain_attr LF a \<Longrightarrow> list_all (plain LF) groups \<Longrightarrow> plain LF (formatCompactAttr groups colors a)"
proof (induction groups colors a rule: formatCompactAttr.induct)
  case (1 groups colors key members)
  then show ?case by (auto simp: plain_simps list_all_iff intro!: plain_Join)
next
  case (2 groups colors key s)
  then show ?case by (auto simp: plain_simps dim_def colorCyan_def colorReset_def)
qed

lemma plain_levelColor: "plain LF (levelColor l)" "plain LF colorReset" "plain LF colorGray" "plain LF colorBrightWhite"
  by (simp_all add: levelColor_def colorReset_def colorGray_def colorBrightWhite_def colorYellow_def colorRed_def colorDarkGreen_def colorBlue_def plain_simps)

lemma plain_count: "plain c s \<Longrightarrow> count_list s c = 0"
  by (simp add: plain_def count_list_0_iff)

lemma plain_dim: "plain LF s \<Longrightarrow> plain LF color \<Longrightarrow> plain LF (dim colors color s)"
  by (simp add: dim_def plain_simps plain_levelColor)

theorem lines_per_record:
  assumes "plain LF (lr_Time r)" and "plain LF (lr_Message r)" and "list_all (plain LF) (ch_groups h)"
    and "\<And>a. a \<in> set (line_attrs h r) \<Longrightarrow> plain_attr LF a"
  shows "count_list (Compact_Handle h r) LF = 1 + (case record_payload r of None \<Rightarrow> 0 | Some p \<Rightarrow> length (Split p LF))"
proof -
  have attrs: "plain LF (concat (map (\<lambda>a. '' '' @ formatCompactAttr (ch_groups h) (ch_colors h) a) as))"
    if "set as \<subseteq> set (line_attrs h r)" for as
    using that by (induction as) (auto simp: plain_simps plain_formatCompactAttr assms(3,4))
  have lines: "count_list (concat (map (\<lambda>line. TAB # dim (ch_colors h) colorGray line @ [LF]) ls)) LF = length ls"
    if "list_all (plain LF) ls" for ls
    using that by (induction ls) (auto simp: plain_count plain_dim plain_levelColor)
  have "list_all (plain LF) (Split p LF)" for p
    using set_Split [of _ p LF] by (auto simp: list_all_iff plain_def)
  note lines = lines [OF this]
  show ?thesis
    using assms(1,2) attrs [OF subset_refl]
    by (simp add: Compact_Handle_def plain_count plain_dim plain_levelColor plain_levelString lines split: option.split)
qed

section \<open>Contexts, groups\<close>

lemma context_values_logged:
  assumes "lc_logger ctx = Some logger"
  shows "Logger_Handle (FromContext d ctx) r = Logger_Handle logger (r\<lparr>lr_Attrs := lr_Attrs r @ extractCtxValues ctx\<rparr>)"
    and "extractCtxValues (WithValue key v ctx) = extractCtxValues ctx @ [LogAttr key v]"
    and "extractCtxValues (WithValues kvs ctx) = extractCtxValues ctx @ pair_attrs kvs"
  using assms by (simp_all add: FromContext_def extractCtxValues_def WithValue_def WithValues_def)

text \<open>A logger taken from a context and put back into it repeats the values of the context.\<close>

lemma stored_logger_repeats_values:
  "lc_logger ctx = Some logger \<Longrightarrow>
   Logger_Handle (FromContext d (NewContext (FromContext d ctx) ctx)) r
     = Logger_Handle logger (r\<lparr>lr_Attrs := lr_Attrs r @ extractCtxValues ctx @ extractCtxValues ctx\<rparr>)"
  by (simp add: FromContext_def NewContext_def extractCtxValues_def)

text \<open>
  \<^verbatim>\<open>slog\<close> asks that a group qualifies the attributes that are added after it.  The compact handler qualifies those from before, too,
  and the test handler forgets the groups around a group.
\<close>

lemma group_requalifies:
  "line_attrs (Compact_WithGroup g (Compact_WithAttrs as h)) r = line_attrs (Compact_WithAttrs as h) r"
  "formatCompactAttr (ch_groups (Compact_WithGroup ''g'' (Compact_WithAttrs as (NewCompactHandler t None)))) False (LogAttr ''k'' (ScalarValue ''v'')) = ''g.k=v''"
  "formatAttr ''g'' (LogAttr ''h'' (GroupValue [LogAttr ''k'' (ScalarValue ''v'')])) = ''h.k=v''"
  by (simp_all add: line_attrs_def Compact_WithGroup_def Compact_WithAttrs_def NewCompactHandler_def dim_def)

end
