(* ===== verification/Trecsd.thy ===== *)
theory Trecsd
  imports B2BUA_Calls Logging
begin

text \<open>
  The program: \<^verbatim>\<open>cmd/trecsd/main.go\<close>.  \<open>startup\<close> builds the components from the flags, \<open>serve\<close> is one round of the server's dispatch loop
  with the handlers as \<^verbatim>\<open>main\<close> registers them, and \<open>program_step\<close> adds what happens besides: timers, loops, connections that
  die.  The theorems of the call handler hold here without assumptions on where it starts.
\<close>

section \<open>Logging\<close>

text \<open>\<^verbatim>\<open>slog.Level.UnmarshalText\<close>: a name in any case, with a signed offset.\<close>

definition parse_level :: "unicode_tables \<Rightarrow> string \<Rightarrow> int option" where
  "parse_level uni s =
     (let name = takeWhile (\<lambda>c. c \<notin> {CHR ''+'', CHR ''-''}) s; offset = dropWhile (\<lambda>c. c \<notin> {CHR ''+'', CHR ''-''}) s;
          level = (\<lambda>base. if offset = [] then Some base else map_option (\<lambda>d. base + d) (Atoi offset));
          upper = ToUpper (uni_upper uni) name
      in if upper = ''DEBUG'' then level LevelDebug
         else if upper = ''INFO'' then level LevelInfo
         else if upper = ''WARN'' then level LevelWarn
         else if upper = ''ERROR'' then level LevelError
         else None)"

definition log_level :: "unicode_tables \<Rightarrow> string \<Rightarrow> int" where
  "log_level uni flag =
     (if flag = ''trace'' then LevelTrace else case parse_level uni flag of Some l \<Rightarrow> l | None \<Rightarrow> LevelInfo)"

datatype LogFormat = JSONFormat | CompactFormat CompactHandler | TextFormat

definition log_format :: "unicode_tables \<Rightarrow> bool \<Rightarrow> string \<Rightarrow> string \<Rightarrow> LogFormat" where
  "log_format uni is_terminal level fmt =
     (if fmt = ''json'' then JSONFormat
      else if fmt = ''compact'' then CompactFormat (NewCompactHandler is_terminal (Some (Some (log_level uni level))))
      else TextFormat)"

section \<open>Start-up\<close>

record flags =
  fl_Addr :: string
  fl_RTPMin :: int
  fl_RTPMax :: int
  fl_Dialplan :: string
  fl_AuthUsers :: string
  fl_AuthMaxFailed :: int
  fl_NoPRACK :: bool
  fl_Trunks :: string
  fl_ExternalIP :: string
  fl_NATAddress :: string

text \<open>What start-up finds outside: whether the address can be bound, the files as the JSON decoder reads them, the libraries.\<close>

record startup_env =
  su_listen :: "string \<Rightarrow> bool"
  su_dialplan :: "string \<Rightarrow> (string \<times> string \<times> string) list option"
  su_trunks :: "string \<Rightarrow> TrunkConfig option"
  su_users :: "string \<Rightarrow> string option"
  su_json :: "string \<Rightarrow> jsonPasswordConfig option"
  su_uni :: unicode_tables
  su_hashes :: hashes
  su_net :: net_library
  su_ParseIP :: "string \<Rightarrow> string option"
  su_IsLoopback :: "string \<Rightarrow> bool"

datatype startup_error =
    ListenFailed
  | DialplanFailed
  | TrunksFailed "trunk_error option"
  | AttemptsOutOfRange int
  | UsersFailed password_error

datatype program_handler =
    RegisterHandler | OptionsHandler | InviteHandler | ByeHandler | CancelHandler | PrackHandler | AckHandler | ResponseHandler

record program =
  pg_cfg :: handler_config
  pg_server :: "program_handler Server"
  pg_state :: handler_state

definition server_ip :: "flags \<Rightarrow> string" where
  "server_ip fl =
     (if fl_ExternalIP fl \<noteq> [] then fl_ExternalIP fl
      else case SplitHostPort (fl_Addr fl) of
        None \<Rightarrow> ''127.0.0.1''
      | Some (host, _) \<Rightarrow> if host \<in> {[], ''0.0.0.0'', ''::''} then ''127.0.0.1'' else host)"

definition load_dialplan :: "startup_env \<Rightarrow> string \<Rightarrow> (startup_error, Dialplan option) go" where
  "load_dialplan env path =
     (if path = [] then Ok None
      else case su_dialplan env path of None \<Rightarrow> Fail DialplanFailed | Some es \<Rightarrow> Ok (Some (load_entries es fmempty)))"

fun map_fail :: "('e \<Rightarrow> 'f) \<Rightarrow> ('e, 'a) go \<Rightarrow> ('f, 'a) go" where
  "map_fail f (Ok x) = Ok x"
| "map_fail f (Fail e) = Fail (f e)"
| "map_fail f Panic = Panic"

definition load_trunks :: "startup_env \<Rightarrow> flags \<Rightarrow> (startup_error, TrunkManager option) go" where
  "load_trunks env fl =
     (if fl_Trunks fl = [] then Ok None
      else case su_trunks env (fl_Trunks fl) of
        None \<Rightarrow> Fail (TrunksFailed None)
      | Some raw \<Rightarrow> map_fail (\<lambda>e. TrunksFailed (Some e))
          (and_then (TrunkConfig_validate (su_uni env) (su_net env) raw) (\<lambda>cfg.
           and_then (NewTrunkManager (su_net env) cfg (server_ip fl) (fl_Addr fl)) (\<lambda>m.
           Ok (Some (TrunkManager_Start m))))))"

definition load_users :: "startup_env \<Rightarrow> string \<Rightarrow> (startup_error, PasswordStore option) go" where
  "load_users env path =
     (if path = [] then Ok None
      else map_fail UsersFailed
        (and_then (NewJSONPasswordStore (su_json env) (su_users env path)) (\<lambda>cfg. Ok (Some (JSONPasswordStore cfg)))))"

definition register_handlers :: "flags \<Rightarrow> program_handler Server \<Rightarrow> program_handler Server" where
  "register_handlers fl srv =
     (let srv = Server_On ''REGISTER'' RegisterHandler srv;
          srv = Server_On ''OPTIONS'' OptionsHandler srv;
          srv = Server_On ''INVITE'' InviteHandler srv;
          srv = Server_On ''BYE'' ByeHandler srv;
          srv = Server_On ''CANCEL'' CancelHandler srv;
          srv = (if \<not> fl_NoPRACK fl then Server_On ''PRACK'' PrackHandler srv else srv)
      in OnResponse ResponseHandler (OnAck AckHandler srv))"

definition handler_options :: "startup_env \<Rightarrow> flags \<Rightarrow> Dialplan option \<Rightarrow> string \<Rightarrow> handler_config" where
  "handler_options env fl dp allow =
     \<lparr>hc_serverIP = server_ip fl, hc_serverPort = server_port (fl_Addr fl), hc_natAddress = fl_NATAddress fl,
      hc_rtpMin = fl_RTPMin fl, hc_rtpMax = fl_RTPMax fl, hc_dp = dp, hc_Allow = allow, hc_uni = su_uni env,
      hc_hashes = su_hashes env, hc_net = su_net env, hc_ParseIP = su_ParseIP env, hc_IsLoopback = su_IsLoopback env\<rparr>"

definition install_users :: "PasswordStore option \<Rightarrow> handler_state \<Rightarrow> handler_state" where
  "install_users users s = (case users of None \<Rightarrow> s
     | Some store \<Rightarrow> SetProxyPasswordStore store (s\<lparr>hs_reg := SetPasswordStore (hs_reg s) store\<rparr>))"

definition startup :: "startup_env \<Rightarrow> flags \<Rightarrow> (startup_error, program) go" where
  "startup env fl =
     (if \<not> su_listen env (fl_Addr fl) then Fail ListenFailed
      else
        and_then (load_dialplan env (fl_Dialplan fl)) (\<lambda>dp.
        and_then (load_trunks env fl) (\<lambda>trunks.
        if fl_AuthMaxFailed fl < 1 \<or> 10 < fl_AuthMaxFailed fl then Fail (AttemptsOutOfRange (fl_AuthMaxFailed fl))
        else
          let s = NewHandler NewRegistrar (\<not> fl_NoPRACK fl) trunks;
              s = s\<lparr>hs_reg := SetMaxFailedAuthAttempts (hs_reg s) (fl_AuthMaxFailed fl)\<rparr>;
              s = Handler_SetMaxFailedAuthAttempts (fl_AuthMaxFailed fl) s
          in and_then (load_users env (fl_AuthUsers fl)) (\<lambda>users.
             let srv = Server_Start (register_handlers fl NewServer)
             in Ok \<lparr>pg_cfg = handler_options env fl dp (AllowMethods srv), pg_server = srv, pg_state = install_users users s\<rparr>))))"

section \<open>One message\<close>

definition run_register :: "handler_config \<Rightarrow> handler_env \<Rightarrow> SIPMessage \<Rightarrow> nat \<Rightarrow> handler_state \<Rightarrow> ('e, handler_state) go" where
  "run_register cfg env req tx s =
     and_then (tx_info_of s tx) (\<lambda>info.
     and_then (HandleRegister (hc_uni cfg) (hc_hashes cfg) (he_auth env) (hs_reg s) req info) (\<lambda>(reg, out).
     Ok (fold (respond tx) out (s\<lparr>hs_reg := reg\<rparr>))))"

text \<open>The trunk manager's own \<^verbatim>\<open>HandleResponse\<close>, which \<^verbatim>\<open>main\<close> calls after the handler's, does nothing.\<close>

fun call_handler :: "handler_config \<Rightarrow> handler_env \<Rightarrow> program_handler server_call \<Rightarrow> handler_state \<Rightarrow> (unit, handler_state) go" where
  "call_handler cfg env NoCall s = Ok s"
| "call_handler cfg env (Callback h msg target) s =
     (case h of
        AckHandler \<Rightarrow> HandleAck cfg msg s
      | ResponseHandler \<Rightarrow> HandleResponse cfg msg s
      | _ \<Rightarrow> Ok s)"
| "call_handler cfg env (Handler h req tx) s =
     (case h of
        RegisterHandler \<Rightarrow> run_register cfg env req tx s
      | OptionsHandler \<Rightarrow> Ok (HandleOptions cfg req tx s)
      | InviteHandler \<Rightarrow> HandleInvite cfg env req tx s
      | ByeHandler \<Rightarrow> HandleBye cfg env req tx s
      | CancelHandler \<Rightarrow> HandleCancel env req tx s
      | PrackHandler \<Rightarrow> HandlePRACK req tx s
      | _ \<Rightarrow> Ok s)"

definition serve :: "handler_env \<Rightarrow> MessageEvent \<Rightarrow> transport_kind \<Rightarrow> program \<Rightarrow> (unit, program) go" where
  "serve env ev transport p =
     and_then (route (hc_uni (pg_cfg p)) ev transport ((pg_server p)\<lparr>sv_txMgr := hs_tm (pg_state p)\<rparr>)) (\<lambda>(srv, call).
     and_then (call_handler (pg_cfg p) env call ((pg_state p)\<lparr>hs_tm := sv_txMgr srv\<rparr>)) (\<lambda>s.
     Ok (p\<lparr>pg_server := srv, pg_state := s\<rparr>)))"

text \<open>Shutdown: the trunk registrations end, then the server closes.\<close>

definition shutdown :: "program \<Rightarrow> program" where
  "shutdown p =
     (let s = (pg_state p)\<lparr>hs_trunks := map_option TrunkManager_Stop (hs_trunks (pg_state p))\<rparr>;
          srv = Server_Close ((pg_server p)\<lparr>sv_txMgr := hs_tm s\<rparr>)
      in p\<lparr>pg_server := srv, pg_state := s\<lparr>hs_tm := sv_txMgr srv\<rparr>\<rparr>)"

text \<open>
  The goroutines beside the dispatch loop.  Besides whole handlers, any single step of a goroutine that ends a call can come in
  between (\<open>bg_ending\<close>, for every program counter), so that the runs include all interleavings of BYEs and session timers.
\<close>

definition sweep_proxy :: "int \<Rightarrow> handler_state \<Rightarrow> handler_state" where
  "sweep_proxy now s = s\<lparr>hs_proxy := map_option (\<lambda>(store, a). (store, a\<lparr>as_nonces := Nonce_Sweep (as_nonces a) now\<rparr>)) (hs_proxy s)\<rparr>"

inductive background :: "handler_config \<Rightarrow> handler_state \<Rightarrow> handler_state \<Rightarrow> bool" for cfg where
  bg_loop: "loop_step cfg env i ev s = (Ok s' :: (unit, _) go) \<Longrightarrow> background cfg s s'"
| bg_prack_timer: "prack_timer k s = (Ok s' :: (unit, _) go) \<Longrightarrow> background cfg s s'"
| bg_uac_timer: "uac_timer_fires env u k s = (Ok s' :: (unit, _) go) \<Longrightarrow> background cfg s s'"
| bg_tx_timer: "background cfg s (s\<lparr>hs_tm := fire_timer k (hs_tm s)\<rparr>)"
| bg_cleanup: "branch \<in> set (tm_cleanups (hs_tm s)) \<Longrightarrow> background cfg s (s\<lparr>hs_tm := run_cleanup branch (hs_tm s)\<rparr>)"
| bg_playback: "background cfg s (playback_done cfg env i s)"
| bg_session_timer: "background cfg s (session_timer cfg env callID trunkName s)"
| bg_ending: "ending_step cfg e s = (Ok (s', e') :: (unit, _) go) \<Longrightarrow> background cfg s s'"
| bg_reaper: "background cfg s (s\<lparr>hs_reg := Registrar_tick (hs_reg s) now\<rparr>)"
| bg_proxy_reaper: "background cfg s (sweep_proxy now s)"
| bg_flow: "background cfg s (flow_dies flowID s)"

inductive program_run :: "program \<Rightarrow> program \<Rightarrow> bool" for p0 where
  prun_start: "program_run p0 p0"
| prun_serve: "program_run p0 p \<Longrightarrow> serve env ev transport p = Ok p' \<Longrightarrow> program_run p0 p'"
| prun_background: "program_run p0 p \<Longrightarrow> background (pg_cfg p) (pg_state p) s' \<Longrightarrow> program_run p0 (p\<lparr>pg_state := s'\<rparr>)"

section \<open>Trunk limits\<close>

lemma run_register_acct: "ok_all (\<lambda>s'. acct s' = acct s) (run_register cfg env req tx s)"
  unfolding run_register_def by (auto intro!: ok_all_and_then simp: acct_simps split: prod.split)

lemma call_handler_accounted:
  assumes "accounted d s" and "call_handler cfg env call s = Ok s'"
  shows "accounted d s'"
proof (cases call)
  case NoCall
  then show ?thesis using assms by simp
next
  case (Callback h msg target)
  then show ?thesis using assms step_accounted [OF hs_ack, of cfg msg s s'] step_accounted [OF hs_response, of cfg msg s s']
    by (cases h) simp_all
next
  case (Handler h req tx)
  show ?thesis
  proof (cases h)
    case RegisterHandler
    then have "run_register cfg env req tx s = (Ok s' :: (unit, _) go)" using assms Handler by simp
    then have "acct s' = acct s" by (rule ok_allD [OF run_register_acct])
    then show ?thesis using assms by simp
  qed (use assms Handler step_accounted [OF hs_invite, of cfg env req tx s s'] ok_allD [OF HandleBye_accounted [OF assms(1)], of cfg env req tx s']
      step_accounted [OF hs_cancel, of env req tx s s'] step_accounted [OF hs_prack, of req tx s s']
      step_accounted [OF hs_options, of d s cfg req tx] in auto)
qed

lemma serve_accounted: "serve env ev transport p = Ok p' \<Longrightarrow> accounted d (pg_state p) \<Longrightarrow> accounted d (pg_state p')"
  by (auto simp: serve_def and_then_eq_Ok acct_simps dest!: call_handler_accounted [rotated])

text \<open>The background steps keep the account up to the balance, which is all that the counters of the manager need.\<close>

lemma session_timer_accounted:
  assumes "accounted d s"
  shows "\<exists>d'. accounted d' (session_timer cfg env callID trunkName s)"
proof -
  have stop: "\<exists>d'. accounted d' (release_channel trunkName (remove_call call (timer_teardown cfg env call s)))" if "accounted d s" for s call
    using release_accounted [OF remove_accounted, of d "timer_teardown cfg env call s"] that by (auto simp: acct_simps)
  have "\<exists>d'. accounted d' (trunkSessionTimer cfg env callID trunkName s)" if "accounted d s" for s
    using that stop [OF that] by (auto simp: trunkSessionTimer_def split: option.split)
  then show ?thesis using assms by (auto simp: session_timer_def acct_simps)
qed

lemma background_accounted:
  assumes "background cfg s s'" and "accounted d s"
  shows "\<exists>d'. accounted d' s'"
  using assms(1)
proof (cases rule: background.cases)
  case (bg_session_timer env callID trunkName)
  then show ?thesis using session_timer_accounted [OF assms(2)] by simp
next
  case (bg_ending e e')
  then show ?thesis using ending_step_accounted [OF _ assms(2)] by blast
qed (use assms(2) in \<open>auto intro!: exI [of _ d] intro: step_accounted [OF _ assms(2)] handler_step.intros simp: sweep_proxy_def acct_simps\<close>)

lemma program_accounted: "program_run p0 p \<Longrightarrow> accounted d (pg_state p0) \<Longrightarrow> \<exists>d'. accounted d' (pg_state p)"
proof (induction rule: program_run.induct)
  case (prun_background p s')
  then show ?case using background_accounted by fastforce
qed (auto intro: serve_accounted)

lemma load_trunks_idle: "load_trunks env fl = Ok (Some m) \<Longrightarrow> ActiveCalls m name = 0"
  by (auto simp: load_trunks_def NewTrunkManager_def TrunkManager_Start_def ActiveCalls_def and_then_eq_Ok
      elim!: map_fail.elims split: if_splits option.splits)

lemma startup_Ok:
  assumes "startup env fl = Ok p"
  obtains dp trunks users where "load_dialplan env (fl_Dialplan fl) = Ok dp" "load_trunks env fl = Ok trunks"
    "fl_AuthMaxFailed fl \<in> {1..10}" "load_users env (fl_AuthUsers fl) = Ok users"
    "pg_server p = Server_Start (register_handlers fl NewServer)" "pg_cfg p = handler_options env fl dp (AllowMethods (pg_server p))"
    "pg_state p = install_users users (Handler_SetMaxFailedAuthAttempts (fl_AuthMaxFailed fl)
       ((NewHandler NewRegistrar (\<not> fl_NoPRACK fl) trunks)\<lparr>hs_reg := SetMaxFailedAuthAttempts NewRegistrar (fl_AuthMaxFailed fl)\<rparr>))"
  using assms by (auto simp: startup_def Let_def and_then_eq_Ok NewHandler_def split: if_splits)

lemma install_users_acct [acct_simps]: "acct (install_users users s) = acct s"
  by (simp add: install_users_def SetProxyPasswordStore_def acct_simps split: option.split)

lemma startup_accounted:
  assumes "startup env fl = Ok p"
  shows "accounted (\<lambda>_. 0) (pg_state p)"
proof -
  obtain trunks users where t: "load_trunks env fl = Ok trunks" and s: "pg_state p = install_users users (Handler_SetMaxFailedAuthAttempts (fl_AuthMaxFailed fl)
       ((NewHandler NewRegistrar (\<not> fl_NoPRACK fl) trunks)\<lparr>hs_reg := SetMaxFailedAuthAttempts NewRegistrar (fl_AuthMaxFailed fl)\<rparr>))"
    using assms by (rule startup_Ok)
  have "accounted (\<lambda>_. 0) (NewHandler NewRegistrar (\<not> fl_NoPRACK fl) trunks)"
    using run_accounted [where cfg = undefined and T = trunks, OF run_new] t load_trunks_idle by (fastforce simp: balance_def [abs_def])
  then show ?thesis by (simp add: s acct_simps Handler_SetMaxFailedAuthAttempts_def)
qed

text \<open>
  The counters of the manager stay within the limits for the program as a whole: whatever messages arrive after start-up, and
  whenever timers fire, loops go on, calls end and connections die.
\<close>

theorem server_keeps_trunk_limits:
  assumes "startup env fl = Ok p0" and "program_run p0 p" and "hs_trunks (pg_state p) = Some m"
    and "fmlookup (tk_trunks m) name = Some t" and "0 < trk_MaxChannels t"
  shows "0 \<le> ActiveCalls m name \<and> ActiveCalls m name \<le> trk_MaxChannels t"
proof -
  obtain d where "accounted d (pg_state p)" using program_accounted [OF assms(2) startup_accounted [OF assms(1)]] by blast
  then have "trunk_inv d (hs_loops (pg_state p), st_calls (hs_store (pg_state p)), Some m)" by (simp add: acct_def assms(3))
  from trunk_invD(3) [OF this] assms(4,5) show ?thesis by (simp add: channels_ok_def)
qed

section \<open>Authentication\<close>

text \<open>What start-up fixes for good: the password stores, the limit on failures, and whether there are trunks.\<close>

definition auth_view :: "handler_state \<Rightarrow> PasswordStore option \<times> PasswordStore option \<times> int \<times> int \<times> bool" where
  "auth_view s = (map_option fst (hs_proxy s), reg_passwd (hs_reg s), hs_maxFailed s, reg_maxFailedAttempts (hs_reg s), hs_trunks s = None)"

abbreviation same_view :: "handler_state \<Rightarrow> handler_state \<Rightarrow> bool" where
  "same_view s s' \<equiv> auth_view s' = auth_view s"

named_theorems view_simps

lemma view_update [view_simps]:
  "auth_view (s\<lparr>hs_tm := a\<rparr>) = auth_view s" "auth_view (s\<lparr>hs_uac := b\<rparr>) = auth_view s" "auth_view (s\<lparr>hs_pool := d\<rparr>) = auth_view s"
  "auth_view (s\<lparr>hs_sm := e\<rparr>) = auth_view s" "auth_view (s\<lparr>hs_sessions := f\<rparr>) = auth_view s" "auth_view (s\<lparr>hs_prack := g\<rparr>) = auth_view s"
  "auth_view (s\<lparr>hs_ports := j\<rparr>) = auth_view s" "auth_view (s\<lparr>hs_rtp := k\<rparr>) = auth_view s" "auth_view (s\<lparr>hs_timers := l\<rparr>) = auth_view s"
  "auth_view (s\<lparr>hs_tasks := m\<rparr>) = auth_view s" "auth_view (s\<lparr>hs_next := n\<rparr>) = auth_view s" "auth_view (s\<lparr>hs_store := x\<rparr>) = auth_view s"
  "auth_view (s\<lparr>hs_loops := y\<rparr>) = auth_view s"
  by (simp_all add: auth_view_def)

lemma view_small [view_simps]:
  "auth_view (respond tx res s) = auth_view s" "auth_view (transport_send tr target msg s) = auth_view s" "auth_view (close_rtp i s) = auth_view s"
  "auth_view (close_both cc s) = auth_view s" "auth_view (cancelPRACK callID s) = auth_view s" "auth_view (add_session i se s) = auth_view s"
  "auth_view (end_session i s) = auth_view s" "auth_view (uac_commit u r s) = auth_view s" "auth_view (start_bridge c s) = auth_view s"
  "auth_view (stop_bridge c s) = auth_view s" "auth_view (release_channel n s) = auth_view s" "auth_view (start_loop cc lg inv' s) = auth_view s"
  "auth_view (cancel_loop i s) = auth_view s"
  by (auto simp: auth_view_def respond_def transport_send_def close_rtp_def close_both_def cancelPRACK_def add_session_def end_session_def
      uac_commit_def start_bridge_def stop_bridge_def release_channel_def start_loop_def Let_def cancel_loop_def split: option.splits)

lemma view_leg [view_simps]: "auth_view (drop_call cc lg s) = auth_view s" "auth_view (give_up_trunk n a b s) = auth_view s"
  "auth_view (end_loop i lp s) = auth_view s" "auth_view (cancel_if_bob lp s) = auth_view s"
  by (cases lg) (simp_all add: drop_call_def give_up_trunk_def end_loop_def cancel_if_bob_def Let_def view_simps)

lemma view_fold [view_simps]: "auth_view (fold (respond tx) out s) = auth_view s"
  "auth_view (fold (\<lambda>(tr, target, msg). transport_send tr target msg) sent s) = auth_view s"
  by (induction out arbitrary: s) (simp_all add: view_simps, induction sent arbitrary: s, auto simp: view_simps)

lemma view_pairs:
  "open_rtp cfg env k s = (r, s') \<Longrightarrow> auth_view s' = auth_view s"
  "HandleOutbound now conn s = (c, s') \<Longrightarrow> auth_view s' = auth_view s"
  "new_uac env k meth tr target s = (u, b, s') \<Longrightarrow> auth_view s' = auth_view s"
  by (auto simp: open_rtp_def HandleOutbound_def new_uac_def Let_def auth_view_def split: option.splits prod.splits)

lemma view_trunk_transport: "trunk_transport env trk t tr s = (k, t', s') \<Longrightarrow> auth_view s' = auth_view s"
  by (auto simp: trunk_transport_def Let_def split: if_splits option.splits prod.splits dest: view_pairs)

lemma view_requireProxyAuth: "ok_all (\<lambda>(b, s'). same_view s s') (requireProxyAuth cfg env req tx meth s)"
proof (cases "hs_proxy s")
  case (Some pa)
  have "auth_view (s'\<lparr>hs_proxy := Some (fst pa, a)\<rparr>) = auth_view s" if "auth_view s' = auth_view s" for s' a
    using that Some by (auto simp: auth_view_def)
  then show ?thesis unfolding requireProxyAuth_def Some
    by (cases pa) (auto intro!: ok_all_and_then simp: Let_def view_simps split: option.split)
qed (simp add: requireProxyAuth_def)

lemma view_answer_service: "ok_all (same_view s) (answer_service cfg env req tx off prep task s)"
  unfolding answer_service_def Let_def
  by (auto intro!: ok_all_and_then simp: view_simps split: option.split prod.split go.split dest!: view_pairs)

lemma view_services:
  "ok_all (same_view s) (handleEchoInvite cfg env req tx s)" "ok_all (same_view s) (handleFileInvite cfg env req tx path s)"
  unfolding handleEchoInvite_def handleFileInvite_def
  by (auto intro!: ok_all_and_then view_answer_service simp: view_simps split: option.split go.split)

lemma view_select_binding: "ok_all (\<lambda>(r, s'). same_view s s') (select_binding cfg env bs s)"
  by (induction bs arbitrary: s)
    (auto intro!: ok_all_and_then simp: Let_def split: option.split prod.split bool.split dest: view_pairs)

lemma view_setup_media: "ok_all (\<lambda>(r, s'). same_view s s') (setup_media cfg env req ip s)"
  unfolding setup_media_def
  by (auto intro!: ok_all_and_then simp: view_simps split: option.split prod.split dest!: view_pairs)

lemma setup_media_auth: "setup_media cfg env req ip s = Ok (r, s') \<Longrightarrow> auth_view s' = auth_view s"
  using ok_allD [OF view_setup_media] by fastforce

lemma view_trunk_call: "ok_all (same_view s) (trunk_call cfg env req tx trk dest to_addr ip a b off pt bb ab s)"
  unfolding trunk_call_def Let_def
  by (auto intro!: ok_all_and_then simp: view_simps split: go.split option.split prod.split dest!: view_trunk_transport view_pairs)

lemma ok_view: "auth_view s1 = auth_view s \<Longrightarrow> ok_all (same_view s1) r \<Longrightarrow> ok_all (same_view s) r"
  by simp

lemma view_handleTrunkInvite: "ok_all (same_view s) (handleTrunkInvite cfg env req tx trk dest to_addr s)"
proof (cases "hs_trunks s")
  case (Some m)
  have "auth_view (s\<lparr>hs_trunks := Some m'\<rparr>) = auth_view s" for m' using Some by (simp add: auth_view_def)
  then show ?thesis unfolding handleTrunkInvite_def Some Let_def option.case
    by (auto intro!: ok_all_and_then ok_view [OF _ view_trunk_call] simp: view_simps split: prod.split media_setup.split dest!: setup_media_auth)
qed (simp add: handleTrunkInvite_def)

lemma view_bob_call: "ok_all (same_view s) (bob_call cfg env req tx to_addr from_addr b t tr rel s)"
  unfolding bob_call_def Let_def
  by (auto intro!: ok_all_and_then simp: view_simps split: media_setup.split prod.split dest!: view_pairs setup_media_auth)

lemma view_call_user: "ok_all (same_view s) (call_user cfg env req tx to_addr s)"
  unfolding call_user_def Let_def selectBinding_def
  by (auto intro!: ok_all_bind [OF view_select_binding] ok_view [OF _ view_bob_call] simp: view_simps split: option.split go.split)

lemma view_handleB2BUAInvite: "ok_all (same_view s) (handleB2BUAInvite cfg env req tx s)"
  unfolding handleB2BUAInvite_def
  by (auto intro!: ok_all_and_then view_handleTrunkInvite view_call_user simp: view_simps split: option.split go.split)

lemma view_HandleInvite: "ok_all (same_view s) (HandleInvite cfg env req tx s)"
proof -
  let ?s = "respond tx (NewResponse req 100 ''Trying'') s"
  have auth: "ok_all (\<lambda>(b, s'). same_view s s') (if from_trusted_trunk cfg info ?s then Ok (True, ?s) else requireProxyAuth cfg env req tx ''INVITE'' ?s)" for info
    by (auto intro!: ok_all_mono [OF view_requireProxyAuth] simp: view_simps)
  show ?thesis
    unfolding HandleInvite_def Let_def
    by (auto intro!: ok_all_and_then ok_all_bind [OF auth] ok_view [OF _ view_services(1)] ok_view [OF _ view_services(2)]
        ok_view [OF _ view_handleB2BUAInvite] split: option.split Action.split prod.split)
qed

lemma view_send_prack: "ok_all (same_view s) (send_prack cfg env cc uri resp s)"
  unfolding send_prack_def Let_def
  by (auto intro!: ok_all_and_then simp: view_simps split: option.split prod.split dest!: view_pairs)

lemma view_ring_alice: "ok_all (same_view s) (ring_alice cc i rel prov s)"
  unfolding ring_alice_def by (auto intro!: ok_all_and_then simp: view_simps split: option.split bool.split)

lemma view_establish: "establish cfg env cc lg info tr c bobTo sdp s = (b, s') \<Longrightarrow> auth_view s' = auth_view s"
  unfolding establish_def Let_def by (auto simp: view_simps split: option.splits)

lemma view_handle200OK: "ok_all (\<lambda>(b, s'). same_view s s') (handle200OK cfg env cancelled cc lg resp s)"
  unfolding handle200OK_def Let_def
  by (auto intro!: ok_all_and_then simp: view_simps split: go.split dest!: view_establish)

lemma view_loop_response: "ok_all (\<lambda>(b, s'). same_view s s') (loop_response cfg env i lp resp s)"
  unfolding loop_response_def b2buaResponse_def trunkResponse_def handleBob200OK_def handleTrunk200OK_def Let_def and_then_assoc
  by (auto intro!: ok_all_bind [OF view_handle200OK] ok_all_bind [OF view_send_prack] ok_all_bind [OF view_ring_alice] simp: view_simps split: leg.split)

lemma view_loop_step: "ok_all (same_view s) (loop_step cfg env i ev s)"
  unfolding loop_step_def Let_def
  by (auto intro!: ok_all_and_then ok_all_bind [OF view_loop_response] simp: view_simps split: option.split loop_event.split list.split)

lemma view_prack_timer: "ok_all (same_view s) (prack_timer k s)"
  unfolding prack_timer_def prack_timeout_def Let_def by (auto simp: view_simps split: option.split prod.split)

lemma view_HandleAck: "ok_all (same_view s) (HandleAck cfg msg s)"
proof -
  have "ok_all (\<lambda>r. case r of None \<Rightarrow> True | Some s' \<Rightarrow> same_view s s') (checkB2BUAAck cfg msg s)"
    unfolding checkB2BUAAck_def Let_def by (auto intro!: ok_all_and_then simp: view_simps split: option.split go.split)
  then show ?thesis unfolding HandleAck_def Let_def
    by (rule ok_all_bind) (auto intro!: ok_all_and_then simp: view_simps split: option.split go.split)
qed

lemma view_ending [view_simps]:
  "auth_view (bye_teardown cfg env callID call s) = auth_view s" "auth_view (timer_teardown cfg env call s) = auth_view s"
  "auth_view (remove_call call s) = auth_view s" "auth_view (bye_release call s) = auth_view s" "auth_view (bye_finish cfg req tx s) = auth_view s"
  by (simp_all add: bye_teardown_def timer_teardown_def remove_call_def bye_release_def bye_finish_def Let_def view_simps)

lemma view_HandleBye: "ok_all (same_view s) (HandleBye cfg env req tx s)"
proof -
  let ?s = "respond tx (NewResponse req 100 ''Trying'') s"
  have auth: "ok_all (\<lambda>(b, s'). same_view s s') (requireProxyAuth cfg env req tx ''BYE'' ?s)"
    by (auto intro!: ok_all_mono [OF view_requireProxyAuth] simp: view_simps)
  have start: "ok_all (\<lambda>(callID, b, s'). same_view s s') (bye_begin cfg env req tx s)"
    unfolding bye_begin_def Let_def by (auto intro!: ok_all_and_then [of "SIPHeaders_GetFirst (msg_Headers req) ''Call-ID''"] ok_all_bind [OF auth])
  have bye: "ok_all (same_view s1) (case c of Some call \<Rightarrow> Ok (bye_call cfg env callID call s1) | None \<Rightarrow> bye_session req s1)" for c callID s1
    unfolding bye_call_def bye_session_def by (auto intro!: ok_all_and_then simp: view_simps split: option.split)
  show ?thesis unfolding HandleBye_def
    by (rule ok_all_bind [OF start]) (auto intro!: ok_all_bind [OF bye] simp: view_simps)
qed

lemma view_HandleCancel: "ok_all (same_view s) (HandleCancel env req tx s)"
  unfolding HandleCancel_def Let_def by (auto intro!: ok_all_and_then simp: view_simps split: option.split)

lemma update_bindings_settings:
  "update_bindings env r aor callID cseq d raw flowID = (r', b) \<Longrightarrow>
   reg_passwd r' = reg_passwd r \<and> reg_maxFailedAttempts r' = reg_maxFailedAttempts r"
  by (auto simp: update_bindings_def Let_def split: prod.splits if_splits)

lemma HandleRegister_settings:
  assumes "HandleRegister uni H env r req tx = (Ok (r', out) :: ('e, _) go)"
  shows "reg_passwd r' = reg_passwd r \<and> reg_maxFailedAttempts r' = reg_maxFailedAttempts r"
  using assms
proof (cases rule: HandleRegister_cases)
  case (answered to callID)
  then show ?thesis using authorize_register_frame [OF answered(3)] by simp
next
  case (rejected to callID r1 dflt)
  then show ?thesis using authorize_register_frame [OF rejected(3)] update_bindings_settings [OF rejected(4)] by simp
next
  case (registered to callID r1 dflt bs res)
  then show ?thesis using authorize_register_frame [OF registered(3)] update_bindings_settings [OF registered(4)] by simp
qed simp

lemma view_run_register: "ok_all (same_view s) (run_register cfg env req tx s)"
proof -
  have "auth_view (s\<lparr>hs_reg := r\<rparr>) = auth_view s"
    if "HandleRegister uni H e (hs_reg s) req info = (Ok (r, out) :: ('e, _) go)" for uni H e info r out
    using HandleRegister_settings [OF that] by (simp add: auth_view_def)
  then show ?thesis unfolding run_register_def by (auto intro!: ok_all_and_then simp: view_simps split: prod.split)
qed

lemma call_handler_view: "ok_all (same_view s) (call_handler cfg env call s)"
proof (cases call)
  case (Callback h msg target)
  then show ?thesis by (cases h) (auto simp: HandleResponse_def view_simps intro!: view_HandleAck ok_all_and_then)
next
  case (Handler h req tx)
  have "ok_all (same_view s) (HandlePRACK req tx s)"
    unfolding HandlePRACK_def by (auto intro!: ok_all_and_then simp: view_simps split: option.split)
  then show ?thesis using Handler
    by (cases h) (auto simp: HandleOptions_def Let_def view_simps intro!: view_run_register view_HandleInvite view_HandleBye view_HandleCancel)
qed simp

lemma serve_view: "serve env ev transport p = Ok p' \<Longrightarrow> auth_view (pg_state p') = auth_view (pg_state p) \<and> pg_cfg p' = pg_cfg p"
  by (auto simp: serve_def and_then_eq_Ok view_simps dest!: ok_allD [OF call_handler_view])

lemma background_view: "background cfg s s' \<Longrightarrow> auth_view s' = auth_view s"
proof (induction rule: background.induct)
  case (bg_uac_timer env u k s s')
  then show ?case by (auto simp: uac_timer_fires_def and_then_eq_Ok view_simps split: option.splits)
next
  case (bg_playback s env i)
  show ?case by (auto simp: playback_done_def sendByeToSession_def Let_def view_simps split: option.split)
next
  case (bg_session_timer s env callID trunkName)
  show ?case by (auto simp: session_timer_def trunkSessionTimer_def view_simps split: option.split)
next
  case (bg_ending e s s' e')
  have "ok_all (same_view s) (bye_session req s :: (unit, _) go)" for req
    unfolding bye_session_def by (auto intro!: ok_all_and_then simp: view_simps split: option.split)
  then show ?case using bg_ending
    by (cases e) (auto simp: and_then_eq_Ok view_simps split: option.splits dest!: ok_allD)
next
  case (bg_reaper s now)
  show ?case by (simp add: auth_view_def Registrar_tick_def Registrar_sweep_def filter_bindings_def)
next
  case (bg_proxy_reaper s now)
  show ?case by (cases "hs_proxy s") (auto simp: auth_view_def sweep_proxy_def)
next
  case (bg_flow s flowID)
  show ?case by (auto simp: auth_view_def flow_dies_def Let_def RemoveBindingsByFlowID_def filter_bindings_def split: prod.split)
qed (auto simp: view_simps dest!: ok_allD [OF view_loop_step] ok_allD [OF view_prack_timer])

lemma program_view: "program_run p0 p \<Longrightarrow> auth_view (pg_state p) = auth_view (pg_state p0) \<and> pg_cfg p = pg_cfg p0"
  by (induction rule: program_run.induct) (auto dest: serve_view background_view)

lemma load_users_Ok:
  "load_users env path = Ok users \<Longrightarrow> path \<noteq> [] \<Longrightarrow>
   \<exists>cfg. NewJSONPasswordStore (su_json env) (su_users env path) = Ok cfg \<and> users = Some (JSONPasswordStore cfg)"
  by (auto simp: load_users_def and_then_eq_Ok elim!: map_fail.elims)

lemma startup_view:
  assumes "startup env fl = Ok p" and "fl_AuthUsers fl \<noteq> []"
  shows "\<exists>cfg. NewJSONPasswordStore (su_json env) (su_users env (fl_AuthUsers fl)) = Ok cfg \<and>
    auth_view (pg_state p) = (Some (JSONPasswordStore cfg), Some (JSONPasswordStore cfg), fl_AuthMaxFailed fl, fl_AuthMaxFailed fl, fl_Trunks fl = [])"
proof -
  obtain trunks users where t: "load_trunks env fl = Ok trunks" and r: "fl_AuthMaxFailed fl \<in> {1..10}" and u: "load_users env (fl_AuthUsers fl) = Ok users"
    and s: "pg_state p = install_users users (Handler_SetMaxFailedAuthAttempts (fl_AuthMaxFailed fl)
       ((NewHandler NewRegistrar (\<not> fl_NoPRACK fl) trunks)\<lparr>hs_reg := SetMaxFailedAuthAttempts NewRegistrar (fl_AuthMaxFailed fl)\<rparr>))"
    using assms(1) by (rule startup_Ok)
  obtain cfg where cfg: "NewJSONPasswordStore (su_json env) (su_users env (fl_AuthUsers fl)) = Ok cfg" "users = Some (JSONPasswordStore cfg)"
    using load_users_Ok [OF u assms(2)] by blast
  have "trunks = None \<longleftrightarrow> fl_Trunks fl = []"
    using t by (auto simp: load_trunks_def and_then_eq_Ok elim!: map_fail.elims split: if_splits option.splits)
  then show ?thesis using r cfg
    by (auto simp: s auth_view_def install_users_def SetProxyPasswordStore_def Handler_SetMaxFailedAuthAttempts_def NewHandler_def
        SetPasswordStore_def SetMaxFailedAuthAttempts_def ClampMaxFailedAuthAttempts_def)
qed

text \<open>
  C5.  Authentication cannot be switched off at run time.  If the program starts with a users file, then in every state it reaches the
  registrar and the call handler check against the password store of that file, with the failure limit of the flag.
\<close>

theorem authentication_stays_on:
  assumes "startup env fl = Ok p0" and "fl_AuthUsers fl \<noteq> []" and "program_run p0 p"
  shows "\<exists>cfg auth. NewJSONPasswordStore (su_json env) (su_users env (fl_AuthUsers fl)) = Ok cfg
    \<and> reg_passwd (hs_reg (pg_state p)) = Some (JSONPasswordStore cfg) \<and> hs_proxy (pg_state p) = Some (JSONPasswordStore cfg, auth)
    \<and> hs_maxFailed (pg_state p) = fl_AuthMaxFailed fl \<and> reg_maxFailedAttempts (hs_reg (pg_state p)) = fl_AuthMaxFailed fl"
  using startup_view [OF assms(1,2)] program_view [OF assms(3)] by (auto simp: auth_view_def)

section \<open>No call without credentials\<close>

text \<open>The request carries the digest of a user of the store, for its own Request-URI and method.\<close>

definition proxy_authorized :: "handler_config \<Rightarrow> PasswordStore \<Rightarrow> SIPMethod \<Rightarrow> SIPMessage \<Rightarrow> bool" where
  "proxy_authorized cfg store meth req \<longleftrightarrow>
     (\<exists>authHeader creds ha1. SIPHeaders_GetFirst (msg_Headers req) ''Proxy-Authorization'' = (Ok authHeader :: (unit, string) go)
        \<and> ParseDigest (hc_uni cfg) authHeader = Ok creds \<and> dc_URI creds = SIPMessage_RequestURI req \<and> dc_Realm creds = ps_Realm store
        \<and> ps_HA1 store (dc_Username creds) = Some ha1 \<and> VerifyDigest (hc_hashes cfg) creds ha1 meth)"

definition call_resources ::
  "handler_state \<Rightarrow> (nat, response_loop) fmap \<times> (nat, Session) fmap \<times> nat fset \<times> Store \<times> TrunkManager option \<times> media_task list \<times> UACManager" where
  "call_resources s = (hs_loops s, hs_sessions s, hs_rtp s, hs_store s, hs_trunks s, hs_tasks s, hs_uac s)"

lemma resources_simps [simp]:
  "call_resources (respond tx res s) = call_resources s" "call_resources (s\<lparr>hs_tm := a\<rparr>) = call_resources s" "call_resources (s\<lparr>hs_proxy := b\<rparr>) = call_resources s"
  by (simp_all add: call_resources_def)

lemma resources_fold [simp]: "call_resources (fold (respond tx) out s) = call_resources s"
  by (induction out arbitrary: s) simp_all

lemma requireProxyAuth_refuses:
  assumes "requireProxyAuth cfg env req tx meth s = (Ok (b, s') :: (unit, _) go)" and "hs_proxy s = Some (store, a)"
  shows "if b then proxy_authorized cfg store meth req else call_resources s' = call_resources s"
proof -
  obtain info auth out creds where info: "tx_info_of s tx = (Ok info :: (unit, _) go)"
    and v: "VerifyDigestRequest (hc_uni cfg) (hc_hashes cfg) (he_auth env) store (proxy_params meth (hs_maxFailed s)) req info a = (Ok (auth, out, creds) :: (unit, _) go)"
    using assms by (auto simp: requireProxyAuth_def and_then_eq_Ok)
  show ?thesis
  proof (cases creds)
    case None
    then show ?thesis using assms info v by (auto simp: requireProxyAuth_def Let_def)
  next
    case (Some c)
    from v have "proxy_authorized cfg store meth req"
    proof (cases rule: VerifyDigestRequest_cases)
      case (verified authHeader callID creds')
      then show ?thesis unfolding proxy_authorized_def by (auto simp: verify_credentials_Inr proxy_params_def VerifyDigest_def Let_def)
    qed (use Some in simp_all)
    moreover have b using assms info v Some by (auto simp: requireProxyAuth_def Let_def and_then_eq_Ok)
    ultimately show ?thesis by simp
  qed
qed

lemma HandleInvite_refuses:
  assumes "HandleInvite cfg env req tx s = (Ok s' :: (unit, _) go)" and "hs_proxy s = Some (store, a)" and "hs_trunks s = None"
  shows "call_resources s' = call_resources s \<or> proxy_authorized cfg store ''INVITE'' req"
proof -
  let ?s = "respond tx (NewResponse req 100 ''Trying'') s"
  have untrusted: "\<not> from_trusted_trunk cfg info ?s" for info using assms(3) by (simp add: from_trusted_trunk_def)
  from assms(1) untrusted obtain b s1 where r: "requireProxyAuth cfg env req tx ''INVITE'' ?s = (Ok (b, s1) :: (unit, _) go)" and n: "\<not> b \<longrightarrow> s' = s1"
    by (auto simp: HandleInvite_def Let_def and_then_eq_Ok split: if_splits)
  have "hs_proxy ?s = Some (store, a)" using assms(2) by simp
  from requireProxyAuth_refuses [OF r this] n show ?thesis by (cases b) simp_all
qed

lemma route_keeps:
  "ok_all (\<lambda>(srv', call). sv_handlers srv' = sv_handlers srv \<and> sv_ackCallback srv' = sv_ackCallback srv \<and> sv_responseHandler srv' = sv_responseHandler srv)
     (route uni ev transport srv)"
  unfolding route_def Let_def
  by (auto intro!: ok_all_and_then split: option.split sum.split tx_outcome.split)

lemma other_header:
  "SIPHeaders_GetFirst (SIPHeaders_Set h ''Max-Forwards'' v) ''Proxy-Authorization'' = SIPHeaders_GetFirst h ''Proxy-Authorization''"
proof -
  have "canonicalHeaderKey ''Max-Forwards'' \<noteq> canonicalHeaderKey ''Proxy-Authorization''" by code_simp
  then show ?thesis by (simp add: SIPHeaders_GetFirst_def SIPHeaders_Set_def)
qed

lemma check_hops_keeps:
  assumes "check_hops msg = (Ok (Inr msg') :: (unit, _) go)"
  shows "proxy_authorized cfg store meth msg' = proxy_authorized cfg store meth msg"
proof -
  have "msg' = msg \<or> (\<exists>v. msg' = msg\<lparr>msg_Headers := SIPHeaders_Set (msg_Headers msg) ''Max-Forwards'' v\<rparr>)"
    using assms by (auto simp: check_hops_def and_then_eq_Ok split: if_splits option.splits)
  then show ?thesis by (auto simp: proxy_authorized_def SIPMessage_RequestURI_def other_header)
qed

lemma route_invite:
  assumes "SIPMessage_IsRequest (ev_Msg ev)" and "SIPMessage_Method (ev_Msg ev) = ''INVITE''" and "fmlookup (sv_handlers srv) ''INVITE'' = Some h"
  shows "ok_all (\<lambda>(srv', call). call = NoCall \<or> (\<exists>msg tx. call = Handler h msg tx \<and> check_hops (ev_Msg ev) = (Ok (Inr msg) :: (unit, _) go)))
    (route uni ev transport srv :: (unit, _) go)"
  using assms unfolding route_def Let_def
  by (auto intro!: ok_all_and_then split: sum.split tx_outcome.split)

lemma serve_handlers: "serve env ev transport p = Ok p' \<Longrightarrow> sv_handlers (pg_server p') = sv_handlers (pg_server p)"
  by (auto simp: serve_def and_then_eq_Ok dest!: ok_allD [OF route_keeps])

lemma program_handlers: "program_run p0 p \<Longrightarrow> sv_handlers (pg_server p) = sv_handlers (pg_server p0)"
  by (induction rule: program_run.induct) (auto dest: serve_handlers)

lemma startup_handlers:
  assumes "startup env fl = Ok p"
  shows "sv_handlers (pg_server p) = (if fl_NoPRACK fl then id else fmupd ''PRACK'' PrackHandler)
    (fmupd ''CANCEL'' CancelHandler (fmupd ''BYE'' ByeHandler (fmupd ''INVITE'' InviteHandler (fmupd ''OPTIONS'' OptionsHandler
      (fmupd ''REGISTER'' RegisterHandler fmempty)))))"
  using assms by (rule startup_Ok)
    (simp add: Server_Start_def register_handlers_def Let_def Server_On_def OnAck_def OnResponse_def NewServer_def)

text \<open>
  C4.  No call without credentials.  When the program runs with a users file and without trunks, an INVITE from the network changes
  calls, sessions, sockets, loops, media tasks or client transactions only if it carries the digest of a user of that file, for its
  own Request-URI and the method INVITE.
\<close>

theorem no_call_without_credentials:
  assumes "startup env fl = Ok p0" and "fl_AuthUsers fl \<noteq> []" and "fl_Trunks fl = []" and "program_run p0 p"
    and "serve henv ev transport p = Ok p'" and "SIPMessage_IsRequest (ev_Msg ev)" and "SIPMessage_Method (ev_Msg ev) = ''INVITE''"
  shows "call_resources (pg_state p') = call_resources (pg_state p) \<or>
    (\<exists>cfg. NewJSONPasswordStore (su_json env) (su_users env (fl_AuthUsers fl)) = Ok cfg \<and>
       proxy_authorized (pg_cfg p) (JSONPasswordStore cfg) ''INVITE'' (ev_Msg ev))"
proof -
  let ?srv = "(pg_server p)\<lparr>sv_txMgr := hs_tm (pg_state p)\<rparr>"
  obtain cfg a where cfg: "NewJSONPasswordStore (su_json env) (su_users env (fl_AuthUsers fl)) = Ok cfg"
    and proxy: "hs_proxy (pg_state p) = Some (JSONPasswordStore cfg, a)" and trunks: "hs_trunks (pg_state p) = None"
    using startup_view [OF assms(1,2)] program_view [OF assms(4)] assms(3) by (auto simp: auth_view_def)
  have h: "fmlookup (sv_handlers ?srv) ''INVITE'' = Some InviteHandler"
    using program_handlers [OF assms(4)] startup_handlers [OF assms(1)] by simp
  from assms(5) obtain srv call s' where r: "route (hc_uni (pg_cfg p)) ev transport ?srv = (Ok (srv, call) :: (unit, _) go)"
    and c: "call_handler (pg_cfg p) henv call ((pg_state p)\<lparr>hs_tm := sv_txMgr srv\<rparr>) = Ok s'" and p': "pg_state p' = s'"
    by (auto simp: serve_def and_then_eq_Ok)
  from ok_allD [OF route_invite [OF assms(6,7) h] r]
  consider "call = NoCall" | msg tx where "call = Handler InviteHandler msg tx" "check_hops (ev_Msg ev) = (Ok (Inr msg) :: (unit, _) go)" by auto
  then show ?thesis
  proof cases
    case 1
    then show ?thesis using c p' by auto
  next
    case (2 msg tx)
    then have "HandleInvite (pg_cfg p) henv msg tx ((pg_state p)\<lparr>hs_tm := sv_txMgr srv\<rparr>) = (Ok s' :: (unit, _) go)" using c by simp
    from HandleInvite_refuses [OF this, of "JSONPasswordStore cfg" a] proxy trunks
    show ?thesis using check_hops_keeps [OF 2(2)] cfg p' by auto
  qed
qed

section \<open>A program that starts\<close>

definition sample_users_file :: jsonPasswordConfig where
  "sample_users_file = \<lparr>jp_Realm = ''r'', jp_Algorithm = ''MD5'', jp_Users = fmupd ''u'' \<lparr>ju_HA1 = ''h'', ju_AORs = [''sip:u@d'']\<rparr> fmempty\<rparr>"

definition sample_su :: startup_env where
  "sample_su = \<lparr>su_listen = (\<lambda>_. True), su_dialplan = (\<lambda>_. None), su_trunks = (\<lambda>_. Some raw_config), su_users = (\<lambda>_. Some ''{}''),
     su_json = (\<lambda>_. Some sample_users_file), su_uni = no_unicode, su_hashes = hc_hashes sample_world, su_net = sample_net, su_ParseIP = Some,
     su_IsLoopback = (\<lambda>_. False)\<rparr>"

definition sample_flags :: "string \<Rightarrow> string \<Rightarrow> flags" where
  "sample_flags users trunks = \<lparr>fl_Addr = ''a'', fl_RTPMin = 0, fl_RTPMax = 0, fl_Dialplan = [], fl_AuthUsers = users, fl_AuthMaxFailed = 3,
     fl_NoPRACK = True, fl_Trunks = trunks, fl_ExternalIP = ''s'', fl_NATAddress = []\<rparr>"

definition sample_program :: "PasswordStore option \<Rightarrow> TrunkManager option \<Rightarrow> program" where
  "sample_program users trunks =
     (let srv = Server_Start (register_handlers (sample_flags [] []) NewServer)
      in \<lparr>pg_cfg = handler_options sample_su (sample_flags [] []) None (AllowMethods srv), pg_server = srv,
          pg_state = install_users users (Handler_SetMaxFailedAuthAttempts 3
            ((NewHandler NewRegistrar False trunks)\<lparr>hs_reg := SetMaxFailedAuthAttempts NewRegistrar 3\<rparr>))\<rparr>)"

lemma sample_users_load: "NewJSONPasswordStore (su_json sample_su) (su_users sample_su f) = Ok sample_users_file"
  by (simp add: NewJSONPasswordStore_def sample_su_def sample_users_file_def user_valid_def aor_valid_def HasPrefix_def Let_def fmpred_upd)

lemma sample_startup:
  "startup sample_su (sample_flags ''u'' []) = Ok (sample_program (Some (JSONPasswordStore sample_users_file)) None)"
  "startup sample_su (sample_flags [] ''t'') = Ok (sample_program None (Some (TrunkManager_Start sample_manager)))"
proof -
  have t: "load_trunks sample_su (sample_flags [] ''t'') = Ok (Some (TrunkManager_Start sample_manager))" "load_trunks sample_su (sample_flags ''u'' []) = Ok None"
    using sample_config_valid sample_manager_new by (simp_all add: load_trunks_def sample_flags_def sample_su_def server_ip_def no_unicode_def)
  have u: "load_users sample_su ''u'' = Ok (Some (JSONPasswordStore sample_users_file))" "load_users sample_su [] = Ok None"
    by (simp_all add: load_users_def sample_users_load)
  have d: "load_dialplan sample_su [] = Ok None" by (simp add: load_dialplan_def)
  have l: "su_listen sample_su a" for a by (simp add: sample_su_def)
  have f: "fl_Dialplan (sample_flags a b) = []" "fl_AuthUsers (sample_flags a b) = a" "fl_AuthMaxFailed (sample_flags a b) = 3" "fl_NoPRACK (sample_flags a b)"
    "fl_ExternalIP (sample_flags a b) = ''s''" "fl_Addr (sample_flags a b) = ''a''" "fl_NATAddress (sample_flags a b) = []"
    "fl_RTPMin (sample_flags a b) = 0" "fl_RTPMax (sample_flags a b) = 0" for a b
    by (simp_all add: sample_flags_def)
  have h: "register_handlers (sample_flags a b) srv = register_handlers (sample_flags [] []) srv"
    "handler_options sample_su (sample_flags a b) dp al = handler_options sample_su (sample_flags [] []) dp al" for a b srv dp al
    by (simp_all add: register_handlers_def handler_options_def server_ip_def f)
  have n: "hs_reg (NewHandler reg x y) = reg" for reg x y by (simp add: NewHandler_def)
  show "startup sample_su (sample_flags ''u'' []) = Ok (sample_program (Some (JSONPasswordStore sample_users_file)) None)"
    "startup sample_su (sample_flags [] ''t'') = Ok (sample_program None (Some (TrunkManager_Start sample_manager)))"
    by (simp_all add: startup_def sample_program_def t u d l Let_def f h [of "''u''" "[]"] h [of "[]" "''t''"] n)
qed

theorem server_keeps_trunk_limits_witness:
  "0 \<le> ActiveCalls (TrunkManager_Start sample_manager) ''p'' \<and> ActiveCalls (TrunkManager_Start sample_manager) ''p'' \<le> trk_MaxChannels sample_trunk"
proof -
  have m: "hs_trunks (pg_state (sample_program None (Some (TrunkManager_Start sample_manager)))) = Some (TrunkManager_Start sample_manager)"
    by (simp add: sample_program_def Let_def install_users_def Handler_SetMaxFailedAuthAttempts_def NewHandler_def)
  have "fmlookup (tk_trunks (TrunkManager_Start sample_manager)) ''p'' = Some sample_trunk" "0 < trk_MaxChannels sample_trunk"
    by (simp_all add: TrunkManager_Start_def sample_manager_def sample_trunk_def)
  with server_keeps_trunk_limits [OF sample_startup(2) prun_start m, of "''p''" sample_trunk] show ?thesis by simp
qed

theorem authentication_stays_on_witness:
  "\<exists>auth. hs_proxy (pg_state (sample_program (Some (JSONPasswordStore sample_users_file)) None)) = Some (JSONPasswordStore sample_users_file, auth)
     \<and> reg_maxFailedAttempts (hs_reg (pg_state (sample_program (Some (JSONPasswordStore sample_users_file)) None))) = 3"
  using authentication_stays_on [OF sample_startup(1) _ prun_start] by (auto simp: sample_flags_def sample_users_load)

lemma sample_request: "check_hops (ev_Msg (sample_req m)) = Ok (Inr (ev_Msg (sample_req m)))" "SIPMessage_IsRequest (ev_Msg (sample_req m))"
  "SIPHeaders_GetFirst (msg_Headers (ev_Msg (sample_req m))) k = Ok []"
  by (simp_all add: check_hops_def SIPHeaders_GetFirst_def sample_req_def NewRequest_def SIPMessage_IsRequest_def)

lemma sample_serve:
  "\<exists>p'. serve sample_he (sample_req ''INVITE'') UDPTransport (sample_program (Some (JSONPasswordStore sample_users_file)) None) = Ok p'"
proof -
  let ?p = "sample_program (Some (JSONPasswordStore sample_users_file)) None"
  have p: "hc_uni (pg_cfg ?p) = no_unicode" "hs_tm (pg_state ?p) = NewTransactionManager" "hs_trunks (pg_state ?p) = None" "hc_dp (pg_cfg ?p) = None"
    "fmlookup (sv_handlers (pg_server ?p)) ''INVITE'' = Some InviteHandler"
    using startup_handlers [OF sample_startup(1)]
    by (simp_all add: sample_program_def Let_def handler_options_def sample_su_def install_users_def SetProxyPasswordStore_def
        Handler_SetMaxFailedAuthAttempts_def NewHandler_def)
  obtain a where a: "hs_proxy (pg_state ?p) = Some (JSONPasswordStore sample_users_file, a)"
    by (auto simp: sample_program_def Let_def install_users_def SetProxyPasswordStore_def)
  define tm where "tm = (put_tx 0 (new_server_tx (sample_req ''INVITE'') UDPTransport sample_branch False) (NewTransactionManager\<lparr>tm_next := 1\<rparr>))
        \<lparr>tm_serverTxs := fmupd sample_branch 0 (tm_serverTxs NewTransactionManager)\<rparr>"
  have r: "route no_unicode (sample_req ''INVITE'') UDPTransport ((pg_server ?p)\<lparr>sv_txMgr := NewTransactionManager\<rparr>)
    = (Ok ((pg_server ?p)\<lparr>sv_txMgr := tm\<rparr>, Handler InviteHandler (ev_Msg (sample_req ''INVITE'')) 0) :: (unit, _) go)"
    by (simp add: route_def sample_request p Let_def tm_def HandleRequest_sample_new NewTransactionManager_def)
  let ?s = "(pg_state ?p)\<lparr>hs_tm := tm\<rparr>"
  have t: "fmlookup (tm_txs (hs_tm ?s)) 0 = Some (new_server_tx (sample_req ''INVITE'') UDPTransport sample_branch False)"
    by (simp add: tm_def put_tx_def)
  have "\<exists>s'. HandleInvite (pg_cfg ?p) sample_he (ev_Msg (sample_req ''INVITE'')) 0 ?s = (Ok s' :: (unit, _) go)"
    using a by (simp add: HandleInvite_def Let_def tx_info_after_trying [OF t] from_trusted_trunk_def p requireProxyAuth_def
        VerifyDigestRequest_def sample_request NewNonce_def)
  then show ?thesis by (auto simp: serve_def p r)
qed

theorem no_call_without_credentials_witness:
  "\<exists>p'. serve sample_he (sample_req ''INVITE'') UDPTransport (sample_program (Some (JSONPasswordStore sample_users_file)) None) = Ok p'
     \<and> call_resources (pg_state p') = call_resources (pg_state (sample_program (Some (JSONPasswordStore sample_users_file)) None))"
proof -
  let ?p = "sample_program (Some (JSONPasswordStore sample_users_file)) None"
  obtain p' where s: "serve sample_he (sample_req ''INVITE'') UDPTransport ?p = Ok p'" using sample_serve by blast
  have n: "\<not> proxy_authorized cfg store ''INVITE'' (ev_Msg (sample_req ''INVITE''))" for cfg store
    by (auto simp: proxy_authorized_def sample_request ParseDigest_def HasPrefix_def TrimSpace_id)
  show ?thesis
    using no_call_without_credentials [OF sample_startup(1) _ _ prun_start s sample_request(2)] s n by (auto simp: sample_flags_def)
qed

end
