(* ===== verification/Spec2Isabelle.thy ===== *)
theory Spec2Isabelle
  imports RTP RTCP SDP Streams Trecsd
begin

text \<open>
  \<^bold>\<open>A verification development for trecs\<close>, a SIP server with RTP media written in Go: registrar, back-to-back user agent with
  trunks to providers, echo and playback services.

  \<^bold>\<open>The program.\<close>  Bytes enter through the transports (\<^verbatim>\<open>internal/sip/transport.go\<close>, \<^verbatim>\<open>flow.go\<close>, \<^verbatim>\<open>keepalive.go\<close>), are parsed by \<^verbatim>\<open>proto\<close>
  (\<^verbatim>\<open>sip.go\<close>, \<^verbatim>\<open>sdp.go\<close>, \<^verbatim>\<open>rtp.go\<close>, \<^verbatim>\<open>rtcp.go\<close>) and dispatched by the server (\<^verbatim>\<open>server.go\<close>) to server transactions (\<^verbatim>\<open>transaction.go\<close>), which
  absorb retransmissions and call a handler once per request.  The handlers are the registrar (\<^verbatim>\<open>registrar.go\<close> with digest
  authentication in \<^verbatim>\<open>auth.go\<close>, \<^verbatim>\<open>nonce.go\<close>, \<^verbatim>\<open>password.go\<close>) and the call handler (\<^verbatim>\<open>internal/b2bua\<close>), which answers a call itself, or opens a
  second leg through a client transaction (\<^verbatim>\<open>uac.go\<close>) towards a registered contact or a trunk (\<^verbatim>\<open>internal/trunk\<close>), passes provisional
  responses on (reliably with \<^verbatim>\<open>reliable.go\<close>), and joins the two RTP streams with a bridge (\<^verbatim>\<open>internal/media\<close>).

  \<^bold>\<open>How code becomes definitions.\<close>  A Go function is a definition with the function's name; a struct is a record, an enumeration a
  datatype, a map an \<open>fmap\<close>.  A result is \<open>Ok\<close>, \<open>Fail\<close> with an error, or \<open>Panic\<close> (type \<open>go\<close> of \<^verbatim>\<open>Prelude\<close>): a nil
  pointer, an oversized allocation, a second \<^verbatim>\<open>close\<close>, and in the packet and session parsers, the serialisers, the WAV reader and the
  resampler every index, slice and field read out of range (\<open>index\<close>, \<open>slice\<close>, the write cursor) are \<open>Panic\<close>: there \<open>\<noteq> Panic\<close>
  depends on the code's length checks.  Elsewhere a list is read without \<open>Panic\<close> only where the condition around the read, or a
  constant table, settles its length: \<open>values[0]\<close> after the test for a value, the quotes of a display name, the brackets of a
  host, the mu-law tables, the samples below the sample count.  Packet fields
  are words of their width; Go's \<^verbatim>\<open>int\<close> is \<open>int\<close>, with the wrap-around written out where values can reach it (\<open>seconds\<close>, \<open>backoff\<close>).  A
  string is a list of bytes.  State is passed explicitly.  A goroutine or timer is an entry of the state, and each of its later
  steps a definition of its own; step relations let these happen in any order.  What is sent is a log in the state.

  \<^bold>\<open>The theories.\<close>
  \<^item> \<^verbatim>\<open>Prelude\<close>: the result type and its rules, the write cursor of the serialisers, bytes and words, tables with expiry, the rules
    \<open>ok_all\<close> for statements about every normal result.  \<^verbatim>\<open>Wire_Codec\<close>: the contract of a serialiser and its parser (locale
    \<open>wire_codec\<close>), interpreted by RTP, RTCP, SDP and SIP, the latter in long and compact form.  \<^verbatim>\<open>Expiring_Store\<close>: the contract of
    a table whose dead entries a sweeper removes, interpreted by nonces, failed attempts and bindings.  \<^verbatim>\<open>Go_Strings\<close>: what is used
    of \<^verbatim>\<open>strings\<close> and \<^verbatim>\<open>strconv\<close>.  \<^verbatim>\<open>Go_Float\<close>: \<^verbatim>\<open>float64\<close> as rationals rounded to 53 bits, ties to even, one rounding for each operation
    as on amd64; the exponents that occur are far from its range.
  \<^item> \<^verbatim>\<open>RTP\<close>, \<^verbatim>\<open>RTCP\<close>, \<^verbatim>\<open>SDP\<close>, \<^verbatim>\<open>SIP_Message\<close>: \<^verbatim>\<open>proto\<close>.  Round trips, totality of the parsers or the exact inputs that panic, the
    buffer-filling serialisers against the wire format they should write; headers as a multimap (locale \<open>header_multimap\<close>).
  \<^item> \<^verbatim>\<open>URI\<close>, \<^verbatim>\<open>Transport\<close>, \<^verbatim>\<open>Streams\<close>: \<^verbatim>\<open>uri.go\<close>, \<^verbatim>\<open>transport.go\<close>, \<^verbatim>\<open>flow.go\<close>: targets, flows, sending, keepalives, the readers.  A stream of
    messages and pings is delivered message by message.
  \<^item> \<^verbatim>\<open>Auth\<close>, \<^verbatim>\<open>Registrar\<close>: nothing is authenticated twice with one nonce count, what a verified request must satisfy and that a
    client with the secret is accepted; who may change which bindings, CSeq order, bindings as a map, one answer per request.
  \<^item> \<^verbatim>\<open>Transaction\<close>, \<^verbatim>\<open>UAC\<close>, \<^verbatim>\<open>Reliable\<close>, \<^verbatim>\<open>Server\<close>: the state machines.  States never go back, retransmissions are absorbed, every answered or
    sent transaction has a live timer that ends it, one ACK per refused INVITE, one 200 per PRACK, the schedule of a reliable
    response and its end.
  \<^item> \<^verbatim>\<open>Trunk\<close>: configuration, routes, channels (locale \<open>channel_pool\<close>), registration with a provider, and the dialplan.  \<^verbatim>\<open>Media\<close>: session
    descriptions, sockets, bridge and echo (locale \<open>rtp_relay\<close>), playback, mu-law.  \<^verbatim>\<open>Calls\<close>: dialogs and the call table (locale \<open>call_index\<close>).
  \<^item> \<^verbatim>\<open>B2BUA\<close>: every handler of \<^verbatim>\<open>internal/b2bua/handler.go\<close> on the joint state of all the above (record \<open>handler_state\<close>); the two
    response loops are \<open>loop_step\<close>, one event at a time, and what they share is defined once for both kinds of leg.
    Neither a BYE nor the session timer of a trunk call holds a lock from the lookup of the call to the release of its channel: both are cut into the steps of \<open>ending_step\<close>, and
    \<open>HandleBye\<close>, \<open>trunkSessionTimer\<close> are these run without interruption.  \<^verbatim>\<open>B2BUA_Accounts\<close>: \<open>handler_step\<close>, the other steps of the
    handler; \<open>conf_step\<close>, which interleaves them with the steps of any number of BYEs and session timers under way; and the
    balance of channels held, calls in progress, releases that are due and releases that no call owes.  \<^verbatim>\<open>B2BUA_Calls\<close>: capacity of
    trunks over \<open>conf_run\<close>, what an INVITE leaves behind (a refused one the flow it dialled, which nothing closes), the end of a
    call, two BYEs that release one channel twice, and two inputs for which the handler panics or leaks.
  \<^item> \<^verbatim>\<open>Logging\<close>: the log handlers of \<^verbatim>\<open>internal/logutil\<close>; colours only decorate, and a record is one line plus its payload.  \<^verbatim>\<open>Trecsd\<close>:
    \<^verbatim>\<open>cmd/trecsd/main.go\<close>.  \<open>startup\<close> composes the components, \<open>serve\<close> is one round of the dispatch loop, \<open>background\<close> what the other
    goroutines do, \<open>program_run\<close> any interleaving of both.  The channel counters stay within the limits of their trunks, authentication stays on,
    and no INVITE without credentials starts a call.

  \<^bold>\<open>Errors in the code\<close> are stated as theorems about it, with the input that shows them: RTP datagrams that panic the parser, numbers that
  overrun the SDP serialiser, a timer that removes a live transaction, a ringing call that times out, trunk registration that always
  fails at the challenge, padding that breaks the bridge, sample rates for which playback panics, a delayed offer that panics, an answered call that is
  leaked, two BYEs that release one channel twice.

  \<^bold>\<open>What is an argument.\<close>  Time, random bytes, the hash functions, the Unicode case tables beyond ASCII, the decoded JSON of the configuration
  files, regular expressions and IP address parsers, the resolver and dialer, free ports, file contents, and the outcome of a write where
  the code acts on it.  No theorem assumes more of them than its hypotheses say.
  Two addresses resolved from the same string in one step are taken to be equal.

  \<^bold>\<open>Loops and bounds.\<close>  All definitions terminate; the parsers and readers by the length of their input.  The only fuel is that of \<open>wait_out\<close> in
  \<^verbatim>\<open>Reliable\<close>, seven timer callbacks, after which the code has given up, and that of \<open>run_ending\<close> in \<^verbatim>\<open>B2BUA\<close>, which is the number of steps of a
  BYE or a session timer.

  \<^bold>\<open>Not modelled.\<close>  The parsing of flags, signals, and the sockets, listeners and tickers themselves are I/O.  What the handlers log is left
  out of their models.  Each critical section is one step.  Apart from the end of a call, the sections of one handler or timer callback are
  taken together as one step (an INVITE up to its response loop, \<^verbatim>\<open>Send\<close> of a client transaction); races inside these are findings,
  not theorems.  Of
  \<^verbatim>\<open>integrationtest\<close>, which drives the server from outside, only the digest client is modelled.  The log lines of the handlers
  read some headers a second time; these reads have no effect on parsed messages, whose headers are never empty.
\<close>

end
